(* ===== verification/Box_Prelude.thy ===== *)
theory Box_Prelude
  imports Complex_Main
begin

text \<open>
  Shared material of the development.

  \<^item> JavaScript numbers.  The source computes with IEEE doubles and guards them with
    \<^verbatim>\<open>Number.isFinite\<close>, \<^verbatim>\<open>Number.isSafeInteger\<close> and comparisons that are false on
    \<^verbatim>\<open>NaN\<close>.  The datatype \<open>jsnum\<close> keeps exactly that structure: a finite value (an exact
    rational; the rounding of doubles is not modelled), \<^verbatim>\<open>NaN\<close> and the two infinities.
    A missing numeric field (\<^verbatim>\<open>undefined\<close>) is coerced to \<^verbatim>\<open>NaN\<close> by every operation used
    here and is represented by it.
  \<^item> JavaScript strings: \<^verbatim>\<open>trim\<close>, \<^verbatim>\<open>toUpperCase\<close>, \<^verbatim>\<open>split(":")\<close> and the decimal
    rendering of a natural number, on ASCII strings.
  \<^item> The generic invariant argument for state machines, as a locale.
  \<^item> Order-preserving deduplication, which several source files write out as a loop over a
    \<^verbatim>\<open>Set\<close> and an output array.
\<close>

named_theorems js_simps \<open>evaluation of the JavaScript number operations on finite values\<close>

section \<open>JavaScript numbers\<close>

datatype jsnum = Fin rat | NaN | PosInf | NegInf

fun is_finite :: "jsnum \<Rightarrow> bool" where
  "is_finite (Fin _) = True"
| "is_finite _ = False"

text \<open>\<^verbatim>\<open>a < b\<close>: false as soon as one side is NaN.\<close>

fun js_lt :: "jsnum \<Rightarrow> jsnum \<Rightarrow> bool" where
  "js_lt (Fin a) (Fin b) = (a < b)"
| "js_lt NegInf (Fin _) = True"
| "js_lt NegInf PosInf = True"
| "js_lt (Fin _) PosInf = True"
| "js_lt _ _ = False"

text \<open>\<^verbatim>\<open>a === b\<close> on numbers: NaN is not equal to itself.\<close>

definition js_eq :: "jsnum \<Rightarrow> jsnum \<Rightarrow> bool" where
  "js_eq a b = (a = b \<and> a \<noteq> NaN)"

definition js_le :: "jsnum \<Rightarrow> jsnum \<Rightarrow> bool" where
  "js_le a b = (js_lt a b \<or> js_eq a b)"

fun js_floor :: "jsnum \<Rightarrow> jsnum" where
  "js_floor (Fin a) = Fin (of_int \<lfloor>a\<rfloor>)"
| "js_floor x = x"

text \<open>\<^verbatim>\<open>Math.max\<close> and \<^verbatim>\<open>Math.min\<close>: NaN is contagious.\<close>

definition js_max :: "jsnum \<Rightarrow> jsnum \<Rightarrow> jsnum" where
  "js_max a b = (if a = NaN \<or> b = NaN then NaN else if js_lt a b then b else a)"

definition js_min :: "jsnum \<Rightarrow> jsnum \<Rightarrow> jsnum" where
  "js_min a b = (if a = NaN \<or> b = NaN then NaN else if js_lt b a then b else a)"

fun js_neg :: "jsnum \<Rightarrow> jsnum" where
  "js_neg (Fin a) = Fin (- a)"
| "js_neg NaN = NaN"
| "js_neg PosInf = NegInf"
| "js_neg NegInf = PosInf"

fun js_add :: "jsnum \<Rightarrow> jsnum \<Rightarrow> jsnum" where
  "js_add (Fin a) (Fin b) = Fin (a + b)"
| "js_add NaN _ = NaN"
| "js_add _ NaN = NaN"
| "js_add PosInf NegInf = NaN"
| "js_add NegInf PosInf = NaN"
| "js_add PosInf _ = PosInf"
| "js_add _ PosInf = PosInf"
| "js_add NegInf _ = NegInf"
| "js_add _ NegInf = NegInf"

definition js_sub :: "jsnum \<Rightarrow> jsnum \<Rightarrow> jsnum" where
  "js_sub a b = js_add a (js_neg b)"

text \<open>\<^verbatim>\<open>Number.isSafeInteger\<close>: an integer of absolute value at most \<open>2 ^ 53 - 1\<close>.\<close>

fun is_safe_integer :: "jsnum \<Rightarrow> bool" where
  "is_safe_integer (Fin a) = (of_int \<lfloor>a\<rfloor> = a \<and> \<bar>a\<bar> \<le> 9007199254740991)"
| "is_safe_integer _ = False"

text \<open>The recurring normalisation
  \<^verbatim>\<open>Number.isFinite(x) ? Math.max(0, Math.floor(x)) : 0\<close>.\<close>

fun nonneg_floor :: "jsnum \<Rightarrow> int" where
  "nonneg_floor (Fin a) = max 0 \<lfloor>a\<rfloor>"
| "nonneg_floor _ = 0"

abbreviation js_int :: "int \<Rightarrow> jsnum" where
  "js_int i \<equiv> Fin (of_int i)"

lemma js_eq_Fin [simp, js_simps]: "js_eq (Fin a) (Fin b) = (a = b)"
  by (simp add: js_eq_def)

lemma js_eq_NaN [simp]: "\<not> js_eq NaN x" "\<not> js_eq x NaN"
  by (auto simp: js_eq_def)

lemma js_le_Fin [simp, js_simps]: "js_le (Fin a) (Fin b) = (a \<le> b)"
  by (auto simp: js_le_def js_eq_def)

lemma js_lt_NaN [simp]: "\<not> js_lt NaN x" "\<not> js_lt x NaN"
  by (cases x; simp)+

lemma js_le_NaN [simp]: "\<not> js_le NaN x" "\<not> js_le x NaN"
  by (auto simp: js_le_def)

lemma js_max_Fin [simp, js_simps]: "js_max (Fin a) (Fin b) = Fin (max a b)"
  by (auto simp: js_max_def)

lemma js_min_Fin [simp, js_simps]: "js_min (Fin a) (Fin b) = Fin (min a b)"
  by (auto simp: js_min_def)

lemma js_max_NaN [simp]: "js_max a NaN = NaN" "js_max NaN a = NaN"
  by (auto simp: js_max_def)

lemma js_max_PosInf [simp]: "js_max (Fin a) PosInf = PosInf" "js_max PosInf (Fin a) = PosInf"
  by (auto simp: js_max_def)

lemma js_sub_Fin [simp, js_simps]: "js_sub (Fin a) (Fin b) = Fin (a - b)"
  by (simp add: js_sub_def)

lemma is_finite_iff: "is_finite x = (\<exists>a. x = Fin a)"
  by (cases x) auto

lemma not_js_lt_Fin: "is_finite a \<Longrightarrow> is_finite b \<Longrightarrow> (\<not> js_lt a b) = js_le b a"
  by (auto simp: is_finite_iff)

lemma is_safe_integer_iff:
  "is_safe_integer x = (\<exists>i::int. x = js_int i \<and> \<bar>i\<bar> \<le> 9007199254740991)"
proof (cases x)
  case (Fin a)
  show ?thesis
  proof
    assume "is_safe_integer x"
    with Fin have a: "of_int \<lfloor>a\<rfloor> = a" "\<bar>a\<bar> \<le> 9007199254740991" by simp_all
    from a(2) have "\<bar>rat_of_int \<lfloor>a\<rfloor>\<bar> \<le> rat_of_int 9007199254740991"
      unfolding a(1) by simp
    then have "\<bar>\<lfloor>a\<rfloor>\<bar> \<le> 9007199254740991"
      unfolding of_int_abs [symmetric] of_int_le_iff .
    with Fin a(1) show "\<exists>i::int. x = js_int i \<and> \<bar>i\<bar> \<le> 9007199254740991" by metis
  next
    assume "\<exists>i::int. x = js_int i \<and> \<bar>i\<bar> \<le> 9007199254740991"
    then obtain i :: int where i: "x = js_int i" "\<bar>i\<bar> \<le> 9007199254740991" by blast
    from i(2) have "rat_of_int \<bar>i\<bar> \<le> rat_of_int 9007199254740991"
      unfolding of_int_le_iff .
    with i(1) show "is_safe_integer x" by simp
  qed
qed auto

lemma is_safe_integer_js_int [simp]: "is_safe_integer (js_int i) = (\<bar>i\<bar> \<le> 9007199254740991)"
  by (auto simp: is_safe_integer_iff)

lemma nonneg_floor_ge_0 [simp]: "0 \<le> nonneg_floor x"
  by (cases x) auto

lemma nonneg_floor_js_int [simp]: "nonneg_floor (js_int i) = max 0 i"
  by simp

lemma js_max0_floor_finite: "is_finite x \<Longrightarrow> js_max (Fin 0) (js_floor x) = js_int (nonneg_floor x)"
  by (auto simp: is_finite_iff max_def)

section \<open>JavaScript strings\<close>

text \<open>White space of \<^verbatim>\<open>String.prototype.trim\<close> within ASCII: tab, line feed, vertical tab,
  form feed, carriage return and space.\<close>

definition is_js_space :: "char \<Rightarrow> bool" where
  "is_js_space c = (of_char c \<in> {9, 10, 11, 12, 13, 32 :: nat})"

definition js_trim :: "string \<Rightarrow> string" where
  "js_trim s = rev (dropWhile is_js_space (rev (dropWhile is_js_space s)))"

text \<open>ASCII \<^verbatim>\<open>toUpperCase\<close>.\<close>

definition js_upper_char :: "char \<Rightarrow> char" where
  "js_upper_char c =
     (if 97 \<le> (of_char c :: nat) \<and> (of_char c :: nat) \<le> 122
      then char_of ((of_char c :: nat) - 32) else c)"

definition js_upper :: "string \<Rightarrow> string" where
  "js_upper s = map js_upper_char s"

text \<open>ASCII \<^verbatim>\<open>toLowerCase\<close>.\<close>

definition js_lower_char :: "char \<Rightarrow> char" where
  "js_lower_char c =
     (if 65 \<le> (of_char c :: nat) \<and> (of_char c :: nat) \<le> 90
      then char_of ((of_char c :: nat) + 32) else c)"

definition js_lower :: "string \<Rightarrow> string" where
  "js_lower s = map js_lower_char s"

text \<open>\<^verbatim>\<open>s.split(sep)\<close> for a one-character separator: never empty.\<close>

fun js_split :: "char \<Rightarrow> string \<Rightarrow> string list" where
  "js_split sep [] = [[]]"
| "js_split sep (c # cs) =
     (if c = sep then [] # js_split sep cs
      else (case js_split sep cs of [] \<Rightarrow> [[c]] | w # ws \<Rightarrow> (c # w) # ws))"

text \<open>\<^verbatim>\<open>String(n)\<close> for a non-negative integer.\<close>

fun js_string_of_nat :: "nat \<Rightarrow> string" where
  "js_string_of_nat n =
     (if n < 10 then [char_of (48 + n)]
      else js_string_of_nat (n div 10) @ [char_of (48 + n mod 10)])"

declare js_string_of_nat.simps [simp del]

lemma js_trim_Nil [simp]: "js_trim [] = []"
  by (simp add: js_trim_def)

lemma dropWhile_hd_not: "(xs = [] \<or> \<not> P (hd xs)) \<Longrightarrow> dropWhile P xs = xs"
  by (cases xs) auto

text \<open>What a string must look like for \<open>js_trim\<close> to leave it alone, and that trimming
  produces such strings.\<close>

definition trimmed :: "string \<Rightarrow> bool" where
  "trimmed s = (s = [] \<or> (\<not> is_js_space (hd s) \<and> \<not> is_js_space (last s)))"

lemma js_trim_id: "trimmed s \<Longrightarrow> js_trim s = s"
  by (cases "s = []") (auto simp: trimmed_def js_trim_def dropWhile_hd_not hd_rev)

lemma trimmed_js_trim: "trimmed (js_trim s)"
proof (cases "js_trim s = []")
  case True
  then show ?thesis by (simp add: trimmed_def)
next
  case False
  let ?d = "dropWhile is_js_space s"
  let ?e = "dropWhile is_js_space (rev ?d)"
  have e: "?e \<noteq> []" using False by (simp add: js_trim_def)
  have "?d \<noteq> []" using e by (metis dropWhile.simps(1) rev.simps(1))
  then have hd_d: "\<not> is_js_space (hd ?d)" by (rule hd_dropWhile)
  have last_t: "last (js_trim s) = hd ?e" using e by (simp add: js_trim_def last_rev)
  have "hd (js_trim s) = last ?e" using e by (simp add: js_trim_def hd_rev)
  also have "\<dots> = last (rev ?d)"
  proof -
    have "takeWhile is_js_space (rev ?d) @ ?e = rev ?d" by (rule takeWhile_dropWhile_id)
    then show ?thesis using e by (metis last_appendR)
  qed
  also have "\<dots> = hd ?d" using \<open>?d \<noteq> []\<close> by (simp add: last_rev)
  finally have "\<not> is_js_space (hd (js_trim s))" using hd_d by simp
  moreover have "\<not> is_js_space (last (js_trim s))" using last_t e by (simp add: hd_dropWhile)
  ultimately show ?thesis by (simp add: trimmed_def)
qed

lemma js_trim_idem [simp]: "js_trim (js_trim s) = js_trim s"
  by (rule js_trim_id [OF trimmed_js_trim])

lemma js_split_no_sep: "sep \<notin> set s \<Longrightarrow> js_split sep s = [s]"
  by (induction s) auto

lemma js_split_append_sep:
  "sep \<notin> set s \<Longrightarrow> js_split sep (s @ sep # t) = s # js_split sep t"
  by (induction s) auto

lemma js_split_not_Nil [simp]: "js_split sep s \<noteq> []"
  by (induction s) (auto split: list.splits)

lemma digit_inj: "a < 10 \<Longrightarrow> b < 10 \<Longrightarrow> (char_of (48 + a) :: char) = char_of (48 + b) \<Longrightarrow> a = (b::nat)"
proof -
  assume ab: "a < 10" "b < 10" and eq: "(char_of (48 + a) :: char) = char_of (48 + b)"
  from eq have "(of_char (char_of (48 + a) :: char) :: nat) = of_char (char_of (48 + b) :: char)"
    by simp
  with ab show "a = b" by (simp add: of_char_of)
qed

lemma js_string_of_nat_not_Nil [simp]: "js_string_of_nat n \<noteq> []"
  by (subst js_string_of_nat.simps) simp

lemma length_js_string_of_nat: "10 \<le> n \<Longrightarrow> 1 < length (js_string_of_nat n)"
  by (subst js_string_of_nat.simps) simp

lemma js_string_of_nat_inj: "js_string_of_nat m = js_string_of_nat n \<Longrightarrow> m = n"
proof (induction m arbitrary: n rule: less_induct)
  case (less m)
  have mn: "(m < 10) = (n < 10)"
    using less.prems length_js_string_of_nat [of m] length_js_string_of_nat [of n]
    by (metis One_nat_def js_string_of_nat.simps length_Cons less_irrefl linorder_not_less list.size(3))
  show ?case
  proof (cases "m < 10")
    case True
    with mn have "n < 10" by simp
    with True less.prems digit_inj show ?thesis
      by (metis js_string_of_nat.simps list.inject)
  next
    case False
    with mn have n: "\<not> n < 10" by simp
    from less.prems False n have
      d: "js_string_of_nat (m div 10) = js_string_of_nat (n div 10)"
      and r: "(char_of (48 + m mod 10) :: char) = char_of (48 + n mod 10)"
      by (simp_all add: js_string_of_nat.simps [of m] js_string_of_nat.simps [of n])
    have "m div 10 < m" using False by simp
    then have "m div 10 = n div 10" using less.IH d by blast
    moreover have "m mod 10 = n mod 10" by (rule digit_inj [OF _ _ r]) simp_all
    ultimately show ?thesis by (metis mult_div_mod_eq)
  qed
qed

section \<open>Order-preserving deduplication\<close>

fun dedupe_from :: "'a set \<Rightarrow> 'a list \<Rightarrow> 'a list" where
  "dedupe_from seen [] = []"
| "dedupe_from seen (k # ks) =
     (if k \<in> seen then dedupe_from seen ks else k # dedupe_from (insert k seen) ks)"

lemma set_dedupe_from: "set (dedupe_from seen ks) = set ks - seen"
  by (induction ks arbitrary: seen) auto

lemma distinct_dedupe_from: "distinct (dedupe_from seen ks)"
  by (induction ks arbitrary: seen) (auto simp: set_dedupe_from)

lemma dedupe_from_id: "distinct ks \<Longrightarrow> set ks \<inter> seen = {} \<Longrightarrow> dedupe_from seen ks = ks"
  by (induction ks arbitrary: seen) auto

section \<open>State machines\<close>

text \<open>The states reachable from an initial predicate under a step relation, and the invariant
  argument, once for every state machine of the development.\<close>

inductive reach :: "('s \<Rightarrow> bool) \<Rightarrow> ('s \<Rightarrow> 's \<Rightarrow> bool) \<Rightarrow> 's \<Rightarrow> bool"
  for init :: "'s \<Rightarrow> bool" and step :: "'s \<Rightarrow> 's \<Rightarrow> bool" where
  reach_init: "init s \<Longrightarrow> reach init step s"
| reach_step: "reach init step s \<Longrightarrow> step s t \<Longrightarrow> reach init step t"

locale invariant_machine =
  fixes init :: "'s \<Rightarrow> bool"
    and step :: "'s \<Rightarrow> 's \<Rightarrow> bool"
    and inv :: "'s \<Rightarrow> bool"
  assumes inv_init: "init s \<Longrightarrow> inv s"
    and inv_step: "inv s \<Longrightarrow> step s t \<Longrightarrow> inv t"
begin

lemma reach_inv: "reach init step s \<Longrightarrow> inv s"
  by (induction rule: reach.induct) (auto intro: inv_init inv_step)

lemma steps_inv: "step\<^sup>*\<^sup>* s t \<Longrightarrow> inv s \<Longrightarrow> inv t"
  by (induction rule: rtranclp_induct) (auto intro: inv_step)

end

text \<open>The same for deterministic machines: a fold of an operation over a list of events.\<close>

locale invariant_fold =
  fixes op :: "'e \<Rightarrow> 's \<Rightarrow> 's"
    and inv :: "'s \<Rightarrow> bool"
  assumes inv_op: "inv s \<Longrightarrow> inv (op e s)"
begin

lemma fold_inv: "inv s \<Longrightarrow> inv (fold op es s)"
  by (induction es arbitrary: s) (auto intro: inv_op)

end

text \<open>A quantity that no operation decreases does not decrease along a run.\<close>

locale monotone_fold =
  fixes op :: "'e \<Rightarrow> 's \<Rightarrow> 's"
    and measure_of :: "'s \<Rightarrow> 'm::preorder"
  assumes mono_op: "measure_of s \<le> measure_of (op e s)"
begin

lemma fold_mono: "measure_of s \<le> measure_of (fold op es s)"
proof (induction es arbitrary: s)
  case Nil
  show ?case by simp
next
  case (Cons e es)
  have "measure_of s \<le> measure_of (op e s)" by (rule mono_op)
  also have "\<dots> \<le> measure_of (fold op es (op e s))" by (rule Cons.IH)
  finally show ?case by simp
qed

lemma fold_prefix_mono:
  "measure_of (fold op (take i es) s) \<le> measure_of (fold op es s)"
proof -
  have "fold op es s = fold op (drop i es) (fold op (take i es) s)"
    by (metis append_take_drop_id comp_apply fold_append)
  then show ?thesis using fold_mono by metis
qed

end

end
