(* ===== verification/Box_Types.thy ===== *)
theory Box_Types
  imports Box_Prelude
begin

text \<open>
  The vocabulary of \<^verbatim>\<open>src/box/types.ts\<close> that the other components share: the four legs of a
  box, sides and directions, the durable order-intent states, the purposes of broker
  operations and the position states.  String constants of the source become constructors;
  where two unions share a string the constructors carry a prefix.
\<close>

datatype BoxDirection = LONG_BOX | SHORT_BOX

datatype BoxLegRole = k1_ce | k2_ce | k2_pe | k1_pe

datatype OrderSide = BUY | SELL

definition BOX_LEG_ROLES :: "BoxLegRole list" where
  "BOX_LEG_ROLES = [k1_ce, k2_ce, k2_pe, k1_pe]"

fun BOX_ENTRY_SIDES_BY_DIRECTION :: "BoxDirection \<Rightarrow> BoxLegRole \<Rightarrow> OrderSide" where
  "BOX_ENTRY_SIDES_BY_DIRECTION LONG_BOX k1_ce = BUY"
| "BOX_ENTRY_SIDES_BY_DIRECTION LONG_BOX k2_ce = SELL"
| "BOX_ENTRY_SIDES_BY_DIRECTION LONG_BOX k2_pe = BUY"
| "BOX_ENTRY_SIDES_BY_DIRECTION LONG_BOX k1_pe = SELL"
| "BOX_ENTRY_SIDES_BY_DIRECTION SHORT_BOX k1_ce = SELL"
| "BOX_ENTRY_SIDES_BY_DIRECTION SHORT_BOX k2_ce = BUY"
| "BOX_ENTRY_SIDES_BY_DIRECTION SHORT_BOX k2_pe = SELL"
| "BOX_ENTRY_SIDES_BY_DIRECTION SHORT_BOX k1_pe = BUY"

datatype BoxOrderIntentState =
    I_CREATED | I_SUBMITTING | I_ACKNOWLEDGED | I_OPEN | I_PARTIALLY_FILLED | I_COMPLETE
  | I_CANCEL_REQUESTED | I_CANCELLED | I_REJECTED | I_UNKNOWN | I_RECONCILIATION_REQUIRED

datatype BoxOrderPurpose = ENTRY | EXIT | EMERGENCY_RESIDUAL | PROTECTIVE_CANCEL

datatype BoxPositionState = P_BOX | P_PARTIALLY_EXITED | P_RECOVERY | P_FLAT

datatype ExecutionMode = paper_touch | paper_latency | paper_legging | live

text \<open>\<^verbatim>\<open>isBrokerOrderTerminal\<close> of \<^verbatim>\<open>brokerAdapter.ts\<close>; \<^verbatim>\<open>BrokerOrderState\<close> is the
  intent state.\<close>

definition isBrokerOrderTerminal :: "BoxOrderIntentState \<Rightarrow> bool" where
  "isBrokerOrderTerminal s = (s = I_COMPLETE \<or> s = I_CANCELLED \<or> s = I_REJECTED)"

text \<open>\<^verbatim>\<open>reverseSide\<close> of \<^verbatim>\<open>partialEntryRecovery.ts\<close>, the one place the entry/unwind inversion
  is expressed.\<close>

definition reverseSide :: "OrderSide \<Rightarrow> OrderSide" where
  "reverseSide s = (if s = BUY then SELL else BUY)"

section \<open>Enumerations\<close>

lemma BOX_LEG_ROLES_distinct [simp]: "distinct BOX_LEG_ROLES"
  by (simp add: BOX_LEG_ROLES_def)

lemma BOX_LEG_ROLES_UNIV [simp]: "set BOX_LEG_ROLES = UNIV"
proof -
  have "r \<in> set BOX_LEG_ROLES" for r by (cases r) (simp_all add: BOX_LEG_ROLES_def)
  then show ?thesis by blast
qed

lemma BOX_LEG_ROLES_length [simp]: "length BOX_LEG_ROLES = 4"
  by (simp add: BOX_LEG_ROLES_def)

lemma all_roles_iff: "(\<forall>r. P r) = (P k1_ce \<and> P k2_ce \<and> P k2_pe \<and> P k1_pe)"
  by (metis BoxLegRole.exhaust)

lemma not_BUY [simp]: "(s \<noteq> BUY) = (s = SELL)"
  by (cases s) auto

lemma not_SELL [simp]: "(s \<noteq> SELL) = (s = BUY)"
  by (cases s) auto

lemma reverseSide_involution [simp]: "reverseSide (reverseSide s) = s"
  by (cases s) (auto simp: reverseSide_def)

lemma reverseSide_neq [simp]: "reverseSide s \<noteq> s"
  by (cases s) (auto simp: reverseSide_def)

text \<open>A short box is the mirror image of a long box.\<close>

lemma short_box_mirrors_long:
  "BOX_ENTRY_SIDES_BY_DIRECTION SHORT_BOX r = reverseSide (BOX_ENTRY_SIDES_BY_DIRECTION LONG_BOX r)"
  by (cases r) (simp_all add: reverseSide_def)

end
