(* ===== verification/Scheduling.thy ===== *)
theory Scheduling
  imports Box_Types "HOL-Library.Product_Lexorder" "HOL-Library.Multiset"
begin

text \<open>
  Broker-operation scheduling: the pure policy of \<^verbatim>\<open>src/box/executionSchedulingPolicy.ts\<close> and
  the queue, pump and slot counters of \<^verbatim>\<open>src/box/orderManager.ts\<close> that apply it.

  The record \<open>sched\<close> holds the manager's queue and counters.  The field \<open>running\<close> is the list of
  executions whose promise has not settled, with the slot each was given: the closures that
  \<^verbatim>\<open>pump\<close> creates.  A run is a sequence of enqueues and completions in any order.
  \<^verbatim>\<open>queuedActionBlockReason\<close> reads the rest of the manager and enters as an argument that may
  depend on the scheduler state in any way.

  The lemmas show that the counters count the running executions, that concurrency stays within
  its bounds, that entries of two boxes never overlap, that a waiting higher-priority operation
  is never overtaken, and that the queue cannot stall while nothing is running.
\<close>

section \<open>Policy\<close>

fun BOX_ORDER_PRIORITY :: "BoxOrderPurpose \<Rightarrow> nat" where
  "BOX_ORDER_PRIORITY EMERGENCY_RESIDUAL = 0"
| "BOX_ORDER_PRIORITY PROTECTIVE_CANCEL = 1"
| "BOX_ORDER_PRIORITY EXIT = 2"
| "BOX_ORDER_PRIORITY ENTRY = 3"

definition CANCEL_PRIORITY :: nat where
  "CANCEL_PRIORITY = BOX_ORDER_PRIORITY PROTECTIVE_CANCEL"

definition priorityFor :: "BoxOrderPurpose \<Rightarrow> nat" where
  "priorityFor p = BOX_ORDER_PRIORITY p"

text \<open>\<^verbatim>\<open>a.priority - b.priority || a.sequence - b.sequence\<close>.\<close>

definition compareScheduling :: "nat \<times> nat \<Rightarrow> nat \<times> nat \<Rightarrow> int" where
  "compareScheduling a b =
     (let d = int (fst a) - int (fst b) in if d \<noteq> 0 then d else int (snd a) - int (snd b))"

text \<open>A cap: finite values are floored and raised to one, anything else is one.\<close>

fun at_least_one :: "jsnum \<Rightarrow> nat" where
  "at_least_one (Fin q) = nat (max 1 \<lfloor>q\<rfloor>)"
| "at_least_one _ = 1"

record ExecutionSchedulingPolicy =
  maxConcurrentOperations :: nat
  minBrokerIntervalMs :: int

definition createSchedulingPolicy :: "jsnum \<Rightarrow> jsnum \<Rightarrow> ExecutionSchedulingPolicy" where
  "createSchedulingPolicy cap interval =
     \<lparr>maxConcurrentOperations = at_least_one cap, minBrokerIntervalMs = nonneg_floor interval\<rparr>"

definition ENTRY_SUBMIT_CONCURRENCY_MIN :: nat where
  "ENTRY_SUBMIT_CONCURRENCY_MIN = 1"

definition ENTRY_SUBMIT_CONCURRENCY_MAX :: nat where
  "ENTRY_SUBMIT_CONCURRENCY_MAX = 4"

fun clampEntrySubmitConcurrency :: "jsnum \<Rightarrow> nat" where
  "clampEntrySubmitConcurrency (Fin q) =
     (let floored = \<lfloor>q\<rfloor> in
      if floored < int ENTRY_SUBMIT_CONCURRENCY_MIN then ENTRY_SUBMIT_CONCURRENCY_MIN
      else if floored > int ENTRY_SUBMIT_CONCURRENCY_MAX then ENTRY_SUBMIT_CONCURRENCY_MAX
      else nat floored)"
| "clampEntrySubmitConcurrency _ = ENTRY_SUBMIT_CONCURRENCY_MIN"

datatype BoxSchedulingSlot = base_slot | entry_burst

record BoxSchedulingOccupancy =
  occ_baseInFlight :: nat
  occ_burstInFlight :: nat
  occ_entryAttemptId :: "string option"
  occ_nonEntryInFlight :: nat

record BoxSchedulingRequest =
  req_purpose :: BoxOrderPurpose
  req_attemptId :: string

datatype BoxAdmissionRefusal =
    base_fully_occupied | other_pipeline_in_flight string | burst_adds_no_headroom
  | non_entry_in_flight | burst_fully_occupied

datatype BoxAdmissionVerdict = Admit BoxSchedulingSlot | Refuse BoxAdmissionRefusal

definition admitBoxOperation ::
    "BoxSchedulingRequest \<Rightarrow> BoxSchedulingOccupancy \<Rightarrow> jsnum \<Rightarrow> jsnum \<Rightarrow> BoxAdmissionVerdict" where
  "admitBoxOperation request occ baseConcurrency entrySubmitConcurrency =
     (let base = at_least_one baseConcurrency;
          burstWidth = clampEntrySubmitConcurrency entrySubmitConcurrency;
          total = occ_baseInFlight occ + occ_burstInFlight occ
      in if req_purpose request \<noteq> ENTRY then
           (if occ_baseInFlight occ < base then Admit base_slot else Refuse base_fully_occupied)
         else if occ_entryAttemptId occ \<noteq> None
                 \<and> occ_entryAttemptId occ \<noteq> Some (req_attemptId request)
           then Refuse (other_pipeline_in_flight (the (occ_entryAttemptId occ)))
         else if occ_baseInFlight occ < base then Admit base_slot
         else if burstWidth \<le> base then Refuse burst_adds_no_headroom
         else if 0 < occ_nonEntryInFlight occ then Refuse non_entry_in_flight
         else if burstWidth \<le> total then Refuse burst_fully_occupied
         else Admit entry_burst)"

section \<open>The queue and the slots of the order manager\<close>

datatype QueueAction =
    SubmitQueueAction (act_client: string) (submit_purpose: BoxOrderPurpose) (act_attempt: string)
      (act_sequence: nat)
  | CancelQueueAction (act_client: string) (act_attempt: string) (act_sequence: nat)

fun purposeOf :: "QueueAction \<Rightarrow> BoxOrderPurpose" where
  "purposeOf (SubmitQueueAction _ p _ _) = p"
| "purposeOf (CancelQueueAction _ _ _) = PROTECTIVE_CANCEL"

definition attemptOf :: "QueueAction \<Rightarrow> string" where
  "attemptOf a = act_attempt a"

definition queuePriority :: "QueueAction \<Rightarrow> nat" where
  "queuePriority a = BOX_ORDER_PRIORITY (purposeOf a)"

definition queue_key :: "QueueAction \<Rightarrow> nat \<times> nat" where
  "queue_key a = (queuePriority a, act_sequence a)"

record sched =
  queue :: "QueueAction list"
  sequence_no :: nat
  inFlight :: nat
  baseInFlight :: nat
  burstInFlight :: nat
  nonEntryInFlight :: nat
  entryAttemptInFlight :: "string option"
  entryInFlight :: nat
  peakEntryBurstWidth :: nat
  entryBurstGrants :: nat
  sched_disposed :: bool
  running :: "(QueueAction \<times> BoxSchedulingSlot) list"
  rejected :: "QueueAction list"

definition sched_init :: sched where
  "sched_init =
     \<lparr>queue = [], sequence_no = 0, inFlight = 0, baseInFlight = 0, burstInFlight = 0,
      nonEntryInFlight = 0, entryAttemptInFlight = None, entryInFlight = 0,
      peakEntryBurstWidth = 0, entryBurstGrants = 0, sched_disposed = False, running = [],
      rejected = []\<rparr>"

definition sortQueue :: "sched \<Rightarrow> sched" where
  "sortQueue s = s\<lparr>queue := sort_key queue_key (queue s)\<rparr>"

definition occupancy :: "sched \<Rightarrow> BoxSchedulingOccupancy" where
  "occupancy s =
     \<lparr>occ_baseInFlight = baseInFlight s, occ_burstInFlight = burstInFlight s,
      occ_entryAttemptId = entryAttemptInFlight s, occ_nonEntryInFlight = nonEntryInFlight s\<rparr>"

definition occupySlot :: "QueueAction \<Rightarrow> BoxSchedulingSlot \<Rightarrow> sched \<Rightarrow> sched" where
  "occupySlot a slot s =
     (let s1 = s\<lparr>inFlight := inFlight s + 1\<rparr>;
          s2 = (if slot = base_slot then s1\<lparr>baseInFlight := baseInFlight s1 + 1\<rparr>
                else s1\<lparr>burstInFlight := burstInFlight s1 + 1,
                        entryBurstGrants := entryBurstGrants s1 + 1\<rparr>)
      in if purposeOf a = ENTRY then
           s2\<lparr>entryInFlight := entryInFlight s2 + 1, entryAttemptInFlight := Some (attemptOf a),
              peakEntryBurstWidth := max (peakEntryBurstWidth s2) (entryInFlight s2 + 1)\<rparr>
         else s2\<lparr>nonEntryInFlight := nonEntryInFlight s2 + 1\<rparr>)"

text \<open>Subtraction on \<^typ>\<open>nat\<close> is the source's \<^verbatim>\<open>Math.max(0, x - 1)\<close>.\<close>

definition releaseSlot :: "QueueAction \<Rightarrow> BoxSchedulingSlot \<Rightarrow> sched \<Rightarrow> sched" where
  "releaseSlot a slot s =
     (let s1 = s\<lparr>inFlight := inFlight s - 1\<rparr>;
          s2 = (if slot = base_slot then s1\<lparr>baseInFlight := baseInFlight s1 - 1\<rparr>
                else s1\<lparr>burstInFlight := burstInFlight s1 - 1\<rparr>)
      in if purposeOf a = ENTRY then
           s2\<lparr>entryInFlight := entryInFlight s2 - 1,
              entryAttemptInFlight :=
                (if entryInFlight s2 - 1 = 0 then None else entryAttemptInFlight s2)\<rparr>
         else s2\<lparr>nonEntryInFlight := nonEntryInFlight s2 - 1\<rparr>)"

text \<open>The verdict on the action at the head of the queue.\<close>

definition head_verdict :: "jsnum \<Rightarrow> jsnum \<Rightarrow> sched \<Rightarrow> QueueAction \<Rightarrow> BoxAdmissionVerdict" where
  "head_verdict cap width s a =
     admitBoxOperation \<lparr>req_purpose = purposeOf a, req_attemptId = attemptOf a\<rparr> (occupancy s) cap
       (js_int (int (clampEntrySubmitConcurrency width)))"

text \<open>\<^verbatim>\<open>pump\<close>: admit from the head until the head is refused.  \<open>blocked\<close> stands for
  \<^verbatim>\<open>queuedActionBlockReason\<close>.\<close>

function pump :: "(sched \<Rightarrow> QueueAction \<Rightarrow> bool) \<Rightarrow> jsnum \<Rightarrow> jsnum \<Rightarrow> sched \<Rightarrow> sched" where
  "pump blocked cap width s =
     (if sched_disposed s then s
      else case queue s of
        [] \<Rightarrow> s
      | a # rest \<Rightarrow>
          (case head_verdict cap width s a of
             Refuse _ \<Rightarrow> s
           | Admit slot \<Rightarrow>
               let s1 = s\<lparr>queue := rest\<rparr> in
               if blocked s1 a then pump blocked cap width (s1\<lparr>rejected := a # rejected s1\<rparr>)
               else pump blocked cap width
                      ((occupySlot a slot s1)\<lparr>running := (a, slot) # running s1\<rparr>)))"
  by pat_completeness auto

lemma occupySlot_queue [simp]: "queue (occupySlot a slot s) = queue s"
  by (simp add: occupySlot_def Let_def)

termination pump
  by (relation "measure (\<lambda>(_, _, _, s). length (queue s))") auto

declare pump.simps [simp del]

text \<open>\<^verbatim>\<open>submit\<close> and \<^verbatim>\<open>enqueueCancel\<close> push, sort and pump; the \<^verbatim>\<open>finally\<close> of an execution gives
  its slot back and pumps; \<^verbatim>\<open>dispose\<close> rejects what is queued.\<close>

definition enqueue_submit ::
    "(sched \<Rightarrow> QueueAction \<Rightarrow> bool) \<Rightarrow> jsnum \<Rightarrow> jsnum \<Rightarrow> string \<Rightarrow> BoxOrderPurpose \<Rightarrow> string \<Rightarrow> sched \<Rightarrow> sched" where
  "enqueue_submit blocked cap width cid p att s =
     pump blocked cap width
       (sortQueue (s\<lparr>queue := queue s @ [SubmitQueueAction cid p att (sequence_no s)],
                     sequence_no := sequence_no s + 1\<rparr>))"

definition enqueueCancel ::
    "(sched \<Rightarrow> QueueAction \<Rightarrow> bool) \<Rightarrow> jsnum \<Rightarrow> jsnum \<Rightarrow> string \<Rightarrow> string \<Rightarrow> sched \<Rightarrow> sched" where
  "enqueueCancel blocked cap width cid att s =
     pump blocked cap width
       (sortQueue (s\<lparr>queue := queue s @ [CancelQueueAction cid att (sequence_no s)],
                     sequence_no := sequence_no s + 1\<rparr>))"

definition finish ::
    "(sched \<Rightarrow> QueueAction \<Rightarrow> bool) \<Rightarrow> jsnum \<Rightarrow> jsnum \<Rightarrow> QueueAction \<times> BoxSchedulingSlot \<Rightarrow> sched \<Rightarrow> sched" where
  "finish blocked cap width e s =
     pump blocked cap width
       ((releaseSlot (fst e) (snd e) s)\<lparr>running := remove1 e (running s)\<rparr>)"

definition dispose :: "sched \<Rightarrow> sched" where
  "dispose s = s\<lparr>sched_disposed := True, rejected := rev (queue s) @ rejected s, queue := []\<rparr>"

section \<open>The scheduler as a state machine\<close>

inductive sched_step :: "jsnum \<Rightarrow> jsnum \<Rightarrow> sched \<Rightarrow> sched \<Rightarrow> bool" for cap width where
  step_submit: "sched_step cap width s (enqueue_submit blocked cap width cid p att s)"
| step_cancel: "sched_step cap width s (enqueueCancel blocked cap width cid att s)"
| step_finish: "e \<in> set (running s) \<Longrightarrow> sched_step cap width s (finish blocked cap width e s)"
| step_dispose: "sched_step cap width s (dispose s)"

inductive_cases sched_stepE: "sched_step cap width s t"

abbreviation entries :: "sched \<Rightarrow> (QueueAction \<times> BoxSchedulingSlot) list" where
  "entries s \<equiv> filter (\<lambda>e. purposeOf (fst e) = ENTRY) (running s)"

definition counters_ok :: "sched \<Rightarrow> bool" where
  "counters_ok s =
     (inFlight s = length (running s)
      \<and> baseInFlight s = length (filter (\<lambda>e. snd e = base_slot) (running s))
      \<and> burstInFlight s = length (filter (\<lambda>e. snd e = entry_burst) (running s))
      \<and> entryInFlight s = length (entries s)
      \<and> nonEntryInFlight s = length (filter (\<lambda>e. purposeOf (fst e) \<noteq> ENTRY) (running s)))"

definition one_pipeline :: "sched \<Rightarrow> bool" where
  "one_pipeline s =
     ((entryAttemptInFlight s = None) = (entries s = [])
      \<and> (\<forall>e \<in> set (entries s). entryAttemptInFlight s = Some (attemptOf (fst e))))"

definition bounds_ok :: "jsnum \<Rightarrow> jsnum \<Rightarrow> sched \<Rightarrow> bool" where
  "bounds_ok cap width s =
     (baseInFlight s \<le> at_least_one cap
      \<and> burstInFlight s \<le> clampEntrySubmitConcurrency width - at_least_one cap
      \<and> (\<forall>e \<in> set (running s). snd e = entry_burst \<longrightarrow> purposeOf (fst e) = ENTRY))"

definition queue_ok :: "sched \<Rightarrow> bool" where
  "queue_ok s = sorted (map queue_key (queue s))"

definition quiescent :: "jsnum \<Rightarrow> jsnum \<Rightarrow> sched \<Rightarrow> bool" where
  "quiescent cap width s =
     (sched_disposed s \<or> (case queue s of [] \<Rightarrow> True
        | a # _ \<Rightarrow> (case head_verdict cap width s a of Refuse _ \<Rightarrow> True | Admit _ \<Rightarrow> False)))"

definition slots_ok :: "jsnum \<Rightarrow> jsnum \<Rightarrow> sched \<Rightarrow> bool" where
  "slots_ok cap width s = (counters_ok s \<and> one_pipeline s \<and> bounds_ok cap width s)"

definition sched_inv :: "jsnum \<Rightarrow> jsnum \<Rightarrow> sched \<Rightarrow> bool" where
  "sched_inv cap width s = (slots_ok cap width s \<and> queue_ok s \<and> quiescent cap width s)"

section \<open>Facts about the policy\<close>

lemma at_least_one_pos [simp]: "0 < at_least_one cap"
  by (cases cap) auto

lemma clamp_int:
  "(if i < int 1 then 1 else if i > int 4 then 4 else nat i) = nat (max 1 (min 4 i))"
  by auto

lemma clamp_Fin: "clampEntrySubmitConcurrency (Fin q) = nat (max 1 (min 4 \<lfloor>q\<rfloor>))"
  unfolding clampEntrySubmitConcurrency.simps Let_def ENTRY_SUBMIT_CONCURRENCY_MIN_def
    ENTRY_SUBMIT_CONCURRENCY_MAX_def by (rule clamp_int)

declare clampEntrySubmitConcurrency.simps [simp del]

lemma clamp_bounds:
  "1 \<le> clampEntrySubmitConcurrency w" "clampEntrySubmitConcurrency w \<le> 4"
proof -
  have "1 \<le> nat (max 1 (min 4 i)) \<and> nat (max 1 (min 4 i)) \<le> 4" for i :: int by linarith
  then show "1 \<le> clampEntrySubmitConcurrency w" "clampEntrySubmitConcurrency w \<le> 4"
    by (cases w; simp only: clamp_Fin; simp add: clampEntrySubmitConcurrency.simps
        ENTRY_SUBMIT_CONCURRENCY_MIN_def)+
qed

lemma clamp_idem [simp]:
  "clampEntrySubmitConcurrency (Fin (of_nat (clampEntrySubmitConcurrency w))) = clampEntrySubmitConcurrency w"
  using clamp_bounds [of w] unfolding clamp_Fin floor_of_nat by linarith

lemma head_verdict_base:
  "head_verdict cap width s a = Admit base_slot \<Longrightarrow>
     baseInFlight s < at_least_one cap
     \<and> (purposeOf a = ENTRY \<longrightarrow> entryAttemptInFlight s \<in> {None, Some (attemptOf a)})"
  by (auto simp: head_verdict_def admitBoxOperation_def Let_def occupancy_def split: if_splits)

lemma head_verdict_burst:
  "head_verdict cap width s a = Admit entry_burst \<Longrightarrow>
     purposeOf a = ENTRY \<and> at_least_one cap \<le> baseInFlight s \<and> nonEntryInFlight s = 0
     \<and> baseInFlight s + burstInFlight s < clampEntrySubmitConcurrency width
     \<and> entryAttemptInFlight s \<in> {None, Some (attemptOf a)}"
  by (auto simp: head_verdict_def admitBoxOperation_def Let_def occupancy_def split: if_splits)

lemma head_verdict_frame [simp]:
  "head_verdict cap width (s\<lparr>queue := q\<rparr>) = head_verdict cap width s"
  "head_verdict cap width (s\<lparr>rejected := r\<rparr>) = head_verdict cap width s"
  by (simp_all add: fun_eq_iff head_verdict_def occupancy_def)

section \<open>Preservation\<close>

lemma slots_ok_frame [simp]:
  "slots_ok cap width (s\<lparr>queue := q\<rparr>) = slots_ok cap width s"
  "slots_ok cap width (s\<lparr>rejected := r\<rparr>) = slots_ok cap width s"
  "slots_ok cap width (s\<lparr>sequence_no := n\<rparr>) = slots_ok cap width s"
  "slots_ok cap width (s\<lparr>sched_disposed := b\<rparr>) = slots_ok cap width s"
  by (simp_all add: slots_ok_def counters_ok_def one_pipeline_def bounds_ok_def)

lemma counters_ok_occupy:
  "counters_ok s \<Longrightarrow> counters_ok ((occupySlot a slot s)\<lparr>running := (a, slot) # running s\<rparr>)"
  by (cases slot) (auto simp: counters_ok_def occupySlot_def Let_def)

lemma one_pipeline_occupy:
  assumes "one_pipeline s" and "purposeOf a = ENTRY \<Longrightarrow> entryAttemptInFlight s \<in> {None, Some (attemptOf a)}"
  shows "one_pipeline ((occupySlot a slot s)\<lparr>running := (a, slot) # running s\<rparr>)"
proof (cases "purposeOf a = ENTRY")
  case True
  with assms have "\<forall>e \<in> set (entries s). attemptOf (fst e) = attemptOf a"
    unfolding one_pipeline_def by (metis insertE option.distinct(1) option.inject singletonD)
  with True show ?thesis by (auto simp: one_pipeline_def occupySlot_def Let_def)
next
  case False
  with assms(1) show ?thesis by (simp add: one_pipeline_def occupySlot_def Let_def)
qed

lemma slots_ok_occupy:
  assumes ok: "slots_ok cap width s" and v: "head_verdict cap width s a = Admit slot"
  shows "slots_ok cap width ((occupySlot a slot s)\<lparr>running := (a, slot) # running s\<rparr>)"
proof -
  have p: "purposeOf a = ENTRY \<Longrightarrow> entryAttemptInFlight s \<in> {None, Some (attemptOf a)}"
    using v head_verdict_base head_verdict_burst by (cases slot) blast+
  have "bounds_ok cap width ((occupySlot a slot s)\<lparr>running := (a, slot) # running s\<rparr>)"
  proof (cases slot)
    case base_slot
    with v head_verdict_base [of cap width s a] ok show ?thesis
      by (auto simp: slots_ok_def bounds_ok_def occupySlot_def Let_def)
  next
    case entry_burst
    with v head_verdict_burst [of cap width s a] ok show ?thesis
      by (auto simp: slots_ok_def bounds_ok_def occupySlot_def Let_def)
  qed
  with ok p show ?thesis by (simp add: slots_ok_def counters_ok_occupy one_pipeline_occupy)
qed

lemma length_filter_remove1:
  "e \<in> set xs \<Longrightarrow>
   length (filter P (remove1 e xs)) = length (filter P xs) - (if P e then 1 else 0)"
  by (auto simp: filter_remove1 length_remove1)

lemma counters_ok_release:
  assumes "counters_ok s" "(a, slot) \<in> set (running s)"
  shows "counters_ok ((releaseSlot a slot s)\<lparr>running := remove1 (a, slot) (running s)\<rparr>)"
  using assms length_filter_remove1 [OF assms(2)]
  by (cases slot) (auto simp: counters_ok_def releaseSlot_def Let_def length_remove1)

lemma one_pipeline_release:
  assumes ok: "counters_ok s" "one_pipeline s" and e: "(a, slot) \<in> set (running s)"
  shows "one_pipeline ((releaseSlot a slot s)\<lparr>running := remove1 (a, slot) (running s)\<rparr>)"
proof (cases "purposeOf a = ENTRY")
  case True
  let ?r = "filter (\<lambda>e. purposeOf (fst e) = ENTRY) (remove1 (a, slot) (running s))"
  have len: "length ?r = entryInFlight s - 1"
    using ok(1) True length_filter_remove1 [OF e, of "\<lambda>e. purposeOf (fst e) = ENTRY"]
    by (simp add: counters_ok_def)
  have sub: "set ?r \<subseteq> set (entries s)" using set_remove1_subset by fastforce
  have ne: "entryAttemptInFlight s \<noteq> None"
    using ok(2) e True by (force simp: one_pipeline_def filter_empty_conv)
  have f: "entryInFlight (releaseSlot a slot s) = entryInFlight s - 1"
    "entryAttemptInFlight (releaseSlot a slot s) =
       (if entryInFlight s - 1 = 0 then None else entryAttemptInFlight s)"
    using True by (simp_all add: releaseSlot_def Let_def)
  have "(entryInFlight s - 1 = 0) = (?r = [])" using len by (metis length_0_conv)
  moreover have "\<forall>x \<in> set ?r. entryAttemptInFlight s = Some (attemptOf (fst x))"
    using sub ok(2) unfolding one_pipeline_def by blast
  ultimately show ?thesis using f ne unfolding one_pipeline_def
    by (cases "?r = []") (simp_all del: set_filter)
next
  case False
  have "filter (\<lambda>e. purposeOf (fst e) = ENTRY) (remove1 (a, slot) (running s)) = entries s"
    using False by (simp add: filter_remove1 remove1_idem)
  moreover have "entryAttemptInFlight (releaseSlot a slot s) = entryAttemptInFlight s"
    using False by (simp add: releaseSlot_def Let_def)
  ultimately show ?thesis using ok(2) by (simp add: one_pipeline_def)
qed

lemma slots_ok_release:
  assumes ok: "slots_ok cap width s" and e: "(a, slot) \<in> set (running s)"
  shows "slots_ok cap width ((releaseSlot a slot s)\<lparr>running := remove1 (a, slot) (running s)\<rparr>)"
proof -
  have "baseInFlight (releaseSlot a slot s) \<le> baseInFlight s"
    "burstInFlight (releaseSlot a slot s) \<le> burstInFlight s"
    by (simp_all add: releaseSlot_def Let_def)
  then have "bounds_ok cap width ((releaseSlot a slot s)\<lparr>running := remove1 (a, slot) (running s)\<rparr>)"
    using ok by (auto simp: slots_ok_def bounds_ok_def dest: notin_set_remove1)
  with ok e show ?thesis by (simp add: slots_ok_def counters_ok_release one_pipeline_release)
qed

lemma queue_ok_frame [simp]:
  "queue_ok (s\<lparr>rejected := r\<rparr>) = queue_ok s"
  "queue_ok (s\<lparr>running := rs\<rparr>) = queue_ok s"
  "queue_ok (occupySlot a slot s) = queue_ok s"
  by (simp_all add: queue_ok_def)

text \<open>What the pump establishes.\<close>

lemma pump_inv:
  "slots_ok cap width s \<Longrightarrow> queue_ok s \<Longrightarrow> sched_inv cap width (pump blocked cap width s)"
proof (induction "length (queue s)" arbitrary: s rule: less_induct)
  case less
  show ?case
  proof (cases "sched_disposed s")
    case True
    with less.prems show ?thesis by (simp add: pump.simps sched_inv_def quiescent_def)
  next
    case nd: False
    show ?thesis
    proof (cases "queue s")
      case Nil
      with nd less.prems show ?thesis by (simp add: pump.simps sched_inv_def quiescent_def)
    next
      case (Cons a rest)
      let ?s1 = "s\<lparr>queue := rest\<rparr>"
      have q1: "queue_ok ?s1" using less.prems(2) Cons by (simp add: queue_ok_def)
      show ?thesis
      proof (cases "head_verdict cap width s a")
        case (Refuse r)
        with nd Cons less.prems show ?thesis
          by (simp add: pump.simps sched_inv_def quiescent_def)
      next
        case (Admit slot)
        let ?s2 = "if blocked ?s1 a then ?s1\<lparr>rejected := a # rejected ?s1\<rparr>
                   else (occupySlot a slot ?s1)\<lparr>running := (a, slot) # running ?s1\<rparr>"
        have "slots_ok cap width ?s2"
          using less.prems(1) slots_ok_occupy [of cap width ?s1 a slot] Admit by simp
        moreover have "queue_ok ?s2" using q1 by simp
        moreover have "length (queue ?s2) < length (queue s)" using Cons by simp
        ultimately have "sched_inv cap width (pump blocked cap width ?s2)"
          by (rule less.hyps [rotated])
        moreover have "pump blocked cap width s = pump blocked cap width ?s2"
          using nd Cons Admit by (subst pump.simps) (simp add: Let_def)
        ultimately show ?thesis by simp
      qed
    qed
  qed
qed

lemma queue_ok_sortQueue [simp]: "queue_ok (sortQueue s)"
  by (simp add: queue_ok_def sortQueue_def)

lemma slots_ok_sortQueue [simp]: "slots_ok cap width (sortQueue s) = slots_ok cap width s"
  by (simp add: sortQueue_def)

lemma releaseSlot_queue [simp]: "queue (releaseSlot a slot s) = queue s"
  by (simp add: releaseSlot_def Let_def)

lemma sched_inv_step:
  assumes "sched_inv cap width s" and "sched_step cap width s t"
  shows "sched_inv cap width t"
  using assms(2)
proof cases
  case (step_submit blocked cid p att)
  then show ?thesis
    using assms(1) by (simp add: enqueue_submit_def pump_inv sched_inv_def [of _ _ s])
next
  case (step_cancel blocked cid att)
  then show ?thesis
    using assms(1) by (simp add: enqueueCancel_def pump_inv sched_inv_def [of _ _ s])
next
  case (step_finish e blocked)
  then have "(fst e, snd e) \<in> set (running s)" by simp
  moreover have "queue_ok ((releaseSlot (fst e) (snd e) s)\<lparr>running := remove1 e (running s)\<rparr>)"
    using assms(1) by (simp add: sched_inv_def queue_ok_def)
  ultimately show ?thesis
    using step_finish assms(1) slots_ok_release [of cap width s "fst e" "snd e"]
    by (simp add: finish_def pump_inv sched_inv_def [of _ _ s])
next
  case step_dispose
  then show ?thesis
    using assms(1) by (simp add: dispose_def sched_inv_def quiescent_def queue_ok_def)
qed

lemma sched_inv_init: "s = sched_init \<Longrightarrow> sched_inv cap width s"
  by (simp add: sched_inv_def slots_ok_def counters_ok_def one_pipeline_def bounds_ok_def
      queue_ok_def quiescent_def sched_init_def)

interpretation scheduler: invariant_machine "\<lambda>s. s = sched_init" "sched_step cap width" "sched_inv cap width"
  by unfold_locales (auto intro: sched_inv_init sched_inv_step)

text \<open>The comparator of the policy module is the lexicographic order the queue is sorted by.\<close>

lemma compareScheduling_le: "(compareScheduling a b \<le> 0) = (a \<le> b)"
  by (cases a; cases b) (auto simp: compareScheduling_def Let_def)

lemma filter_slots_length:
  "length xs = length (filter (\<lambda>e. snd e = base_slot) xs) + length (filter (\<lambda>e. snd e = entry_burst) xs)"
proof (induction xs)
  case (Cons x xs)
  then show ?case by (cases "snd x") simp_all
qed simp

lemma pump_prefix:
  "\<exists>k. queue (pump blocked cap width s) = drop k (queue s)
     \<and> mset (map fst (running (pump blocked cap width s))) + mset (rejected (pump blocked cap width s))
       = mset (take k (queue s)) + (mset (map fst (running s)) + mset (rejected s))"
proof (induction "length (queue s)" arbitrary: s rule: less_induct)
  case less
  let ?P = "\<lambda>s t. \<exists>k. queue t = drop k (queue s)
     \<and> mset (map fst (running t)) + mset (rejected t)
       = mset (take k (queue s)) + (mset (map fst (running s)) + mset (rejected s))"
  have stay: "?P s s" by (intro exI [of _ 0]) simp
  show ?case
  proof (cases "sched_disposed s \<or> queue s = [] \<or>
      (\<exists>r. head_verdict cap width s (hd (queue s)) = Refuse r)")
    case True
    then have "pump blocked cap width s = s"
      by (subst pump.simps) (auto split: list.split)
    with stay show ?thesis by simp
  next
    case False
    then obtain a rest slot where q: "queue s = a # rest" and nd: "\<not> sched_disposed s"
      and v: "head_verdict cap width s a = Admit slot"
      by (metis BoxAdmissionVerdict.exhaust list.exhaust_sel)
    let ?s1 = "s\<lparr>queue := rest\<rparr>"
    let ?s2 = "if blocked ?s1 a then ?s1\<lparr>rejected := a # rejected ?s1\<rparr>
               else (occupySlot a slot ?s1)\<lparr>running := (a, slot) # running ?s1\<rparr>"
    have p: "pump blocked cap width s = pump blocked cap width ?s2"
      using nd q v by (subst pump.simps) (simp add: Let_def)
    have s2: "queue ?s2 = rest" "mset (map fst (running ?s2)) + mset (rejected ?s2)
        = add_mset a (mset (map fst (running s)) + mset (rejected s))"
      by (simp_all add: occupySlot_def Let_def)
    have "length (queue ?s2) < length (queue s)" using q s2(1) by simp
    from less.hyps [OF this] obtain k where
      "queue (pump blocked cap width ?s2) = drop k rest"
      "mset (map fst (running (pump blocked cap width ?s2))) + mset (rejected (pump blocked cap width ?s2))
        = mset (take k rest) + add_mset a (mset (map fst (running s)) + mset (rejected s))"
      using s2 by auto
    then show ?thesis using p q by (intro exI [of _ "Suc k"]) simp
  qed
qed

section \<open>Properties\<close>

text \<open>C9. In every reachable state of the scheduler, whatever was enqueued, cancelled or finished in
  whatever order: all entry operations at the broker belong to one box attempt, the base slots
  respect the configured concurrency, the total never exceeds the larger of the two caps, and
  burst slots hold entries only.\<close>

theorem entry_pipelines_never_overlap:
  assumes "reach (\<lambda>s. s = sched_init) (sched_step cap width) s"
  shows "(\<exists>att. list_all (\<lambda>e. attemptOf (fst e) = att) (entries s))
    \<and> length (filter (\<lambda>e. snd e = base_slot) (running s)) \<le> at_least_one cap
    \<and> length (running s) \<le> max (at_least_one cap) (clampEntrySubmitConcurrency width)
    \<and> list_all (\<lambda>e. snd e = base_slot \<or> purposeOf (fst e) = ENTRY) (running s)"
proof -
  have inv: "slots_ok cap width s"
    using scheduler.reach_inv [OF assms] by (simp add: sched_inv_def)
  have a: "\<exists>att. list_all (\<lambda>e. attemptOf (fst e) = att) (entries s)"
    using inv unfolding slots_ok_def one_pipeline_def list_all_iff by (metis option.inject)
  have l: "length (running s) = baseInFlight s + burstInFlight s"
    using inv filter_slots_length [of "running s"] by (simp add: slots_ok_def counters_ok_def)
  have "list_all (\<lambda>e. snd e = base_slot \<or> purposeOf (fst e) = ENTRY) (running s)"
    using inv unfolding slots_ok_def bounds_ok_def list_all_iff by (metis BoxSchedulingSlot.exhaust)
  with a l inv show ?thesis by (auto simp: slots_ok_def bounds_ok_def counters_ok_def)
qed


text \<open>Each pump removes a prefix of the priority-ordered queue, and what it removes is exactly
  what it starts or rejects: no waiting operation is overtaken by one behind it, none is lost
  and none is started twice.\<close>

theorem pump_takes_priority_prefix:
  "\<exists>k. queue (pump blocked cap width s) = drop k (queue s)
     \<and> mset (map fst (running (pump blocked cap width s))) + mset (rejected (pump blocked cap width s))
       = mset (take k (queue s)) + (mset (map fst (running s)) + mset (rejected s))"
  by (rule pump_prefix)

text \<open>An entry burst is invisible to protective and exit operations: their admission depends on
  the base occupancy only, and a free base slot admits them.\<close>

theorem protective_admission_ignores_bursts:
  assumes "req_purpose r \<noteq> ENTRY"
  shows "admitBoxOperation r occ cap width =
      admitBoxOperation r (occ\<lparr>occ_burstInFlight := n, occ_entryAttemptId := x,
                              occ_nonEntryInFlight := m\<rparr>) cap width'
    \<and> (admitBoxOperation r occ cap width = Admit base_slot) = (occ_baseInFlight occ < at_least_one cap)"
  using assms by (simp add: admitBoxOperation_def Let_def)

text \<open>A run in which two entries of one box and then an emergency are enqueued.\<close>

definition sample_sched :: sched where
  "sample_sched =
     enqueue_submit (\<lambda>_ _. False) (Fin 1) (Fin 4) ''c2'' ENTRY ''a1''
       (enqueue_submit (\<lambda>_ _. False) (Fin 1) (Fin 4) ''c1'' ENTRY ''a1'' sched_init)"

lemma sched_init_reach: "reach (\<lambda>s. s = sched_init) (sched_step cap width) sched_init"
  by (rule reach_init) (rule refl)

lemma sample_sched_reach: "reach (\<lambda>s. s = sched_init) (sched_step (Fin 1) (Fin 4)) sample_sched"
  unfolding sample_sched_def
  by (rule reach_step [OF reach_step [OF sched_init_reach step_submit] step_submit])

lemma sample_sched_running:
  "running sample_sched = [(SubmitQueueAction ''c2'' ENTRY ''a1'' 1, entry_burst),
                           (SubmitQueueAction ''c1'' ENTRY ''a1'' 0, base_slot)]"
  by (simp add: sample_sched_def enqueue_submit_def sched_init_def sortQueue_def pump.simps
      head_verdict_def admitBoxOperation_def Let_def occupancy_def occupySlot_def attemptOf_def clamp_Fin)

theorem entry_pipelines_never_overlap_witness:
  "list_all (\<lambda>e. attemptOf (fst e) = ''a1'') (entries sample_sched)
   \<and> length (running sample_sched) = 2 \<and> length (running sample_sched) \<le> 4"
proof -
  have "\<exists>att. list_all (\<lambda>e. attemptOf (fst e) = att) (entries sample_sched)"
    using entry_pipelines_never_overlap [OF sample_sched_reach] by blast
  then show ?thesis by (auto simp: sample_sched_running attemptOf_def)
qed

definition sample_drained :: sched where
  "sample_drained =
     finish (\<lambda>_ _. False) (Fin 1) (Fin 4) (SubmitQueueAction ''c1'' ENTRY ''a1'' 0, base_slot)
       (finish (\<lambda>_ _. False) (Fin 1) (Fin 4) (SubmitQueueAction ''c2'' ENTRY ''a1'' 1, entry_burst)
          sample_sched)"

lemma sample_drained_reach:
  "reach (\<lambda>s. s = sched_init) (sched_step (Fin 1) (Fin 4)) sample_drained"
  unfolding sample_drained_def
proof (rule reach_step [OF reach_step [OF sample_sched_reach step_finish] step_finish])
  show "(SubmitQueueAction ''c2'' ENTRY ''a1'' 1, entry_burst) \<in> set (running sample_sched)"
    by (simp add: sample_sched_running)
  show "(SubmitQueueAction ''c1'' ENTRY ''a1'' 0, base_slot) \<in> set (running
      (finish (\<lambda>_ _. False) (Fin 1) (Fin 4)
         (SubmitQueueAction ''c2'' ENTRY ''a1'' 1, entry_burst) sample_sched))"
    by (simp add: finish_def sample_sched_def enqueue_submit_def sched_init_def sortQueue_def
        pump.simps head_verdict_def admitBoxOperation_def Let_def occupancy_def occupySlot_def
        releaseSlot_def attemptOf_def clamp_Fin)
qed


theorem protective_admission_ignores_bursts_witness:
  "admitBoxOperation \<lparr>req_purpose = EXIT, req_attemptId = ''a2''\<rparr>
     \<lparr>occ_baseInFlight = 0, occ_burstInFlight = 3, occ_entryAttemptId = Some ''a1'',
      occ_nonEntryInFlight = 0\<rparr> (Fin 1) (Fin 4) = Admit base_slot"
  using protective_admission_ignores_bursts
    [of "\<lparr>req_purpose = EXIT, req_attemptId = ''a2''\<rparr>"
        "\<lparr>occ_baseInFlight = 0, occ_burstInFlight = 3, occ_entryAttemptId = Some ''a1'',
      occ_nonEntryInFlight = 0\<rparr>" "Fin 1" "Fin 4"]
  by simp

end
