(* ===== verification/Intent_Journal.thy ===== *)
theory Intent_Journal
  imports Box_Types
begin

text \<open>
  The durable order-intent journal: \<^verbatim>\<open>createBoxOrderIntent\<close>, \<^verbatim>\<open>updateBoxOrderIntent\<close> and the
  finders of \<^verbatim>\<open>src/box/repository.ts\<close> with the record types of \<^verbatim>\<open>src/box/types.ts\<close>.

  The record \<open>journal\<close> is the part of the database these functions touch: the table
  \<^verbatim>\<open>box_order_intents\<close> (unique on the client order id, hence a map), the transition audit table
  (unique on the audit id) and the outbox rows in sequence order (unique on the event id).
  One call is one transaction that locks its row, so a concurrent execution is a sequence of
  calls.  The constraints of the migration that created the table (non-negative fill, fill not
  above the quantity, broker identities unique within a broker) are checked by every write and
  end it with an error that leaves the database unchanged.

  The lemmas show the compare-and-set discipline: fills never regress, terminal states absorb,
  one submission claim wins, and the deltas the writes report add up to the durable fill.
\<close>

section \<open>Data\<close>

datatype BrokerId = zerodha | dhan

datatype BrokerMode = bm_paper | bm_live

datatype BoxOrderPhase = ph_entry | ph_exit | ph_unwind

record BoxOrderIntentAudit =
  audit_id :: string
  au_at :: int
  au_from_state :: "BoxOrderIntentState option"
  au_to_state :: BoxOrderIntentState
  au_broker_order_id :: "string option"
  au_message :: "string option"
  au_fill_identity :: "string option"
  au_payload :: "string option"

record IBoxOrderIntent =
  client_order_id :: string
  broker_order_id :: "string option"
  broker_mode :: BrokerMode
  broker :: "BrokerId option"
  broker_correlation_id :: "string option"
  trade_id :: "string option"
  attempt_id :: string
  role :: BoxLegRole
  purpose :: BoxOrderPurpose
  phase :: BoxOrderPhase
  exchange :: string
  tradingsymbol :: string
  token :: int
  side :: OrderSide
  quantity :: rat
  reference_price :: rat
  tick_size :: rat
  max_chase_ticks :: rat
  limit_price :: rat
  intent_state :: BoxOrderIntentState
  filled_quantity :: rat
  previous_filled_quantity :: "rat option"
  average_price :: "rat option"
  broker_tag :: "string option"
  reject_family :: "string option"
  reject_reason :: "string option"
  created_at :: int
  updated_at :: int
  terminal_at :: "int option"
  audit :: "BoxOrderIntentAudit list"

record BoxOrderIntentRecord = IBoxOrderIntent +
  rec_id :: string

text \<open>A patch: \<^verbatim>\<open>undefined\<close> is the outer \<^const>\<open>None\<close>, an explicit \<^verbatim>\<open>null\<close> of a nullable
  column the inner one.\<close>

record BoxOrderIntentPatch =
  patch_broker_order_id :: "string option option"
  patch_state :: "BoxOrderIntentState option"
  patch_filled_quantity :: "jsnum option"
  patch_average_price :: "rat option option"
  patch_broker_tag :: "string option option"
  patch_reject_family :: "string option option"
  patch_reject_reason :: "string option option"
  patch_updated_at :: "int option"
  patch_terminal_at :: "int option option"

datatype OutboxEventType = intent_created | intent_transition BoxOrderIntentState

record OutboxEvent =
  ob_event_id :: string
  ob_event_type :: OutboxEventType
  ob_payload :: BoxOrderIntentRecord

record transition_row =
  tr_client_order_id :: string
  tr_intent_id :: string
  tr_audit :: BoxOrderIntentAudit

record journal =
  db_enabled :: bool
  rows :: "string \<rightharpoonup> BoxOrderIntentRecord"
  transitions :: "string \<rightharpoonup> transition_row"
  outbox :: "OutboxEvent list"

datatype journal_error =
    Persistence_Unavailable
  | Check_Violation
  | Unique_Violation
  | Immutable_Field_Reused string

section \<open>Constraints of the table\<close>

definition LEGACY_BROKER :: BrokerId where
  "LEGACY_BROKER = zerodha"

definition brokerValue :: "BrokerId option \<Rightarrow> BrokerId" where
  "brokerValue b = (case b of Some v \<Rightarrow> v | None \<Rightarrow> LEGACY_BROKER)"

definition row_check :: "'a IBoxOrderIntent_scheme \<Rightarrow> bool" where
  "row_check r =
     (0 \<le> filled_quantity r \<and> filled_quantity r \<le> quantity r
      \<and> (case previous_filled_quantity r of None \<Rightarrow> True | Some p \<Rightarrow> p \<le> filled_quantity r))"

text \<open>The two partial unique indexes on broker identities.\<close>

definition broker_ids_clash :: "BoxOrderIntentRecord \<Rightarrow> BoxOrderIntentRecord \<Rightarrow> bool" where
  "broker_ids_clash a b =
     (brokerValue (broker a) = brokerValue (broker b)
      \<and> (broker_order_id a \<noteq> None \<and> broker_order_id a = broker_order_id b
         \<or> broker_correlation_id a \<noteq> None \<and> broker_correlation_id a = broker_correlation_id b))"

definition unique_ok :: "string \<Rightarrow> BoxOrderIntentRecord \<Rightarrow> (string \<rightharpoonup> BoxOrderIntentRecord) \<Rightarrow> bool" where
  "unique_ok cid r tbl =
     (\<forall>c \<in> dom tbl. c = cid \<or> \<not> broker_ids_clash r (the (tbl c)))"

section \<open>The outbox\<close>

definition enqueueOutbox :: "OutboxEvent \<Rightarrow> journal \<Rightarrow> journal" where
  "enqueueOutbox e j =
     (if ob_event_id e \<in> set (map ob_event_id (outbox j)) then j
      else j\<lparr>outbox := outbox j @ [e]\<rparr>)"

definition enqueueIntentProjection ::
    "BoxOrderIntentRecord \<Rightarrow> OutboxEventType \<Rightarrow> string \<Rightarrow> journal \<Rightarrow> journal" where
  "enqueueIntentProjection r ty aid j =
     enqueueOutbox
       \<lparr>ob_event_id = ''box_order_intent:'' @ rec_id r @ '':'' @ aid,
        ob_event_type = ty, ob_payload = r\<rparr> j"

section \<open>Creation\<close>

definition immutable_fields ::
    "(string \<times> ('a IBoxOrderIntent_scheme \<Rightarrow> 'b IBoxOrderIntent_scheme \<Rightarrow> bool)) list" where
  "immutable_fields =
     [(''broker_mode'', \<lambda>a b. broker_mode a = broker_mode b),
      (''trade_id'', \<lambda>a b. trade_id a = trade_id b),
      (''attempt_id'', \<lambda>a b. attempt_id a = attempt_id b),
      (''role'', \<lambda>a b. role a = role b),
      (''purpose'', \<lambda>a b. purpose a = purpose b),
      (''phase'', \<lambda>a b. phase a = phase b),
      (''exchange'', \<lambda>a b. exchange a = exchange b),
      (''tradingsymbol'', \<lambda>a b. tradingsymbol a = tradingsymbol b),
      (''token'', \<lambda>a b. token a = token b),
      (''side'', \<lambda>a b. side a = side b),
      (''quantity'', \<lambda>a b. quantity a = quantity b),
      (''reference_price'', \<lambda>a b. reference_price a = reference_price b),
      (''tick_size'', \<lambda>a b. tick_size a = tick_size b),
      (''max_chase_ticks'', \<lambda>a b. max_chase_ticks a = max_chase_ticks b),
      (''limit_price'', \<lambda>a b. limit_price a = limit_price b)]"

fun first_mismatch :: "(string \<times> ('a \<Rightarrow> 'b \<Rightarrow> bool)) list \<Rightarrow> 'a \<Rightarrow> 'b \<Rightarrow> string option" where
  "first_mismatch [] a b = None"
| "first_mismatch ((f, same) # fs) a b = (if same a b then first_mismatch fs a b else Some f)"

text \<open>\<^verbatim>\<open>assertIntentImmutableMatch\<close>: the first field that differs is thrown.\<close>

definition assertIntentImmutableMatch ::
    "'a IBoxOrderIntent_scheme \<Rightarrow> 'b IBoxOrderIntent_scheme \<Rightarrow> journal_error option" where
  "assertIntentImmutableMatch existing proposed =
     map_option Immutable_Field_Reused (first_mismatch immutable_fields existing proposed)"

definition intentInsertValues :: "string \<Rightarrow> IBoxOrderIntent \<Rightarrow> BoxOrderIntentRecord" where
  "intentInsertValues fresh i =
     IBoxOrderIntent.extend (i\<lparr>broker := Some (brokerValue (broker i))\<rparr>)
       (BoxOrderIntentRecord.fields fresh)"

text \<open>\<^verbatim>\<open>createBoxOrderIntent\<close>; \<open>fresh\<close> is the identity drawn by \<^verbatim>\<open>allocateBoxTradeId\<close>.  The
  insert is \<^verbatim>\<open>ON CONFLICT (client_order_id) DO NOTHING\<close>; the immutable fields are compared
  after the transaction has committed.\<close>

definition createBoxOrderIntent ::
    "string \<Rightarrow> IBoxOrderIntent \<Rightarrow> journal \<Rightarrow> (journal_error + BoxOrderIntentRecord) \<times> journal" where
  "createBoxOrderIntent fresh intent j =
     (let cid = client_order_id intent; new = intentInsertValues fresh intent in
      if \<not> db_enabled j then (Inl Persistence_Unavailable, j)
      else if \<not> row_check new then (Inl Check_Violation, j)
      else case rows j cid of
        Some existing \<Rightarrow>
          (case assertIntentImmutableMatch existing intent of
             Some e \<Rightarrow> (Inl e, j)
           | None \<Rightarrow> (Inr existing, j))
      | None \<Rightarrow>
          if \<not> unique_ok cid new (rows j) then (Inl Unique_Violation, j)
          else (Inr new,
                enqueueIntentProjection new intent_created (''create:'' @ fresh)
                  (j\<lparr>rows := (rows j)(cid \<mapsto> new)\<rparr>)))"

section \<open>The compare-and-set update\<close>

fun INTENT_STATE_PREDECESSORS :: "BoxOrderIntentState \<Rightarrow> BoxOrderIntentState list" where
  "INTENT_STATE_PREDECESSORS I_CREATED = [I_CREATED]"
| "INTENT_STATE_PREDECESSORS I_SUBMITTING = [I_CREATED, I_SUBMITTING]"
| "INTENT_STATE_PREDECESSORS I_ACKNOWLEDGED =
     [I_SUBMITTING, I_ACKNOWLEDGED, I_UNKNOWN, I_RECONCILIATION_REQUIRED]"
| "INTENT_STATE_PREDECESSORS I_OPEN =
     [I_SUBMITTING, I_ACKNOWLEDGED, I_OPEN, I_UNKNOWN, I_RECONCILIATION_REQUIRED]"
| "INTENT_STATE_PREDECESSORS I_PARTIALLY_FILLED =
     [I_ACKNOWLEDGED, I_OPEN, I_PARTIALLY_FILLED, I_UNKNOWN, I_RECONCILIATION_REQUIRED]"
| "INTENT_STATE_PREDECESSORS I_COMPLETE =
     [I_SUBMITTING, I_ACKNOWLEDGED, I_OPEN, I_PARTIALLY_FILLED, I_CANCEL_REQUESTED, I_CANCELLED,
      I_UNKNOWN, I_RECONCILIATION_REQUIRED, I_COMPLETE]"
| "INTENT_STATE_PREDECESSORS I_CANCEL_REQUESTED =
     [I_ACKNOWLEDGED, I_OPEN, I_PARTIALLY_FILLED, I_CANCEL_REQUESTED, I_UNKNOWN,
      I_RECONCILIATION_REQUIRED]"
| "INTENT_STATE_PREDECESSORS I_CANCELLED =
     [I_ACKNOWLEDGED, I_OPEN, I_PARTIALLY_FILLED, I_CANCEL_REQUESTED, I_UNKNOWN,
      I_RECONCILIATION_REQUIRED, I_CANCELLED]"
| "INTENT_STATE_PREDECESSORS I_REJECTED =
     [I_CREATED, I_SUBMITTING, I_ACKNOWLEDGED, I_OPEN, I_REJECTED]"
| "INTENT_STATE_PREDECESSORS I_UNKNOWN =
     [I_CREATED, I_SUBMITTING, I_ACKNOWLEDGED, I_OPEN, I_PARTIALLY_FILLED, I_CANCEL_REQUESTED,
      I_UNKNOWN, I_RECONCILIATION_REQUIRED]"
| "INTENT_STATE_PREDECESSORS I_RECONCILIATION_REQUIRED =
     [I_CREATED, I_SUBMITTING, I_ACKNOWLEDGED, I_OPEN, I_PARTIALLY_FILLED, I_CANCEL_REQUESTED,
      I_UNKNOWN, I_RECONCILIATION_REQUIRED]"

record BoxOrderIntentUpdateResult =
  up_intent :: "BoxOrderIntentRecord option"
  up_applied :: bool
  up_previous :: "rat option"
  up_current :: "rat option"

text \<open>The four guards, on the locked row.\<close>

definition stateOk :: "BoxOrderIntentPatch \<Rightarrow> BoxOrderIntentRecord \<Rightarrow> bool" where
  "stateOk p before =
     (case patch_state p of None \<Rightarrow> True
      | Some s \<Rightarrow> intent_state before \<in> set (INTENT_STATE_PREDECESSORS s))"

definition expectedOk :: "BoxOrderIntentState list option \<Rightarrow> BoxOrderIntentRecord \<Rightarrow> bool" where
  "expectedOk expected before =
     (case expected of None \<Rightarrow> True | Some ss \<Rightarrow> intent_state before \<in> set ss)"

definition fillOk :: "BoxOrderIntentPatch \<Rightarrow> BoxOrderIntentRecord \<Rightarrow> bool" where
  "fillOk p before =
     (case patch_filled_quantity p of None \<Rightarrow> True
      | Some q \<Rightarrow> js_le (Fin (filled_quantity before)) q)"

definition brokerOk :: "BoxOrderIntentPatch \<Rightarrow> BoxOrderIntentRecord \<Rightarrow> bool" where
  "brokerOk p before =
     (case patch_broker_order_id p of
        Some (Some b) \<Rightarrow> b = [] \<or> broker_order_id before = None \<or> broker_order_id before = Some b
      | _ \<Rightarrow> True)"

definition put :: "'a option \<Rightarrow> 'a \<Rightarrow> 'a" where
  "put v old = (case v of None \<Rightarrow> old | Some x \<Rightarrow> x)"

text \<open>The audit append, idempotent by audit id.\<close>

definition alreadyAudited :: "BoxOrderIntentAudit \<Rightarrow> BoxOrderIntentRecord \<Rightarrow> bool" where
  "alreadyAudited a before = (audit_id a \<in> set (map audit_id (audit before)))"

text \<open>The row the \<^verbatim>\<open>UPDATE\<close> writes; \<open>filled\<close> is the patched quantity, already known finite.\<close>

definition patched_row ::
    "BoxOrderIntentPatch \<Rightarrow> BoxOrderIntentAudit \<Rightarrow> rat \<Rightarrow> BoxOrderIntentRecord \<Rightarrow> BoxOrderIntentRecord" where
  "patched_row p a filled before =
     before\<lparr>previous_filled_quantity := Some (filled_quantity before),
            broker_order_id := put (patch_broker_order_id p) (broker_order_id before),
            intent_state := put (patch_state p) (intent_state before),
            filled_quantity := filled,
            average_price := put (patch_average_price p) (average_price before),
            broker_tag := put (patch_broker_tag p) (broker_tag before),
            reject_family := put (patch_reject_family p) (reject_family before),
            reject_reason := put (patch_reject_reason p) (reject_reason before),
            updated_at := put (patch_updated_at p) (updated_at before),
            terminal_at := put (patch_terminal_at p) (terminal_at before),
            audit := (if alreadyAudited a before then audit before else audit before @ [a])\<rparr>"

text \<open>The insert into the transition table, \<^verbatim>\<open>ON CONFLICT (audit_id) DO NOTHING\<close>.\<close>

definition insert_transition ::
    "string \<Rightarrow> BoxOrderIntentRecord \<Rightarrow> BoxOrderIntentAudit \<Rightarrow> journal \<Rightarrow> journal" where
  "insert_transition cid after a j =
     (case transitions j (audit_id a) of
        Some _ \<Rightarrow> j
      | None \<Rightarrow> j\<lparr>transitions := (transitions j)(audit_id a \<mapsto>
                 \<lparr>tr_client_order_id = cid, tr_intent_id = rec_id after, tr_audit = a\<rparr>)\<rparr>)"

text \<open>The quantity column after the write; an infinite value fits no finite order quantity and
  is left to the check constraint.\<close>

definition patched_fill :: "BoxOrderIntentPatch \<Rightarrow> BoxOrderIntentRecord \<Rightarrow> rat option" where
  "patched_fill p before =
     (case patch_filled_quantity p of
        None \<Rightarrow> Some (filled_quantity before)
      | Some (Fin q) \<Rightarrow> Some q
      | Some _ \<Rightarrow> None)"

definition refused :: "BoxOrderIntentRecord \<Rightarrow> BoxOrderIntentUpdateResult" where
  "refused before =
     \<lparr>up_intent = Some before, up_applied = False,
      up_previous = Some (filled_quantity before), up_current = Some (filled_quantity before)\<rparr>"

definition updateBoxOrderIntent ::
    "string \<Rightarrow> BoxOrderIntentPatch \<Rightarrow> BoxOrderIntentAudit \<Rightarrow> BoxOrderIntentState list option \<Rightarrow>
     journal \<Rightarrow> (journal_error + BoxOrderIntentUpdateResult) \<times> journal" where
  "updateBoxOrderIntent cid p a expected j =
     (if \<not> db_enabled j then (Inl Persistence_Unavailable, j)
      else case rows j cid of
        None \<Rightarrow>
          (Inr \<lparr>up_intent = None, up_applied = False, up_previous = None, up_current = None\<rparr>, j)
      | Some before \<Rightarrow>
          if \<not> (stateOk p before \<and> expectedOk expected before \<and> fillOk p before \<and> brokerOk p before)
          then (Inr (refused before), j)
          else case patched_fill p before of
            None \<Rightarrow> (Inl Check_Violation, j)
          | Some filled \<Rightarrow>
              let after = patched_row p a filled before in
              if \<not> row_check after then (Inl Check_Violation, j)
              else if \<not> unique_ok cid after (rows j) then (Inl Unique_Violation, j)
              else
                let j1 = j\<lparr>rows := (rows j)(cid \<mapsto> after)\<rparr>;
                    j2 = (if alreadyAudited a before then j1
                          else enqueueIntentProjection after (intent_transition (au_to_state a))
                                 (audit_id a) (insert_transition cid after a j1))
                in (Inr \<lparr>up_intent = Some after, up_applied = True,
                         up_previous = previous_filled_quantity after,
                         up_current = Some (filled_quantity after)\<rparr>, j2))"

section \<open>The finders\<close>

definition NONTERMINAL_ORDER_STATES :: "BoxOrderIntentState list" where
  "NONTERMINAL_ORDER_STATES =
     [I_CREATED, I_SUBMITTING, I_ACKNOWLEDGED, I_OPEN, I_PARTIALLY_FILLED, I_CANCEL_REQUESTED,
      I_UNKNOWN, I_RECONCILIATION_REQUIRED]"

definition findBoxOrderIntentByClientId :: "string \<Rightarrow> journal \<Rightarrow> BoxOrderIntentRecord option" where
  "findBoxOrderIntentByClientId cid j = (if db_enabled j then rows j cid else None)"

text \<open>The rows a load returns, as a set: the order is that of a timestamp column.\<close>

definition loadNonterminalBoxOrderIntents ::
    "journal \<Rightarrow> journal_error + BoxOrderIntentRecord set" where
  "loadNonterminalBoxOrderIntents j =
     (if \<not> db_enabled j then Inl Persistence_Unavailable
      else Inr {r \<in> ran (rows j). intent_state r \<in> set NONTERMINAL_ORDER_STATES})"

definition loadOwnedBoxOrderIntents :: "journal \<Rightarrow> journal_error + BoxOrderIntentRecord set" where
  "loadOwnedBoxOrderIntents j =
     (if \<not> db_enabled j then Inl Persistence_Unavailable
      else Inr {r \<in> ran (rows j). broker_mode r = bm_live})"

section \<open>Runs\<close>

text \<open>One committed or failed call of the journal, and a concurrent execution as the sequence in
  which the calls take their row locks.\<close>

datatype journal_op =
    Create string IBoxOrderIntent
  | Update string BoxOrderIntentPatch BoxOrderIntentAudit "BoxOrderIntentState list option"

fun journal_step :: "journal_op \<Rightarrow> journal \<Rightarrow> journal" where
  "journal_step (Create fresh i) j = snd (createBoxOrderIntent fresh i j)"
| "journal_step (Update cid p a ex) j = snd (updateBoxOrderIntent cid p a ex j)"

definition filled_of :: "string \<Rightarrow> journal \<Rightarrow> rat" where
  "filled_of cid j = (case rows j cid of None \<Rightarrow> 0 | Some r \<Rightarrow> filled_quantity r)"

section \<open>Frame and case lemmas\<close>

lemma enqueue_frame [simp]:
  "rows (enqueueIntentProjection r ty aid j) = rows j"
  "db_enabled (enqueueIntentProjection r ty aid j) = db_enabled j"
  "transitions (enqueueIntentProjection r ty aid j) = transitions j"
  by (simp_all add: enqueueIntentProjection_def enqueueOutbox_def)

lemma insert_transition_frame [simp]:
  "rows (insert_transition cid r a j) = rows j"
  "db_enabled (insert_transition cid r a j) = db_enabled j"
  "outbox (insert_transition cid r a j) = outbox j"
  by (simp_all add: insert_transition_def split: option.split)

lemma intentInsertValues_simps [simp]:
  "client_order_id (intentInsertValues fresh i) = client_order_id i"
  "filled_quantity (intentInsertValues fresh i) = filled_quantity i"
  "intent_state (intentInsertValues fresh i) = intent_state i"
  "quantity (intentInsertValues fresh i) = quantity i"
  "rec_id (intentInsertValues fresh i) = fresh"
  "previous_filled_quantity (intentInsertValues fresh i) = previous_filled_quantity i"
  "broker_order_id (intentInsertValues fresh i) = broker_order_id i"
  "purpose (intentInsertValues fresh i) = purpose i"
  "side (intentInsertValues fresh i) = side i"
  "exchange (intentInsertValues fresh i) = exchange i"
  "tradingsymbol (intentInsertValues fresh i) = tradingsymbol i"
  by (simp_all add: intentInsertValues_def IBoxOrderIntent.defs BoxOrderIntentRecord.defs)

lemma row_check_insert [simp]: "row_check (intentInsertValues fresh i) = row_check i"
  by (simp add: row_check_def split: option.split)

lemma patched_row_simps [simp]:
  "client_order_id (patched_row p a f r) = client_order_id r"
  "filled_quantity (patched_row p a f r) = f"
  "previous_filled_quantity (patched_row p a f r) = Some (filled_quantity r)"
  "intent_state (patched_row p a f r) = put (patch_state p) (intent_state r)"
  "quantity (patched_row p a f r) = quantity r"
  "exchange (patched_row p a f r) = exchange r"
  "tradingsymbol (patched_row p a f r) = tradingsymbol r"
  "side (patched_row p a f r) = side r"
  "broker_mode (patched_row p a f r) = broker_mode r"
  "broker (patched_row p a f r) = broker r"
  "rec_id (patched_row p a f r) = rec_id r"
  "purpose (patched_row p a f r) = purpose r"
  by (simp_all add: patched_row_def)

text \<open>What one update can do: nothing to the database, or the guarded write.\<close>

lemma update_cases [consumes 1, case_names unchanged written]:
  assumes "updateBoxOrderIntent cid p a ex j = (res, j')"
  obtains "j' = j" "\<And>u. res = Inr u \<Longrightarrow> \<not> up_applied u"
    | before filled where
      "rows j cid = Some before" "db_enabled j"
      "stateOk p before" "expectedOk ex before" "fillOk p before" "brokerOk p before"
      "patched_fill p before = Some filled" "row_check (patched_row p a filled before)"
      "unique_ok cid (patched_row p a filled before) (rows j)"
      "rows j' = (rows j)(cid \<mapsto> patched_row p a filled before)" "db_enabled j'"
      "res = Inr \<lparr>up_intent = Some (patched_row p a filled before), up_applied = True,
                  up_previous = Some (filled_quantity before), up_current = Some filled\<rparr>"
proof (cases "db_enabled j")
  case False
  with assms show ?thesis by (intro that(1)) (auto simp: updateBoxOrderIntent_def)
next
  case en: True
  show ?thesis
  proof (cases "rows j cid")
    case None
    with assms en show ?thesis by (intro that(1)) (auto simp: updateBoxOrderIntent_def)
  next
    case (Some before)
    let ?ok = "stateOk p before \<and> expectedOk ex before \<and> fillOk p before \<and> brokerOk p before"
    show ?thesis
    proof (cases "?ok \<and> (\<exists>f. patched_fill p before = Some f \<and> row_check (patched_row p a f before)
                    \<and> unique_ok cid (patched_row p a f before) (rows j))")
      case True
      then obtain f where f: "patched_fill p before = Some f" "row_check (patched_row p a f before)"
        "unique_ok cid (patched_row p a f before) (rows j)" and ok: ?ok by blast
      show ?thesis
        by (rule that(2) [of before f]; use assms en Some f ok in
            \<open>simp add: updateBoxOrderIntent_def Let_def split: if_splits\<close>; auto)
    next
      case False
      then show ?thesis
        using assms en Some
        by (intro that(1)) (auto simp: updateBoxOrderIntent_def Let_def refused_def
            simp del: not_BUY not_SELL split: if_splits option.splits)
    qed
  qed
qed

lemma create_cases [consumes 1, case_names unchanged inserted]:
  assumes "createBoxOrderIntent fresh i j = (res, j')"
  obtains "j' = j"
    | "rows j (client_order_id i) = None" "db_enabled j" "row_check (intentInsertValues fresh i)"
      "unique_ok (client_order_id i) (intentInsertValues fresh i) (rows j)"
      "rows j' = (rows j)(client_order_id i \<mapsto> intentInsertValues fresh i)" "db_enabled j'"
      "res = Inr (intentInsertValues fresh i)"
  using assms
  by (auto simp: createBoxOrderIntent_def Let_def split: if_splits option.splits)

lemma fillOk_le: "fillOk p r \<Longrightarrow> patched_fill p r = Some f \<Longrightarrow> filled_quantity r \<le> f"
  by (auto simp: fillOk_def patched_fill_def split: option.splits jsnum.splits)

section \<open>The invariant of the journal\<close>

text \<open>Rows sit under their own client id, satisfy the checks, and no two rows of one broker share
  a broker identity; the outbox holds one row per event id.\<close>

definition journal_wf :: "journal \<Rightarrow> bool" where
  "journal_wf j =
     ((\<forall>cid r. rows j cid = Some r \<longrightarrow> client_order_id r = cid \<and> row_check r)
      \<and> (\<forall>c d r s. rows j c = Some r \<longrightarrow> rows j d = Some s \<longrightarrow> c \<noteq> d \<longrightarrow> \<not> broker_ids_clash r s)
      \<and> distinct (map ob_event_id (outbox j)))"

definition journal_empty :: journal where
  "journal_empty = \<lparr>db_enabled = True, rows = Map.empty, transitions = Map.empty, outbox = []\<rparr>"

lemma journal_wf_empty: "journal_wf journal_empty"
  by (simp add: journal_wf_def journal_empty_def)

lemma broker_ids_clash_sym: "broker_ids_clash a b = broker_ids_clash b a"
  unfolding broker_ids_clash_def by metis

lemma unique_okD:
  "unique_ok cid r tbl \<Longrightarrow> tbl c = Some s \<Longrightarrow> c \<noteq> cid \<Longrightarrow> \<not> broker_ids_clash r s"
  by (force simp: unique_ok_def)

lemma journal_wf_write:
  assumes "journal_wf j" "row_check r" "client_order_id r = cid" "unique_ok cid r (rows j)"
    and "rows j' = (rows j)(cid \<mapsto> r)" "distinct (map ob_event_id (outbox j'))"
  shows "journal_wf j'"
  using assms unique_okD [OF assms(4)] broker_ids_clash_sym [of r]
  by (auto simp: journal_wf_def split: if_splits)

lemma outbox_distinct_enqueue:
  "distinct (map ob_event_id (outbox j)) \<Longrightarrow>
   distinct (map ob_event_id (outbox (enqueueIntentProjection r ty aid j)))"
  by (auto simp: enqueueIntentProjection_def enqueueOutbox_def)

lemma outbox_distinct_update:
  "distinct (map ob_event_id (outbox j)) \<Longrightarrow>
   distinct (map ob_event_id (outbox (snd (updateBoxOrderIntent cid p a ex j))))"
  by (simp add: updateBoxOrderIntent_def Let_def outbox_distinct_enqueue split: option.split)

lemma outbox_distinct_create:
  "distinct (map ob_event_id (outbox j)) \<Longrightarrow>
   distinct (map ob_event_id (outbox (snd (createBoxOrderIntent fresh i j))))"
  by (simp add: createBoxOrderIntent_def Let_def outbox_distinct_enqueue split: option.split)

lemma journal_wf_step:
  assumes wf: "journal_wf j"
  shows "journal_wf (journal_step oper j)"
proof (cases oper)
  case (Create fresh i)
  obtain res j' where e: "createBoxOrderIntent fresh i j = (res, j')" by force
  have d: "distinct (map ob_event_id (outbox j'))"
    using outbox_distinct_create [of j fresh i] wf e by (simp add: journal_wf_def)
  from e show ?thesis
  proof (cases rule: create_cases)
    case unchanged
    then show ?thesis using wf Create e by simp
  next
    case inserted
    then show ?thesis using Create e journal_wf_write [OF wf inserted(3) _ inserted(4,5) d] by simp
  qed
next
  case (Update cid p a ex)
  obtain res j' where e: "updateBoxOrderIntent cid p a ex j = (res, j')" by force
  have d: "distinct (map ob_event_id (outbox j'))"
    using outbox_distinct_update [of j cid p a ex] wf e by (simp add: journal_wf_def)
  from e show ?thesis
  proof (cases rule: update_cases)
    case unchanged
    then show ?thesis using wf Update e by simp
  next
    case (written before filled)
    then have "client_order_id before = cid" using wf by (simp add: journal_wf_def)
    then show ?thesis
      using Update e journal_wf_write [OF wf written(8) _ written(9,10) d] by simp
  qed
qed

interpretation journal_invariant: invariant_fold journal_step journal_wf
  by unfold_locales (rule journal_wf_step)

section \<open>One step and one row\<close>

text \<open>How a single call changes a single row: not at all, by creation, or by the guarded write.\<close>

lemma step_row_cases [consumes 1, case_names same created written]:
  assumes "rows (journal_step oper j) cid = Some r'"
  obtains "rows j cid = Some r'"
    | fresh i where "oper = Create fresh i" "rows j cid = None" "client_order_id i = cid"
        "r' = intentInsertValues fresh i" "row_check r'"
    | r p a ex filled where "oper = Update cid p a ex" "rows j cid = Some r" "stateOk p r"
        "expectedOk ex r" "fillOk p r" "brokerOk p r" "patched_fill p r = Some filled"
        "r' = patched_row p a filled r" "row_check r'"
proof (cases oper)
  case (Create fresh i)
  obtain res j' where e: "createBoxOrderIntent fresh i j = (res, j')" by force
  from e show ?thesis
  proof (cases rule: create_cases)
    case unchanged
    then show ?thesis using that(1) assms Create e by simp
  next
    case inserted
    note ins = inserted
    show ?thesis
    proof (cases "cid = client_order_id i")
      case True
      have r: "r' = intentInsertValues fresh i" using assms Create e ins(5) True by simp
      with ins(3) have k: "row_check r'" by (simp only:)
      show ?thesis by (rule that(2) [OF Create _ _ r k]) (use ins(1) True in simp_all)
    next
      case False
      then show ?thesis using that(1) assms Create e ins(5) by simp
    qed
  qed
next
  case (Update c p a ex)
  obtain res j' where e: "updateBoxOrderIntent c p a ex j = (res, j')" by force
  from e show ?thesis
  proof (cases rule: update_cases)
    case unchanged
    then show ?thesis using that(1) assms Update e by simp
  next
    case (written before filled)
    note w = written
    show ?thesis
    proof (cases "cid = c")
      case True
      with Update have u: "oper = Update cid p a ex" by simp
      have r: "r' = patched_row p a filled before" using assms Update True e w(10) by simp
      with w(8) have k: "row_check r'" by (simp only:)
      show ?thesis
        by (rule that(3) [OF u _ w(3) w(4) w(5) w(6) w(7) r k]) (use w(1) True in simp)
    next
      case False
      then show ?thesis using that(1) assms Update e w(10) by simp
    qed
  qed
qed

lemma step_keeps_row: "rows j cid = Some r \<Longrightarrow> \<exists>r'. rows (journal_step oper j) cid = Some r'"
proof (cases oper)
  case (Create fresh i)
  assume r: "rows j cid = Some r"
  obtain res j' where e: "createBoxOrderIntent fresh i j = (res, j')" by force
  from e show ?thesis using r Create e by (cases rule: create_cases) auto
next
  case (Update c p a ex)
  assume r: "rows j cid = Some r"
  obtain res j' where e: "updateBoxOrderIntent c p a ex j = (res, j')" by force
  from e show ?thesis using r Update e by (cases rule: update_cases) auto
qed

lemma filled_of_mono_step: "filled_of cid j \<le> filled_of cid (journal_step oper j)"
proof (cases "rows (journal_step oper j) cid")
  case None
  then have "rows j cid = None" using step_keeps_row by (metis not_None_eq)
  then show ?thesis using None by (simp add: filled_of_def)
next
  case (Some r')
  then have "filled_of cid (journal_step oper j) = filled_quantity r'" by (simp add: filled_of_def)
  with Some show ?thesis
    by (cases rule: step_row_cases)
      (auto simp: filled_of_def row_check_def simp del: journal_step.simps dest: fillOk_le)
qed

interpretation journal_fill: monotone_fold journal_step "filled_of cid"
  by unfold_locales (rule filled_of_mono_step)

section \<open>Submission claims\<close>

text \<open>A submission claim is the write the order manager makes before it transmits: to
  \<^verbatim>\<open>SUBMITTING\<close>, expecting \<^verbatim>\<open>CREATED\<close>.  It is won when the update reports it applied.\<close>

fun claim_won :: "string \<Rightarrow> journal_op \<Rightarrow> journal \<Rightarrow> bool" where
  "claim_won cid (Create _ _) j = False"
| "claim_won cid (Update c p a ex) j =
     (c = cid \<and> patch_state p = Some I_SUBMITTING \<and> ex = Some [I_CREATED]
      \<and> (case fst (updateBoxOrderIntent c p a ex j) of Inr u \<Rightarrow> up_applied u | Inl _ \<Rightarrow> False))"

fun claims_won :: "string \<Rightarrow> journal_op list \<Rightarrow> journal \<Rightarrow> nat" where
  "claims_won cid [] j = 0"
| "claims_won cid (x # xs) j =
     (if claim_won cid x j then 1 else 0) + claims_won cid xs (journal_step x j)"

definition left_created :: "string \<Rightarrow> journal \<Rightarrow> bool" where
  "left_created cid j = (\<exists>r. rows j cid = Some r \<and> intent_state r \<noteq> I_CREATED)"

lemma stateOk_trans:
  "stateOk p r \<Longrightarrow> put (patch_state p) (intent_state r) = s \<Longrightarrow>
   s = intent_state r \<or> intent_state r \<in> set (INTENT_STATE_PREDECESSORS s)"
  by (auto simp: stateOk_def put_def split: option.splits)

text \<open>Along any step, a row's state moves along the predecessor table.\<close>

lemma step_state:
  assumes "rows j cid = Some r"
  obtains r' where "rows (journal_step oper j) cid = Some r'"
    "intent_state r' = intent_state r
     \<or> intent_state r \<in> set (INTENT_STATE_PREDECESSORS (intent_state r'))"
proof -
  obtain r' where r': "rows (journal_step oper j) cid = Some r'"
    using step_keeps_row [OF assms] by blast
  from r' have "intent_state r' = intent_state r
     \<or> intent_state r \<in> set (INTENT_STATE_PREDECESSORS (intent_state r'))"
  proof (cases rule: step_row_cases)
    case (written q p a ex f)
    with assms have "q = r" by simp
    with written stateOk_trans [OF written(3)] show ?thesis by auto
  qed (use assms in auto)
  then show ?thesis using that r' by blast
qed

lemma left_created_step: "left_created cid j \<Longrightarrow> left_created cid (journal_step oper j)"
proof -
  assume "left_created cid j"
  then obtain r where r: "rows j cid = Some r" "intent_state r \<noteq> I_CREATED"
    by (auto simp: left_created_def)
  from r(1) obtain r' where r': "rows (journal_step oper j) cid = Some r'"
    "intent_state r' = intent_state r
     \<or> intent_state r \<in> set (INTENT_STATE_PREDECESSORS (intent_state r'))"
    by (rule step_state [where oper = oper])
  with r(2) have "intent_state r' \<noteq> I_CREATED" by auto
  with r'(1) show ?thesis by (auto simp: left_created_def)
qed

interpretation submission_left: invariant_fold journal_step "left_created cid"
  by unfold_locales (rule left_created_step)

lemma claim_won_leaves:
  assumes "claim_won cid x j"
  shows "left_created cid (journal_step x j) \<and> \<not> left_created cid j"
proof (cases x)
  case (Update c p a ex)
  obtain res j' where e: "updateBoxOrderIntent c p a ex j = (res, j')" by force
  from assms Update e have c: "c = cid" "patch_state p = Some I_SUBMITTING" "ex = Some [I_CREATED]"
    and won: "case res of Inr u \<Rightarrow> up_applied u | Inl _ \<Rightarrow> False" by simp_all
  from e show ?thesis
  proof (cases rule: update_cases)
    case unchanged
    with won show ?thesis by (cases res) auto
  next
    case (written before filled)
    from written(4) c have b: "intent_state before = I_CREATED" by (simp add: expectedOk_def)
    have "rows (journal_step x j) cid = Some (patched_row p a filled before)"
      using Update e written(10) c by simp
    moreover have "intent_state (patched_row p a filled before) = I_SUBMITTING"
      using c by (simp add: put_def)
    ultimately show ?thesis using b written(1) c by (simp add: left_created_def)
  qed
qed (use assms in simp)

lemma claims_won_none: "left_created cid j \<Longrightarrow> claims_won cid xs j = 0"
proof (induction xs arbitrary: j)
  case (Cons x xs)
  then show ?case using claim_won_leaves [of cid x j] left_created_step [of cid j x] by auto
qed simp

text \<open>The broker guard protects a recorded broker order id against a different one, but an
  explicit \<^verbatim>\<open>null\<close> passes it and the write then clears the column.\<close>

lemma null_patch_erases_broker_id:
  "patch_broker_order_id p = Some None \<Longrightarrow>
   brokerOk p r \<and> broker_order_id (patched_row p a f r) = None"
  by (simp add: brokerOk_def patched_row_def put_def)

section \<open>Terminal states and identities\<close>

text \<open>What a terminal state can still become: a cancelled order may turn out complete.\<close>

definition terminal_follows :: "BoxOrderIntentState \<Rightarrow> BoxOrderIntentState \<Rightarrow> bool" where
  "terminal_follows s s' = (s' = s \<or> (s = I_CANCELLED \<and> s' = I_COMPLETE))"

definition row_in :: "(BoxOrderIntentRecord \<Rightarrow> bool) \<Rightarrow> string \<Rightarrow> journal \<Rightarrow> bool" where
  "row_in P cid j = (\<exists>r. rows j cid = Some r \<and> P r)"

lemma terminal_pred:
  "isBrokerOrderTerminal s \<Longrightarrow> s \<in> set (INTENT_STATE_PREDECESSORS t) \<Longrightarrow> terminal_follows s t"
  by (cases t) (auto simp: isBrokerOrderTerminal_def terminal_follows_def)

lemma terminal_step:
  assumes s: "isBrokerOrderTerminal s"
    and r: "row_in (\<lambda>r. terminal_follows s (intent_state r)) cid j"
  shows "row_in (\<lambda>r. terminal_follows s (intent_state r)) cid (journal_step oper j)"
proof -
  from r obtain r where r: "rows j cid = Some r" "terminal_follows s (intent_state r)"
    by (auto simp: row_in_def)
  obtain r' where r': "rows (journal_step oper j) cid = Some r'"
    and st: "intent_state r' = intent_state r
     \<or> intent_state r \<in> set (INTENT_STATE_PREDECESSORS (intent_state r'))"
    by (rule step_state [OF r(1), of oper])
  have "isBrokerOrderTerminal (intent_state r)"
    using s r(2) by (auto simp: terminal_follows_def isBrokerOrderTerminal_def)
  with st have "terminal_follows (intent_state r) (intent_state r')"
    using terminal_pred by (auto simp: terminal_follows_def)
  with r(2) have "terminal_follows s (intent_state r')" by (auto simp: terminal_follows_def)
  with r'(1) show ?thesis by (auto simp: row_in_def)
qed

definition same_identity :: "BoxOrderIntentRecord \<Rightarrow> BoxOrderIntentRecord \<Rightarrow> bool" where
  "same_identity r r' = (rec_id r' = rec_id r \<and> broker r' = broker r
     \<and> first_mismatch immutable_fields r' r = None)"

lemma first_mismatch_None:
  "first_mismatch fs a b = None \<longleftrightarrow> (\<forall>(f, same) \<in> set fs. same a b)"
  by (induction fs) (auto split: if_splits)

lemma immutable_match_iff:
  "first_mismatch immutable_fields a b = None \<longleftrightarrow>
     broker_mode a = broker_mode b \<and> trade_id a = trade_id b \<and> attempt_id a = attempt_id b
     \<and> role a = role b \<and> purpose a = purpose b \<and> phase a = phase b \<and> exchange a = exchange b
     \<and> tradingsymbol a = tradingsymbol b \<and> token a = token b \<and> side a = side b
     \<and> quantity a = quantity b \<and> reference_price a = reference_price b
     \<and> tick_size a = tick_size b \<and> max_chase_ticks a = max_chase_ticks b
     \<and> limit_price a = limit_price b"
  by (simp add: first_mismatch_None immutable_fields_def)

lemma same_identity_refl [simp]: "same_identity r r"
  by (simp add: same_identity_def immutable_match_iff)

lemma same_identity_trans: "same_identity a b \<Longrightarrow> same_identity b c \<Longrightarrow> same_identity a c"
  by (simp add: same_identity_def immutable_match_iff)

lemma same_identity_patched: "same_identity r (patched_row p a f r)"
  unfolding same_identity_def immutable_match_iff by (simp add: patched_row_def)

lemma identity_step:
  assumes "row_in (same_identity r0) cid j"
  shows "row_in (same_identity r0) cid (journal_step oper j)"
proof -
  from assms obtain r where r: "rows j cid = Some r" "same_identity r0 r" by (auto simp: row_in_def)
  obtain r' where r': "rows (journal_step oper j) cid = Some r'"
    using step_keeps_row [OF r(1)] by blast
  from r' have "same_identity r r'"
    by (cases rule: step_row_cases) (use r(1) same_identity_patched in auto)
  with r r' show ?thesis by (auto simp: row_in_def intro: same_identity_trans)
qed

interpretation intent_identity: invariant_fold journal_step "row_in (same_identity r0) cid"
  by unfold_locales (rule identity_step)

lemma db_enabled_step: "db_enabled (journal_step oper j) = db_enabled j"
proof (cases oper)
  case (Create fresh i)
  obtain res j' where e: "createBoxOrderIntent fresh i j = (res, j')" by force
  from e show ?thesis using Create e by (cases rule: create_cases) auto
next
  case (Update c p a ex)
  obtain res j' where e: "updateBoxOrderIntent c p a ex j = (res, j')" by force
  from e show ?thesis using Update e by (cases rule: update_cases) auto
qed

lemma db_enabled_fold: "db_enabled (fold journal_step ops j) = db_enabled j"
  by (induction ops arbitrary: j) (simp_all add: db_enabled_step)

text \<open>What a successful creation leaves behind.\<close>

lemma create_success:
  assumes "createBoxOrderIntent fresh i j = (Inr r, j1)"
  shows "db_enabled j1" "row_check (intentInsertValues fresh i)" "rows j1 (client_order_id i) = Some r"
    "first_mismatch immutable_fields r i = None"
proof -
  let ?new = "intentInsertValues fresh i"
  from assms show "db_enabled j1" "row_check ?new" "rows j1 (client_order_id i) = Some r"
    by (auto simp: createBoxOrderIntent_def Let_def split: if_splits option.splits)
  have "first_mismatch immutable_fields ?new i = None"
    unfolding immutable_match_iff
    by (simp add: intentInsertValues_def IBoxOrderIntent.defs BoxOrderIntentRecord.defs)
  with assms show "first_mismatch immutable_fields r i = None"
    by (auto simp: createBoxOrderIntent_def assertIntentImmutableMatch_def Let_def
        split: if_splits option.splits)
qed

section \<open>Properties\<close>


text \<open>C4. The durable filled quantity of an intent never decreases, over any sequence of creations
  and updates, stale, duplicated or conflicting ones included.\<close>

theorem durable_fill_never_regresses:
  "filled_of cid (fold journal_step (take i ops) j) \<le> filled_of cid (fold journal_step ops j)"
  by (rule journal_fill.fold_prefix_mono)

text \<open>C3. At most one submission claim on a client order id is ever won, so at most one process is
  allowed to transmit the order.\<close>

theorem submission_claimed_at_most_once: "claims_won cid ops j \<le> 1"
proof (induction ops arbitrary: j)
  case (Cons x xs)
  show ?case
  proof (cases "claim_won cid x j")
    case True
    then have "claims_won cid xs (journal_step x j) = 0"
      using claim_won_leaves claims_won_none by blast
    with True show ?thesis by simp
  next
    case False
    with Cons.IH show ?thesis by simp
  qed
qed simp

text \<open>Terminal states absorb: once an intent is durably complete or rejected no sequence of
  calls changes its state, and a cancelled intent can only become complete.\<close>

theorem terminal_state_absorbs:
  assumes "rows j cid = Some r" and "isBrokerOrderTerminal (intent_state r)"
  shows "\<exists>r'. rows (fold journal_step ops j) cid = Some r'
    \<and> (intent_state r' = intent_state r
       \<or> (intent_state r = I_CANCELLED \<and> intent_state r' = I_COMPLETE))"
proof -
  have "row_in (\<lambda>r'. terminal_follows (intent_state r) (intent_state r')) cid j"
    using assms(1) by (auto simp: row_in_def terminal_follows_def)
  then have "row_in (\<lambda>r'. terminal_follows (intent_state r) (intent_state r')) cid
      (fold journal_step ops j)"
    by (induction ops arbitrary: j) (auto intro: terminal_step [OF assms(2)])
  then show ?thesis by (auto simp: row_in_def terminal_follows_def)
qed

text \<open>Creation is idempotent under any concurrency: once an intent has been created, creating it
  again, after any calls by anyone, succeeds, changes nothing, and returns the row with the
  original identity and the proposed immutable fields.\<close>

theorem create_idempotent:
  assumes "createBoxOrderIntent fresh i j = (Inr r, j1)"
  shows "\<exists>r'. createBoxOrderIntent fresh' i (fold journal_step ops j1) = (Inr r', fold journal_step ops j1)
    \<and> rec_id r' = rec_id r \<and> first_mismatch immutable_fields r' i = None"
proof -
  note c = create_success [OF assms]
  have "row_in (same_identity r) (client_order_id i) j1" using c(3) by (auto simp: row_in_def)
  then have "row_in (same_identity r) (client_order_id i) (fold journal_step ops j1)"
    by (rule intent_identity.fold_inv)
  then obtain r' where r': "rows (fold journal_step ops j1) (client_order_id i) = Some r'"
    and id: "same_identity r r'" by (auto simp: row_in_def)
  have imm: "first_mismatch immutable_fields r' i = None"
    using id c(4) by (simp add: same_identity_def immutable_match_iff)
  have chk: "row_check i"
    using c(2) by simp
  have "createBoxOrderIntent fresh' i (fold journal_step ops j1) = (Inr r', fold journal_step ops j1)"
    by (simp add: createBoxOrderIntent_def Let_def db_enabled_fold c(1) chk r' imm
        assertIntentImmutableMatch_def)
  with imm id show ?thesis by (auto simp: same_identity_def)
qed

text \<open>A sample intent, its creation and two broker updates, for the witnesses.\<close>

definition sample_intent :: IBoxOrderIntent where
  "sample_intent =
     \<lparr>client_order_id = ''BOX:t1:ENTRY:k1_ce'', broker_order_id = None, broker_mode = bm_live,
      broker = None, broker_correlation_id = None, trade_id = Some ''t1'', attempt_id = ''a1'',
      role = k1_ce, purpose = ENTRY, phase = ph_entry, exchange = ''NFO'',
      tradingsymbol = ''NIFTY24000CE'', token = 101, side = BUY, quantity = 75,
      reference_price = 100, tick_size = 1, max_chase_ticks = 4, limit_price = 104,
      intent_state = I_CREATED, filled_quantity = 0, previous_filled_quantity = None,
      average_price = None, broker_tag = None, reject_family = None, reject_reason = None,
      created_at = 0, updated_at = 0, terminal_at = None, audit = []\<rparr>"

definition sample_patch :: "BoxOrderIntentState \<Rightarrow> jsnum \<Rightarrow> string \<Rightarrow> BoxOrderIntentPatch" where
  "sample_patch s q b =
     \<lparr>patch_broker_order_id = Some (Some b), patch_state = Some s, patch_filled_quantity = Some q,
      patch_average_price = None, patch_broker_tag = None, patch_reject_family = None,
      patch_reject_reason = None, patch_updated_at = Some 1, patch_terminal_at = None\<rparr>"

definition sample_audit :: "string \<Rightarrow> BoxOrderIntentState \<Rightarrow> BoxOrderIntentAudit" where
  "sample_audit i s =
     \<lparr>audit_id = i, au_at = 1, au_from_state = None, au_to_state = s, au_broker_order_id = None,
      au_message = None, au_fill_identity = None, au_payload = None\<rparr>"

definition sample_created :: BoxOrderIntentRecord where
  "sample_created = intentInsertValues ''id1'' sample_intent"

definition sample_journal :: journal where
  "sample_journal = snd (createBoxOrderIntent ''id1'' sample_intent journal_empty)"

lemma sample_creation:
  "createBoxOrderIntent ''id1'' sample_intent journal_empty = (Inr sample_created, sample_journal)"
proof -
  have "createBoxOrderIntent ''id1'' sample_intent journal_empty =
     (Inr sample_created, snd (createBoxOrderIntent ''id1'' sample_intent journal_empty))"
    by (simp add: createBoxOrderIntent_def Let_def journal_empty_def sample_created_def
        row_check_def unique_ok_def intentInsertValues_def sample_intent_def IBoxOrderIntent.defs
        BoxOrderIntentRecord.defs)
  then show ?thesis by (simp add: sample_journal_def)
qed

theorem create_idempotent_witness:
  "\<exists>r'. createBoxOrderIntent ''id2'' sample_intent sample_journal = (Inr r', sample_journal)
     \<and> rec_id r' = ''id1'' \<and> first_mismatch immutable_fields r' sample_intent = None"
  using create_idempotent [OF sample_creation, of "''id2''" "[]"] by (simp add: sample_created_def)

definition sample_rejected :: journal where
  "sample_rejected =
     journal_step (Update ''BOX:t1:ENTRY:k1_ce'' (sample_patch I_REJECTED (Fin 0) ''B1'')
       (sample_audit ''x1'' I_REJECTED) None) sample_journal"

lemma sample_rejected_row:
  "rows sample_rejected ''BOX:t1:ENTRY:k1_ce'' =
     Some (patched_row (sample_patch I_REJECTED (Fin 0) ''B1'') (sample_audit ''x1'' I_REJECTED) 0
       sample_created)"
proof -
  have "rows sample_journal = [''BOX:t1:ENTRY:k1_ce'' \<mapsto> sample_created]" "db_enabled sample_journal"
    by (simp_all add: sample_journal_def createBoxOrderIntent_def Let_def journal_empty_def
        sample_created_def row_check_def unique_ok_def intentInsertValues_def sample_intent_def
        IBoxOrderIntent.defs BoxOrderIntentRecord.defs)
  then show ?thesis
    by (simp add: sample_rejected_def updateBoxOrderIntent_def Let_def stateOk_def expectedOk_def
        fillOk_def brokerOk_def patched_fill_def row_check_def unique_ok_def sample_patch_def
        sample_created_def intentInsertValues_def sample_intent_def IBoxOrderIntent.defs
        BoxOrderIntentRecord.defs patched_row_def)
qed

theorem terminal_state_absorbs_witness:
  "\<exists>r'. rows (fold journal_step
       [Update ''BOX:t1:ENTRY:k1_ce'' (sample_patch I_COMPLETE (Fin 75) ''B1'')
          (sample_audit ''x2'' I_COMPLETE) None] sample_rejected) ''BOX:t1:ENTRY:k1_ce'' = Some r'
     \<and> intent_state r' = I_REJECTED"
  using terminal_state_absorbs [OF sample_rejected_row,
      of "[Update ''BOX:t1:ENTRY:k1_ce'' (sample_patch I_COMPLETE (Fin 75) ''B1'')
          (sample_audit ''x2'' I_COMPLETE) None]"]
  by (simp add: isBrokerOrderTerminal_def sample_patch_def put_def)

end
