(* ===== verification/Order_Lifecycle.thy ===== *)
theory Order_Lifecycle
  imports Box_Types "HOL-Library.Multiset"
begin

text \<open>
  \<^verbatim>\<open>src/box/orderLifecycle.ts\<close>.  Part 1 is the observable stage vocabulary and its mapping to
  and from the durable intent states.  Part 2 is \<^verbatim>\<open>CumulativeFillLedger\<close>: the record
  \<open>ledger\<close> holds the class's private fields, \<open>ledger_apply\<close> is its method \<^verbatim>\<open>apply\<close> (state in,
  result and state out).  Quantities arrive as JavaScript numbers and are integers inside the
  ledger, because the class floors them on the way in.

  The lemmas show: the stage mappings are inverse on the durable side and agree on
  terminality; the ledger invariant; that the ledger computes exactly the maximum of the
  observations it accepts (so its final quantity does not depend on delivery order); that the
  reported deltas add up to the quantity; and the arithmetic of the terminal accounting.
\<close>

section \<open>Stages\<close>

datatype BoxOrderStage =
    S_CREATED | S_QUEUED | S_POSTING | S_BROKER_ACCEPTED | S_ACKNOWLEDGED | S_WORKING
  | S_PARTIALLY_FILLED | S_FILLED | S_CANCEL_REQUESTED | S_CANCEL_PENDING | S_CANCELLED
  | S_REJECTED | S_EXPIRED | S_UNKNOWN | S_RECONCILIATION_REQUIRED

definition BOX_ORDER_STAGES :: "BoxOrderStage list" where
  "BOX_ORDER_STAGES =
     [S_CREATED, S_QUEUED, S_POSTING, S_BROKER_ACCEPTED, S_ACKNOWLEDGED, S_WORKING,
      S_PARTIALLY_FILLED, S_FILLED, S_CANCEL_REQUESTED, S_CANCEL_PENDING, S_CANCELLED,
      S_REJECTED, S_EXPIRED, S_UNKNOWN, S_RECONCILIATION_REQUIRED]"

fun durableStateForStage :: "BoxOrderStage \<Rightarrow> BoxOrderIntentState" where
  "durableStateForStage S_CREATED = I_CREATED"
| "durableStateForStage S_QUEUED = I_CREATED"
| "durableStateForStage S_POSTING = I_SUBMITTING"
| "durableStateForStage S_BROKER_ACCEPTED = I_ACKNOWLEDGED"
| "durableStateForStage S_ACKNOWLEDGED = I_ACKNOWLEDGED"
| "durableStateForStage S_WORKING = I_OPEN"
| "durableStateForStage S_PARTIALLY_FILLED = I_PARTIALLY_FILLED"
| "durableStateForStage S_FILLED = I_COMPLETE"
| "durableStateForStage S_CANCEL_REQUESTED = I_CANCEL_REQUESTED"
| "durableStateForStage S_CANCEL_PENDING = I_CANCEL_REQUESTED"
| "durableStateForStage S_CANCELLED = I_CANCELLED"
| "durableStateForStage S_EXPIRED = I_CANCELLED"
| "durableStateForStage S_REJECTED = I_REJECTED"
| "durableStateForStage S_UNKNOWN = I_UNKNOWN"
| "durableStateForStage S_RECONCILIATION_REQUIRED = I_RECONCILIATION_REQUIRED"

fun stageForDurableState :: "BoxOrderIntentState \<Rightarrow> BoxOrderStage" where
  "stageForDurableState I_CREATED = S_CREATED"
| "stageForDurableState I_SUBMITTING = S_POSTING"
| "stageForDurableState I_ACKNOWLEDGED = S_ACKNOWLEDGED"
| "stageForDurableState I_OPEN = S_WORKING"
| "stageForDurableState I_PARTIALLY_FILLED = S_PARTIALLY_FILLED"
| "stageForDurableState I_COMPLETE = S_FILLED"
| "stageForDurableState I_CANCEL_REQUESTED = S_CANCEL_REQUESTED"
| "stageForDurableState I_CANCELLED = S_CANCELLED"
| "stageForDurableState I_REJECTED = S_REJECTED"
| "stageForDurableState I_UNKNOWN = S_UNKNOWN"
| "stageForDurableState I_RECONCILIATION_REQUIRED = S_RECONCILIATION_REQUIRED"

definition TERMINAL_STAGES :: "BoxOrderStage set" where
  "TERMINAL_STAGES = {S_FILLED, S_CANCELLED, S_REJECTED, S_EXPIRED}"

definition isTerminalStage :: "BoxOrderStage \<Rightarrow> bool" where
  "isTerminalStage st = (st \<in> TERMINAL_STAGES)"

definition stageAcceptsFurtherFills :: "BoxOrderStage \<Rightarrow> bool" where
  "stageAcceptsFurtherFills st = (\<not> isTerminalStage st)"

definition stageProvesExecution :: "BoxOrderStage \<Rightarrow> bool" where
  "stageProvesExecution st = False"

definition stageFromCumulativeQuantity :: "jsnum \<Rightarrow> jsnum \<Rightarrow> bool \<Rightarrow> BoxOrderStage" where
  "stageFromCumulativeQuantity requestedQty cumulativeQty cancelConfirmed =
     (let requested = js_max (Fin 0) (js_floor requestedQty);
          filled = js_max (Fin 0) (js_floor cumulativeQty)
      in if js_lt (Fin 0) requested \<and> js_le requested filled then S_FILLED
         else if cancelConfirmed then S_CANCELLED
         else if js_lt (Fin 0) filled then S_PARTIALLY_FILLED
         else S_WORKING)"

section \<open>The cumulative fill ledger\<close>

datatype FillEventSource =
  rest_poll | order_update | postback | trade_book | reconciliation | paper

record CumulativeFillEvent =
  ev_cumulativeQty :: jsnum
  ev_averagePrice :: "jsnum option"
  ev_eventId :: "string option"
  ev_sequence :: "jsnum option"
  ev_observedAtMono :: "jsnum option"
  ev_observedAtWall :: "jsnum option"
  ev_source :: FillEventSource

datatype FillApplyOutcome =
  applied | applied_overfill | duplicate_event | stale_cumulative | invalid

record FillApplyResult =
  res_outcome :: FillApplyOutcome
  res_delta :: int
  res_cumulative :: int
  res_remaining :: int
  res_averagePrice :: "rat option"
  res_overfill :: int
  res_sequenceRegression :: bool

record ledger =
  clientOrderId :: string
  requested :: int
  cumulativeQty :: int
  avgPrice :: "rat option"
  overfillQty :: int
  appliedCount :: nat
  duplicateCount :: nat
  staleCount :: nat
  regressionCount :: nat
  highestSequence :: "rat option"
  lastSourceSeen :: "FillEventSource option"
  firstFillMono :: "rat option"
  lastFillMono :: "rat option"
  firstFillWall :: "rat option"
  lastFillWall :: "rat option"
  seenEventIds :: "string set"

text \<open>The constructor.\<close>

definition new_ledger :: "string \<Rightarrow> jsnum \<Rightarrow> ledger" where
  "new_ledger cid requestedQty =
     \<lparr>clientOrderId = cid, requested = nonneg_floor requestedQty, cumulativeQty = 0,
      avgPrice = None, overfillQty = 0, appliedCount = 0, duplicateCount = 0, staleCount = 0,
      regressionCount = 0, highestSequence = None, lastSourceSeen = None,
      firstFillMono = None, lastFillMono = None, firstFillWall = None, lastFillWall = None,
      seenEventIds = {}\<rparr>"

text \<open>The getters.\<close>

definition remaining :: "ledger \<Rightarrow> int" where
  "remaining l = max 0 (requested l - cumulativeQty l)"

definition hasOverfill :: "ledger \<Rightarrow> bool" where
  "hasOverfill l = (0 < overfillQty l)"

definition hasExposure :: "ledger \<Rightarrow> bool" where
  "hasExposure l = (0 < cumulativeQty l)"

definition ledger_result :: "FillApplyOutcome \<Rightarrow> int \<Rightarrow> bool \<Rightarrow> ledger \<Rightarrow> FillApplyResult" where
  "ledger_result out delta regression l =
     \<lparr>res_outcome = out, res_delta = delta, res_cumulative = cumulativeQty l,
      res_remaining = remaining l, res_averagePrice = avgPrice l,
      res_overfill = overfillQty l, res_sequenceRegression = regression\<rparr>"

text \<open>\<^verbatim>\<open>event.eventId?.trim()\<close> and its truthiness: absent and blank identities are both no
  identity.\<close>

definition event_identity :: "CumulativeFillEvent \<Rightarrow> string option" where
  "event_identity e =
     (case ev_eventId e of None \<Rightarrow> None
      | Some raw \<Rightarrow> (let t = js_trim raw in if t = [] then None else Some t))"

text \<open>The guard \<^verbatim>\<open>x != null && Number.isFinite(x)\<close>.\<close>

fun finite_value :: "jsnum option \<Rightarrow> rat option" where
  "finite_value (Some (Fin q)) = Some q"
| "finite_value _ = None"

text \<open>Out-of-order detection: the new highest sequence and whether this event regressed.\<close>

definition note_sequence :: "CumulativeFillEvent \<Rightarrow> ledger \<Rightarrow> bool \<times> ledger" where
  "note_sequence e l =
     (case finite_value (ev_sequence e) of
        None \<Rightarrow> (False, l)
      | Some q \<Rightarrow>
          (case highestSequence l of
             Some h \<Rightarrow> if q \<le> h then (True, l\<lparr>regressionCount := regressionCount l + 1\<rparr>)
                       else (False, l\<lparr>highestSequence := Some q\<rparr>)
           | None \<Rightarrow> (False, l\<lparr>highestSequence := Some q\<rparr>)))"

text \<open>The writes of an event that advances the quantity.\<close>

definition stamp_price :: "CumulativeFillEvent \<Rightarrow> ledger \<Rightarrow> ledger" where
  "stamp_price e l =
     (case finite_value (ev_averagePrice e) of
        Some p \<Rightarrow> if 0 < p then l\<lparr>avgPrice := Some p\<rparr> else l
      | None \<Rightarrow> l)"

definition stamp_mono :: "CumulativeFillEvent \<Rightarrow> ledger \<Rightarrow> ledger" where
  "stamp_mono e l =
     (case finite_value (ev_observedAtMono e) of
        Some t \<Rightarrow> l\<lparr>firstFillMono := (if firstFillMono l = None then Some t else firstFillMono l),
                    lastFillMono := Some t\<rparr>
      | None \<Rightarrow> l)"

definition stamp_wall :: "CumulativeFillEvent \<Rightarrow> ledger \<Rightarrow> ledger" where
  "stamp_wall e l =
     (case finite_value (ev_observedAtWall e) of
        Some t \<Rightarrow> l\<lparr>firstFillWall := (if firstFillWall l = None then Some t else firstFillWall l),
                    lastFillWall := Some t\<rparr>
      | None \<Rightarrow> l)"

definition advance :: "CumulativeFillEvent \<Rightarrow> int \<Rightarrow> bool \<Rightarrow> ledger \<Rightarrow> FillApplyResult \<times> ledger" where
  "advance e observed regression l =
     (let delta = observed - cumulativeQty l;
          l1 = l\<lparr>cumulativeQty := observed, appliedCount := appliedCount l + 1,
                 lastSourceSeen := Some (ev_source e)\<rparr>;
          l2 = stamp_wall e (stamp_mono e (stamp_price e l1));
          l3 = l2\<lparr>overfillQty := max 0 (cumulativeQty l2 - requested l2)\<rparr>
      in (ledger_result (if 0 < overfillQty l3 then applied_overfill else applied) delta regression l3,
          l3))"

text \<open>The method \<^verbatim>\<open>apply\<close>, with its four checks in order.\<close>

definition ledger_apply :: "CumulativeFillEvent \<Rightarrow> ledger \<Rightarrow> FillApplyResult \<times> ledger" where
  "ledger_apply e l =
     (case ev_cumulativeQty e of
        Fin raw \<Rightarrow>
          if raw < 0 then (ledger_result invalid 0 False l, l)
          else
            let observed = \<lfloor>raw\<rfloor>;
                dup = (case event_identity e of None \<Rightarrow> False | Some i \<Rightarrow> i \<in> seenEventIds l)
            in if dup then
                 let l' = l\<lparr>duplicateCount := duplicateCount l + 1\<rparr>
                 in (ledger_result duplicate_event 0 False l', l')
               else
                 let l1 = (case event_identity e of None \<Rightarrow> l
                           | Some i \<Rightarrow> l\<lparr>seenEventIds := insert i (seenEventIds l)\<rparr>);
                     (regression, l2) = note_sequence e l1
                 in if observed \<le> cumulativeQty l2 then
                      let l3 = l2\<lparr>staleCount := staleCount l2 + 1\<rparr>
                      in (ledger_result stale_cumulative 0 regression l3, l3)
                    else advance e observed regression l2
      | _ \<Rightarrow> (ledger_result invalid 0 False l, l))"

definition apply_event :: "CumulativeFillEvent \<Rightarrow> ledger \<Rightarrow> ledger" where
  "apply_event e l = snd (ledger_apply e l)"

definition apply_delta :: "CumulativeFillEvent \<Rightarrow> ledger \<Rightarrow> int" where
  "apply_delta e l = res_delta (fst (ledger_apply e l))"

record FillLedgerSnapshot =
  snap_clientOrderId :: string
  snap_requestedQty :: int
  snap_cumulative :: int
  snap_remaining :: int
  snap_averagePrice :: "rat option"
  snap_overfill :: int
  snap_appliedEvents :: nat
  snap_duplicateEvents :: nat
  snap_staleEvents :: nat
  snap_sequenceRegressions :: nat
  snap_lastSource :: "FillEventSource option"
  snap_firstFillAtMono :: "rat option"
  snap_lastFillAtMono :: "rat option"
  snap_firstFillAtWall :: "rat option"
  snap_lastFillAtWall :: "rat option"

definition snapshot :: "ledger \<Rightarrow> FillLedgerSnapshot" where
  "snapshot l =
     \<lparr>snap_clientOrderId = clientOrderId l, snap_requestedQty = requested l,
      snap_cumulative = cumulativeQty l, snap_remaining = remaining l,
      snap_averagePrice = avgPrice l, snap_overfill = overfillQty l,
      snap_appliedEvents = appliedCount l, snap_duplicateEvents = duplicateCount l,
      snap_staleEvents = staleCount l, snap_sequenceRegressions = regressionCount l,
      snap_lastSource = lastSourceSeen l, snap_firstFillAtMono = firstFillMono l,
      snap_lastFillAtMono = lastFillMono l, snap_firstFillAtWall = firstFillWall l,
      snap_lastFillAtWall = lastFillWall l\<rparr>"

section \<open>Outstanding quantity and terminal accounting\<close>

definition outstandingQuantity :: "jsnum \<Rightarrow> jsnum \<Rightarrow> int" where
  "outstandingQuantity requestedQty cumulativeQ =
     (let req = nonneg_floor requestedQty; filled = nonneg_floor cumulativeQ
      in max 0 (req - filled))"

record TerminalQuantityAccounting =
  tq_requested :: jsnum
  tq_filled :: jsnum
  tq_cancelled :: jsnum
  tq_filledAtCancelRequest :: "jsnum option"
  tq_racedQuantity :: jsnum
  tq_cancelRaced :: bool

definition terminalQuantityAccounting ::
    "jsnum \<Rightarrow> jsnum \<Rightarrow> jsnum option \<Rightarrow> TerminalQuantityAccounting" where
  "terminalQuantityAccounting requestedQty finalCumulativeQty cumulativeAtCancelRequest =
     (let req = js_max (Fin 0) (js_floor requestedQty);
          filled = js_max (Fin 0) (js_floor finalCumulativeQty);
          atCancel = (case cumulativeAtCancelRequest of
                        Some x \<Rightarrow> if is_finite x then Some (js_max (Fin 0) (js_floor x)) else None
                      | None \<Rightarrow> None);
          raced = (case atCancel of None \<Rightarrow> Fin 0 | Some c \<Rightarrow> js_max (Fin 0) (js_sub filled c))
      in \<lparr>tq_requested = req, tq_filled = filled,
          tq_cancelled = js_max (Fin 0) (js_sub req filled),
          tq_filledAtCancelRequest = atCancel, tq_racedQuantity = raced,
          tq_cancelRaced = js_lt (Fin 0) raced\<rparr>)"

section \<open>Facts about the stage mappings\<close>

lemma isTerminalStage_iff_durable:
  "isTerminalStage st = isBrokerOrderTerminal (durableStateForStage st)"
  by (cases st) (simp_all add: isTerminalStage_def TERMINAL_STAGES_def isBrokerOrderTerminal_def)

lemma durable_of_stage_of_durable: "durableStateForStage (stageForDurableState s) = s"
  by (cases s) simp_all

section \<open>Facts about one ledger step\<close>

lemma note_sequence_frame [simp]:
  "cumulativeQty (snd (note_sequence e l)) = cumulativeQty l"
  "requested (snd (note_sequence e l)) = requested l"
  "overfillQty (snd (note_sequence e l)) = overfillQty l"
  "seenEventIds (snd (note_sequence e l)) = seenEventIds l"
  "appliedCount (snd (note_sequence e l)) = appliedCount l"
  "duplicateCount (snd (note_sequence e l)) = duplicateCount l"
  "staleCount (snd (note_sequence e l)) = staleCount l"
  "avgPrice (snd (note_sequence e l)) = avgPrice l"
  by (auto simp: note_sequence_def split: option.splits)

lemma stamp_frame [simp]:
  "cumulativeQty (stamp_price e l) = cumulativeQty l"
  "cumulativeQty (stamp_mono e l) = cumulativeQty l"
  "cumulativeQty (stamp_wall e l) = cumulativeQty l"
  "requested (stamp_price e l) = requested l"
  "requested (stamp_mono e l) = requested l"
  "requested (stamp_wall e l) = requested l"
  "seenEventIds (stamp_price e l) = seenEventIds l"
  "seenEventIds (stamp_mono e l) = seenEventIds l"
  "seenEventIds (stamp_wall e l) = seenEventIds l"
  "appliedCount (stamp_price e l) = appliedCount l"
  "appliedCount (stamp_mono e l) = appliedCount l"
  "appliedCount (stamp_wall e l) = appliedCount l"
  "duplicateCount (stamp_price e l) = duplicateCount l"
  "duplicateCount (stamp_mono e l) = duplicateCount l"
  "duplicateCount (stamp_wall e l) = duplicateCount l"
  "staleCount (stamp_price e l) = staleCount l"
  "staleCount (stamp_mono e l) = staleCount l"
  "staleCount (stamp_wall e l) = staleCount l"
  by (auto simp: stamp_price_def stamp_mono_def stamp_wall_def split: option.splits)

text \<open>The quantity an event observes, if it is well formed.\<close>

definition observation :: "CumulativeFillEvent \<Rightarrow> int option" where
  "observation e =
     (case ev_cumulativeQty e of Fin raw \<Rightarrow> (if raw < 0 then None else Some \<lfloor>raw\<rfloor>) | _ \<Rightarrow> None)"

text \<open>Whether the ledger has already seen an event's identity.\<close>

definition seen_before :: "CumulativeFillEvent \<Rightarrow> ledger \<Rightarrow> bool" where
  "seen_before e l = (case event_identity e of None \<Rightarrow> False | Some i \<Rightarrow> i \<in> seenEventIds l)"

lemma observation_nonneg: "observation e = Some q \<Longrightarrow> 0 \<le> q"
  by (auto simp: observation_def split: jsnum.splits if_splits)

text \<open>The four branches of \<open>ledger_apply\<close>, as far as quantity and identity go.\<close>

lemma ledger_apply_cases:
  obtains
    (invalid) "observation e = None" "ledger_apply e l = (ledger_result invalid 0 False l, l)"
  | (duplicate) q where "observation e = Some q" "seen_before e l"
      "ledger_apply e l = (ledger_result duplicate_event 0 False
         (l\<lparr>duplicateCount := duplicateCount l + 1\<rparr>), l\<lparr>duplicateCount := duplicateCount l + 1\<rparr>)"
  | (stale) q l1 b where "observation e = Some q" "\<not> seen_before e l" "q \<le> cumulativeQty l"
      "ledger_apply e l = (ledger_result stale_cumulative 0 b
         (l1\<lparr>staleCount := staleCount l1 + 1\<rparr>), l1\<lparr>staleCount := staleCount l1 + 1\<rparr>)"
      "cumulativeQty l1 = cumulativeQty l" "requested l1 = requested l"
      "overfillQty l1 = overfillQty l" "avgPrice l1 = avgPrice l"
      "appliedCount l1 = appliedCount l" "duplicateCount l1 = duplicateCount l"
      "staleCount l1 = staleCount l"
      "seenEventIds l1 = set_option (event_identity e) \<union> seenEventIds l"
  | (advance) q l1 b where "observation e = Some q" "\<not> seen_before e l" "cumulativeQty l < q"
      "ledger_apply e l = advance e q b l1"
      "cumulativeQty l1 = cumulativeQty l" "requested l1 = requested l"
      "overfillQty l1 = overfillQty l"
      "appliedCount l1 = appliedCount l" "duplicateCount l1 = duplicateCount l"
      "staleCount l1 = staleCount l"
      "seenEventIds l1 = set_option (event_identity e) \<union> seenEventIds l"
proof -
  define l1 where "l1 = (case event_identity e of None \<Rightarrow> l
      | Some i \<Rightarrow> l\<lparr>seenEventIds := insert i (seenEventIds l)\<rparr>)"
  have l1 [simp]: "cumulativeQty l1 = cumulativeQty l" "requested l1 = requested l"
    "overfillQty l1 = overfillQty l" "appliedCount l1 = appliedCount l"
    "duplicateCount l1 = duplicateCount l" "staleCount l1 = staleCount l"
    "avgPrice l1 = avgPrice l"
    "seenEventIds l1 = set_option (event_identity e) \<union> seenEventIds l"
    by (auto simp: l1_def split: option.splits)
  obtain b l2 where bl: "note_sequence e l1 = (b, l2)" by fastforce
  then have l2 [simp]: "cumulativeQty l2 = cumulativeQty l" "requested l2 = requested l"
    "overfillQty l2 = overfillQty l" "appliedCount l2 = appliedCount l"
    "duplicateCount l2 = duplicateCount l" "staleCount l2 = staleCount l"
    "avgPrice l2 = avgPrice l"
    "seenEventIds l2 = set_option (event_identity e) \<union> seenEventIds l"
    using note_sequence_frame [of e l1] by simp_all
  show thesis
  proof (cases "observation e")
    case None
    then show ?thesis
      by (intro that(1)) (auto simp: ledger_apply_def observation_def split: jsnum.splits if_splits)
  next
    case (Some q)
    then obtain raw where raw: "ev_cumulativeQty e = Fin raw" "\<not> raw < 0" "q = \<lfloor>raw\<rfloor>"
      by (auto simp: observation_def split: jsnum.splits if_splits)
    consider "seen_before e l" | "\<not> seen_before e l" "q \<le> cumulativeQty l"
      | "\<not> seen_before e l" "cumulativeQty l < q" by linarith
    then show ?thesis
    proof cases
      case 1
      then show ?thesis
        using Some raw by (intro that(2)) (auto simp: ledger_apply_def seen_before_def Let_def)
    next
      case 2
      have "ledger_apply e l = (ledger_result stale_cumulative 0 b
         (l2\<lparr>staleCount := staleCount l2 + 1\<rparr>), l2\<lparr>staleCount := staleCount l2 + 1\<rparr>)"
        using 2 raw bl by (simp add: ledger_apply_def seen_before_def Let_def l1_def [symmetric])
      then show ?thesis using 2 Some by (intro that(3) [of q b l2]) simp_all
    next
      case 3
      have "ledger_apply e l = advance e q b l2"
        using 3 raw bl by (simp add: ledger_apply_def seen_before_def Let_def l1_def [symmetric])
      then show ?thesis using 3 Some by (intro that(4) [of q b l2]) simp_all
    qed
  qed
qed

lemma advance_simps [simp]:
  "cumulativeQty (snd (advance e q b l)) = q"
  "requested (snd (advance e q b l)) = requested l"
  "overfillQty (snd (advance e q b l)) = max 0 (q - requested l)"
  "seenEventIds (snd (advance e q b l)) = seenEventIds l"
  "appliedCount (snd (advance e q b l)) = appliedCount l + 1"
  "duplicateCount (snd (advance e q b l)) = duplicateCount l"
  "staleCount (snd (advance e q b l)) = staleCount l"
  "res_delta (fst (advance e q b l)) = q - cumulativeQty l"
  by (simp_all add: advance_def Let_def ledger_result_def)

lemma res_delta_ledger_result [simp]: "res_delta (ledger_result out d b l) = d"
  by (simp add: ledger_result_def)

text \<open>One step in closed form: an accepted observation joins the quantity by maximum.\<close>

lemma apply_event_quantity:
  "cumulativeQty (apply_event e l) =
     (case observation e of
        Some q \<Rightarrow> if seen_before e l then cumulativeQty l else max (cumulativeQty l) q
      | None \<Rightarrow> cumulativeQty l)"
  by (rule ledger_apply_cases [of e l]) (simp_all add: apply_event_def)

lemma apply_event_seen:
  "seenEventIds (apply_event e l) =
     (if observation e = None \<or> seen_before e l then seenEventIds l
      else set_option (event_identity e) \<union> seenEventIds l)"
  by (rule ledger_apply_cases [of e l]) (simp_all add: apply_event_def)

lemma apply_delta_eq: "apply_delta e l = cumulativeQty (apply_event e l) - cumulativeQty l"
  by (rule ledger_apply_cases [of e l])
     (simp_all add: apply_event_def apply_delta_def)

lemma apply_event_requested [simp]: "requested (apply_event e l) = requested l"
  by (rule ledger_apply_cases [of e l]) (simp_all add: apply_event_def)

lemma apply_event_counts:
  "appliedCount (apply_event e l) + duplicateCount (apply_event e l) + staleCount (apply_event e l)
     = appliedCount l + duplicateCount l + staleCount l + (if observation e = None then 0 else 1)"
  by (rule ledger_apply_cases [of e l]) (simp_all add: apply_event_def)

section \<open>Runs of the ledger\<close>

text \<open>The reference: the observations of the well-formed events whose identity has not been
  seen, in order of arrival.\<close>

fun accepted :: "string set \<Rightarrow> CumulativeFillEvent list \<Rightarrow> int list" where
  "accepted seen [] = []"
| "accepted seen (e # es) =
     (case (observation e, event_identity e) of
        (None, _) \<Rightarrow> accepted seen es
      | (Some q, None) \<Rightarrow> q # accepted seen es
      | (Some q, Some i) \<Rightarrow>
          if i \<in> seen then accepted seen es else q # accepted (insert i seen) es)"

text \<open>The deltas a run reports.\<close>

fun ledger_deltas :: "CumulativeFillEvent list \<Rightarrow> ledger \<Rightarrow> int list" where
  "ledger_deltas [] l = []"
| "ledger_deltas (e # es) l = apply_delta e l # ledger_deltas es (apply_event e l)"

definition ledger_inv :: "ledger \<Rightarrow> bool" where
  "ledger_inv l =
     (0 \<le> requested l \<and> 0 \<le> cumulativeQty l
      \<and> overfillQty l = max 0 (cumulativeQty l - requested l))"

lemma ledger_inv_new: "ledger_inv (new_ledger cid q)"
  by (simp add: ledger_inv_def new_ledger_def)

lemma ledger_inv_apply: "ledger_inv l \<Longrightarrow> ledger_inv (apply_event e l)"
  by (rule ledger_apply_cases [of e l])
     (auto simp: apply_event_def ledger_inv_def max_def
        dest: observation_nonneg)

interpretation ledger_invariant: invariant_fold apply_event ledger_inv
  by unfold_locales (rule ledger_inv_apply)

interpretation ledger_quantity: monotone_fold apply_event cumulativeQty
  by unfold_locales (auto simp: apply_event_quantity split: option.split)

lemma fold_apply_accepted:
  "cumulativeQty (fold apply_event es l) = foldr max (accepted (seenEventIds l) es) (cumulativeQty l)"
proof (induction es arbitrary: l)
  case Nil
  show ?case by simp
next
  case (Cons e es)
  have comm: "foldr max qs (max c q) = max q (foldr max qs c)" for qs and q c :: int
    by (induction qs) (auto simp: max_def)
  show ?case
    using Cons.IH [of "apply_event e l"]
    by (cases "observation e"; cases "event_identity e")
       (auto simp: apply_event_quantity apply_event_seen seen_before_def comm
         )
qed

text \<open>Events that carry the same identity carry the same observation: what an event identity
  means (\<^verbatim>\<open>Two events with the same identity are the same event\<close>).\<close>

definition identities_consistent :: "CumulativeFillEvent set \<Rightarrow> bool" where
  "identities_consistent E =
     (\<forall>e\<in>E. \<forall>e'\<in>E. event_identity e \<noteq> None \<and> event_identity e = event_identity e'
        \<longrightarrow> observation e = observation e')"

lemma identities_consistent_mono: "identities_consistent E \<Longrightarrow> D \<subseteq> E \<Longrightarrow> identities_consistent D"
  unfolding identities_consistent_def by blast

lemma set_accepted_subset:
  "set (accepted seen es) \<subseteq> {q. \<exists>e\<in>set es. observation e = Some q}"
  by (induction es arbitrary: seen)
     (auto split: option.splits if_splits)

lemma accepted_complete:
  assumes "identities_consistent (set es)" and "e \<in> set es" and "observation e = Some q"
    and "set_option (event_identity e) \<inter> seen = {}"
  shows "q \<in> set (accepted seen es)"
  using assms
proof (induction es arbitrary: seen)
  case Nil
  then show ?case by simp
next
  case (Cons d es)
  have cons: "identities_consistent (set es)"
    by (rule identities_consistent_mono [OF Cons.prems(1)]) auto
  have rest: "e \<in> set es \<Longrightarrow> set_option (event_identity e) \<inter> s = {} \<Longrightarrow> q \<in> set (accepted s es)" for s
    using Cons.IH [OF cons _ Cons.prems(3)] by blast
  show ?case
  proof (cases "e = d")
    case True
    then show ?thesis
      using Cons.prems(3,4) by (auto split: option.splits)
  next
    case False
    then have e: "e \<in> set es" using Cons.prems(2) by simp
    show ?thesis
    proof (cases "event_identity d = event_identity e \<and> event_identity e \<noteq> None")
      case True
      then obtain i where i: "event_identity d = Some i" "event_identity e = Some i" by auto
      then have "observation d = observation e"
        using Cons.prems(1) e unfolding identities_consistent_def by (metis list.set_intros option.distinct(1))
      with i Cons.prems(3,4) show ?thesis by simp
    next
      case False
      then show ?thesis
        using rest [OF e, of seen] rest [OF e, of "insert (the (event_identity d)) seen"] Cons.prems(4)
        by (cases "observation d"; cases "event_identity d"; cases "event_identity e")
           (auto)
    qed
  qed
qed

lemma foldr_max_Max: "foldr max qs c = Max (insert c (set qs))" for c :: int
proof (induction qs)
  case (Cons q qs)
  have "foldr max (q # qs) c = max q (Max (insert c (set qs)))" using Cons.IH by simp
  also have "\<dots> = Max (insert q (insert c (set qs)))" by (rule Max.insert [symmetric]) simp_all
  finally show ?case by (simp add: insert_commute)
qed simp

lemma consistent_run_quantity:
  assumes "identities_consistent (set es)"
  shows "cumulativeQty (fold apply_event es (new_ledger cid r)) =
    Max (insert 0 {q. \<exists>e\<in>set es. observation e = Some q})"
proof -
  have "set (accepted {} es) = {q. \<exists>e\<in>set es. observation e = Some q}"
    using set_accepted_subset [of "{}" es] accepted_complete [OF assms, of _ _ "{}"] by blast
  then show ?thesis
    by (simp add: fold_apply_accepted foldr_max_Max new_ledger_def)
qed

lemma sum_ledger_deltas:
  "sum_list (ledger_deltas es l) = cumulativeQty (fold apply_event es l) - cumulativeQty l"
  by (induction es arbitrary: l) (simp_all add: apply_delta_eq)

lemma ledger_deltas_nonneg: "d \<in> set (ledger_deltas es l) \<Longrightarrow> 0 \<le> d"
  by (induction es arbitrary: l) (auto simp: apply_delta_eq ledger_quantity.mono_op)

section \<open>Properties\<close>

text \<open>C1. The fill ledger refines its reference: after any sequence of events, delivered in any
  order and with any redelivery, the cumulative quantity is the maximum of the starting
  quantity and the observations of the well-formed, not previously seen events.\<close>

theorem ledger_refines_maximum:
  "cumulativeQty (fold apply_event es (new_ledger cid r)) = foldr max (accepted {} es) 0"
  by (simp add: fold_apply_accepted) (simp add: new_ledger_def)

text \<open>Delivery order and redelivery do not matter: two event sequences with the same set of
  events leave two fresh ledgers of an order with the same cumulative quantity, the same
  outstanding remainder and the same overfill, provided equal event identities mean equal
  observations.\<close>

theorem ledger_delivery_order_irrelevant:
  assumes "set es = set es'" and "identities_consistent (set es)"
  shows "cumulativeQty (fold apply_event es (new_ledger cid r)) =
           cumulativeQty (fold apply_event es' (new_ledger cid r))
       \<and> remaining (fold apply_event es (new_ledger cid r)) =
           remaining (fold apply_event es' (new_ledger cid r))
       \<and> overfillQty (fold apply_event es (new_ledger cid r)) =
           overfillQty (fold apply_event es' (new_ledger cid r))"
proof -
  have req: "requested (fold apply_event xs l) = requested l" for xs l
    by (induction xs arbitrary: l) simp_all
  have q: "cumulativeQty (fold apply_event es (new_ledger cid r)) =
           cumulativeQty (fold apply_event es' (new_ledger cid r))"
    using consistent_run_quantity [OF assms(2)] consistent_run_quantity [of es'] assms
    by simp
  have "ledger_inv (fold apply_event xs (new_ledger cid r))" for xs
    by (rule ledger_invariant.fold_inv [OF ledger_inv_new])
  with q req show ?thesis by (simp add: ledger_inv_def remaining_def)
qed

definition sample_fill :: "int \<Rightarrow> string \<Rightarrow> CumulativeFillEvent" where
  "sample_fill q i =
     \<lparr>ev_cumulativeQty = js_int q, ev_averagePrice = None, ev_eventId = Some i,
      ev_sequence = None, ev_observedAtMono = None, ev_observedAtWall = None,
      ev_source = order_update\<rparr>"

theorem ledger_delivery_order_irrelevant_witness:
  "cumulativeQty (fold apply_event [sample_fill 40 ''t1'', sample_fill 52 ''t2'', sample_fill 40 ''t1'']
     (new_ledger ''o'' (Fin 75))) =
   cumulativeQty (fold apply_event [sample_fill 52 ''t2'', sample_fill 40 ''t1'']
     (new_ledger ''o'' (Fin 75)))"
proof -
  have "identities_consistent (set [sample_fill 40 ''t1'', sample_fill 52 ''t2'', sample_fill 40 ''t1''])"
    by (auto simp: identities_consistent_def sample_fill_def event_identity_def js_trim_def
        is_js_space_def observation_def)
  from ledger_delivery_order_irrelevant [OF _ this,
      of "[sample_fill 52 ''t2'', sample_fill 40 ''t1'']" "''o''" "Fin 75"]
  show ?thesis by auto
qed

text \<open>Exactly-once attribution: the deltas a run of the ledger reports are never negative and
  add up to the quantity it ends with, so no fill is attributed twice and none is lost.\<close>

theorem ledger_deltas_attribute_once:
  "sum_list (ledger_deltas es (new_ledger cid r)) =
     cumulativeQty (fold apply_event es (new_ledger cid r))
   \<and> list_all (\<lambda>d. 0 \<le> d) (ledger_deltas es (new_ledger cid r))"
  by (auto simp: sum_ledger_deltas new_ledger_def list_all_iff dest: ledger_deltas_nonneg)

text \<open>The cancel race is accounted exactly: if a ledger has seen the events \<open>es1\<close> when the
  cancel is requested and \<open>es2\<close> afterwards, the terminal accounting reports the ledger's
  final quantity as filled, the sum of the later deltas as raced quantity, the ledger's
  remainder as cancelled, and a race exactly when quantity arrived after the request.\<close>

theorem cancel_race_accounted:
  fixes es1 es2 cid r
  defines "l1 \<equiv> fold apply_event es1 (new_ledger cid r)"
  defines "l2 \<equiv> fold apply_event es2 l1"
  defines "t \<equiv> terminalQuantityAccounting (js_int (requested l2)) (js_int (cumulativeQty l2))
                 (Some (js_int (cumulativeQty l1)))"
  shows "tq_filled t = js_int (cumulativeQty l2)
       \<and> tq_racedQuantity t = js_int (sum_list (ledger_deltas es2 l1))
       \<and> tq_cancelled t = js_int (remaining l2)
       \<and> tq_cancelRaced t = (cumulativeQty l1 < cumulativeQty l2)"
proof -
  have inv1: "ledger_inv l1"
    unfolding l1_def by (rule ledger_invariant.fold_inv [OF ledger_inv_new])
  have inv2: "ledger_inv l2"
    unfolding l2_def by (rule ledger_invariant.fold_inv [OF inv1])
  have mono: "cumulativeQty l1 \<le> cumulativeQty l2"
    unfolding l2_def by (rule ledger_quantity.fold_mono)
  have max0: "max 0 (rat_of_int a) = rat_of_int (max 0 a)" for a by (simp add: max_def)
  have diff: "max 0 (rat_of_int a - rat_of_int b) = rat_of_int (max 0 (a - b))" for a b
    by (simp add: max_def)
  from inv1 inv2 have nn: "0 \<le> requested l2" "0 \<le> cumulativeQty l1" "0 \<le> cumulativeQty l2"
    by (simp_all add: ledger_inv_def)
  have "sum_list (ledger_deltas es2 l1) = cumulativeQty l2 - cumulativeQty l1"
    unfolding l2_def by (rule sum_ledger_deltas)
  with nn mono show ?thesis
    by (simp add: t_def terminalQuantityAccounting_def Let_def remaining_def max0 diff)
qed

text \<open>C2. The stage vocabulary and the durable vocabulary agree: rehydrating a durable state and
  persisting it again is the identity, a stage is terminal exactly when the state it persists
  as is terminal at the broker, and a stage still accepts fills in every other case, a pending
  cancel included.\<close>

theorem stage_mapping_roundtrip:
  "durableStateForStage (stageForDurableState s) = s
   \<and> isTerminalStage st = isBrokerOrderTerminal (durableStateForStage st)
   \<and> stageAcceptsFurtherFills st = (\<not> isBrokerOrderTerminal (durableStateForStage st))
   \<and> stageAcceptsFurtherFills S_CANCEL_REQUESTED \<and> stageAcceptsFurtherFills S_CANCEL_PENDING
   \<and> stageAcceptsFurtherFills S_UNKNOWN \<and> \<not> stageProvesExecution st"
  by (simp add: durable_of_stage_of_durable isTerminalStage_iff_durable stageAcceptsFurtherFills_def
      stageProvesExecution_def isBrokerOrderTerminal_def)

end
