(* ===== verification/Order_Manager.thy ===== *)
theory Order_Manager
  imports Intent_Journal Order_Lifecycle "HOL-Library.AList"
begin

text \<open>
  The safety bookkeeping of \<^verbatim>\<open>BoxOrderManager\<close> in \<^verbatim>\<open>src/box/orderManager.ts\<close>: the circuit
  breaker and entry gates, the quantity reservations taken by \<^verbatim>\<open>submit\<close>, the attribution of
  fills to positions by \<^verbatim>\<open>persistOrder\<close>, and the absolute rebuild of both by reconciliation.

  Maps that the source iterates are association lists with the semantics of a JavaScript
  \<^verbatim>\<open>Map\<close>: \<^const>\<open>AList.update\<close> keeps the position of a key it already holds and appends a new
  one.  Telemetry (timing traces, stream ownership) does not change the modelled state and is
  left out; eviction from the time-bounded cache of tripwire ledgers is a step of its own.

  The lemmas show that the breaker latches and never blocks reductions, that reductions admitted
  together never exceed the attributed exposure, that fills are attributed exactly as the
  journal records them, and that reconciliation rebuilds the same attribution.
\<close>

section \<open>State\<close>

datatype health_status = hs_unknown | hs_healthy | hs_unhealthy | hs_disabled | hs_seeding | hs_failed

datatype TripReason =
    overfill_reported string
  | persistence_lost_after_fill string
  | invariant_violation string
  | quarantine_transition_refused string
  | daily_loss_limit_reached | reject_limit_reached | residual_leg_limit_exceeded
  | open_box_limit_exceeded | gross_quantity_limit_exceeded

record OrderManagerLimits =
  maxOpenBoxes :: int
  maxResidualLegs :: int
  dailyLossLimit :: rat
  rejectLimit :: int
  maxOpenLegQuantity :: rat
  maxGrossOpenLegQuantity :: rat
  feedReconnectWarmupMs :: int

record manager =
  entryEnabled :: bool
  liveOrderEnabled :: bool
  disposed :: bool
  breakerReason :: "TripReason option"
  h_persistence :: health_status
  h_daily_risk_seed :: health_status
  h_broker_auth :: health_status
  h_broker_orders_api :: health_status
  h_broker_positions_api :: health_status
  h_reconciliation_complete :: bool
  unknownOrders :: nat
  recoveryActive :: bool
  crashOnlyAttributedExposure :: bool
  feedHealthy :: bool
  feedWarmUntil :: jsnum
  openBoxes :: int
  residualLegs :: int
  rejects :: int
  realisedPnlToday :: rat
  tradingDay :: string
  grossOpenLegQuantity :: rat
  reservedEntryQuantity :: rat
  reservedReductionQuantity :: rat
  activeClientIds :: "string set"
  reservations :: "(string \<times> rat) list"
  reductionReservations :: "(string \<times> string \<times> rat) list"
  reservedReductionsBySymbol :: "(string \<times> rat) list"
  attributedBoxPositions :: "(string \<times> rat) list"
  knownIntents :: "string \<rightharpoonup> BoxOrderIntentRecord"
  durableTransitionRefusals :: nat
  overfillTripwireLedgers :: "string \<rightharpoonup> ledger"

text \<open>\<^verbatim>\<open>map.get(key) ?? 0\<close>.\<close>

definition get0 :: "(string \<times> rat) list \<Rightarrow> string \<Rightarrow> rat" where
  "get0 m k = (case map_of m k of Some v \<Rightarrow> v | None \<Rightarrow> 0)"

definition symbol_of :: "string \<Rightarrow> string \<Rightarrow> string" where
  "symbol_of ex ts = ex @ '':'' @ ts"

section \<open>Circuit breaker and entry gates\<close>

definition trip :: "TripReason \<Rightarrow> manager \<Rightarrow> manager" where
  "trip r m =
     (if breakerReason m \<noteq> None then m
      else m\<lparr>breakerReason := Some r, entryEnabled := False\<rparr>)"

definition invariantViolation :: "string \<Rightarrow> manager \<Rightarrow> manager" where
  "invariantViolation why m = trip (invariant_violation why) (m\<lparr>recoveryActive := True\<rparr>)"

definition evaluateLimits :: "OrderManagerLimits \<Rightarrow> manager \<Rightarrow> manager" where
  "evaluateLimits lms m =
     (let m1 = (if 0 < dailyLossLimit lms \<and> realisedPnlToday m \<le> - dailyLossLimit lms
                then trip daily_loss_limit_reached m else m);
          m2 = (if rejectLimit lms \<le> rejects m1 then trip reject_limit_reached m1 else m1);
          m3 = (if maxResidualLegs lms < residualLegs m2 then trip residual_leg_limit_exceeded m2 else m2);
          m4 = (if maxOpenBoxes lms < openBoxes m3 then trip open_box_limit_exceeded m3 else m3)
      in if maxGrossOpenLegQuantity lms < grossOpenLegQuantity m4
         then trip gross_quantity_limit_exceeded m4 else m4)"

definition setFeedHealthy :: "OrderManagerLimits \<Rightarrow> int \<Rightarrow> bool \<Rightarrow> manager \<Rightarrow> manager" where
  "setFeedHealthy lms now healthy m =
     (let m1 = (if healthy \<and> \<not> feedHealthy m
                then m\<lparr>feedWarmUntil := js_int (now + feedReconnectWarmupMs lms)\<rparr> else m);
          m2 = (if \<not> healthy then m1\<lparr>feedWarmUntil := PosInf\<rparr> else m1)
      in m2\<lparr>feedHealthy := healthy\<rparr>)"

definition recordRealisedPnl :: "OrderManagerLimits \<Rightarrow> jsnum \<Rightarrow> manager \<Rightarrow> manager" where
  "recordRealisedPnl lms delta m =
     (case delta of
        Fin d \<Rightarrow> evaluateLimits lms (m\<lparr>realisedPnlToday := realisedPnlToday m + d\<rparr>)
      | _ \<Rightarrow> m)"

text \<open>The day roll: process-local counters restart, and entries stay closed until the new day's risk
  has been loaded and a reconciliation has run.  \<open>has_loader\<close> says whether a seed loader is
  configured; the loads it starts are not modelled.\<close>

definition rollTradingDay :: "bool \<Rightarrow> string \<Rightarrow> manager \<Rightarrow> manager" where
  "rollTradingDay has_loader today m =
     (if today = tradingDay m then m
      else m\<lparr>tradingDay := today, realisedPnlToday := 0, rejects := 0,
             h_daily_risk_seed := (if \<not> disposed m \<and> \<not> has_loader then hs_failed else hs_seeding),
             h_reconciliation_complete := False\<rparr>)"

text \<open>\<open>crash_ready\<close> is the answer of \<^verbatim>\<open>isCrashRecoveryPersistenceReady\<close>, \<^const>\<open>None\<close> when it is
  absent or throws.\<close>

definition isCrashRecoveryEntryQuarantined :: "bool option \<Rightarrow> manager \<Rightarrow> bool" where
  "isCrashRecoveryEntryQuarantined crash_ready m =
     (crashOnlyAttributedExposure m \<and> crash_ready \<noteq> Some True)"

record BrokerOrderRequest =
  rq_client_order_id :: string
  rq_role :: BoxLegRole
  rq_trade_id :: "string option"
  rq_attempt_id :: string
  rq_purpose :: BoxOrderPurpose
  rq_phase :: BoxOrderPhase
  rq_exchange :: string
  rq_tradingsymbol :: string
  rq_token :: int
  rq_side :: OrderSide
  rq_quantity :: rat
  rq_reference_price :: rat
  rq_tick_size :: rat
  rq_max_chase_ticks :: rat
  rq_limit_price :: rat
  rq_tag :: "string option"

abbreviation rq_symbol :: "BrokerOrderRequest \<Rightarrow> string" where
  "rq_symbol r \<equiv> symbol_of (rq_exchange r) (rq_tradingsymbol r)"

definition correct_side :: "rat \<Rightarrow> OrderSide \<Rightarrow> bool" where
  "correct_side net s = ((0 < net \<and> s = SELL) \<or> (net < 0 \<and> s = BUY))"

definition withinQuantityLimits :: "OrderManagerLimits \<Rightarrow> BrokerOrderRequest \<Rightarrow> manager \<Rightarrow> bool" where
  "withinQuantityLimits lms r m =
     (if maxOpenLegQuantity lms < rq_quantity r then False
      else if rq_purpose r = ENTRY then
        grossOpenLegQuantity m + reservedEntryQuantity m + rq_quantity r \<le> maxGrossOpenLegQuantity lms
      else if rq_purpose r = PROTECTIVE_CANCEL then True
      else
        let net = get0 (attributedBoxPositions m) (rq_symbol r);
            alreadyReserved = get0 (reservedReductionsBySymbol m) (rq_symbol r)
        in correct_side net (rq_side r) \<and> rq_quantity r + alreadyReserved \<le> \<bar>net\<bar>)"

text \<open>\<^verbatim>\<open>canEnter\<close> after it has rolled the trading day.\<close>

definition canEnter ::
    "OrderManagerLimits \<Rightarrow> int \<Rightarrow> bool option \<Rightarrow> BrokerOrderRequest option \<Rightarrow> manager \<Rightarrow> bool" where
  "canEnter lms now crash_ready request m =
     (\<not> (disposed m \<or> breakerReason m \<noteq> None)
      \<and> \<not> (\<not> entryEnabled m \<or> \<not> liveOrderEnabled m)
      \<and> \<not> (h_persistence m \<noteq> hs_healthy \<or> h_daily_risk_seed m \<noteq> hs_healthy
           \<or> \<not> h_reconciliation_complete m)
      \<and> \<not> (h_broker_auth m \<noteq> hs_healthy \<or> h_broker_orders_api m \<noteq> hs_healthy
           \<or> h_broker_positions_api m \<noteq> hs_healthy)
      \<and> \<not> (0 < unknownOrders m \<or> recoveryActive m)
      \<and> \<not> isCrashRecoveryEntryQuarantined crash_ready m
      \<and> \<not> (\<not> feedHealthy m \<or> js_lt (js_int now) (feedWarmUntil m))
      \<and> openBoxes m < maxOpenBoxes lms
      \<and> residualLegs m \<le> maxResidualLegs lms
      \<and> (case request of None \<Rightarrow> True | Some r \<Rightarrow> withinQuantityLimits lms r m))"

definition canManageExposure :: "manager \<Rightarrow> bool" where
  "canManageExposure m = (\<not> disposed m \<and> liveOrderEnabled m)"

section \<open>Reservations\<close>

datatype submit_refusal =
    entry_guard_refused | entry_closed | exposure_management_disabled | exceeds_quantity_limits
  | already_active

text \<open>The reservation \<^verbatim>\<open>submit\<close> takes before it enqueues.\<close>

definition reserve :: "BrokerOrderRequest \<Rightarrow> manager \<Rightarrow> manager" where
  "reserve r m =
     (let m1 = m\<lparr>activeClientIds := insert (rq_client_order_id r) (activeClientIds m)\<rparr> in
      if rq_purpose r = ENTRY then
        m1\<lparr>reservations := AList.update (rq_client_order_id r) (rq_quantity r) (reservations m1),
           reservedEntryQuantity := reservedEntryQuantity m1 + rq_quantity r\<rparr>
      else if rq_purpose r \<noteq> PROTECTIVE_CANCEL then
        m1\<lparr>reductionReservations :=
             AList.update (rq_client_order_id r) (rq_symbol r, rq_quantity r) (reductionReservations m1),
           reservedReductionsBySymbol :=
             AList.update (rq_symbol r)
               (get0 (reservedReductionsBySymbol m1) (rq_symbol r) + rq_quantity r)
               (reservedReductionsBySymbol m1),
           reservedReductionQuantity := reservedReductionQuantity m1 + rq_quantity r\<rparr>
      else m1)"

text \<open>\<^verbatim>\<open>submit\<close> up to the enqueue; \<open>guard_allowed\<close> is the decision of the entry guard at the
  pre-enqueue stage, consulted for entries only.\<close>

definition submit ::
    "OrderManagerLimits \<Rightarrow> int \<Rightarrow> bool option \<Rightarrow> bool \<Rightarrow> BrokerOrderRequest \<Rightarrow> manager \<Rightarrow>
     (submit_refusal + manager)" where
  "submit lms now crash_ready guard_allowed r m =
     (if rq_purpose r = ENTRY \<and> \<not> guard_allowed then Inl entry_guard_refused
      else if rq_purpose r = ENTRY \<and> \<not> canEnter lms now crash_ready (Some r) m then Inl entry_closed
      else if rq_purpose r \<noteq> ENTRY \<and> \<not> canManageExposure m then Inl exposure_management_disabled
      else if \<not> withinQuantityLimits lms r m then Inl exceeds_quantity_limits
      else if rq_client_order_id r \<in> activeClientIds m then Inl already_active
      else Inr (reserve r m))"

definition releaseReservation :: "string \<Rightarrow> manager \<Rightarrow> manager" where
  "releaseReservation cid m =
     (let q = get0 (reservations m) cid;
          m1 = (if 0 < q then m\<lparr>reservedEntryQuantity := max 0 (reservedEntryQuantity m - q)\<rparr> else m);
          m2 = m1\<lparr>reservations := AList.delete cid (reservations m1)\<rparr>
      in case map_of (reductionReservations m2) cid of
           None \<Rightarrow> m2
         | Some (sy, rq) \<Rightarrow>
             let left = max 0 (get0 (reservedReductionsBySymbol m2) sy - rq) in
             m2\<lparr>reservedReductionsBySymbol :=
                  (if left = 0 then AList.delete sy (reservedReductionsBySymbol m2)
                   else AList.update sy left (reservedReductionsBySymbol m2)),
                reservedReductionQuantity := max 0 (reservedReductionQuantity m2 - rq),
                reductionReservations := AList.delete cid (reductionReservations m2)\<rparr>)"

section \<open>Attribution\<close>

definition recalculateGrossAttributedQuantity :: "manager \<Rightarrow> manager" where
  "recalculateGrossAttributedQuantity m =
     m\<lparr>grossOpenLegQuantity := sum_list (map (\<lambda>p. \<bar>snd p\<bar>) (attributedBoxPositions m))\<rparr>"

text \<open>\<^verbatim>\<open>durableFillDelta\<close>: the delta and the manager, which the two defensive branches trip.\<close>

definition durableFillDelta :: "BoxOrderIntentUpdateResult \<Rightarrow> manager \<Rightarrow> rat \<times> manager" where
  "durableFillDelta res m =
     (if \<not> up_applied res then (0, m)
      else case (up_previous res, up_current res) of
        (Some p, Some c) \<Rightarrow>
          if c - p < 0 then (0, invariantViolation ''durable filled quantity regressed'' m)
          else (c - p, m)
      | _ \<Rightarrow> (0, invariantViolation ''durable persistence did not report the fill transition'' m))"

definition signed :: "OrderSide \<Rightarrow> rat \<Rightarrow> rat" where
  "signed s q = (if s = BUY then q else - q)"

abbreviation intent_symbol :: "'a IBoxOrderIntent_scheme \<Rightarrow> string" where
  "intent_symbol i \<equiv> symbol_of (exchange i) (tradingsymbol i)"

definition attribute_fill :: "BoxOrderIntentRecord \<Rightarrow> rat \<Rightarrow> manager \<Rightarrow> manager" where
  "attribute_fill r delta m =
     (if 0 < delta then
        recalculateGrossAttributedQuantity
          (m\<lparr>attributedBoxPositions :=
               AList.update (intent_symbol r)
                 (get0 (attributedBoxPositions m) (intent_symbol r) + signed (side r) delta)
                 (attributedBoxPositions m)\<rparr>)
      else m)"

record BrokerOrder =
  bo_client_order_id :: string
  bo_broker_order_id :: "string option"
  bo_tag :: "string option"
  bo_token :: int
  bo_tradingsymbol :: string
  bo_side :: OrderSide
  bo_quantity :: jsnum
  bo_state :: BoxOrderIntentState
  bo_filled_quantity :: jsnum
  bo_average_price :: "rat option"
  bo_fills :: "string list"
  bo_reject_family :: "string option"
  bo_reject_reason :: "string option"
  bo_updated_at :: int

definition checkOverfillTripwire :: "BrokerOrder \<Rightarrow> manager \<Rightarrow> manager" where
  "checkOverfillTripwire order m =
     (let cid = bo_client_order_id order;
          l = (case overfillTripwireLedgers m cid of Some l \<Rightarrow> l
               | None \<Rightarrow> new_ledger cid (bo_quantity order));
          (res, l') = ledger_apply
            \<lparr>ev_cumulativeQty = bo_filled_quantity order,
             ev_averagePrice = map_option Fin (bo_average_price order),
             ev_eventId = (if bo_fills order = [] then None else Some (last (bo_fills order))),
             ev_sequence = None, ev_observedAtMono = None,
             ev_observedAtWall = Some (js_int (bo_updated_at order)), ev_source = rest_poll\<rparr> l;
          m1 = m\<lparr>overfillTripwireLedgers := (overfillTripwireLedgers m)(cid \<mapsto> l')\<rparr>
      in if res_outcome res = applied_overfill then trip (overfill_reported cid) m1 else m1)"

definition state_name :: "BoxOrderIntentState \<Rightarrow> string" where
  "state_name s = (case s of
       I_CREATED \<Rightarrow> ''CREATED'' | I_SUBMITTING \<Rightarrow> ''SUBMITTING'' | I_ACKNOWLEDGED \<Rightarrow> ''ACKNOWLEDGED''
     | I_OPEN \<Rightarrow> ''OPEN'' | I_PARTIALLY_FILLED \<Rightarrow> ''PARTIALLY_FILLED'' | I_COMPLETE \<Rightarrow> ''COMPLETE''
     | I_CANCEL_REQUESTED \<Rightarrow> ''CANCEL_REQUESTED'' | I_CANCELLED \<Rightarrow> ''CANCELLED''
     | I_REJECTED \<Rightarrow> ''REJECTED'' | I_UNKNOWN \<Rightarrow> ''UNKNOWN''
     | I_RECONCILIATION_REQUIRED \<Rightarrow> ''RECONCILIATION_REQUIRED'')"

definition auditFor ::
    "BoxOrderIntentRecord \<Rightarrow> BoxOrderIntentState \<Rightarrow> string option \<Rightarrow> string \<Rightarrow> string option \<Rightarrow> int \<Rightarrow>
     string option \<Rightarrow> BoxOrderIntentAudit" where
  "auditFor i st boid msg fid now payload =
     \<lparr>audit_id = client_order_id i @ '':'' @ state_name (intent_state i) @ ''->'' @ state_name st @ '':''
        @ (case boid of Some b \<Rightarrow> b | None \<Rightarrow> ''none'') @ '':''
        @ (case fid of Some f \<Rightarrow> f | None \<Rightarrow> ''none''),
      au_at = now, au_from_state = Some (intent_state i), au_to_state = st,
      au_broker_order_id = boid, au_message = Some msg, au_fill_identity = fid, au_payload = payload\<rparr>"

text \<open>The patch \<^verbatim>\<open>persistOrder\<close> writes.\<close>

definition order_patch :: "BrokerOrder \<Rightarrow> BoxOrderIntentPatch" where
  "order_patch order =
     \<lparr>patch_broker_order_id = Some (bo_broker_order_id order), patch_state = Some (bo_state order),
      patch_filled_quantity = Some (bo_filled_quantity order),
      patch_average_price = Some (bo_average_price order), patch_broker_tag = Some (bo_tag order),
      patch_reject_family = Some (bo_reject_family order),
      patch_reject_reason = Some (bo_reject_reason order),
      patch_updated_at = Some (bo_updated_at order),
      patch_terminal_at =
        Some (if isBrokerOrderTerminal (bo_state order) then Some (bo_updated_at order) else None)\<rparr>"

datatype persist_error =
  Journal_Failed journal_error | Intent_Disappeared | Persistence_Lost_After_Fill

text \<open>The \<^verbatim>\<open>catch\<close> of \<^verbatim>\<open>persistOrder\<close>.\<close>

definition persist_failed ::
    "persist_error \<Rightarrow> BrokerOrder \<Rightarrow> manager \<Rightarrow> (persist_error + BoxOrderIntentRecord) \<times> manager" where
  "persist_failed e order m =
     (let m1 = m\<lparr>h_persistence := hs_unhealthy\<rparr> in
      if js_lt (Fin 0) (bo_filled_quantity order)
      then (Inl Persistence_Lost_After_Fill,
            trip (persistence_lost_after_fill (bo_client_order_id order)) m1)
      else (Inl e, m1))"

definition persistOrder ::
    "int \<Rightarrow> BoxOrderIntentRecord \<Rightarrow> BrokerOrder \<Rightarrow> string \<Rightarrow> manager \<times> journal \<Rightarrow>
     (persist_error + BoxOrderIntentRecord) \<times> manager \<times> journal" where
  "persistOrder now intent order msg mj =
     (let m0 = checkOverfillTripwire order (fst mj);
          fid = (if bo_fills order = [] then None else Some (last (bo_fills order)));
          (res, j') = updateBoxOrderIntent (client_order_id intent) (order_patch order)
                        (auditFor intent (bo_state order) (bo_broker_order_id order) msg fid now None)
                        None (snd mj)
      in case res of
           Inl e \<Rightarrow> (let (r, m1) = persist_failed (Journal_Failed e) order m0 in (r, m1, j'))
         | Inr u \<Rightarrow>
             (case up_intent u of
                None \<Rightarrow> (let (r, m1) = persist_failed Intent_Disappeared order m0 in (r, m1, j'))
              | Some updated \<Rightarrow>
                  let (delta, m1) = durableFillDelta u m0;
                      m2 = attribute_fill updated delta m1;
                      m3 = m2\<lparr>knownIntents := (knownIntents m2)(client_order_id updated \<mapsto> updated)\<rparr>;
                      m4 = (if isBrokerOrderTerminal (bo_state order)
                            then releaseReservation (client_order_id updated) m3 else m3)
                  in (Inr updated, m4\<lparr>h_persistence := hs_healthy\<rparr>, j')))"

definition RECONCILE_STATES :: "BoxOrderIntentState set" where
  "RECONCILE_STATES = {I_UNKNOWN, I_RECONCILIATION_REQUIRED}"

text \<open>\<^verbatim>\<open>transitionResult\<close>: the same compare-and-set without a fill.\<close>

definition transition_patch :: "BoxOrderIntentState \<Rightarrow> string option \<Rightarrow> int \<Rightarrow> BoxOrderIntentPatch" where
  "transition_patch st boid now =
     \<lparr>patch_broker_order_id = Some boid, patch_state = Some st, patch_filled_quantity = None,
      patch_average_price = None, patch_broker_tag = None, patch_reject_family = None,
      patch_reject_reason = None, patch_updated_at = Some now,
      patch_terminal_at = Some (if isBrokerOrderTerminal st then Some now else None)\<rparr>"

definition transitionResult ::
    "int \<Rightarrow> BoxOrderIntentRecord \<Rightarrow> BoxOrderIntentState \<Rightarrow> string option \<Rightarrow> string \<Rightarrow>
     BoxOrderIntentState list option \<Rightarrow> string option \<Rightarrow> manager \<times> journal \<Rightarrow>
     (persist_error + BoxOrderIntentUpdateResult) \<times> manager \<times> journal" where
  "transitionResult now intent st boid msg expected payload mj =
     (let m = fst mj;
          (res, j') = updateBoxOrderIntent (client_order_id intent) (transition_patch st boid now)
                        (auditFor intent st boid msg None now payload) expected (snd mj)
      in case res of
           Inl e \<Rightarrow> (Inl (Journal_Failed e), m, j')
         | Inr u \<Rightarrow>
             (case up_intent u of
                None \<Rightarrow> (Inl Intent_Disappeared, m, j')
              | Some updated \<Rightarrow>
                  let m1 = (if up_applied u then m
                            else let m' = m\<lparr>durableTransitionRefusals := durableTransitionRefusals m + 1\<rparr>
                                 in if st = I_RECONCILIATION_REQUIRED
                                       \<and> intent_state updated \<notin> RECONCILE_STATES
                                    then trip (quarantine_transition_refused (client_order_id intent)) m'
                                    else m')
                  in (Inr u, m1\<lparr>knownIntents := (knownIntents m1)(client_order_id updated \<mapsto> updated)\<rparr>, j')))"

definition intentFromRequest :: "BrokerOrderRequest \<Rightarrow> BrokerMode \<Rightarrow> int \<Rightarrow> IBoxOrderIntent" where
  "intentFromRequest r mode now =
     \<lparr>client_order_id = rq_client_order_id r, broker_order_id = None, broker_mode = mode,
      broker = None, broker_correlation_id = None, trade_id = rq_trade_id r,
      attempt_id = rq_attempt_id r, role = rq_role r, purpose = rq_purpose r, phase = rq_phase r,
      exchange = rq_exchange r, tradingsymbol = rq_tradingsymbol r, token = rq_token r,
      side = rq_side r, quantity = rq_quantity r, reference_price = rq_reference_price r,
      tick_size = rq_tick_size r, max_chase_ticks = rq_max_chase_ticks r,
      limit_price = rq_limit_price r, intent_state = I_CREATED, filled_quantity = 0,
      previous_filled_quantity = None, average_price = None, broker_tag = rq_tag r,
      reject_family = None, reject_reason = None, created_at = now, updated_at = now,
      terminal_at = None,
      audit = [\<lparr>audit_id = rq_client_order_id r @ '':CREATED'', au_at = now, au_from_state = None,
                au_to_state = I_CREATED, au_broker_order_id = None,
                au_message = Some ''durable order intent created before submission'',
                au_fill_identity = None, au_payload = None\<rparr>]\<rparr>"

section \<open>Reconciliation's absolute rebuild\<close>

text \<open>The loop that nets the owned intents by symbol, skipping intents without a fill.\<close>

definition net_intent :: "BoxOrderIntentRecord \<Rightarrow> (string \<times> rat) list \<Rightarrow> (string \<times> rat) list" where
  "net_intent i m =
     (if filled_quantity i \<le> 0 then m
      else AList.update (intent_symbol i)
             (get0 m (intent_symbol i) + (if side i = BUY then 1 else -1) * filled_quantity i) m)"

definition intentNetBySymbol :: "BoxOrderIntentRecord list \<Rightarrow> (string \<times> rat) list" where
  "intentNetBySymbol owned = fold net_intent owned []"

definition ownedSymbols :: "BoxOrderIntentRecord list \<Rightarrow> string list" where
  "ownedSymbols owned = dedupe_from {} (map intent_symbol owned)"

definition rebuildAttribution :: "BoxOrderIntentRecord list \<Rightarrow> manager \<Rightarrow> manager" where
  "rebuildAttribution owned m =
     recalculateGrossAttributedQuantity
       (m\<lparr>attributedBoxPositions :=
            fold (\<lambda>sy. AList.update sy (get0 (intentNetBySymbol owned) sy)) (ownedSymbols owned)
              (attributedBoxPositions m)\<rparr>)"

text \<open>The reservations a first reconciliation rebuilds from the intents that are not terminal.\<close>

definition rebuild_reservation :: "BoxOrderIntentRecord \<Rightarrow> manager \<Rightarrow> manager" where
  "rebuild_reservation i m =
     (let left = max 0 (quantity i - filled_quantity i) in
      if left = 0 then m
      else if purpose i = ENTRY then
        m\<lparr>reservations := AList.update (client_order_id i) left (reservations m),
          reservedEntryQuantity := reservedEntryQuantity m + left\<rparr>
      else if purpose i \<noteq> PROTECTIVE_CANCEL then
        m\<lparr>reductionReservations :=
            AList.update (client_order_id i) (intent_symbol i, left) (reductionReservations m),
          reservedReductionsBySymbol :=
            AList.update (intent_symbol i) (get0 (reservedReductionsBySymbol m) (intent_symbol i) + left)
              (reservedReductionsBySymbol m),
          reservedReductionQuantity := reservedReductionQuantity m + left\<rparr>
      else m)"

definition rebuildReservations :: "BoxOrderIntentRecord list \<Rightarrow> manager \<Rightarrow> manager" where
  "rebuildReservations nonterm m =
     fold rebuild_reservation nonterm
       (m\<lparr>reservations := [], reservedEntryQuantity := 0, reductionReservations := [],
          reservedReductionsBySymbol := [], reservedReductionQuantity := 0\<rparr>)"

section \<open>Maps and their sums\<close>

lemma get0_update [simp]: "get0 (AList.update k v m) k' = (if k' = k then v else get0 m k')"
  by (simp add: get0_def update_conv')

lemma get0_delete [simp]: "get0 (AList.delete k m) k' = (if k' = k then 0 else get0 m k')"
  by (simp add: get0_def delete_conv')

lemma get0_Nil [simp]: "get0 [] k = 0"
  by (simp add: get0_def)

lemma sum_update_le:
  fixes g :: "'k \<times> 'v \<Rightarrow> rat"
  assumes "\<And>p. p \<in> set al \<Longrightarrow> 0 \<le> g p"
  shows "sum_list (map g (AList.update k v al)) \<le> sum_list (map g al) + g (k, v)"
  using assms
proof (induction al)
  case (Cons p al)
  have IH: "sum_list (map g (AList.update k v al)) \<le> sum_list (map g al) + g (k, v)"
    by (rule Cons.IH) (use Cons.prems in auto)
  have "0 \<le> g p" using Cons.prems by simp
  with IH show ?case by (cases p) auto
qed simp

lemma sum_delete:
  fixes g :: "'k \<times> 'v \<Rightarrow> rat"
  assumes "distinct (map fst al)" "map_of al k = Some v"
  shows "sum_list (map g (AList.delete k al)) = sum_list (map g al) - g (k, v)"
  using assms
proof (induction al)
  case (Cons p al)
  obtain a b where p: "p = (a, b)" by force
  show ?case
  proof (cases "a = k")
    case True
    with p Cons.prems have "k \<notin> fst ` set al" by auto
    then have "AList.delete k al = al" by (force simp: AList.delete_eq filter_id_conv)
    with True p Cons.prems show ?thesis by simp
  next
    case False
    with p Cons show ?thesis by simp
  qed
qed simp

lemma update_set_subset: "set (AList.update k v al) \<subseteq> insert (k, v) (set al)"
  by (induction al) auto

lemma delete_set_subset: "set (AList.delete k al) \<subseteq> set al"
  by (auto simp: AList.delete_eq)

lemma sum_delete_le:
  fixes g :: "'k \<times> 'v \<Rightarrow> rat"
  assumes "\<And>p. p \<in> set al \<Longrightarrow> 0 \<le> g p"
  shows "sum_list (map g (AList.delete k al)) \<le> sum_list (map g al)"
  using assms
proof (induction al)
  case (Cons p al)
  have IH: "sum_list (map g (AList.delete k al)) \<le> sum_list (map g al)"
    by (rule Cons.IH) (use Cons.prems in auto)
  have "0 \<le> g p" using Cons.prems by simp
  with IH show ?case by (cases p) auto
qed simp

section \<open>Reservations are never understated\<close>

text \<open>The reductions outstanding on one symbol.\<close>

definition outstanding_reductions :: "string \<Rightarrow> manager \<Rightarrow> rat" where
  "outstanding_reductions sy m =
     sum_list (map (\<lambda>(_, s, q). if s = sy then q else 0) (reductionReservations m))"

definition outstanding_entries :: "manager \<Rightarrow> rat" where
  "outstanding_entries m = sum_list (map snd (reservations m))"

definition res_ok :: "manager \<Rightarrow> bool" where
  "res_ok m =
     (distinct (map fst (reservations m)) \<and> distinct (map fst (reductionReservations m))
      \<and> (\<forall>p \<in> set (reservations m). 0 \<le> snd p)
      \<and> (\<forall>p \<in> set (reductionReservations m). 0 \<le> snd (snd p))
      \<and> outstanding_entries m \<le> reservedEntryQuantity m
      \<and> (\<forall>sy. outstanding_reductions sy m \<le> get0 (reservedReductionsBySymbol m) sy))"

lemmas res_defs = res_ok_def outstanding_entries_def outstanding_reductions_def

lemma res_ok_cong:
  "reservations m' = reservations m \<Longrightarrow> reductionReservations m' = reductionReservations m \<Longrightarrow>
   reservedEntryQuantity m' = reservedEntryQuantity m \<Longrightarrow>
   reservedReductionsBySymbol m' = reservedReductionsBySymbol m \<Longrightarrow> res_ok m' = res_ok m"
  by (simp add: res_defs)

text \<open>Adding an entry or a reduction of quantity \<open>q\<close>.\<close>

lemma res_ok_add_entry:
  assumes "res_ok m" "0 \<le> q"
  shows "res_ok (m\<lparr>reservations := AList.update c q (reservations m),
                  reservedEntryQuantity := reservedEntryQuantity m + q\<rparr>)"
proof -
  have "sum_list (map snd (AList.update c q (reservations m))) \<le> sum_list (map snd (reservations m)) + q"
    using sum_update_le [of "reservations m" snd c q] assms(1) by (simp add: res_defs)
  moreover have "\<forall>p \<in> set (AList.update c q (reservations m)). 0 \<le> snd p"
    using update_set_subset [of c q "reservations m"] assms by (auto simp: res_defs)
  ultimately show ?thesis using assms by (simp add: res_defs distinct_update)
qed

lemma res_ok_add_reduction:
  assumes "res_ok m" "0 \<le> q"
  shows "res_ok (m\<lparr>reductionReservations := AList.update c (s, q) (reductionReservations m),
                  reservedReductionsBySymbol :=
                    AList.update s (get0 (reservedReductionsBySymbol m) s + q) (reservedReductionsBySymbol m),
                  reservedReductionQuantity := x\<rparr>)"
proof -
  let ?g = "\<lambda>sy. \<lambda>(_ :: string, s, q :: rat). if s = sy then q else 0"
  have nn: "\<And>sy p. p \<in> set (reductionReservations m) \<Longrightarrow> 0 \<le> ?g sy p"
    using assms(1) by (auto simp: res_defs)
  have "sum_list (map (?g sy) (AList.update c (s, q) (reductionReservations m)))
      \<le> get0 (AList.update s (get0 (reservedReductionsBySymbol m) s + q) (reservedReductionsBySymbol m)) sy" for sy
  proof -
    have "sum_list (map (?g sy) (AList.update c (s, q) (reductionReservations m)))
        \<le> sum_list (map (?g sy) (reductionReservations m)) + ?g sy (c, s, q)"
      by (rule sum_update_le) (rule nn)
    also have "\<dots> \<le> get0 (reservedReductionsBySymbol m) sy + ?g sy (c, s, q)"
      using assms(1) by (simp add: res_defs)
    finally show ?thesis by auto
  qed
  moreover have "\<forall>p \<in> set (AList.update c (s, q) (reductionReservations m)). 0 \<le> snd (snd p)"
    using update_set_subset [of c "(s, q)" "reductionReservations m"] assms by (auto simp: res_defs)
  ultimately show ?thesis using assms(1) by (simp add: res_defs distinct_update)
qed

lemma res_ok_reserve:
  assumes "res_ok m" "0 \<le> rq_quantity r"
  shows "res_ok (reserve r m)"
proof -
  let ?m1 = "m\<lparr>activeClientIds := insert (rq_client_order_id r) (activeClientIds m)\<rparr>"
  have "res_ok ?m1" using assms(1) by (simp add: res_defs)
  from res_ok_add_entry [OF this assms(2)] res_ok_add_reduction [OF this assms(2)] this
  show ?thesis by (simp add: reserve_def Let_def)
qed

lemma res_ok_release_entry:
  assumes "res_ok m"
  shows "res_ok (m\<lparr>reservedEntryQuantity :=
            (if 0 < get0 (reservations m) c then max 0 (reservedEntryQuantity m - get0 (reservations m) c)
             else reservedEntryQuantity m),
          reservations := AList.delete c (reservations m)\<rparr>)"
proof -
  have nn: "\<And>p. p \<in> set (reservations m) \<Longrightarrow> 0 \<le> snd p" using assms by (simp add: res_defs)
  have "sum_list (map snd (AList.delete c (reservations m))) \<le>
      (if 0 < get0 (reservations m) c then max 0 (reservedEntryQuantity m - get0 (reservations m) c)
       else reservedEntryQuantity m)"
  proof (cases "0 < get0 (reservations m) c")
    case True
    then obtain v where "map_of (reservations m) c = Some v" "get0 (reservations m) c = v"
      by (auto simp: get0_def split: option.splits)
    then have "sum_list (map snd (AList.delete c (reservations m)))
        = sum_list (map snd (reservations m)) - get0 (reservations m) c"
      using sum_delete [of "reservations m" c v snd] assms by (simp add: res_defs)
    with assms True show ?thesis by (simp add: res_defs le_max_iff_disj)
  next
    case False
    have "sum_list (map snd (AList.delete c (reservations m))) \<le> sum_list (map snd (reservations m))"
      by (rule sum_delete_le) (rule nn)
    with assms False show ?thesis by (simp add: res_defs)
  qed
  moreover have "\<forall>p \<in> set (AList.delete c (reservations m)). 0 \<le> snd p"
    using delete_set_subset [of c "reservations m"] nn by blast
  ultimately show ?thesis using assms by (simp add: res_defs distinct_delete)
qed

lemma res_ok_release_reduction:
  assumes "res_ok m" and c: "map_of (reductionReservations m) c = Some (s, q)"
  defines "left \<equiv> max 0 (get0 (reservedReductionsBySymbol m) s - q)"
  shows "res_ok (m\<lparr>reservedReductionsBySymbol :=
            (if left = 0 then AList.delete s (reservedReductionsBySymbol m)
             else AList.update s left (reservedReductionsBySymbol m)),
          reservedReductionQuantity := x,
          reductionReservations := AList.delete c (reductionReservations m)\<rparr>)"
proof -
  let ?g = "\<lambda>sy. \<lambda>(_ :: string, s, q :: rat). if s = sy then q else 0"
  let ?R = "if left = 0 then AList.delete s (reservedReductionsBySymbol m)
             else AList.update s left (reservedReductionsBySymbol m)"
  have R: "get0 ?R sy = (if sy = s then left else get0 (reservedReductionsBySymbol m) sy)" for sy by simp
  have "sum_list (map (?g sy) (AList.delete c (reductionReservations m))) \<le> get0 ?R sy" for sy
  proof -
    have "sum_list (map (?g sy) (AList.delete c (reductionReservations m)))
        = sum_list (map (?g sy) (reductionReservations m)) - ?g sy (c, s, q)"
      by (rule sum_delete) (use assms in \<open>simp_all add: res_defs\<close>)
    also have "\<dots> \<le> get0 (reservedReductionsBySymbol m) sy - ?g sy (c, s, q)"
      using assms(1) by (simp add: res_defs)
    finally show ?thesis unfolding R left_def by auto
  qed
  moreover have "\<forall>p \<in> set (AList.delete c (reductionReservations m)). 0 \<le> snd (snd p)"
    using delete_set_subset [of c "reductionReservations m"] assms(1) by (auto simp: res_defs)
  ultimately show ?thesis using assms(1) by (simp add: res_defs distinct_delete del: get0_update get0_delete)
qed

lemma res_ok_release:
  assumes "res_ok m"
  shows "res_ok (releaseReservation c m)"
proof -
  define m2 where "m2 = m\<lparr>reservedEntryQuantity :=
            (if 0 < get0 (reservations m) c then max 0 (reservedEntryQuantity m - get0 (reservations m) c)
             else reservedEntryQuantity m),
          reservations := AList.delete c (reservations m)\<rparr>"
  define m1 where "m1 = (if 0 < get0 (reservations m) c
       then m\<lparr>reservedEntryQuantity := max 0 (reservedEntryQuantity m - get0 (reservations m) c)\<rparr> else m)"
  have m2_eq: "m1\<lparr>reservations := AList.delete c (reservations m1)\<rparr> = m2" by (simp add: m1_def m2_def)
  have ok2: "res_ok m2" unfolding m2_def by (rule res_ok_release_entry [OF assms])
  have e: "releaseReservation c m = (case map_of (reductionReservations m2) c of
           None \<Rightarrow> m2
         | Some (s, q) \<Rightarrow>
             let left = max 0 (get0 (reservedReductionsBySymbol m2) s - q) in
             m2\<lparr>reservedReductionsBySymbol :=
                  (if left = 0 then AList.delete s (reservedReductionsBySymbol m2)
                   else AList.update s left (reservedReductionsBySymbol m2)),
                reservedReductionQuantity := max 0 (reservedReductionQuantity m2 - q),
                reductionReservations := AList.delete c (reductionReservations m2)\<rparr>)"
    unfolding releaseReservation_def Let_def m1_def [symmetric] m2_eq by (rule refl)
  show ?thesis
  proof (cases "map_of (reductionReservations m2) c")
    case None
    with ok2 e show ?thesis by simp
  next
    case (Some sq)
    obtain s q where sq: "sq = (s, q)" by force
    with Some res_ok_release_reduction [OF ok2, of c s q] e show ?thesis by (simp add: Let_def)
  qed
qed

lemma res_ok_rebuild: "res_ok m \<Longrightarrow> res_ok (fold rebuild_reservation is m)"
proof (induction "is" arbitrary: m)
  case (Cons i "is")
  define left where "left = max 0 (quantity i - filled_quantity i)"
  have "0 \<le> left" by (simp add: left_def)
  then have "res_ok (rebuild_reservation i m)"
    unfolding rebuild_reservation_def Let_def left_def [symmetric]
    using res_ok_add_entry [OF Cons.prems, of left] res_ok_add_reduction [OF Cons.prems, of left]
      Cons.prems by simp
  with Cons show ?case by simp
qed simp

section \<open>The contract of the journal that attribution relies on\<close>

text \<open>The position a table of intents amounts to on one symbol.\<close>

definition contribution :: "string \<Rightarrow> BoxOrderIntentRecord \<Rightarrow> rat" where
  "contribution sy r = (if intent_symbol r = sy then signed (side r) (filled_quantity r) else 0)"

definition net_of :: "string \<Rightarrow> (string \<rightharpoonup> BoxOrderIntentRecord) \<Rightarrow> rat" where
  "net_of sy tbl = (\<Sum>c \<in> dom tbl. contribution sy (the (tbl c)))"

lemma net_of_upd:
  assumes "finite (dom tbl)" "tbl c = Some r"
  shows "net_of sy (tbl(c \<mapsto> r')) = net_of sy tbl - contribution sy r + contribution sy r'"
proof -
  have c: "c \<in> dom tbl" using assms(2) by auto
  have d: "dom (tbl(c \<mapsto> r')) = dom tbl" using c by auto
  have "(\<Sum>d \<in> dom tbl. contribution sy (the ((tbl(c \<mapsto> r')) d)))
      = contribution sy r' + (\<Sum>d \<in> dom tbl - {c}. contribution sy (the (tbl d)))"
    by (subst sum.remove [OF assms(1) c]) (auto intro: sum.cong)
  moreover have "net_of sy tbl = contribution sy r + (\<Sum>d \<in> dom tbl - {c}. contribution sy (the (tbl d)))"
    unfolding net_of_def by (subst sum.remove [OF assms(1) c]) (simp add: assms(2))
  ultimately show ?thesis unfolding net_of_def d by simp
qed

lemma net_of_new:
  assumes "finite (dom tbl)" "tbl c = None"
  shows "net_of sy (tbl(c \<mapsto> r')) = net_of sy tbl + contribution sy r'"
proof -
  have c: "c \<notin> dom tbl" using assms(2) by auto
  have "(\<Sum>d \<in> dom tbl. contribution sy (the ((tbl(c \<mapsto> r')) d))) = net_of sy tbl"
    unfolding net_of_def by (rule sum.cong) (use c in auto)
  then show ?thesis using assms(1) c by (simp add: net_of_def)
qed

text \<open>What \<^verbatim>\<open>persistOrder\<close> relies on from its persistence dependency: a failed or refused update
  leaves the table alone; an applied one rewrites one row, keeps its symbol and side, does not
  lower its fill, and reports the pre-image and the post-image of that very write.\<close>

locale fill_journal =
  fixes tbl :: "'j \<Rightarrow> string \<rightharpoonup> BoxOrderIntentRecord"
    and upd :: "'e \<Rightarrow> 'j \<Rightarrow> BoxOrderIntentUpdateResult option \<times> 'j"
  assumes upd_failed: "upd e j = (None, j') \<Longrightarrow> tbl j' = tbl j"
    and upd_refused: "upd e j = (Some u, j') \<Longrightarrow> \<not> up_applied u \<Longrightarrow> tbl j' = tbl j"
    and upd_applied: "upd e j = (Some u, j') \<Longrightarrow> up_applied u \<Longrightarrow>
      \<exists>c r r'. tbl j c = Some r \<and> tbl j' = (tbl j)(c \<mapsto> r') \<and> up_intent u = Some r'
        \<and> up_previous u = Some (filled_quantity r) \<and> up_current u = Some (filled_quantity r')
        \<and> filled_quantity r \<le> filled_quantity r'
        \<and> intent_symbol r' = intent_symbol r \<and> side r' = side r"
begin

lemma delta_nonneg: "upd e j = (Some u, j') \<Longrightarrow> 0 \<le> fst (durableFillDelta u m)"
  using upd_applied [of e j u j'] by (auto simp: durableFillDelta_def)

lemma delta_never_trips: "upd e j = (Some u, j') \<Longrightarrow> snd (durableFillDelta u m) = m"
  using upd_applied [of e j u j'] by (auto simp: durableFillDelta_def)

lemma finite_upd: "upd e j = (x, j') \<Longrightarrow> finite (dom (tbl j)) \<Longrightarrow> finite (dom (tbl j'))"
proof (cases x)
  case (Some u)
  assume "upd e j = (x, j')" "finite (dom (tbl j))"
  then show ?thesis
    using Some upd_refused [of e j u j'] upd_applied [of e j u j'] by (cases "up_applied u") auto
qed (auto dest: upd_failed)

lemma net_after_update:
  assumes "upd e j = (Some u, j')" "finite (dom (tbl j))" "up_intent u = Some r'"
  shows "net_of sy (tbl j') = net_of sy (tbl j)
    + (if intent_symbol r' = sy then signed (side r') (fst (durableFillDelta u m)) else 0)"
proof (cases "up_applied u")
  case False
  with upd_refused [OF assms(1)] show ?thesis by (simp add: durableFillDelta_def signed_def)
next
  case True
  from upd_applied [OF assms(1) True] assms(3) obtain c r where
    c: "tbl j c = Some r" "tbl j' = (tbl j)(c \<mapsto> r')" "up_previous u = Some (filled_quantity r)"
       "up_current u = Some (filled_quantity r')" "filled_quantity r \<le> filled_quantity r'"
       "intent_symbol r' = intent_symbol r" "side r' = side r" by auto
  have d: "fst (durableFillDelta u m) = filled_quantity r' - filled_quantity r"
    using True c(3,4,5) by (simp add: durableFillDelta_def)
  have "net_of sy (tbl j') = net_of sy (tbl j) - contribution sy r + contribution sy r'"
    unfolding c(2) by (rule net_of_upd [OF assms(2) c(1)])
  with d c(6,7) show ?thesis by (simp add: contribution_def signed_def)
qed

end

text \<open>The journal of the repository fulfils it.\<close>

definition journal_update ::
    "string \<times> BoxOrderIntentPatch \<times> BoxOrderIntentAudit \<times> BoxOrderIntentState list option \<Rightarrow>
     journal \<Rightarrow> BoxOrderIntentUpdateResult option \<times> journal" where
  "journal_update e j =
     (case e of (c, p, a, ex) \<Rightarrow>
        (case updateBoxOrderIntent c p a ex j of
           (Inl _, j') \<Rightarrow> (None, j') | (Inr u, j') \<Rightarrow> (Some u, j')))"

lemma journal_update_eq:
  "journal_update (c, p, a, ex) j =
     ((case fst (updateBoxOrderIntent c p a ex j) of Inl _ \<Rightarrow> None | Inr u \<Rightarrow> Some u),
      snd (updateBoxOrderIntent c p a ex j))"
  by (simp add: journal_update_def split: prod.split sum.split)

interpretation durable: fill_journal rows journal_update
proof
  fix e :: "string \<times> BoxOrderIntentPatch \<times> BoxOrderIntentAudit \<times> BoxOrderIntentState list option"
    and j j' :: journal
  obtain c p a ex where e: "e = (c, p, a, ex)" by (metis prod_cases4)
  obtain res j1 where r: "updateBoxOrderIntent c p a ex j = (res, j1)" by force
  {
    assume "journal_update e j = (None, j')"
    with e r have "j1 = j'" "\<exists>x. res = Inl x" by (auto simp: journal_update_eq split: sum.splits)
    with r show "rows j' = rows j" by (auto elim: update_cases)
  next
    fix u
    assume "journal_update e j = (Some u, j')" and na: "\<not> up_applied u"
    with e r have "j1 = j'" "res = Inr u" by (auto simp: journal_update_eq split: sum.splits)
    with r na show "rows j' = rows j" by (auto elim!: update_cases)
  next
    fix u
    assume "journal_update e j = (Some u, j')" and ap: "up_applied u"
    with e r have q: "j1 = j'" "res = Inr u" by (auto simp: journal_update_eq split: sum.splits)
    from r show "\<exists>c r r'. rows j c = Some r \<and> rows j' = (rows j)(c \<mapsto> r') \<and> up_intent u = Some r'
        \<and> up_previous u = Some (filled_quantity r) \<and> up_current u = Some (filled_quantity r')
        \<and> filled_quantity r \<le> filled_quantity r'
        \<and> intent_symbol r' = intent_symbol r \<and> side r' = side r"
    proof (cases rule: update_cases)
      case unchanged
      with q ap show ?thesis by simp
    next
      case (written before filled)
      then have u: "u = \<lparr>up_intent = Some (patched_row p a filled before), up_applied = True,
                  up_previous = Some (filled_quantity before), up_current = Some filled\<rparr>"
        using q by simp
      show ?thesis
        by (rule exI [of _ c], rule exI [of _ before], rule exI [of _ "patched_row p a filled before"])
          (use written(1,10) q u fillOk_le [OF written(5,7)] in simp)
    qed
  }
qed

section \<open>The manager and the journal as one system\<close>

text \<open>Every call of this process that touches the modelled state, in any order and with any stale
  intent snapshot.  Reconciliation reads the complete journal.\<close>

inductive sys_step :: "OrderManagerLimits \<Rightarrow> manager \<times> journal \<Rightarrow> manager \<times> journal \<Rightarrow> bool"
  for lms where
  sys_submit: "submit lms now cr g r m = Inr m' \<Longrightarrow> 0 \<le> rq_quantity r \<Longrightarrow> sys_step lms (m, j) (m', j)"
| sys_create: "sys_step lms (m, j) (m, snd (createBoxOrderIntent fresh (intentFromRequest r mode now) j))"
| sys_persist: "sys_step lms mj (snd (persistOrder now i order msg mj))"
| sys_transition: "sys_step lms mj (snd (transitionResult now i st boid msg ex pl mj))"
| sys_release: "sys_step lms (m, j) (releaseReservation c m, j)"
| sys_settle: "sys_step lms (m, j) (m\<lparr>activeClientIds := activeClientIds m - {c}\<rparr>, j)"
| sys_pnl: "sys_step lms (m, j) (recordRealisedPnl lms d m, j)"
| sys_roll: "sys_step lms (m, j) (rollTradingDay hl today m, j)"
| sys_feed: "sys_step lms (m, j) (setFeedHealthy lms now h m, j)"
| sys_controls: "sys_step lms (m, j) (m\<lparr>entryEnabled := e, liveOrderEnabled := l\<rparr>, j)"
| sys_evict: "sys_step lms (m, j)
    (m\<lparr>overfillTripwireLedgers := (overfillTripwireLedgers m)(c := None)\<rparr>, j)"
| sys_reconcile: "distinct (map client_order_id owned) \<Longrightarrow> set owned = ran (rows j) \<Longrightarrow>
    sys_step lms (m, j) (rebuildAttribution owned m, j)"
| sys_rebuild: "sys_step lms (m, j) (rebuildReservations nonterm m, j)"

definition attribution_ok :: "manager \<times> journal \<Rightarrow> bool" where
  "attribution_ok mj = (\<forall>sy. get0 (attributedBoxPositions (fst mj)) sy = net_of sy (rows (snd mj)))"

definition sys_inv :: "manager \<times> journal \<Rightarrow> bool" where
  "sys_inv mj = (res_ok (fst mj) \<and> journal_wf (snd mj) \<and> finite (dom (rows (snd mj)))
     \<and> attribution_ok mj)"

definition sys_init :: "manager \<times> journal \<Rightarrow> bool" where
  "sys_init mj =
     (reservations (fst mj) = [] \<and> reductionReservations (fst mj) = []
      \<and> reservedReductionsBySymbol (fst mj) = [] \<and> reservedEntryQuantity (fst mj) = 0
      \<and> attributedBoxPositions (fst mj) = [] \<and> snd mj = journal_empty)"

subsection \<open>Frames\<close>

lemma trip_frame [simp]:
  "reservations (trip r m) = reservations m"
  "reductionReservations (trip r m) = reductionReservations m"
  "reservedReductionsBySymbol (trip r m) = reservedReductionsBySymbol m"
  "reservedEntryQuantity (trip r m) = reservedEntryQuantity m"
  "attributedBoxPositions (trip r m) = attributedBoxPositions m"
  "liveOrderEnabled (trip r m) = liveOrderEnabled m"
  "disposed (trip r m) = disposed m"
  by (simp_all add: trip_def)

lemma trip_trips [simp]: "breakerReason (trip r m) \<noteq> None"
  by (auto simp: trip_def)

lemma trip_latch: "breakerReason m \<noteq> None \<Longrightarrow> trip r m = m"
  by (simp add: trip_def)

lemma evaluateLimits_frame [simp]:
  "reservations (evaluateLimits lms m) = reservations m"
  "reductionReservations (evaluateLimits lms m) = reductionReservations m"
  "reservedReductionsBySymbol (evaluateLimits lms m) = reservedReductionsBySymbol m"
  "reservedEntryQuantity (evaluateLimits lms m) = reservedEntryQuantity m"
  "attributedBoxPositions (evaluateLimits lms m) = attributedBoxPositions m"
  by (simp_all add: evaluateLimits_def Let_def)

lemma evaluateLimits_latch: "breakerReason m \<noteq> None \<Longrightarrow> evaluateLimits lms m = m"
  by (simp add: evaluateLimits_def Let_def trip_latch)

lemma recordRealisedPnl_frame [simp]:
  "reservations (recordRealisedPnl lms d m) = reservations m"
  "reductionReservations (recordRealisedPnl lms d m) = reductionReservations m"
  "reservedReductionsBySymbol (recordRealisedPnl lms d m) = reservedReductionsBySymbol m"
  "reservedEntryQuantity (recordRealisedPnl lms d m) = reservedEntryQuantity m"
  "attributedBoxPositions (recordRealisedPnl lms d m) = attributedBoxPositions m"
  by (simp_all add: recordRealisedPnl_def split: jsnum.split)

lemma rollTradingDay_frame [simp]:
  "reservations (rollTradingDay hl today m) = reservations m"
  "reductionReservations (rollTradingDay hl today m) = reductionReservations m"
  "reservedReductionsBySymbol (rollTradingDay hl today m) = reservedReductionsBySymbol m"
  "reservedEntryQuantity (rollTradingDay hl today m) = reservedEntryQuantity m"
  "attributedBoxPositions (rollTradingDay hl today m) = attributedBoxPositions m"
  "breakerReason (rollTradingDay hl today m) = breakerReason m"
  by (simp_all add: rollTradingDay_def)

lemma setFeedHealthy_frame [simp]:
  "reservations (setFeedHealthy lms now h m) = reservations m"
  "reductionReservations (setFeedHealthy lms now h m) = reductionReservations m"
  "reservedReductionsBySymbol (setFeedHealthy lms now h m) = reservedReductionsBySymbol m"
  "reservedEntryQuantity (setFeedHealthy lms now h m) = reservedEntryQuantity m"
  "attributedBoxPositions (setFeedHealthy lms now h m) = attributedBoxPositions m"
  "breakerReason (setFeedHealthy lms now h m) = breakerReason m"
  by (simp_all add: setFeedHealthy_def Let_def)

lemma checkOverfillTripwire_frame [simp]:
  "reservations (checkOverfillTripwire b m) = reservations m"
  "reductionReservations (checkOverfillTripwire b m) = reductionReservations m"
  "reservedReductionsBySymbol (checkOverfillTripwire b m) = reservedReductionsBySymbol m"
  "reservedEntryQuantity (checkOverfillTripwire b m) = reservedEntryQuantity m"
  "attributedBoxPositions (checkOverfillTripwire b m) = attributedBoxPositions m"
  by (simp_all add: checkOverfillTripwire_def Let_def split: prod.split)

lemma checkOverfillTripwire_latch:
  "breakerReason m \<noteq> None \<Longrightarrow> breakerReason (checkOverfillTripwire b m) = breakerReason m"
  by (simp add: checkOverfillTripwire_def Let_def trip_latch split: prod.split)

lemma attribute_fill_frame [simp]:
  "reservations (attribute_fill r d m) = reservations m"
  "reductionReservations (attribute_fill r d m) = reductionReservations m"
  "reservedReductionsBySymbol (attribute_fill r d m) = reservedReductionsBySymbol m"
  "reservedEntryQuantity (attribute_fill r d m) = reservedEntryQuantity m"
  "breakerReason (attribute_fill r d m) = breakerReason m"
  by (simp_all add: attribute_fill_def recalculateGrossAttributedQuantity_def)

lemma attribute_fill_net:
  "0 \<le> d \<Longrightarrow> get0 (attributedBoxPositions (attribute_fill r d m)) sy =
     get0 (attributedBoxPositions m) sy + (if intent_symbol r = sy then signed (side r) d else 0)"
  by (auto simp: attribute_fill_def recalculateGrossAttributedQuantity_def signed_def)

lemma releaseReservation_frame [simp]:
  "attributedBoxPositions (releaseReservation c m) = attributedBoxPositions m"
  "breakerReason (releaseReservation c m) = breakerReason m"
  by (simp_all add: releaseReservation_def Let_def split: option.split)

lemma reserve_frame [simp]:
  "attributedBoxPositions (reserve r m) = attributedBoxPositions m"
  "breakerReason (reserve r m) = breakerReason m"
  by (simp_all add: reserve_def Let_def)

lemma persist_failed_frame [simp]:
  "reservations (snd (persist_failed e b m)) = reservations m"
  "reductionReservations (snd (persist_failed e b m)) = reductionReservations m"
  "reservedReductionsBySymbol (snd (persist_failed e b m)) = reservedReductionsBySymbol m"
  "reservedEntryQuantity (snd (persist_failed e b m)) = reservedEntryQuantity m"
  "attributedBoxPositions (snd (persist_failed e b m)) = attributedBoxPositions m"
  by (simp_all add: persist_failed_def Let_def)

lemma persist_failed_latch:
  "breakerReason m \<noteq> None \<Longrightarrow> breakerReason (snd (persist_failed e b m)) = breakerReason m"
  by (simp add: persist_failed_def Let_def trip_latch)

lemma rebuild_reservation_frame [simp]:
  "attributedBoxPositions (rebuild_reservation i m) = attributedBoxPositions m"
  "breakerReason (rebuild_reservation i m) = breakerReason m"
  by (simp_all add: rebuild_reservation_def Let_def)

lemma rebuild_fold_frame [simp]:
  "attributedBoxPositions (fold rebuild_reservation is m) = attributedBoxPositions m"
  "breakerReason (fold rebuild_reservation is m) = breakerReason m"
  by (induction "is" arbitrary: m) simp_all

subsection \<open>One persisted order\<close>

definition order_audit :: "int \<Rightarrow> BoxOrderIntentRecord \<Rightarrow> BrokerOrder \<Rightarrow> string \<Rightarrow> BoxOrderIntentAudit" where
  "order_audit now intent order msg =
     auditFor intent (bo_state order) (bo_broker_order_id order) msg
       (if bo_fills order = [] then None else Some (last (bo_fills order))) now None"

lemma persistOrder_unfold:
  "persistOrder now intent order msg (m, j) =
     (let (res, j') = updateBoxOrderIntent (client_order_id intent) (order_patch order)
                        (order_audit now intent order msg) None j;
          m0 = checkOverfillTripwire order m
      in case res of
           Inl e \<Rightarrow> (let (r, m1) = persist_failed (Journal_Failed e) order m0 in (r, m1, j'))
         | Inr u \<Rightarrow>
             (case up_intent u of
                None \<Rightarrow> (let (r, m1) = persist_failed Intent_Disappeared order m0 in (r, m1, j'))
              | Some updated \<Rightarrow>
                  let (delta, m1) = durableFillDelta u m0;
                      m2 = attribute_fill updated delta m1;
                      m3 = m2\<lparr>knownIntents := (knownIntents m2)(client_order_id updated \<mapsto> updated)\<rparr>;
                      m4 = (if isBrokerOrderTerminal (bo_state order)
                            then releaseReservation (client_order_id updated) m3 else m3)
                  in (Inr updated, m4\<lparr>h_persistence := hs_healthy\<rparr>, j')))"
  by (simp add: persistOrder_def order_audit_def Let_def)

text \<open>The three ways a call ends: failed, the intent gone, or recorded.\<close>

lemma persistOrder_cases [consumes 1, case_names failed recorded]:
  assumes "persistOrder now intent order msg (m, j) = (res, m', j')"
  obtains x e where
      "journal_update (client_order_id intent, order_patch order, order_audit now intent order msg, None) j = (x, j')"
      "m' = snd (persist_failed e order (checkOverfillTripwire order m))" "rows j' = rows j"
    | u r m2 where
      "journal_update (client_order_id intent, order_patch order, order_audit now intent order msg, None) j = (Some u, j')"
      "up_intent u = Some r" "res = Inr r"
      "m2 = (attribute_fill r (fst (durableFillDelta u m)) (checkOverfillTripwire order m))
               \<lparr>knownIntents := (knownIntents (attribute_fill r (fst (durableFillDelta u m))
                   (checkOverfillTripwire order m)))(client_order_id r \<mapsto> r)\<rparr>"
      "m' = (if isBrokerOrderTerminal (bo_state order) then releaseReservation (client_order_id r) m2 else m2)
               \<lparr>h_persistence := hs_healthy\<rparr>"
proof -
  let ?e = "(client_order_id intent, order_patch order, order_audit now intent order msg,
     None :: BoxOrderIntentState list option)"
  let ?m0 = "checkOverfillTripwire order m"
  obtain res0 j1 where u: "updateBoxOrderIntent (client_order_id intent) (order_patch order)
      (order_audit now intent order msg) None j = (res0, j1)" by force
  have ju: "journal_update ?e j = (case res0 of Inl _ \<Rightarrow> None | Inr u \<Rightarrow> Some u, j1)"
    by (simp add: journal_update_eq u)
  note a = assms [unfolded persistOrder_unfold u]
  show ?thesis
  proof (cases res0)
    case (Inl e)
    have "rows j1 = rows j" by (rule durable.upd_failed [of ?e]) (simp add: ju Inl)
    then show ?thesis
      using that(1) [of None "Journal_Failed e"] a Inl ju by (auto simp: Let_def split: prod.splits)
  next
    case (Inr v)
    show ?thesis
    proof (cases "up_intent v")
      case None
      have "\<not> up_applied v" using durable.upd_applied [of ?e j v j1] ju Inr None by auto
      then have "rows j1 = rows j" using durable.upd_refused [of ?e j v j1] ju Inr by simp
      then show ?thesis
        using that(1) [of "Some v" Intent_Disappeared] a Inr None ju by (auto simp: Let_def split: prod.splits)
    next
      case (Some r)
      have sn: "snd (durableFillDelta v ?m0) = ?m0"
        by (rule durable.delta_never_trips [of ?e j v j1]) (simp add: ju Inr)
      have fs: "fst (durableFillDelta v ?m0) = fst (durableFillDelta v m)"
        by (simp add: durableFillDelta_def split: option.split)
      from sn fs have d: "durableFillDelta v ?m0 = (fst (durableFillDelta v m), ?m0)"
        by (metis prod.collapse)
      show ?thesis
        by (rule that(2) [of v r]) (use a ju Inr Some d in \<open>auto simp: Let_def\<close>)
    qed
  qed
qed

lemma persistOrder_journal:
  assumes "persistOrder now intent order msg (m, j) = (res, m', j')"
  shows "j' = journal_step (Update (client_order_id intent) (order_patch order)
            (order_audit now intent order msg) None) j"
  using assms by (auto simp: persistOrder_unfold Let_def split: prod.splits sum.splits option.splits)

lemma persistOrder_inv:
  assumes inv: "sys_inv (m, j)" and p: "persistOrder now intent order msg (m, j) = (res, m', j')"
  shows "sys_inv (m', j')"
proof -
  let ?e = "(client_order_id intent, order_patch order, order_audit now intent order msg,
     None :: BoxOrderIntentState list option)"
  have wf: "journal_wf j'"
    unfolding persistOrder_journal [OF p] using inv by (intro journal_wf_step) (simp add: sys_inv_def)
  have fin: "finite (dom (rows j))" and ok: "res_ok m" and att: "attribution_ok (m, j)"
    using inv by (simp_all add: sys_inv_def)
  from p show ?thesis
  proof (cases rule: persistOrder_cases)
    case (failed x e)
    have "res_ok m' = res_ok m" by (rule res_ok_cong) (simp_all add: failed(2))
    with failed(2,3) wf fin ok att show ?thesis by (simp add: sys_inv_def attribution_ok_def)
  next
    case (recorded u r m2)
    have fin': "finite (dom (rows j'))" by (rule durable.finite_upd [OF recorded(1) fin])
    have "res_ok m2 = res_ok m" by (rule res_ok_cong) (simp_all add: recorded(4))
    with ok have ok2: "res_ok m2" by simp
    let ?m3 = "if isBrokerOrderTerminal (bo_state order)
               then releaseReservation (client_order_id r) m2 else m2"
    have "res_ok m' = res_ok ?m3" by (rule res_ok_cong) (simp_all add: recorded(5))
    with ok2 res_ok_release [OF ok2] have ok': "res_ok m'" by simp
    have "get0 (attributedBoxPositions m') sy = net_of sy (rows j')" for sy
    proof -
      have "get0 (attributedBoxPositions m') sy = get0 (attributedBoxPositions m2) sy"
        by (simp add: recorded(5))
      also have "\<dots> = get0 (attributedBoxPositions m) sy
          + (if intent_symbol r = sy then signed (side r) (fst (durableFillDelta u m)) else 0)"
        by (simp add: recorded(4) attribute_fill_net [OF durable.delta_nonneg [OF recorded(1)]])
      also have "\<dots> = net_of sy (rows j')"
        using att durable.net_after_update [OF recorded(1) fin recorded(2), of sy m]
        by (simp add: attribution_ok_def)
      finally show ?thesis .
    qed
    then show ?thesis using wf fin' ok' by (simp add: sys_inv_def attribution_ok_def)
  qed
qed

subsection \<open>The other steps\<close>

lemma transition_frame:
  "reservations (fst (snd (transitionResult now i st boid msg ex pl (m, j)))) = reservations m"
  "reductionReservations (fst (snd (transitionResult now i st boid msg ex pl (m, j)))) = reductionReservations m"
  "reservedReductionsBySymbol (fst (snd (transitionResult now i st boid msg ex pl (m, j)))) = reservedReductionsBySymbol m"
  "reservedEntryQuantity (fst (snd (transitionResult now i st boid msg ex pl (m, j)))) = reservedEntryQuantity m"
  "attributedBoxPositions (fst (snd (transitionResult now i st boid msg ex pl (m, j)))) = attributedBoxPositions m"
  "snd (snd (transitionResult now i st boid msg ex pl (m, j))) =
     journal_step (Update (client_order_id i) (transition_patch st boid now) (auditFor i st boid msg None now pl) ex) j"
  by (simp_all add: transitionResult_def Let_def split: prod.split sum.split option.split)

lemma transition_latch:
  "breakerReason m \<noteq> None \<Longrightarrow>
   breakerReason (fst (snd (transitionResult now i st boid msg ex pl (m, j)))) = breakerReason m"
  by (simp add: transitionResult_def Let_def trip_latch split: prod.split sum.split option.split)

text \<open>A transition does not touch the fill, so it does not move the net position.\<close>

lemma transition_net:
  assumes "journal_wf j" "finite (dom (rows j))"
  shows "net_of sy (rows (journal_step (Update c (transition_patch st boid now) a ex) j)) = net_of sy (rows j)
    \<and> finite (dom (rows (journal_step (Update c (transition_patch st boid now) a ex) j)))"
proof -
  obtain res j' where e: "updateBoxOrderIntent c (transition_patch st boid now) a ex j = (res, j')" by force
  from e show ?thesis
  proof (cases rule: update_cases)
    case unchanged
    with e assms(2) show ?thesis by simp
  next
    case (written before filled)
    have "filled = filled_quantity before"
      using written(7) by (simp add: patched_fill_def transition_patch_def)
    then have "contribution sy (patched_row (transition_patch st boid now) a filled before)
        = contribution sy before" by (simp add: contribution_def)
    then show ?thesis
      using e written(10) net_of_upd [OF assms(2) written(1)] assms(2) by simp
  qed
qed

lemma create_net:
  assumes "finite (dom (rows j))"
  shows "net_of sy (rows (journal_step (Create fresh (intentFromRequest r mode now)) j)) = net_of sy (rows j)
    \<and> finite (dom (rows (journal_step (Create fresh (intentFromRequest r mode now)) j)))"
proof -
  obtain res j' where e: "createBoxOrderIntent fresh (intentFromRequest r mode now) j = (res, j')" by force
  from e show ?thesis
  proof (cases rule: create_cases)
    case unchanged
    with e assms show ?thesis by simp
  next
    case inserted
    have "contribution sy (intentInsertValues fresh (intentFromRequest r mode now)) = 0"
      by (simp add: contribution_def signed_def intentFromRequest_def)
    then show ?thesis using e inserted(5) net_of_new [OF assms inserted(1)] assms by simp
  qed
qed

text \<open>The netting loop of reconciliation computes the same sum.\<close>

lemma net_fold:
  "(\<And>i. i \<in> set owned \<Longrightarrow> 0 \<le> filled_quantity i) \<Longrightarrow>
   get0 (fold net_intent owned al) sy = get0 al sy + sum_list (map (contribution sy) owned)"
proof (induction owned arbitrary: al)
  case (Cons i owned)
  have "get0 (net_intent i al) sy = get0 al sy + contribution sy i"
    using Cons.prems [of i] by (auto simp: net_intent_def contribution_def signed_def)
  with Cons show ?case by simp
qed simp

lemma net_of_list:
  assumes wf: "journal_wf j" and d: "distinct (map client_order_id owned)"
    and s: "set owned = ran (rows j)"
  shows "net_of sy (rows j) = sum_list (map (contribution sy) owned)"
proof -
  have key: "rows j c = Some r \<Longrightarrow> client_order_id r = c" for c r
    using wf by (simp add: journal_wf_def)
  have inj: "inj_on (\<lambda>c. the (rows j c)) (dom (rows j))"
    by (rule inj_onI) (metis domD key option.sel)
  have img: "(\<lambda>c. the (rows j c)) ` dom (rows j) = ran (rows j)"
    by (force simp: ran_def dom_def image_iff)
  have "net_of sy (rows j) = (\<Sum>r \<in> set owned. contribution sy r)"
    unfolding net_of_def s img [symmetric] by (subst sum.reindex [OF inj]) simp
  also have "\<dots> = sum_list (map (contribution sy) owned)"
    using d by (simp add: sum_list_distinct_conv_sum_set distinct_map)
  finally show ?thesis .
qed

lemma net_of_unowned:
  assumes "set owned = ran (rows j)" "sy \<notin> set (map intent_symbol owned)"
  shows "net_of sy (rows j) = 0"
  unfolding net_of_def
proof (rule sum.neutral, rule ballI)
  fix c assume "c \<in> dom (rows j)"
  then have "the (rows j c) \<in> set owned" using assms(1) by (auto simp: ran_def)
  then show "contribution sy (the (rows j c)) = 0" using assms(2) by (auto simp: contribution_def)
qed

lemma get0_fold_update:
  "get0 (fold (\<lambda>s. AList.update s (g s)) ss al) k = (if k \<in> set ss then g k else get0 al k)"
  by (induction ss arbitrary: al) auto

lemma rebuild_exact:
  assumes wf: "journal_wf j" and d: "distinct (map client_order_id owned)"
    and s: "set owned = ran (rows j)"
  shows "get0 (attributedBoxPositions (rebuildAttribution owned m)) sy =
     (if sy \<in> set (map intent_symbol owned) then net_of sy (rows j) else get0 (attributedBoxPositions m) sy)"
proof -
  have nn: "0 \<le> filled_quantity i" if "i \<in> set owned" for i
  proof -
    from that s obtain c where "rows j c = Some i" by (auto simp: ran_def)
    with wf show ?thesis by (auto simp: journal_wf_def row_check_def)
  qed
  have "get0 (intentNetBySymbol owned) sy = net_of sy (rows j)"
    unfolding intentNetBySymbol_def net_of_list [OF assms] using net_fold [of owned "[]"] nn by simp
  then show ?thesis
    by (simp add: rebuildAttribution_def recalculateGrossAttributedQuantity_def get0_fold_update
        ownedSymbols_def set_dedupe_from)
qed

lemma sys_inv_same_journal:
  assumes "sys_inv (m, j)" "attributedBoxPositions m' = attributedBoxPositions m" "res_ok m'"
  shows "sys_inv (m', j)"
  using assms by (simp add: sys_inv_def attribution_ok_def)

lemma sys_inv_step:
  assumes inv: "sys_inv mj" and st: "sys_step lms mj mj'"
  shows "sys_inv mj'"
  using st
proof cases
  case (sys_submit now cr g r m m' j)
  then have m': "m' = reserve r m" by (auto simp: submit_def split: if_splits)
  have ok: "res_ok m" using inv sys_submit by (simp add: sys_inv_def)
  show ?thesis
    using sys_inv_same_journal [of m j m'] inv sys_submit m' res_ok_reserve [OF ok] by simp
next
  case (sys_create m j fresh r mode now)
  have "journal_wf j" "finite (dom (rows j))" using inv sys_create by (simp_all add: sys_inv_def)
  then show ?thesis
    using inv sys_create create_net [of j _ fresh r mode now]
      journal_wf_step [of j "Create fresh (intentFromRequest r mode now)"]
    by (simp add: sys_inv_def attribution_ok_def)
next
  case (sys_persist now i order msg)
  obtain m j where mj: "mj = (m, j)" by force
  obtain res m' j' where p: "persistOrder now i order msg (m, j) = (res, m', j')" by (metis prod_cases3)
  show ?thesis using persistOrder_inv [OF _ p] inv sys_persist mj p by simp
next
  case (sys_transition now i s boid msg ex pl)
  obtain m j where mj: "mj = (m, j)" by force
  let ?m = "fst (snd (transitionResult now i s boid msg ex pl (m, j)))"
  let ?j = "snd (snd (transitionResult now i s boid msg ex pl (m, j)))"
  have wf: "journal_wf j" "finite (dom (rows j))" using inv mj by (simp_all add: sys_inv_def)
  have "res_ok ?m = res_ok m" by (rule res_ok_cong) (simp_all only: transition_frame)
  moreover have "journal_wf ?j" unfolding transition_frame by (rule journal_wf_step [OF wf(1)])
  moreover have "net_of sy (rows ?j) = net_of sy (rows j)" "finite (dom (rows ?j))" for sy
    unfolding transition_frame using transition_net [OF wf] by blast+
  ultimately have "sys_inv (?m, ?j)"
    using inv mj by (simp add: sys_inv_def attribution_ok_def transition_frame(5))
  then show ?thesis using sys_transition mj by simp
next
  case (sys_release m j c)
  then show ?thesis
    using sys_inv_same_journal [of m j] inv res_ok_release [of m] by (simp add: sys_inv_def)
next
  case (sys_settle m j c)
  have "res_ok (m\<lparr>activeClientIds := activeClientIds m - {c}\<rparr>) = res_ok m" by (rule res_ok_cong) simp_all
  then show ?thesis using sys_inv_same_journal [of m j] inv sys_settle by (simp add: sys_inv_def)
next
  case (sys_pnl m j d)
  have "res_ok (recordRealisedPnl lms d m) = res_ok m" by (rule res_ok_cong) simp_all
  then show ?thesis using sys_inv_same_journal [of m j] inv sys_pnl by (simp add: sys_inv_def)
next
  case (sys_roll m j hl today)
  have "res_ok (rollTradingDay hl today m) = res_ok m" by (rule res_ok_cong) simp_all
  then show ?thesis using sys_inv_same_journal [of m j] inv sys_roll by (simp add: sys_inv_def)
next
  case (sys_feed m j now h)
  have "res_ok (setFeedHealthy lms now h m) = res_ok m" by (rule res_ok_cong) simp_all
  then show ?thesis using sys_inv_same_journal [of m j] inv sys_feed by (simp add: sys_inv_def)
next
  case (sys_controls m j l e)
  have "res_ok (m\<lparr>entryEnabled := e, liveOrderEnabled := l\<rparr>) = res_ok m" by (rule res_ok_cong) simp_all
  then show ?thesis using sys_inv_same_journal [of m j] inv sys_controls by (simp add: sys_inv_def)
next
  case (sys_evict m j c)
  have "res_ok (m\<lparr>overfillTripwireLedgers := (overfillTripwireLedgers m)(c := None)\<rparr>) = res_ok m"
    by (rule res_ok_cong) simp_all
  then show ?thesis using sys_inv_same_journal [of m j] inv sys_evict by (simp add: sys_inv_def)
next
  case (sys_reconcile owned j m)
  have "res_ok (rebuildAttribution owned m) = res_ok m"
    by (rule res_ok_cong) (simp_all add: rebuildAttribution_def recalculateGrossAttributedQuantity_def)
  then show ?thesis
    using inv sys_reconcile rebuild_exact [of j owned m] net_of_unowned [of owned j]
    by (simp add: sys_inv_def attribution_ok_def)
next
  case (sys_rebuild m j nonterm)
  let ?m0 = "m\<lparr>reservations := [], reservedEntryQuantity := 0, reductionReservations := [],
          reservedReductionsBySymbol := [], reservedReductionQuantity := 0\<rparr>"
  have "res_ok ?m0" by (simp add: res_defs)
  then have "res_ok (rebuildReservations nonterm m)"
    unfolding rebuildReservations_def by (rule res_ok_rebuild)
  then show ?thesis
    using sys_inv_same_journal [of m j "rebuildReservations nonterm m"] inv sys_rebuild
    by (simp add: rebuildReservations_def)
qed

lemma sys_inv_init: "sys_init mj \<Longrightarrow> sys_inv mj"
  by (simp add: sys_init_def sys_inv_def res_defs attribution_ok_def journal_wf_empty)
    (simp add: journal_empty_def net_of_def)

interpretation order_system: invariant_machine sys_init "sys_step lms" sys_inv
  by unfold_locales (auto intro: sys_inv_init sys_inv_step)

section \<open>The breaker latches\<close>

lemma persistOrder_latch:
  assumes "persistOrder now intent order msg (m, j) = (res, m', j')" "breakerReason m \<noteq> None"
  shows "breakerReason m' = breakerReason m"
  using assms(1)
proof (cases rule: persistOrder_cases)
  case (failed x e)
  then show ?thesis
    using assms(2) checkOverfillTripwire_latch [OF assms(2), of order]
      persist_failed_latch [of "checkOverfillTripwire order m" e order] by simp
next
  case (recorded u r m2)
  then show ?thesis using checkOverfillTripwire_latch [OF assms(2), of order] by simp
qed

lemma breaker_step:
  assumes "sys_step lms mj mj'" "breakerReason (fst mj) \<noteq> None"
  shows "breakerReason (fst mj') = breakerReason (fst mj)"
  using assms(1)
proof cases
  case (sys_submit now cr g r m m' j)
  then show ?thesis by (auto simp: submit_def split: if_splits)
next
  case (sys_persist now i order msg)
  obtain m j where mj: "mj = (m, j)" by force
  obtain res m' j' where p: "persistOrder now i order msg (m, j) = (res, m', j')" by (metis prod_cases3)
  then show ?thesis using persistOrder_latch [OF p] assms(2) mj sys_persist by simp
next
  case (sys_transition now i s boid msg ex pl)
  obtain m j where "mj = (m, j)" by force
  then show ?thesis using transition_latch assms(2) sys_transition by simp
next
  case (sys_pnl m j d)
  then show ?thesis
    using assms(2) evaluateLimits_latch by (simp add: recordRealisedPnl_def split: jsnum.split)
next
  case (sys_reconcile owned j m)
  then show ?thesis by (simp add: rebuildAttribution_def recalculateGrossAttributedQuantity_def)
next
  case (sys_rebuild m j nonterm)
  then show ?thesis by (simp add: rebuildReservations_def)
qed (simp_all)

lemma first_report_overfills:
  assumes "ev_cumulativeQty e = Fin f" "max 0 \<lfloor>q\<rfloor> < \<lfloor>f\<rfloor>"
  shows "res_outcome (fst (ledger_apply e (new_ledger c (Fin q)))) = applied_overfill"
proof -
  let ?l = "new_ledger c (Fin q)"
  have l: "seenEventIds ?l = {}" "cumulativeQty ?l = 0" "requested ?l = max 0 \<lfloor>q\<rfloor>"
    by (simp_all add: new_ledger_def)
  have o: "observation e = Some \<lfloor>f\<rfloor>" using assms by (auto simp: observation_def)
  have s: "\<not> seen_before e ?l" using l(1) by (simp add: seen_before_def split: option.split)
  have "\<not> \<lfloor>f\<rfloor> \<le> cumulativeQty ?l" using l(2) assms(2) by linarith
  with o s show ?thesis
  proof (cases rule: ledger_apply_cases [of e ?l])
    case (advance r l1 b)
    then have "r = \<lfloor>f\<rfloor>" "requested l1 = max 0 \<lfloor>q\<rfloor>" using o l(3) by simp_all
    then show ?thesis using advance(4) assms(2) by (simp add: advance_def Let_def ledger_result_def)
  qed simp_all
qed

section \<open>Properties\<close>



text \<open>C8. A reduction is admitted only in the direction that reduces the attributed position, and
  together with every reduction already outstanding on its symbol it never exceeds that
  position.\<close>

theorem reductions_within_exposure:
  assumes "reach sys_init (sys_step lms) (m, j)" and "0 \<le> rq_quantity r"
    and "rq_purpose r = EXIT \<or> rq_purpose r = EMERGENCY_RESIDUAL"
    and "submit lms now cr g r m = Inr m'"
  shows "outstanding_reductions (rq_symbol r) m' \<le> \<bar>get0 (attributedBoxPositions m') (rq_symbol r)\<bar>
    \<and> correct_side (get0 (attributedBoxPositions m') (rq_symbol r)) (rq_side r)"
proof -
  have ok: "res_ok m" using order_system.reach_inv [OF assms(1)] by (simp add: sys_inv_def)
  have m': "m' = reserve r m" and w: "withinQuantityLimits lms r m"
    using assms(4) by (auto simp: submit_def split: if_splits)
  have "outstanding_reductions (rq_symbol r) m' \<le> get0 (reservedReductionsBySymbol m') (rq_symbol r)"
    using res_ok_reserve [OF ok assms(2)] m' by (simp add: res_ok_def)
  also have "\<dots> = get0 (reservedReductionsBySymbol m) (rq_symbol r) + rq_quantity r"
    using assms(3) m' by (auto simp: reserve_def Let_def)
  also have "\<dots> \<le> \<bar>get0 (attributedBoxPositions m) (rq_symbol r)\<bar>"
    using w assms(3) by (auto simp: withinQuantityLimits_def Let_def split: if_splits)
  finally show ?thesis
    using w assms(3) m' by (auto simp: withinQuantityLimits_def Let_def split: if_splits)
qed

text \<open>A tripped circuit breaker latches: after it trips no sequence of steps, operator controls
  included, lets an entry through, while the management of existing exposure stays available
  exactly when it was.\<close>

theorem breaker_latches_entries_only:
  assumes "(sys_step lms)\<^sup>*\<^sup>* (trip why m, j) (m', j')"
  shows "\<not> canEnter lms now cr req m'
    \<and> (rq_purpose r = ENTRY \<longrightarrow> (\<exists>e. submit lms now cr g r m' = Inl e))
    \<and> canManageExposure (trip why m) = canManageExposure m"
proof -
  have "breakerReason (fst mj') \<noteq> None" if "(sys_step lms)\<^sup>*\<^sup>* mj mj'" "breakerReason (fst mj) \<noteq> None" for mj mj'
    using that by (induction rule: rtranclp_induct) (auto dest: breaker_step)
  from this [OF assms] have b: "breakerReason m' \<noteq> None" by simp
  then show ?thesis by (auto simp: canEnter_def submit_def canManageExposure_def)
qed

text \<open>An order first reported with more than its quantity filled trips the breaker, whether or
  not the durable write then succeeds.\<close>

theorem overfill_trips_breaker:
  assumes "overfillTripwireLedgers m (bo_client_order_id order) = None"
    and "bo_filled_quantity order = Fin f" and "bo_quantity order = Fin q"
    and "max 0 \<lfloor>q\<rfloor> < \<lfloor>f\<rfloor>"
  shows "breakerReason (fst (snd (persistOrder now intent order msg (m, j)))) \<noteq> None"
proof -
  let ?e = "\<lparr>ev_cumulativeQty = bo_filled_quantity order,
             ev_averagePrice = map_option Fin (bo_average_price order),
             ev_eventId = (if bo_fills order = [] then None else Some (last (bo_fills order))),
             ev_sequence = None, ev_observedAtMono = None,
             ev_observedAtWall = Some (js_int (bo_updated_at order)), ev_source = rest_poll\<rparr>"
  have out: "res_outcome (fst (ledger_apply ?e (new_ledger (bo_client_order_id order) (Fin q)))) = applied_overfill"
    by (rule first_report_overfills [OF _ assms(4)]) (simp add: assms(2))
  obtain x l' where ap: "ledger_apply ?e (new_ledger (bo_client_order_id order) (Fin q)) = (x, l')" by force
  have "breakerReason (checkOverfillTripwire order m) \<noteq> None"
    using out ap assms(1,3) by (simp add: checkOverfillTripwire_def Let_def del: not_None_eq)
  note t = this
  obtain res m' j' where p: "persistOrder now intent order msg (m, j) = (res, m', j')"
    by (metis prod_cases3)
  from p have "breakerReason m' \<noteq> None"
  proof (cases rule: persistOrder_cases)
    case (failed x e)
    then show ?thesis using t persist_failed_latch [OF t] by simp
  next
    case (recorded u r m2)
    then show ?thesis using t by simp
  qed
  with p show ?thesis by simp
qed

section \<open>A concrete run\<close>

text \<open>One leg is created, claimed for submission and filled completely; the witnesses use it.\<close>

definition sample_limits :: OrderManagerLimits where
  "sample_limits =
     \<lparr>maxOpenBoxes = 1, maxResidualLegs = 0, dailyLossLimit = 1000, rejectLimit = 5,
      maxOpenLegQuantity = 100, maxGrossOpenLegQuantity = 400, feedReconnectWarmupMs = 1000\<rparr>"

definition sample_manager :: manager where
  "sample_manager =
     \<lparr>entryEnabled = True, liveOrderEnabled = True, disposed = False, breakerReason = None,
      h_persistence = hs_healthy, h_daily_risk_seed = hs_healthy, h_broker_auth = hs_healthy,
      h_broker_orders_api = hs_healthy, h_broker_positions_api = hs_healthy,
      h_reconciliation_complete = True, unknownOrders = 0, recoveryActive = False,
      crashOnlyAttributedExposure = False, feedHealthy = True, feedWarmUntil = Fin 0,
      openBoxes = 0, residualLegs = 0, rejects = 0, realisedPnlToday = 0,
      tradingDay = ''2025-01-01'', grossOpenLegQuantity = 0, reservedEntryQuantity = 0, reservedReductionQuantity = 0,
      activeClientIds = {}, reservations = [], reductionReservations = [],
      reservedReductionsBySymbol = [], attributedBoxPositions = [], knownIntents = Map.empty,
      durableTransitionRefusals = 0, overfillTripwireLedgers = Map.empty\<rparr>"

definition sample_request :: "string \<Rightarrow> BoxOrderPurpose \<Rightarrow> OrderSide \<Rightarrow> BrokerOrderRequest" where
  "sample_request cid p s =
     \<lparr>rq_client_order_id = cid, rq_role = k1_ce, rq_trade_id = None, rq_attempt_id = ''a1'',
      rq_purpose = p, rq_phase = ph_entry, rq_exchange = ''NFO'', rq_tradingsymbol = ''C1'',
      rq_token = 1, rq_side = s, rq_quantity = 75, rq_reference_price = 100, rq_tick_size = 1,
      rq_max_chase_ticks = 2, rq_limit_price = 102, rq_tag = None\<rparr>"

definition sample_row :: BoxOrderIntentRecord where
  "sample_row = intentInsertValues ''id1'' (intentFromRequest (sample_request ''c1'' ENTRY BUY) bm_live 0)"

definition sample_order :: BrokerOrder where
  "sample_order =
     \<lparr>bo_client_order_id = ''c1'', bo_broker_order_id = Some ''B1'', bo_tag = None, bo_token = 1, bo_tradingsymbol = ''C1'',
      bo_side = BUY, bo_quantity = Fin 75,
      bo_state = I_COMPLETE, bo_filled_quantity = Fin 75, bo_average_price = Some 101,
      bo_fills = [''f1''], bo_reject_family = None, bo_reject_reason = None, bo_updated_at = 5\<rparr>"

definition sample_sys1 :: "manager \<times> journal" where
  "sample_sys1 = (sample_manager,
     snd (createBoxOrderIntent ''id1'' (intentFromRequest (sample_request ''c1'' ENTRY BUY) bm_live 0) journal_empty))"

definition sample_sys2 :: "manager \<times> journal" where
  "sample_sys2 = snd (transitionResult 1 sample_row I_SUBMITTING None ''transport submission starting''
     (Some [I_CREATED]) None sample_sys1)"

definition sample_sys3 :: "manager \<times> journal" where
  "sample_sys3 = snd (persistOrder 2 sample_row sample_order ''filled'' sample_sys2)"

lemma sample_reach: "reach sys_init (sys_step lms) sample_sys3"
proof -
  have "reach sys_init (sys_step lms) (sample_manager, journal_empty)"
    by (rule reach_init) (simp add: sys_init_def sample_manager_def)
  from reach_step [OF this sys_create] have "reach sys_init (sys_step lms) sample_sys1"
    unfolding sample_sys1_def .
  from reach_step [OF this sys_transition] have "reach sys_init (sys_step lms) sample_sys2"
    unfolding sample_sys2_def .
  from reach_step [OF this sys_persist] show ?thesis unfolding sample_sys3_def .
qed

lemma sample_rows1:
  "rows (snd sample_sys1) = [''c1'' \<mapsto> sample_row]" "db_enabled (snd sample_sys1)"
  by (simp_all add: sample_sys1_def createBoxOrderIntent_def Let_def journal_empty_def row_check_def
      unique_ok_def sample_row_def intentFromRequest_def sample_request_def)

lemma sample_rows2:
  "\<exists>a. rows (snd sample_sys2) =
     [''c1'' \<mapsto> patched_row (transition_patch I_SUBMITTING None 1) a 0 sample_row] \<and> db_enabled (snd sample_sys2)"
proof -
  obtain j where j: "sample_sys1 = (sample_manager, j)" "rows j = [''c1'' \<mapsto> sample_row]" "db_enabled j"
    using sample_rows1 by (auto simp: sample_sys1_def)
  have c: "client_order_id sample_row = ''c1''" "intent_state sample_row = I_CREATED"
    "filled_quantity sample_row = 0" "quantity sample_row = 75"
    by (simp_all add: sample_row_def intentFromRequest_def sample_request_def)
  show ?thesis
    unfolding sample_sys2_def j(1) transition_frame c(1)
    by (rule exI [of _ "auditFor sample_row I_SUBMITTING None ''transport submission starting'' None 1 None"])
      (simp add: updateBoxOrderIntent_def j(2,3) stateOk_def expectedOk_def fillOk_def brokerOk_def
        patched_fill_def transition_patch_def c row_check_def unique_ok_def Let_def)
qed

lemma sample_rows3:
  "\<exists>r. rows (snd sample_sys3) = [''c1'' \<mapsto> r] \<and> filled_quantity r = 75 \<and> side r = BUY
     \<and> intent_symbol r = ''NFO:C1'' \<and> client_order_id r = ''c1''"
proof -
  obtain m j a where s2: "sample_sys2 = (m, j)" and "db_enabled j"
    and rj: "rows j = [''c1'' \<mapsto> patched_row (transition_patch I_SUBMITTING None 1) a 0 sample_row]"
    using sample_rows2 by (metis prod.collapse)
  define r2 where "r2 = patched_row (transition_patch I_SUBMITTING None 1) a 0 sample_row"
  have c: "client_order_id r2 = ''c1''" "intent_state r2 = I_SUBMITTING" "filled_quantity r2 = 0"
    "quantity r2 = 75" "side r2 = BUY" "intent_symbol r2 = ''NFO:C1''" "broker_order_id r2 = None"
    by (simp_all add: r2_def sample_row_def intentFromRequest_def sample_request_def put_def
        transition_patch_def symbol_of_def patched_row_def)
  have i: "client_order_id sample_row = ''c1''"
    by (simp add: sample_row_def intentFromRequest_def sample_request_def)
  obtain res m' j' where p: "persistOrder 2 sample_row sample_order ''filled'' (m, j) = (res, m', j')"
    by (metis prod_cases3)
  have "rows j' = [''c1'' \<mapsto> patched_row (order_patch sample_order)
      (order_audit 2 sample_row sample_order ''filled'') 75 r2]"
    unfolding persistOrder_journal [OF p] i
    by (simp add: updateBoxOrderIntent_def \<open>db_enabled j\<close> rj [folded r2_def] stateOk_def expectedOk_def
        fillOk_def brokerOk_def patched_fill_def order_patch_def sample_order_def c row_check_def
        unique_ok_def Let_def)
  moreover have "snd sample_sys3 = j'" using p s2 by (simp add: sample_sys3_def)
  ultimately show ?thesis
    using c by (intro exI [of _ "patched_row (order_patch sample_order)
      (order_audit 2 sample_row sample_order ''filled'') 75 r2"]) simp
qed

lemma sample_position: "get0 (attributedBoxPositions (fst sample_sys3)) ''NFO:C1'' = 75"
proof -
  have "sys_inv sample_sys3" by (rule order_system.reach_inv [OF sample_reach])
  moreover have "net_of ''NFO:C1'' (rows (snd sample_sys3)) = 75"
    using sample_rows3 by (auto simp: net_of_def contribution_def signed_def)
  ultimately show ?thesis by (simp add: sys_inv_def attribution_ok_def)
qed



text \<open>From there, exposure management enabled and the reservations rebuilt, an exit of the whole
  position is admitted.\<close>

lemma persistOrder_disposed: "disposed (fst (snd (persistOrder now i order msg (m, j)))) = disposed m"
proof -
  obtain res m' j' where p: "persistOrder now i order msg (m, j) = (res, m', j')" by (metis prod_cases3)
  have c: "disposed (checkOverfillTripwire order m) = disposed m"
    by (simp add: checkOverfillTripwire_def Let_def split: prod.split)
  have r: "disposed (releaseReservation x n) = disposed n" for x n
    by (simp add: releaseReservation_def Let_def split: option.split)
  from p have "disposed m' = disposed m"
    by (cases rule: persistOrder_cases)
      (simp_all add: c r persist_failed_def Let_def attribute_fill_def recalculateGrossAttributedQuantity_def)
  with p show ?thesis by simp
qed

definition sample_sys4 :: manager where
  "sample_sys4 =
     (let m1 = (fst sample_sys3)\<lparr>entryEnabled := False, liveOrderEnabled := True\<rparr>;
          m2 = rebuildReservations [] m1
      in m2\<lparr>activeClientIds := activeClientIds m2 - {''x1''}\<rparr>)"

lemma sample_reach4: "reach sys_init (sys_step lms) (sample_sys4, snd sample_sys3)"
proof -
  have "reach sys_init (sys_step lms) (fst sample_sys3, snd sample_sys3)" by (simp add: sample_reach)
  from reach_step [OF reach_step [OF reach_step [OF this sys_controls] sys_rebuild] sys_settle]
  show ?thesis unfolding sample_sys4_def Let_def .
qed

lemma sample_sys4_simps:
  "\<not> disposed sample_sys4" "liveOrderEnabled sample_sys4"
  "get0 (attributedBoxPositions sample_sys4) ''NFO:C1'' = 75"
  "reservedReductionsBySymbol sample_sys4 = []" "''x1'' \<notin> activeClientIds sample_sys4"
proof -
  obtain m j where s2: "sample_sys2 = (m, j)" by force
  have "\<not> disposed m" using s2
    by (auto simp: sample_sys2_def sample_sys1_def transitionResult_def sample_manager_def Let_def trip_def
        split: prod.splits sum.splits option.splits if_splits)
  then have "\<not> disposed (fst sample_sys3)" by (simp add: sample_sys3_def s2 persistOrder_disposed)
  then show "\<not> disposed sample_sys4" "liveOrderEnabled sample_sys4"
    "get0 (attributedBoxPositions sample_sys4) ''NFO:C1'' = 75"
    "reservedReductionsBySymbol sample_sys4 = []" "''x1'' \<notin> activeClientIds sample_sys4"
    using sample_position by (simp_all add: sample_sys4_def rebuildReservations_def Let_def)
qed

theorem reductions_within_exposure_witness:
  "\<exists>m'. submit sample_limits 0 None True (sample_request ''x1'' EXIT SELL) sample_sys4 = Inr m'
     \<and> outstanding_reductions ''NFO:C1'' m' \<le> \<bar>get0 (attributedBoxPositions m') ''NFO:C1''\<bar>"
proof -
  let ?r = "sample_request ''x1'' EXIT SELL"
  have s: "submit sample_limits 0 None True ?r sample_sys4 = Inr (reserve ?r sample_sys4)"
    using sample_sys4_simps
    by (simp add: submit_def canManageExposure_def withinQuantityLimits_def sample_request_def
        sample_limits_def symbol_of_def correct_side_def Let_def)
  have "outstanding_reductions (rq_symbol ?r) (reserve ?r sample_sys4)
      \<le> \<bar>get0 (attributedBoxPositions (reserve ?r sample_sys4)) (rq_symbol ?r)\<bar>
    \<and> correct_side (get0 (attributedBoxPositions (reserve ?r sample_sys4)) (rq_symbol ?r)) (rq_side ?r)"
    by (rule reductions_within_exposure [OF sample_reach4 _ _ s]) (simp_all add: sample_request_def)
  with s show ?thesis by (intro exI [of _ "reserve ?r sample_sys4"]) (simp add: sample_request_def symbol_of_def)
qed

theorem breaker_latches_entries_only_witness:
  "\<not> canEnter sample_limits 0 None None
     ((trip daily_loss_limit_reached sample_manager)\<lparr>entryEnabled := True, liveOrderEnabled := True\<rparr>)
   \<and> canEnter sample_limits 0 None None sample_manager"
proof -
  let ?m = "trip daily_loss_limit_reached sample_manager"
  have "(sys_step sample_limits)\<^sup>*\<^sup>* (?m, journal_empty)
      (?m\<lparr>entryEnabled := True, liveOrderEnabled := True\<rparr>, journal_empty)"
    by (rule r_into_rtranclp) (rule sys_controls)
  from breaker_latches_entries_only [OF this] show ?thesis
    by (simp add: canEnter_def sample_manager_def sample_limits_def isCrashRecoveryEntryQuarantined_def)
qed

theorem overfill_trips_breaker_witness:
  "breakerReason (fst (snd (persistOrder 2 sample_row (sample_order\<lparr>bo_filled_quantity := Fin 80\<rparr>) ''m''
     (sample_manager, journal_empty)))) \<noteq> None"
  by (rule overfill_trips_breaker [where f = 80 and q = 75])
    (simp_all add: sample_manager_def sample_order_def)

end
