(* ===== verification/Entry_Guard.thy ===== *)
theory Entry_Guard
  imports Order_Manager
begin

text \<open>
  The protections of a four-leg live entry: the hedge-first submission order
  (\<^verbatim>\<open>src/box/entrySubmissionOrder.ts\<close>), the proof-of-coverage ledger
  (\<^verbatim>\<open>src/box/hedgeCoverageLedger.ts\<close>), the composed entry permission
  (\<^verbatim>\<open>src/box/liveEntryGuard.ts\<close>), and the per-attempt transport gate of
  \<^verbatim>\<open>src/box/orderManager.ts\<close> that parks an uncovered SELL until its BUY hedges have decided.

  The record \<open>gates\<close> holds the manager's gate map and its diagnostics counters; the answers of
  the caller's callbacks at one evaluation are arguments, a throw being a value.  Detail strings
  are replaced by reason constructors.

  The lemmas show that the submission order is a hedge-first permutation, that terminal evidence
  is never displaced, that coverage is granted on exact proof only, that every parked leg wakes
  when its hedges have decided, and, over every run of the gate machine, that a SELL allowed at
  the final boundary has all its hedges filled in terminal broker snapshots.
\<close>

section \<open>Hedge-first submission order\<close>

record EntrySubmissionSlot =
  slot_role :: BoxLegRole
  slot_side :: OrderSide
  slot_rank :: nat
  slot_hedge :: bool

definition entrySubmissionOrder :: "BoxDirection \<Rightarrow> EntrySubmissionSlot list" where
  "entrySubmissionOrder d =
     (let sides = BOX_ENTRY_SIDES_BY_DIRECTION d;
          buys = filter (\<lambda>r. sides r = BUY) BOX_LEG_ROLES;
          sells = filter (\<lambda>r. sides r \<noteq> BUY) BOX_LEG_ROLES
      in map (\<lambda>(index, r). \<lparr>slot_role = r, slot_side = sides r, slot_rank = index,
                           slot_hedge = (sides r = BUY)\<rparr>)
           (enumerate 0 (buys @ sells)))"

definition entrySubmissionRoles :: "BoxDirection \<Rightarrow> BoxLegRole list" where
  "entrySubmissionRoles d = map slot_role (entrySubmissionOrder d)"

definition entryTransportRank :: "BoxDirection \<Rightarrow> BoxLegRole \<Rightarrow> int" where
  "entryTransportRank d r =
     (case find (\<lambda>s. slot_role s = r) (entrySubmissionOrder d) of
        Some s \<Rightarrow> int (slot_rank s) | None \<Rightarrow> -1)"

text \<open>The loop of \<^verbatim>\<open>isHedgeFirstSequence\<close> with its flag.\<close>

fun hedge_first_loop :: "bool \<Rightarrow> OrderSide list \<Rightarrow> bool" where
  "hedge_first_loop seenSell [] = True"
| "hedge_first_loop seenSell (s # ss) =
     (if s = SELL then hedge_first_loop True ss
      else if seenSell then False else hedge_first_loop seenSell ss)"

definition isHedgeFirstSequence :: "OrderSide list \<Rightarrow> bool" where
  "isHedgeFirstSequence ss = hedge_first_loop False ss"

section \<open>The coverage ledger\<close>

record HedgeRequirement =
  hr_attempt_id :: string
  hr_role :: BoxLegRole
  hr_token :: int
  hr_tradingsymbol :: string
  hr_side :: OrderSide
  hr_broker_account :: string
  hr_required_quantity :: jsnum

record HedgeOutcomeEvidence =
  ev_attempt_id :: string
  ev_role :: BoxLegRole
  ev_token :: int
  ev_tradingsymbol :: string
  ev_side :: OrderSide
  ev_broker_account :: string
  ev_requested_quantity :: jsnum
  ev_confirmed_fill_quantity :: "jsnum option"
  ev_terminal :: bool

datatype HedgeCoverageGap =
    no_evidence | not_terminal | gap_no_post | contract_mismatch | side_mismatch
  | account_mismatch | attempt_mismatch | insufficient_fill

datatype HedgeCoverageResult = Covered | Gap HedgeCoverageGap

record HedgeCoverageLedger =
  hl_attemptId :: string
  evidenceByRole :: "BoxLegRole \<rightharpoonup> HedgeOutcomeEvidence"
  claims :: "BoxLegRole \<rightharpoonup> BoxLegRole set"

definition new_coverage :: "string \<Rightarrow> HedgeCoverageLedger" where
  "new_coverage att = \<lparr>hl_attemptId = att, evidenceByRole = Map.empty, claims = Map.empty\<rparr>"

definition record_evidence :: "HedgeOutcomeEvidence \<Rightarrow> HedgeCoverageLedger \<Rightarrow> HedgeCoverageLedger" where
  "record_evidence e l =
     (if ev_attempt_id e \<noteq> hl_attemptId l then l
      else case evidenceByRole l (ev_role e) of
        Some old \<Rightarrow>
          if ev_terminal old \<and> \<not> ev_terminal e then l
          else if ev_terminal old \<and> ev_terminal e then l
          else l\<lparr>evidenceByRole := (evidenceByRole l)(ev_role e \<mapsto> e)\<rparr>
      | None \<Rightarrow> l\<lparr>evidenceByRole := (evidenceByRole l)(ev_role e \<mapsto> e)\<rparr>)"

definition coverageFor :: "HedgeCoverageLedger \<Rightarrow> HedgeRequirement \<Rightarrow> HedgeCoverageResult" where
  "coverageFor l req =
     (if hr_attempt_id req \<noteq> hl_attemptId l then Gap attempt_mismatch
      else case evidenceByRole l (hr_role req) of
        None \<Rightarrow> Gap no_evidence
      | Some e \<Rightarrow>
          if ev_attempt_id e \<noteq> hr_attempt_id req then Gap attempt_mismatch
          else if ev_side e \<noteq> hr_side req \<or> hr_side req \<noteq> BUY then Gap side_mismatch
          else if ev_token e \<noteq> hr_token req \<or> ev_tradingsymbol e \<noteq> hr_tradingsymbol req
            then Gap contract_mismatch
          else if ev_broker_account e \<noteq> hr_broker_account req then Gap account_mismatch
          else if \<not> ev_terminal e then Gap not_terminal
          else (case ev_confirmed_fill_quantity e of
                  None \<Rightarrow> Gap gap_no_post
                | Some q \<Rightarrow> if js_lt q (hr_required_quantity req) then Gap insufficient_fill else Covered))"

datatype CoverageSetGap = no_requirements | hedge_not_covered BoxLegRole HedgeCoverageGap

fun first_gap :: "HedgeCoverageLedger \<Rightarrow> HedgeRequirement list \<Rightarrow> CoverageSetGap option" where
  "first_gap l [] = None"
| "first_gap l (r # rs) =
     (case coverageFor l r of
        Covered \<Rightarrow> first_gap l rs | Gap g \<Rightarrow> Some (hedge_not_covered (hr_role r) g))"

definition coverageGapFor :: "HedgeCoverageLedger \<Rightarrow> HedgeRequirement list \<Rightarrow> CoverageSetGap option" where
  "coverageGapFor l reqs = (if reqs = [] then Some no_requirements else first_gap l reqs)"

definition add_claim :: "BoxLegRole \<Rightarrow> HedgeRequirement \<Rightarrow> HedgeCoverageLedger \<Rightarrow> HedgeCoverageLedger" where
  "add_claim dep req l =
     l\<lparr>claims := (claims l)(hr_role req \<mapsto>
          insert dep (case claims l (hr_role req) of Some s \<Rightarrow> s | None \<Rightarrow> {}))\<rparr>"

definition claimCoverage ::
    "BoxLegRole \<Rightarrow> HedgeRequirement list \<Rightarrow> HedgeCoverageLedger \<Rightarrow> bool \<times> HedgeCoverageLedger" where
  "claimCoverage dep reqs l =
     (if coverageGapFor l reqs \<noteq> None then (False, l) else (True, fold (add_claim dep) reqs l))"

section \<open>The composed entry permission\<close>

datatype LiveEntryGuardStage = pre_build | post_evidence | pre_enqueue | dequeue | post_persist | pre_post

datatype LiveEntryGuardRefusal =
    not_still_wanted | entry_disarmed | live_orders_disarmed | circuit_open | entry_not_admissible
  | attempt_aborted | hedge_coverage_unproven | cross_leg_incoherent | economic_evidence_expired

record 'g LiveEntryGuardInputs =
  gi_stillWanted :: bool
  gi_entryEnabled :: bool
  gi_liveOrderEntryEnabled :: bool
  gi_circuitClosed :: bool
  gi_entryAdmissible :: bool
  gi_attemptAborted :: "string option"
  gi_hedgeCoverageGap :: "'g option"
  gi_crossLegCoherenceGap :: "string option"
  gi_economicEvidenceGap :: "string option"

datatype LiveEntryGuardDecision = Allowed | Refused LiveEntryGuardRefusal

definition evaluateLiveEntryGuard :: "'g LiveEntryGuardInputs \<Rightarrow> LiveEntryGuardDecision" where
  "evaluateLiveEntryGuard i =
     (if \<not> gi_stillWanted i then Refused not_still_wanted
      else if \<not> gi_liveOrderEntryEnabled i then Refused live_orders_disarmed
      else if \<not> gi_entryEnabled i then Refused entry_disarmed
      else if \<not> gi_circuitClosed i then Refused circuit_open
      else if gi_attemptAborted i \<noteq> None then Refused attempt_aborted
      else if gi_hedgeCoverageGap i \<noteq> None then Refused hedge_coverage_unproven
      else if gi_crossLegCoherenceGap i \<noteq> None then Refused cross_leg_incoherent
      else if gi_economicEvidenceGap i \<noteq> None then Refused economic_evidence_expired
      else if \<not> gi_entryAdmissible i then Refused entry_not_admissible
      else Allowed)"

text \<open>\<^verbatim>\<open>stillWantedSafely\<close>: the outer \<^const>\<open>None\<close> is an absent predicate, the inner one a throw.\<close>

definition stillWantedSafely :: "bool option option \<Rightarrow> bool" where
  "stillWantedSafely p = (case p of None \<Rightarrow> True | Some r \<Rightarrow> r = Some True)"

section \<open>The transport gate\<close>

record LiveEntryTransportGuard =
  transportRank :: nat
  g_hedge :: bool
  g_hedgeCount :: nat

text \<open>What the guard's callbacks answer at one evaluation.\<close>

datatype callback = Returned "string option" | Threw string

record guard_answers =
  ans_stillWanted :: "bool option"
  ans_coherence :: "callback option"
  ans_economics :: "callback option"

datatype transport_outcome = posted | no_post

record EntryTransportGate =
  registered :: "nat set"
  decided :: "nat \<rightharpoonup> transport_outcome"
  waiters :: "nat list"
  hedgeFailure :: "string option"
  coverage :: HedgeCoverageLedger
  hedgeRequirements :: "nat \<rightharpoonup> HedgeRequirement"
  hedgeCount :: nat

record gates =
  entryTransportGates :: "string \<rightharpoonup> EntryTransportGate"
  entryGuardRefusals :: "LiveEntryGuardStage \<Rightarrow> nat"
  coherenceDegradedAfterExposure :: nat
  lastCoherenceDegradation :: "string option"
  economicEvidenceDegradedAfterExposure :: nat
  lastEconomicEvidenceDegradation :: "string option"

definition new_gate :: "string \<Rightarrow> nat \<Rightarrow> EntryTransportGate" where
  "new_gate att n =
     \<lparr>registered = {}, decided = Map.empty, waiters = [], hedgeFailure = None,
      coverage = new_coverage att, hedgeRequirements = Map.empty, hedgeCount = n\<rparr>"

definition requirement_of :: "string \<Rightarrow> string \<Rightarrow> BrokerOrderRequest \<Rightarrow> HedgeRequirement" where
  "requirement_of acct att r =
     \<lparr>hr_attempt_id = att, hr_role = rq_role r, hr_token = rq_token r,
      hr_tradingsymbol = rq_tradingsymbol r, hr_side = rq_side r, hr_broker_account = acct,
      hr_required_quantity = Fin (rq_quantity r)\<rparr>"

text \<open>\<open>acct\<close> is \<^verbatim>\<open>brokerAccountKey()\<close>, constant within one manager.\<close>

definition ensureEntryTransportGate ::
    "string \<Rightarrow> LiveEntryTransportGuard \<Rightarrow> BrokerOrderRequest \<Rightarrow> gates \<Rightarrow> gates" where
  "ensureEntryTransportGate acct guard r gs =
     (let att = rq_attempt_id r;
          g0 = (case entryTransportGates gs att of Some g \<Rightarrow> g | None \<Rightarrow> new_gate att (g_hedgeCount guard));
          g1 = g0\<lparr>registered := insert (transportRank guard) (registered g0),
                  hedgeCount := max (hedgeCount g0) (g_hedgeCount guard)\<rparr>;
          g2 = (if g_hedge guard
                then g1\<lparr>hedgeRequirements :=
                       (hedgeRequirements g1)(transportRank guard \<mapsto> requirement_of acct att r)\<rparr>
                else g1)
      in gs\<lparr>entryTransportGates := (entryTransportGates gs)(att \<mapsto> g2)\<rparr>)"

definition entryHedgesDecided :: "EntryTransportGate \<Rightarrow> nat \<Rightarrow> bool" where
  "entryHedgesDecided g rank =
     (rank < hedgeCount g \<or> list_all (\<lambda>h. decided g h \<noteq> None) [0..<hedgeCount g])"

definition entryAllRanksDecided :: "EntryTransportGate \<Rightarrow> bool" where
  "entryAllRanksDecided g = (\<forall>r \<in> registered g. decided g r \<noteq> None)"

text \<open>Parks a dependent leg whose hedges have not all decided; the result says whether it parked.\<close>

definition awaitEntryTransportTurn ::
    "BrokerOrderRequest \<Rightarrow> LiveEntryTransportGuard \<Rightarrow> gates \<Rightarrow> bool \<times> gates" where
  "awaitEntryTransportTurn r guard gs =
     (case entryTransportGates gs (rq_attempt_id r) of
        None \<Rightarrow> (False, gs)
      | Some g \<Rightarrow>
          if g_hedge guard then (False, gs)
          else if entryHedgesDecided g (transportRank guard) then (False, gs)
          else (True, gs\<lparr>entryTransportGates := (entryTransportGates gs)(rq_attempt_id r \<mapsto>
                  g\<lparr>waiters := waiters g @ [transportRank guard]\<rparr>)\<rparr>))"

definition wakeEntryTransportWaiters :: "EntryTransportGate \<Rightarrow> EntryTransportGate" where
  "wakeEntryTransportWaiters g = g\<lparr>waiters := filter (\<lambda>r. \<not> entryHedgesDecided g r) (waiters g)\<rparr>"

definition hedgeEvidenceFrom ::
    "string \<Rightarrow> BrokerOrderRequest \<Rightarrow> transport_outcome \<Rightarrow> BrokerOrder option \<Rightarrow> HedgeOutcomeEvidence" where
  "hedgeEvidenceFrom acct r outcome order =
     (let base = \<lparr>ev_attempt_id = rq_attempt_id r, ev_role = rq_role r, ev_token = rq_token r,
                  ev_tradingsymbol = rq_tradingsymbol r, ev_side = rq_side r,
                  ev_broker_account = acct, ev_requested_quantity = Fin (rq_quantity r),
                  ev_confirmed_fill_quantity = None, ev_terminal = False\<rparr>
      in case order of
           Some b \<Rightarrow>
             if isBrokerOrderTerminal (bo_state b)
             then base\<lparr>ev_token := bo_token b, ev_tradingsymbol := bo_tradingsymbol b,
                       ev_side := bo_side b,
                       ev_confirmed_fill_quantity := Some (bo_filled_quantity b),
                       ev_terminal := True\<rparr>
             else if outcome = no_post then base\<lparr>ev_terminal := True\<rparr>
             else base\<lparr>ev_token := bo_token b, ev_tradingsymbol := bo_tradingsymbol b,
                       ev_side := bo_side b\<rparr>
         | None \<Rightarrow> if outcome = no_post then base\<lparr>ev_terminal := True\<rparr> else base)"

definition decideEntryTransportRank ::
    "string \<Rightarrow> BrokerOrderRequest \<Rightarrow> LiveEntryTransportGuard \<Rightarrow> transport_outcome \<Rightarrow> string option \<Rightarrow>
     BrokerOrder option \<Rightarrow> gates \<Rightarrow> gates" where
  "decideEntryTransportRank acct r guard outcome reason terminalOrder gs =
     (case entryTransportGates gs (rq_attempt_id r) of
        None \<Rightarrow> gs
      | Some g \<Rightarrow>
          let g1 = (if decided g (transportRank guard) = None
                    then g\<lparr>decided := (decided g)(transportRank guard \<mapsto> outcome)\<rparr> else g);
              g2 = (if g_hedge guard \<and> reason \<noteq> None \<and> hedgeFailure g1 = None
                    then g1\<lparr>hedgeFailure := reason\<rparr> else g1);
              g3 = (if g_hedge guard
                    then g2\<lparr>coverage := record_evidence (hedgeEvidenceFrom acct r outcome terminalOrder)
                              (coverage g2)\<rparr>
                    else g2);
              g4 = wakeEntryTransportWaiters g3
          in if waiters g4 = [] \<and> entryAllRanksDecided g4
             then gs\<lparr>entryTransportGates := (entryTransportGates gs)(rq_attempt_id r := None)\<rparr>
             else gs\<lparr>entryTransportGates := (entryTransportGates gs)(rq_attempt_id r \<mapsto> g4)\<rparr>)"

definition drainEntryTransportGates :: "gates \<Rightarrow> gates" where
  "drainEntryTransportGates gs = gs\<lparr>entryTransportGates := Map.empty\<rparr>"

section \<open>The checkpoints\<close>

datatype gate_gap =
    no_transport_gate | hedge_rank_undeclared nat | coverage_unproven CoverageSetGap

text \<open>The requirements of the ranks below a bound, up to the first undeclared one.\<close>

fun declared_requirements ::
    "(nat \<rightharpoonup> HedgeRequirement) \<Rightarrow> nat list \<Rightarrow> nat + HedgeRequirement list" where
  "declared_requirements m [] = Inr []"
| "declared_requirements m (r # rs) =
     (case m r of
        None \<Rightarrow> Inl r
      | Some req \<Rightarrow>
          (case declared_requirements m rs of Inl x \<Rightarrow> Inl x | Inr reqs \<Rightarrow> Inr (req # reqs)))"

definition entryHedgeCoverageGap ::
    "BrokerOrderRequest \<Rightarrow> LiveEntryGuardStage \<Rightarrow> gates \<Rightarrow> gate_gap option \<times> gates" where
  "entryHedgeCoverageGap r stage gs =
     (if stage \<noteq> pre_post then (None, gs)
      else case entryTransportGates gs (rq_attempt_id r) of
        None \<Rightarrow> (Some no_transport_gate, gs)
      | Some g \<Rightarrow>
          (case declared_requirements (hedgeRequirements g) [0..<hedgeCount g] of
             Inl rank \<Rightarrow> (Some (hedge_rank_undeclared rank), gs)
           | Inr reqs \<Rightarrow>
               let (ok, l) = claimCoverage (rq_role r) reqs (coverage g);
                   gs' = gs\<lparr>entryTransportGates := (entryTransportGates gs)(rq_attempt_id r \<mapsto>
                           g\<lparr>coverage := l\<rparr>)\<rparr>
               in if \<not> ok then (map_option coverage_unproven (coverageGapFor l reqs), gs')
                  else (None, gs')))"

definition already_exposed :: "BrokerOrderRequest \<Rightarrow> gates \<Rightarrow> bool" where
  "already_exposed r gs =
     (case entryTransportGates gs (rq_attempt_id r) of
        None \<Rightarrow> False | Some g \<Rightarrow> posted \<in> ran (decided g))"

definition entryCrossLegCoherenceGap ::
    "BrokerOrderRequest \<Rightarrow> callback option \<Rightarrow> LiveEntryGuardStage \<Rightarrow> gates \<Rightarrow> string option \<times> gates" where
  "entryCrossLegCoherenceGap r cb stage gs =
     (if stage \<noteq> pre_post then (None, gs)
      else case cb of
        None \<Rightarrow> (None, gs)
      | Some c \<Rightarrow>
          if already_exposed r gs then
            (None, case c of
                     Returned None \<Rightarrow> gs
                   | Returned (Some why) \<Rightarrow>
                       gs\<lparr>coherenceDegradedAfterExposure := coherenceDegradedAfterExposure gs + 1,
                          lastCoherenceDegradation := Some why\<rparr>
                   | Threw _ \<Rightarrow>
                       gs\<lparr>coherenceDegradedAfterExposure := coherenceDegradedAfterExposure gs + 1\<rparr>)
          else (case c of Returned why \<Rightarrow> why | Threw why \<Rightarrow> Some why, gs))"

definition entryEconomicEvidenceGap ::
    "BrokerOrderRequest \<Rightarrow> callback option \<Rightarrow> LiveEntryGuardStage \<Rightarrow> gates \<Rightarrow> string option \<times> gates" where
  "entryEconomicEvidenceGap r cb stage gs =
     (if stage \<noteq> pre_post then (None, gs)
      else case cb of
        None \<Rightarrow> (None, gs)
      | Some c \<Rightarrow>
          if already_exposed r gs then
            (None, case c of
                     Returned None \<Rightarrow> gs
                   | Returned (Some why) \<Rightarrow>
                       gs\<lparr>economicEvidenceDegradedAfterExposure := economicEvidenceDegradedAfterExposure gs + 1,
                          lastEconomicEvidenceDegradation := Some why\<rparr>
                   | Threw _ \<Rightarrow>
                       gs\<lparr>economicEvidenceDegradedAfterExposure := economicEvidenceDegradedAfterExposure gs + 1\<rparr>)
          else (case c of Returned why \<Rightarrow> why | Threw why \<Rightarrow> Some why, gs))"

definition evaluateEntryGuard ::
    "OrderManagerLimits \<Rightarrow> int \<Rightarrow> bool option \<Rightarrow> manager \<Rightarrow> BrokerOrderRequest \<Rightarrow> LiveEntryTransportGuard \<Rightarrow>
     guard_answers \<Rightarrow> LiveEntryGuardStage \<Rightarrow> gates \<Rightarrow> LiveEntryGuardDecision \<times> gates" where
  "evaluateEntryGuard lms now cr m r guard ans stage gs =
     (let (cov, gs1) = (if g_hedge guard then (None, gs) else entryHedgeCoverageGap r stage gs);
          (coh, gs2) = entryCrossLegCoherenceGap r (ans_coherence ans) stage gs1;
          (eco, gs3) = entryEconomicEvidenceGap r (ans_economics ans) stage gs2;
          decision = evaluateLiveEntryGuard
            \<lparr>gi_stillWanted = stillWantedSafely (Some (ans_stillWanted ans)),
             gi_entryEnabled = entryEnabled m, gi_liveOrderEntryEnabled = liveOrderEnabled m,
             gi_circuitClosed = (breakerReason m = None),
             gi_entryAdmissible = (stage = pre_enqueue \<or> canEnter lms now cr (Some r) m),
             gi_attemptAborted = None, gi_hedgeCoverageGap = cov,
             gi_crossLegCoherenceGap = coh, gi_economicEvidenceGap = eco\<rparr>;
          gs4 = (if decision \<noteq> Allowed
                 then gs3\<lparr>entryGuardRefusals := (entryGuardRefusals gs3)(stage := entryGuardRefusals gs3 stage + 1)\<rparr>
                 else gs3)
      in (decision, gs4))"

section \<open>Facts about the submission order\<close>

lemma hedge_first_loop_True: "hedge_first_loop True ss = (set ss \<subseteq> {SELL})"
  by (induction ss) auto

lemma all_SELL_replicate: "set ss \<subseteq> {SELL} \<longleftrightarrow> (\<exists>b. ss = replicate b SELL)"
proof
  assume "set ss \<subseteq> {SELL}"
  then have "ss = replicate (length ss) SELL" by (induction ss) auto
  then show "\<exists>b. ss = replicate b SELL" by blast
qed auto

lemma hedge_first_loop_False:
  "hedge_first_loop False ss \<longleftrightarrow> (\<exists>a b. ss = replicate a BUY @ replicate b SELL)"
proof (induction ss)
  case Nil
  show ?case by (simp add: exI [of _ 0])
next
  case (Cons s ss)
  show ?case
  proof (cases s)
    case BUY
    have "(\<exists>a b. BUY # ss = replicate a BUY @ replicate b SELL)
        \<longleftrightarrow> (\<exists>a b. ss = replicate a BUY @ replicate b SELL)" (is "?L = ?R")
    proof
      assume ?L
      then obtain a b where e: "BUY # ss = replicate a BUY @ replicate b SELL" by blast
      show ?R
      proof (cases a)
        case 0
        with e show ?thesis by (cases b) auto
      next
        case (Suc a')
        with e show ?thesis by auto
      qed
    next
      assume ?R
      then obtain a b where "ss = replicate a BUY @ replicate b SELL" by blast
      then show ?L by (intro exI [of _ "Suc a"] exI [of _ b]) simp
    qed
    with BUY Cons.IH show ?thesis by simp
  next
    case SELL
    have "(\<exists>a b. SELL # ss = replicate a BUY @ replicate b SELL) \<longleftrightarrow> (\<exists>b. ss = replicate b SELL)" (is "?L = ?R")
    proof
      assume ?L
      then obtain a b where e: "SELL # ss = replicate a BUY @ replicate b SELL" by blast
      then have "a = 0" by (cases a) auto
      with e show ?R by (cases b) auto
    next
      assume ?R
      then obtain b where "ss = replicate b SELL" by blast
      then show ?L by (intro exI [of _ 0] exI [of _ "Suc b"]) simp
    qed
    with SELL show ?thesis by (simp add: hedge_first_loop_True all_SELL_replicate)
  qed
qed

section \<open>Facts about the coverage ledger\<close>

lemma coverageFor_iff:
  "coverageFor l req = Covered \<longleftrightarrow>
     hr_attempt_id req = hl_attemptId l \<and> hr_side req = BUY \<and>
     (\<exists>e q. evidenceByRole l (hr_role req) = Some e \<and> ev_attempt_id e = hr_attempt_id req
        \<and> ev_side e = BUY \<and> ev_token e = hr_token req \<and> ev_tradingsymbol e = hr_tradingsymbol req
        \<and> ev_broker_account e = hr_broker_account req \<and> ev_terminal e
        \<and> ev_confirmed_fill_quantity e = Some q \<and> \<not> js_lt q (hr_required_quantity req))"
  by (auto simp: coverageFor_def simp del: not_BUY not_SELL split: option.split)

lemma first_gap_None: "first_gap l reqs = None \<longleftrightarrow> (\<forall>r \<in> set reqs. coverageFor l r = Covered)"
  by (induction reqs) (auto split: HedgeCoverageResult.split)

lemma coverageGapFor_None:
  "coverageGapFor l reqs = None \<longleftrightarrow> reqs \<noteq> [] \<and> (\<forall>r \<in> set reqs. coverageFor l r = Covered)"
  by (simp add: coverageGapFor_def first_gap_None)

lemma add_claim_frame [simp]:
  "evidenceByRole (add_claim d r l) = evidenceByRole l" "hl_attemptId (add_claim d r l) = hl_attemptId l"
  by (simp_all add: add_claim_def)

lemma fold_add_claim_frame [simp]:
  "evidenceByRole (fold (add_claim d) rs l) = evidenceByRole l"
  "hl_attemptId (fold (add_claim d) rs l) = hl_attemptId l"
  by (induction rs arbitrary: l) simp_all

lemma claimCoverage_frame [simp]:
  "evidenceByRole (snd (claimCoverage d rs l)) = evidenceByRole l"
  "hl_attemptId (snd (claimCoverage d rs l)) = hl_attemptId l"
  by (simp_all add: claimCoverage_def)

lemma record_evidence_attempt [simp]: "hl_attemptId (record_evidence e l) = hl_attemptId l"
  by (simp add: record_evidence_def split: option.split)

lemma record_evidence_lookup:
  "evidenceByRole (record_evidence e l) rl = Some x \<Longrightarrow>
   evidenceByRole l rl = Some x \<or> (x = e \<and> rl = ev_role e \<and> ev_attempt_id e = hl_attemptId l)"
  by (auto simp: record_evidence_def split: option.splits if_splits)

definition terminal_kept :: "BoxLegRole \<Rightarrow> HedgeOutcomeEvidence \<Rightarrow> HedgeCoverageLedger \<Rightarrow> bool" where
  "terminal_kept rl e l = (evidenceByRole l rl = Some e \<and> ev_terminal e)"

interpretation terminal_evidence: invariant_fold record_evidence "terminal_kept rl e"
  by unfold_locales (auto simp: terminal_kept_def record_evidence_def split: option.splits)

text \<open>A fill that is not a number is not less than the required quantity and so counts as cover.\<close>

lemma nan_fill_counts_as_covered:
  "coverageFor \<lparr>hl_attemptId = ''a1'', evidenceByRole = [k1_ce \<mapsto>
       \<lparr>ev_attempt_id = ''a1'', ev_role = k1_ce, ev_token = 1, ev_tradingsymbol = ''C1'', ev_side = BUY,
        ev_broker_account = ''broker:live'', ev_requested_quantity = Fin 75,
        ev_confirmed_fill_quantity = Some NaN, ev_terminal = True\<rparr>], claims = Map.empty\<rparr>
     \<lparr>hr_attempt_id = ''a1'', hr_role = k1_ce, hr_token = 1, hr_tradingsymbol = ''C1'', hr_side = BUY,
      hr_broker_account = ''broker:live'', hr_required_quantity = Fin 75\<rparr> = Covered"
  by (simp add: coverageFor_def)

section \<open>Runs of the gate machine\<close>

text \<open>The second component collects the broker snapshots handed to hedge decisions, with the request
  they answer.\<close>

type_synonym gate_state = "gates \<times> (BrokerOrderRequest \<times> BrokerOrder) set"

inductive gate_step :: "string \<Rightarrow> gate_state \<Rightarrow> gate_state \<Rightarrow> bool" for acct where
  gate_register: "gate_step acct (gs, H) (ensureEntryTransportGate acct guard r gs, H)"
| gate_await: "gate_step acct (gs, H) (snd (awaitEntryTransportTurn r guard gs), H)"
| gate_decide: "gate_step acct (gs, H)
    (decideEntryTransportRank acct r guard outcome reason order gs,
     (case order of Some b \<Rightarrow> insert (r, b) H | None \<Rightarrow> H))"
| gate_evaluate: "gate_step acct (gs, H) (snd (evaluateEntryGuard lms now cr m r guard ans stage gs), H)"
| gate_drain: "gate_step acct (gs, H) (drainEntryTransportGates gs, H)"

definition proven_by :: "(BrokerOrderRequest \<times> BrokerOrder) set \<Rightarrow> HedgeOutcomeEvidence \<Rightarrow> bool" where
  "proven_by H e =
     (\<forall>q. ev_confirmed_fill_quantity e = Some q \<longrightarrow>
        (\<exists>(r, b) \<in> H. rq_attempt_id r = ev_attempt_id e \<and> rq_role r = ev_role e
           \<and> isBrokerOrderTerminal (bo_state b) \<and> bo_token b = ev_token e
           \<and> bo_tradingsymbol b = ev_tradingsymbol e \<and> bo_side b = ev_side e
           \<and> bo_filled_quantity b = q))"

definition gate_ok :: "(BrokerOrderRequest \<times> BrokerOrder) set \<Rightarrow> string \<Rightarrow> EntryTransportGate \<Rightarrow> bool" where
  "gate_ok H att g =
     (hl_attemptId (coverage g) = att
      \<and> (\<forall>rl e. evidenceByRole (coverage g) rl = Some e \<longrightarrow> ev_role e = rl \<and> proven_by H e))"

definition gates_inv :: "gate_state \<Rightarrow> bool" where
  "gates_inv st = (\<forall>att g. entryTransportGates (fst st) att = Some g \<longrightarrow> gate_ok (snd st) att g)"

lemma proven_by_mono: "proven_by H e \<Longrightarrow> H \<subseteq> H' \<Longrightarrow> proven_by H' e"
  by (force simp: proven_by_def)

lemma gate_ok_mono: "gate_ok H att g \<Longrightarrow> H \<subseteq> H' \<Longrightarrow> gate_ok H' att g"
  unfolding gate_ok_def using proven_by_mono by blast

lemma hedgeEvidenceFrom_simps [simp]:
  "ev_attempt_id (hedgeEvidenceFrom acct r outcome ord) = rq_attempt_id r"
  "ev_role (hedgeEvidenceFrom acct r outcome ord) = rq_role r"
  by (simp_all add: hedgeEvidenceFrom_def Let_def split: option.split)

lemma hedgeEvidenceFrom_proven:
  "proven_by (case ord of Some b \<Rightarrow> insert (r, b) H | None \<Rightarrow> H) (hedgeEvidenceFrom acct r outcome ord)"
  by (auto simp: proven_by_def hedgeEvidenceFrom_def Let_def split: option.splits)

lemma gates_inv_upd:
  assumes "gates_inv (gs, H)" "gate_ok H att g"
    "entryTransportGates gs' = (entryTransportGates gs)(att \<mapsto> g)"
  shows "gates_inv (gs', H)"
  using assms by (simp add: gates_inv_def)

lemma gates_inv_cong:
  "entryTransportGates gs' = entryTransportGates gs \<Longrightarrow> gates_inv (gs', H) = gates_inv (gs, H)"
  by (simp add: gates_inv_def)

lemma gate_ok_new: "gate_ok H att (new_gate att n)"
  by (simp add: gate_ok_def new_gate_def new_coverage_def)

lemma gates_inv_register:
  assumes "gates_inv (gs, H)"
  shows "gates_inv (ensureEntryTransportGate acct guard r gs, H)"
proof -
  let ?att = "rq_attempt_id r"
  have "gate_ok H ?att (case entryTransportGates gs ?att of Some g \<Rightarrow> g
      | None \<Rightarrow> new_gate ?att (g_hedgeCount guard))"
    using assms gate_ok_new by (auto simp: gates_inv_def split: option.split)
  then show ?thesis using assms
    by (simp add: ensureEntryTransportGate_def Let_def gates_inv_def gate_ok_def)
qed

lemma gates_inv_decide:
  fixes ord :: "BrokerOrder option" and r :: BrokerOrderRequest and H
  assumes inv: "gates_inv (gs, H)"
  defines "H' \<equiv> (case ord of Some b \<Rightarrow> insert (r, b) H | None \<Rightarrow> H)"
  shows "gates_inv (decideEntryTransportRank acct r guard outcome reason ord gs, H')"
proof -
  have sub: "H \<subseteq> H'" by (auto simp: H'_def split: option.split)
  have inv': "gates_inv (gs, H')" using inv sub gate_ok_mono by (simp add: gates_inv_def) blast
  show ?thesis
  proof (cases "entryTransportGates gs (rq_attempt_id r)")
    case None
    with inv' show ?thesis by (simp add: decideEntryTransportRank_def)
  next
    case (Some g)
    let ?e = "hedgeEvidenceFrom acct r outcome ord"
    have ok: "gate_ok H' (rq_attempt_id r) g" using inv' Some by (simp add: gates_inv_def)
    have p: "proven_by H' ?e" unfolding H'_def by (rule hedgeEvidenceFrom_proven)
    have ok': "gate_ok H' (rq_attempt_id r) g'"
      if "coverage g' = coverage g \<or> coverage g' = record_evidence ?e (coverage g)" for g'
      using that
    proof
      assume "coverage g' = coverage g"
      with ok show ?thesis by (simp add: gate_ok_def)
    next
      assume c: "coverage g' = record_evidence ?e (coverage g)"
      show ?thesis unfolding gate_ok_def c
      proof (intro conjI allI impI)
        show "hl_attemptId (record_evidence ?e (coverage g)) = rq_attempt_id r"
          using ok by (simp add: gate_ok_def)
      next
        fix rl x assume "evidenceByRole (record_evidence ?e (coverage g)) rl = Some x"
        then have "evidenceByRole (coverage g) rl = Some x \<or> (x = ?e \<and> rl = rq_role r)"
          using record_evidence_lookup by fastforce
        with ok p show "ev_role x = rl" "proven_by H' x" by (auto simp: gate_ok_def)
      qed
    qed
    show ?thesis
      using inv' Some ok'
      by (simp add: decideEntryTransportRank_def Let_def wakeEntryTransportWaiters_def gates_inv_def)
  qed
qed

lemma gates_inv_coverage_gap:
  assumes inv: "gates_inv (gs, H)"
  shows "gates_inv (snd (entryHedgeCoverageGap r stage gs), H)"
proof (cases "entryTransportGates gs (rq_attempt_id r)")
  case None
  with inv show ?thesis by (simp add: entryHedgeCoverageGap_def)
next
  case (Some g)
  then have ok: "gate_ok H (rq_attempt_id r) g" using inv by (simp add: gates_inv_def)
  have "gate_ok H (rq_attempt_id r) (g\<lparr>coverage := snd (claimCoverage d rs (coverage g))\<rparr>)" for d rs
    using ok by (simp add: gate_ok_def)
  then show ?thesis
    using inv Some
    by (simp add: entryHedgeCoverageGap_def Let_def gates_inv_def split: sum.split prod.split)
      (metis snd_conv)
qed

lemma coherence_gates [simp]:
  "entryTransportGates (snd (entryCrossLegCoherenceGap r cb stage gs)) = entryTransportGates gs"
  "entryTransportGates (snd (entryEconomicEvidenceGap r cb stage gs)) = entryTransportGates gs"
  by (simp_all add: entryCrossLegCoherenceGap_def entryEconomicEvidenceGap_def
      split: option.split callback.split)

lemma evaluateEntryGuard_gates:
  "entryTransportGates (snd (evaluateEntryGuard lms now cr m r guard ans stage gs)) =
     entryTransportGates (if g_hedge guard then gs else snd (entryHedgeCoverageGap r stage gs))"
proof -
  obtain c gs1 where 1: "(if g_hedge guard then (None, gs) else entryHedgeCoverageGap r stage gs) = (c, gs1)"
    by force
  obtain h gs2 where 2: "entryCrossLegCoherenceGap r (ans_coherence ans) stage gs1 = (h, gs2)" by force
  obtain x gs3 where 3: "entryEconomicEvidenceGap r (ans_economics ans) stage gs2 = (x, gs3)" by force
  have "entryTransportGates (snd (evaluateEntryGuard lms now cr m r guard ans stage gs)) = entryTransportGates gs3"
    by (simp add: evaluateEntryGuard_def 1 2 3 Let_def)
  also have "\<dots> = entryTransportGates gs1"
    using coherence_gates(1) [of r "ans_coherence ans" stage gs1]
      coherence_gates(2) [of r "ans_economics ans" stage gs2] 2 3 by simp
  also have "\<dots> = entryTransportGates (if g_hedge guard then gs else snd (entryHedgeCoverageGap r stage gs))"
    using 1 by (cases "g_hedge guard") auto
  finally show ?thesis .
qed

lemma gates_inv_evaluate:
  assumes "gates_inv (gs, H)"
  shows "gates_inv (snd (evaluateEntryGuard lms now cr m r guard ans stage gs), H)"
  using assms gates_inv_coverage_gap [OF assms]
  by (simp add: gates_inv_cong [OF evaluateEntryGuard_gates])

lemma gates_inv_step:
  assumes "gates_inv st" "gate_step acct st st'"
  shows "gates_inv st'"
  using assms(2)
proof cases
  case (gate_register gs H guard r)
  with assms(1) gates_inv_register show ?thesis by simp
next
  case (gate_await gs H r guard)
  with assms(1) show ?thesis
    by (auto simp: awaitEntryTransportTurn_def gates_inv_def gate_ok_def split: option.split)
next
  case (gate_decide gs H r guard outcome reason order)
  with assms(1) gates_inv_decide show ?thesis by simp
next
  case (gate_evaluate gs H lms now cr m r guard ans stage)
  with assms(1) gates_inv_evaluate show ?thesis by simp
next
  case (gate_drain gs H)
  then show ?thesis by (simp add: drainEntryTransportGates_def gates_inv_def)
qed

definition gates_init :: "gate_state \<Rightarrow> bool" where
  "gates_init st = (entryTransportGates (fst st) = Map.empty \<and> snd st = {})"

interpretation transport_gates: invariant_machine gates_init "gate_step acct" gates_inv
  by unfold_locales (auto simp: gates_init_def gates_inv_def [of "(_, _)"] intro: gates_inv_step)

text \<open>What an allowed decision means, and what the declared requirements are.\<close>

lemma evaluateLiveEntryGuard_Allowed:
  "evaluateLiveEntryGuard i = Allowed \<longleftrightarrow>
     gi_stillWanted i \<and> gi_liveOrderEntryEnabled i \<and> gi_entryEnabled i \<and> gi_circuitClosed i
     \<and> gi_attemptAborted i = None \<and> gi_hedgeCoverageGap i = None \<and> gi_crossLegCoherenceGap i = None
     \<and> gi_economicEvidenceGap i = None \<and> gi_entryAdmissible i"
  by (simp add: evaluateLiveEntryGuard_def)

lemma declared_requirements_Inr:
  "declared_requirements m rs = Inr reqs \<Longrightarrow> length reqs = length rs \<and> map m rs = map Some reqs"
  by (induction rs arbitrary: reqs) (auto split: option.splits sum.splits)

lemma allowed_has_no_gap:
  assumes "fst (evaluateEntryGuard lms now cr m r guard ans pre_post gs) = Allowed" "\<not> g_hedge guard"
  shows "fst (entryHedgeCoverageGap r pre_post gs) = None"
  using assms
  by (auto simp: evaluateEntryGuard_def Let_def evaluateLiveEntryGuard_Allowed split: prod.splits)

lemma no_gap_covered:
  assumes "fst (entryHedgeCoverageGap r pre_post gs) = None"
  obtains g reqs where "entryTransportGates gs (rq_attempt_id r) = Some g" "0 < hedgeCount g"
    "map (hedgeRequirements g) [0..<hedgeCount g] = map Some reqs"
    "\<forall>q \<in> set reqs. coverageFor (coverage g) q = Covered"
proof -
  obtain g where g: "entryTransportGates gs (rq_attempt_id r) = Some g"
    using assms by (auto simp: entryHedgeCoverageGap_def split: option.splits)
  obtain reqs where reqs: "declared_requirements (hedgeRequirements g) [0..<hedgeCount g] = Inr reqs"
    using assms g by (auto simp: entryHedgeCoverageGap_def split: sum.splits)
  have "coverageGapFor (coverage g) reqs = None"
    using assms g reqs
    by (auto simp: entryHedgeCoverageGap_def claimCoverage_def Let_def split: if_splits)
  moreover from declared_requirements_Inr [OF reqs] have
    "length reqs = hedgeCount g" "map (hedgeRequirements g) [0..<hedgeCount g] = map Some reqs" by simp_all
  moreover from calculation have "0 < hedgeCount g" by (cases reqs) (auto simp: coverageGapFor_None)
  ultimately show ?thesis using that [OF g, of reqs] by (auto simp: coverageGapFor_None)
qed

section \<open>Properties\<close>

text \<open>C11. No naked short.  In every reachable state of the transport gates, if the final pre-POST
  checkpoint allows a dependent SELL, then the attempt has hedges, and every one of them was
  declared and is matched by a terminal broker snapshot of the same attempt and role: a BUY of
  exactly the declared contract whose filled quantity is not below the required one.\<close>

theorem no_naked_sell:
  assumes "reach gates_init (gate_step acct) (gs, H)"
    and "fst (evaluateEntryGuard lms now cr m r guard ans pre_post gs) = Allowed"
    and "\<not> g_hedge guard"
  shows "\<exists>g. entryTransportGates gs (rq_attempt_id r) = Some g \<and> 0 < hedgeCount g
    \<and> (\<forall>rank < hedgeCount g. \<exists>req r' b. hedgeRequirements g rank = Some req \<and> (r', b) \<in> H
        \<and> rq_attempt_id r' = rq_attempt_id r \<and> rq_role r' = hr_role req
        \<and> isBrokerOrderTerminal (bo_state b) \<and> bo_side b = BUY \<and> bo_token b = hr_token req
        \<and> bo_tradingsymbol b = hr_tradingsymbol req
        \<and> \<not> js_lt (bo_filled_quantity b) (hr_required_quantity req))"
proof -
  have inv: "gates_inv (gs, H)" by (rule transport_gates.reach_inv [OF assms(1)])
  obtain g reqs where g: "entryTransportGates gs (rq_attempt_id r) = Some g" "0 < hedgeCount g"
    and reqs: "map (hedgeRequirements g) [0..<hedgeCount g] = map Some reqs"
    and cov: "\<forall>q \<in> set reqs. coverageFor (coverage g) q = Covered"
    by (rule no_gap_covered [OF allowed_has_no_gap [OF assms(2,3)]])
  have ok: "gate_ok H (rq_attempt_id r) g" using inv g(1) by (simp add: gates_inv_def)
  have "\<exists>req r' b. hedgeRequirements g rank = Some req \<and> (r', b) \<in> H
        \<and> rq_attempt_id r' = rq_attempt_id r \<and> rq_role r' = hr_role req
        \<and> isBrokerOrderTerminal (bo_state b) \<and> bo_side b = BUY \<and> bo_token b = hr_token req
        \<and> bo_tradingsymbol b = hr_tradingsymbol req
        \<and> \<not> js_lt (bo_filled_quantity b) (hr_required_quantity req)" if "rank < hedgeCount g" for rank
  proof -
    have len: "length reqs = hedgeCount g" using reqs by (metis diff_zero length_map length_upt)
    have rank: "hedgeRequirements g rank = Some (reqs ! rank)"
      using arg_cong [OF reqs, of "\<lambda>xs. xs ! rank"] that len by simp
    then have "coverageFor (coverage g) (reqs ! rank) = Covered" using cov that len by simp
    then obtain e q where e: "hr_attempt_id (reqs ! rank) = hl_attemptId (coverage g)"
      "evidenceByRole (coverage g) (hr_role (reqs ! rank)) = Some e"
      "ev_attempt_id e = hr_attempt_id (reqs ! rank)" "ev_side e = BUY"
      "ev_token e = hr_token (reqs ! rank)" "ev_tradingsymbol e = hr_tradingsymbol (reqs ! rank)"
      "ev_confirmed_fill_quantity e = Some q" "\<not> js_lt q (hr_required_quantity (reqs ! rank))"
      unfolding coverageFor_iff by auto
    from ok e(2) have "ev_role e = hr_role (reqs ! rank)" "proven_by H e" by (simp_all add: gate_ok_def)
    then obtain r' b where "(r', b) \<in> H" "rq_attempt_id r' = ev_attempt_id e" "rq_role r' = ev_role e"
      "isBrokerOrderTerminal (bo_state b)" "bo_token b = ev_token e"
      "bo_tradingsymbol b = ev_tradingsymbol e" "bo_side b = ev_side e" "bo_filled_quantity b = q"
      using e(7) by (auto simp: proven_by_def)
    with rank e ok \<open>ev_role e = hr_role (reqs ! rank)\<close> show ?thesis
      by (intro exI [of _ "reqs ! rank"] exI [of _ r'] exI [of _ b]) (simp add: gate_ok_def)
  qed
  with g show ?thesis by blast
qed

text \<open>Every entry sequence is hedge first: the submission order is a permutation of the four legs
  whose ranks are its positions, whose sides are those of the direction, and in which the two
  BUY hedges come before both SELLs.\<close>

theorem entry_order_is_hedge_first:
  "distinct (entrySubmissionRoles d) \<and> set (entrySubmissionRoles d) = UNIV
   \<and> map slot_rank (entrySubmissionOrder d) = [0, 1, 2, 3]
   \<and> map slot_side (entrySubmissionOrder d) = [BUY, BUY, SELL, SELL]
   \<and> isHedgeFirstSequence (map slot_side (entrySubmissionOrder d))
   \<and> map slot_hedge (entrySubmissionOrder d) = [True, True, False, False]
   \<and> map (BOX_ENTRY_SIDES_BY_DIRECTION d) (entrySubmissionRoles d) = map slot_side (entrySubmissionOrder d)"
proof -
  have U: "UNIV = {k1_ce, k2_ce, k2_pe, k1_pe}" using BoxLegRole.exhaust by blast
  show ?thesis
    by (cases d; simp add: entrySubmissionRoles_def entrySubmissionOrder_def Let_def BOX_LEG_ROLES_def
        isHedgeFirstSequence_def; simp add: U insert_commute)
qed

text \<open>The independent oracle accepts exactly the sequences that are some BUYs followed by some
  SELLs.\<close>

theorem hedge_first_oracle_exact:
  "isHedgeFirstSequence ss = (\<exists>a b. ss = replicate a BUY @ replicate b SELL)"
  unfolding isHedgeFirstSequence_def by (rule hedge_first_loop_False)

text \<open>Terminal hedge evidence is final: no sequence of later reports, terminal or not, of this or
  any other attempt, changes what the ledger holds for the role, so a coverage verdict based on
  it does not change either.\<close>

theorem terminal_evidence_is_final:
  assumes "evidenceByRole l (hr_role req) = Some e" and "ev_terminal e"
  shows "evidenceByRole (fold record_evidence es l) (hr_role req) = Some e
    \<and> coverageFor (fold record_evidence es l) req = coverageFor l req"
proof -
  have "terminal_kept (hr_role req) e (fold record_evidence es l)"
    by (rule terminal_evidence.fold_inv) (use assms in \<open>simp add: terminal_kept_def\<close>)
  moreover have "hl_attemptId (fold record_evidence es l) = hl_attemptId l"
    by (induction es arbitrary: l) simp_all
  ultimately show ?thesis using assms(1) by (simp add: coverageFor_def terminal_kept_def)
qed

text \<open>No parked leg is forgotten: after any decision, every leg still parked on that attempt's
  barrier is waiting for a hedge that has not decided, and once all hedge ranks have decided
  nobody is parked.\<close>

theorem decision_wakes_ready_legs:
  assumes "entryTransportGates (decideEntryTransportRank acct r guard outcome reason ord gs) (rq_attempt_id r) = Some g"
  shows "list_all (\<lambda>w. \<not> entryHedgesDecided g w) (waiters g)
    \<and> (list_all (\<lambda>h. decided g h \<noteq> None) [0..<hedgeCount g] \<longrightarrow> waiters g = [])"
proof -
  obtain g3 where "g = wakeEntryTransportWaiters g3"
    using assms by (auto simp: decideEntryTransportRank_def Let_def split: option.splits if_splits)
  then have w: "list_all (\<lambda>w. \<not> entryHedgesDecided g w) (waiters g)"
    by (simp add: wakeEntryTransportWaiters_def list_all_iff entryHedgesDecided_def)
  then show ?thesis by (cases "waiters g") (auto simp: entryHedgesDecided_def)
qed

section \<open>A concrete attempt\<close>

text \<open>One hedge registers, is filled and decides while its dependent SELL is registered.\<close>

definition hedge_request :: BrokerOrderRequest where
  "hedge_request = sample_request ''c1'' ENTRY BUY"

definition sell_request :: BrokerOrderRequest where
  "sell_request = (sample_request ''c2'' ENTRY SELL)\<lparr>rq_role := k2_ce\<rparr>"

definition hedge_guard :: LiveEntryTransportGuard where
  "hedge_guard = \<lparr>transportRank = 0, g_hedge = True, g_hedgeCount = 1\<rparr>"

definition sell_guard :: LiveEntryTransportGuard where
  "sell_guard = \<lparr>transportRank = 1, g_hedge = False, g_hedgeCount = 1\<rparr>"

definition gates_empty :: gates where
  "gates_empty = \<lparr>entryTransportGates = Map.empty, entryGuardRefusals = (\<lambda>_. 0),
     coherenceDegradedAfterExposure = 0, lastCoherenceDegradation = None,
     economicEvidenceDegradedAfterExposure = 0, lastEconomicEvidenceDegradation = None\<rparr>"

definition gates_two :: gates where
  "gates_two = ensureEntryTransportGate ''acct'' sell_guard sell_request
     (ensureEntryTransportGate ''acct'' hedge_guard hedge_request gates_empty)"

definition gates_filled :: gates where
  "gates_filled = decideEntryTransportRank ''acct'' hedge_request hedge_guard posted None
     (Some sample_order) gates_two"

definition fine_answers :: guard_answers where
  "fine_answers = \<lparr>ans_stillWanted = Some True, ans_coherence = None, ans_economics = None\<rparr>"

lemmas gate_sample_defs =
  hedge_request_def sell_request_def hedge_guard_def sell_guard_def gates_empty_def gates_two_def
  gates_filled_def fine_answers_def sample_request_def sample_order_def
  ensureEntryTransportGate_def decideEntryTransportRank_def new_gate_def new_coverage_def
  requirement_of_def hedgeEvidenceFrom_def record_evidence_def wakeEntryTransportWaiters_def
  entryAllRanksDecided_def isBrokerOrderTerminal_def

lemma gates_filled_reach:
  "reach gates_init (gate_step ''acct'') (gates_filled, {(hedge_request, sample_order)})"
proof -
  have "reach gates_init (gate_step ''acct'') (gates_empty, {})"
    by (rule reach_init) (simp add: gates_init_def gates_empty_def)
  from reach_step [OF reach_step [OF this gate_register] gate_register]
  have "reach gates_init (gate_step ''acct'') (gates_two, {})" unfolding gates_two_def .
  from reach_step [OF this gate_decide [where order = "Some sample_order" and r = hedge_request
      and guard = hedge_guard and outcome = posted and reason = None]]
  show ?thesis by (simp add: gates_filled_def)
qed

lemma gates_filled_allows:
  "fst (evaluateEntryGuard sample_limits 0 None sample_manager sell_request sell_guard fine_answers
     pre_post gates_filled) = Allowed"
  by (simp add: evaluateEntryGuard_def entryHedgeCoverageGap_def entryCrossLegCoherenceGap_def
      entryEconomicEvidenceGap_def gate_sample_defs Let_def claimCoverage_def coverageGapFor_def
      coverageFor_def evaluateLiveEntryGuard_def stillWantedSafely_def sample_manager_def
      canEnter_def withinQuantityLimits_def sample_limits_def isCrashRecoveryEntryQuarantined_def)

theorem no_naked_sell_witness:
  "\<exists>g. entryTransportGates gates_filled ''a1'' = Some g \<and> 0 < hedgeCount g"
  using no_naked_sell [OF gates_filled_reach gates_filled_allows]
  by (auto simp: sell_guard_def sell_request_def sample_request_def)

definition sample_evidence :: HedgeOutcomeEvidence where
  "sample_evidence = hedgeEvidenceFrom ''acct'' hedge_request posted (Some sample_order)"

theorem terminal_evidence_is_final_witness:
  "coverageFor (fold record_evidence [sample_evidence\<lparr>ev_confirmed_fill_quantity := None\<rparr>]
      (record_evidence sample_evidence (new_coverage ''a1'')))
     (requirement_of ''acct'' ''a1'' hedge_request) = Covered"
proof -
  let ?l = "record_evidence sample_evidence (new_coverage ''a1'')"
  have "evidenceByRole ?l (hr_role (requirement_of ''acct'' ''a1'' hedge_request)) = Some sample_evidence"
    "ev_terminal sample_evidence"
    by (simp_all add: sample_evidence_def gate_sample_defs Let_def)
  from terminal_evidence_is_final [OF this, of "[sample_evidence\<lparr>ev_confirmed_fill_quantity := None\<rparr>]"]
  have "coverageFor (fold record_evidence [sample_evidence\<lparr>ev_confirmed_fill_quantity := None\<rparr>] ?l)
      (requirement_of ''acct'' ''a1'' hedge_request)
    = coverageFor ?l (requirement_of ''acct'' ''a1'' hedge_request)" by blast
  also have "\<dots> = Covered" by (simp add: sample_evidence_def gate_sample_defs coverageFor_def Let_def)
  finally show ?thesis .
qed

theorem decision_wakes_ready_legs_witness:
  "\<exists>g. entryTransportGates gates_filled ''a1'' = Some g \<and> waiters g = []"
proof -
  obtain g where g: "entryTransportGates gates_filled ''a1'' = Some g" "hedgeCount g = 1" "decided g 0 = Some posted"
    by (simp add: gate_sample_defs Let_def)
  have "entryTransportGates (decideEntryTransportRank ''acct'' hedge_request hedge_guard posted None
      (Some sample_order) gates_two) (rq_attempt_id hedge_request) = Some g"
    using g(1) by (simp add: gates_filled_def hedge_request_def sample_request_def)
  from decision_wakes_ready_legs [OF this] g show ?thesis by simp
qed

end
