(* ===== verification/Entry_Recovery.thy ===== *)
theory Entry_Recovery
  imports Box_Types
begin

text \<open>
  What happens to an entry that did not complete, and the one-lot geometry it is held to:
  \<^verbatim>\<open>src/box/partialEntryRecovery.ts\<close> (the recovery plan and the conservation check) and
  \<^verbatim>\<open>src/box/singleLotInvariant.ts\<close>.  The loops over roles are folds with their accumulators as
  a record; detail strings become constructors.

  The lemmas characterise every action of the plan by the state of the legs, show that an unwind
  reverses exactly the confirmed exposure of terminal legs, that executing it conserves
  quantity, and that the one-lot checks accept exactly one lot on every leg.
\<close>

section \<open>The recovery plan\<close>

record EntryLegOutcome =
  leg_role :: BoxLegRole
  leg_side :: OrderSide
  leg_requested :: jsnum
  leg_confirmedFilled :: jsnum
  leg_terminal :: bool
  leg_submitted :: bool
  leg_brokerStateKnown :: bool

record PlannedUnwind =
  unwind_role :: BoxLegRole
  unwind_side :: OrderSide
  unwind_quantity :: rat

datatype PartialEntryAction =
    qualify_complete_box | no_exposure | unwind_confirmed_exposure | await_terminal | quarantine_unknown

record PartialEntryPlan =
  plan_action :: PartialEntryAction
  plan_complete :: bool
  plan_quantityUnknown :: bool
  plan_cancelRoles :: "BoxLegRole list"
  plan_awaitTerminalRoles :: "BoxLegRole list"
  plan_stopSubmitRoles :: "BoxLegRole list"
  plan_unwind :: "PlannedUnwind list"
  plan_totalConfirmedQuantity :: rat
  plan_confirmedByRole :: "BoxLegRole \<rightharpoonup> rat"

definition put_leg ::
    "EntryLegOutcome \<Rightarrow> (BoxLegRole \<rightharpoonup> EntryLegOutcome) \<Rightarrow> BoxLegRole \<rightharpoonup> EntryLegOutcome" where
  "put_leg l m = m(leg_role l \<mapsto> l)"

definition by_role :: "EntryLegOutcome list \<Rightarrow> BoxLegRole \<rightharpoonup> EntryLegOutcome" where
  "by_role legs = fold put_leg legs Map.empty"

text \<open>\<^verbatim>\<open>Number.isFinite(x) ? Math.max(0, x) : 0\<close>.\<close>

fun clamp_filled :: "jsnum \<Rightarrow> rat" where
  "clamp_filled (Fin q) = max 0 q"
| "clamp_filled _ = 0"

record plan_acc =
  acc_confirmedByRole :: "BoxLegRole \<rightharpoonup> rat"
  acc_cancelRoles :: "BoxLegRole list"
  acc_awaitTerminalRoles :: "BoxLegRole list"
  acc_stopSubmitRoles :: "BoxLegRole list"
  acc_totalConfirmed :: rat
  acc_quantityUnknown :: bool
  acc_allRequestedMet :: bool

definition acc0 :: plan_acc where
  "acc0 = \<lparr>acc_confirmedByRole = Map.empty, acc_cancelRoles = [], acc_awaitTerminalRoles = [],
     acc_stopSubmitRoles = [], acc_totalConfirmed = 0, acc_quantityUnknown = False,
     acc_allRequestedMet = True\<rparr>"

text \<open>The body of the loop over the expected roles.\<close>

definition plan_role :: "(BoxLegRole \<rightharpoonup> EntryLegOutcome) \<Rightarrow> BoxLegRole \<Rightarrow> plan_acc \<Rightarrow> plan_acc" where
  "plan_role byRole r a =
     (case byRole r of
        Some leg \<Rightarrow>
          if leg_submitted leg then
            let filled = clamp_filled (leg_confirmedFilled leg);
                a1 = a\<lparr>acc_confirmedByRole := (acc_confirmedByRole a)(r \<mapsto> filled),
                       acc_totalConfirmed := acc_totalConfirmed a + filled\<rparr>
            in if \<not> leg_brokerStateKnown leg
               then a1\<lparr>acc_quantityUnknown := True, acc_allRequestedMet := False\<rparr>
               else if \<not> leg_terminal leg
               then a1\<lparr>acc_cancelRoles := acc_cancelRoles a1 @ [r],
                       acc_awaitTerminalRoles := acc_awaitTerminalRoles a1 @ [r],
                       acc_allRequestedMet := False\<rparr>
               else if js_lt (Fin filled) (leg_requested leg) then a1\<lparr>acc_allRequestedMet := False\<rparr>
               else a1
          else a\<lparr>acc_stopSubmitRoles := acc_stopSubmitRoles a @ [r], acc_allRequestedMet := False,
                 acc_confirmedByRole := (acc_confirmedByRole a)(r \<mapsto> 0)\<rparr>
      | None \<Rightarrow> a\<lparr>acc_stopSubmitRoles := acc_stopSubmitRoles a @ [r], acc_allRequestedMet := False,
                  acc_confirmedByRole := (acc_confirmedByRole a)(r \<mapsto> 0)\<rparr>)"

text \<open>The loop that lists the reversals.\<close>

definition unwind_of ::
    "(BoxLegRole \<rightharpoonup> EntryLegOutcome) \<Rightarrow> (BoxLegRole \<rightharpoonup> rat) \<Rightarrow> BoxLegRole \<Rightarrow> PlannedUnwind option" where
  "unwind_of byRole confirmed r =
     (let filled = (case confirmed r of Some q \<Rightarrow> q | None \<Rightarrow> 0) in
      case byRole r of
        Some leg \<Rightarrow>
          if filled \<le> 0 then None
          else Some \<lparr>unwind_role = r, unwind_side = reverseSide (leg_side leg), unwind_quantity = filled\<rparr>
      | None \<Rightarrow> None)"

definition planPartialEntryRecovery ::
    "EntryLegOutcome list \<Rightarrow> BoxLegRole list \<Rightarrow> PartialEntryPlan" where
  "planPartialEntryRecovery legs expectedRoles =
     (let byRole = by_role legs;
          a = fold (plan_role byRole) expectedRoles acc0;
          plan = (\<lambda>act unknown unwind.
            \<lparr>plan_action = act, plan_complete = False, plan_quantityUnknown = unknown,
             plan_cancelRoles = acc_cancelRoles a, plan_awaitTerminalRoles = acc_awaitTerminalRoles a,
             plan_stopSubmitRoles = acc_stopSubmitRoles a, plan_unwind = unwind,
             plan_totalConfirmedQuantity = acc_totalConfirmed a,
             plan_confirmedByRole = acc_confirmedByRole a\<rparr>)
      in if acc_allRequestedMet a \<and> expectedRoles \<noteq> [] then
           \<lparr>plan_action = qualify_complete_box, plan_complete = True, plan_quantityUnknown = False,
            plan_cancelRoles = [], plan_awaitTerminalRoles = [], plan_stopSubmitRoles = [],
            plan_unwind = [], plan_totalConfirmedQuantity = acc_totalConfirmed a,
            plan_confirmedByRole = acc_confirmedByRole a\<rparr>
         else if acc_quantityUnknown a then plan quarantine_unknown True []
         else if acc_awaitTerminalRoles a \<noteq> [] then plan await_terminal False []
         else if acc_totalConfirmed a = 0 then plan no_exposure False []
         else plan unwind_confirmed_exposure False
                (List.map_filter (unwind_of byRole (acc_confirmedByRole a)) expectedRoles))"

section \<open>The conservation check\<close>

datatype violation_kind = unwound_more_than_confirmed | negative_residual | overfill

record ConservationResult =
  cons_conserved :: bool
  cons_violations :: "(BoxLegRole \<times> violation_kind) list"
  cons_residualByRole :: "BoxLegRole \<rightharpoonup> jsnum"
  cons_totalResidual :: jsnum
  cons_requiresRecovery :: bool

fun finite_or_0 :: "jsnum \<Rightarrow> jsnum" where
  "finite_or_0 (Fin q) = Fin q"
| "finite_or_0 _ = Fin 0"

definition leg_violations :: "EntryLegOutcome \<Rightarrow> jsnum \<Rightarrow> violation_kind list" where
  "leg_violations leg unwound =
     (let confirmed = finite_or_0 (leg_confirmedFilled leg);
          residual = js_sub confirmed unwound
      in (if js_lt (leg_requested leg) confirmed then [overfill] else [])
         @ (if js_lt confirmed unwound then [unwound_more_than_confirmed] else [])
         @ (if js_lt residual (Fin 0) then [negative_residual] else []))"

definition conserve_leg ::
    "(BoxLegRole \<rightharpoonup> jsnum) \<Rightarrow> EntryLegOutcome \<Rightarrow> ConservationResult \<Rightarrow> ConservationResult" where
  "conserve_leg unwoundByRole leg c =
     (let confirmed = finite_or_0 (leg_confirmedFilled leg);
          unwound = (case unwoundByRole (leg_role leg) of Some u \<Rightarrow> u | None \<Rightarrow> Fin 0);
          vs = leg_violations leg unwound;
          safeResidual = js_max (Fin 0) (js_sub confirmed unwound)
      in c\<lparr>cons_violations := cons_violations c @ map (\<lambda>k. (leg_role leg, k)) vs,
           cons_requiresRecovery := (cons_requiresRecovery c \<or> vs \<noteq> []),
           cons_residualByRole := (cons_residualByRole c)(leg_role leg \<mapsto> safeResidual),
           cons_totalResidual := js_add (cons_totalResidual c) safeResidual\<rparr>)"

definition verifyQuantityConservation ::
    "EntryLegOutcome list \<Rightarrow> (BoxLegRole \<rightharpoonup> jsnum) \<Rightarrow> ConservationResult" where
  "verifyQuantityConservation entry unwoundByRole =
     (let c = fold (conserve_leg unwoundByRole) entry
                \<lparr>cons_conserved = False, cons_violations = [], cons_residualByRole = Map.empty,
                 cons_totalResidual = Fin 0, cons_requiresRecovery = False\<rparr>
      in c\<lparr>cons_conserved := (cons_violations c = [])\<rparr>)"

section \<open>One lot per leg\<close>

text \<open>A field that is missing or not a number reads as \<^const>\<open>NaN\<close>, which is no safe integer.\<close>

datatype single_lot_violation =
    lot_size_invalid | leg_lot_invalid BoxLegRole | leg_lot_mismatch BoxLegRole
  | quantity_not_one_lot | remaining_invalid BoxLegRole | remaining_exceeds_lot BoxLegRole
  | fill_not_one_lot BoxLegRole

definition isPositiveSafeInteger :: "jsnum \<Rightarrow> bool" where
  "isPositiveSafeInteger x = (is_safe_integer x \<and> js_lt (Fin 0) x)"

text \<open>The first violation a loop over the roles returns.\<close>

fun first_violation :: "('r \<Rightarrow> 'v option) \<Rightarrow> 'r list \<Rightarrow> 'v option" where
  "first_violation f [] = None"
| "first_violation f (r # rs) = (case f r of Some v \<Rightarrow> Some v | None \<Rightarrow> first_violation f rs)"

definition singleLotLegViolation :: "jsnum \<Rightarrow> (BoxLegRole \<Rightarrow> jsnum) \<Rightarrow> single_lot_violation option" where
  "singleLotLegViolation lotSize legs =
     (if \<not> isPositiveSafeInteger lotSize then Some lot_size_invalid
      else first_violation (\<lambda>r.
        if \<not> isPositiveSafeInteger (legs r) then Some (leg_lot_invalid r)
        else if \<not> js_eq (legs r) lotSize then Some (leg_lot_mismatch r) else None) BOX_LEG_ROLES)"

definition singleLotPositionViolation ::
    "jsnum \<Rightarrow> jsnum \<Rightarrow> (BoxLegRole \<Rightarrow> jsnum) \<Rightarrow> (BoxLegRole \<Rightarrow> jsnum) option \<Rightarrow> single_lot_violation option" where
  "singleLotPositionViolation lot_size quantity remaining legs =
     (if \<not> isPositiveSafeInteger lot_size then Some lot_size_invalid
      else if \<not> is_safe_integer quantity \<or> \<not> js_eq quantity lot_size then Some quantity_not_one_lot
      else
        case (case legs of None \<Rightarrow> None
              | Some ls \<Rightarrow> first_violation (\<lambda>r.
                  if \<not> isPositiveSafeInteger (ls r) \<or> \<not> js_eq (ls r) lot_size
                  then Some (leg_lot_mismatch r) else None) BOX_LEG_ROLES) of
          Some v \<Rightarrow> Some v
        | None \<Rightarrow> first_violation (\<lambda>r.
            if \<not> is_safe_integer (remaining r) \<or> js_lt (remaining r) (Fin 0) then Some (remaining_invalid r)
            else if js_lt lot_size (remaining r) then Some (remaining_exceeds_lot r) else None) BOX_LEG_ROLES)"

definition exactEntryFillViolation :: "jsnum \<Rightarrow> (BoxLegRole \<Rightarrow> jsnum) \<Rightarrow> single_lot_violation option" where
  "exactEntryFillViolation lotSize fills =
     (if \<not> isPositiveSafeInteger lotSize then Some lot_size_invalid
      else first_violation (\<lambda>r.
        if \<not> is_safe_integer (fills r) \<or> \<not> js_eq (fills r) lotSize then Some (fill_not_one_lot r)
        else None) BOX_LEG_ROLES)"

section \<open>Facts about the planning loop\<close>

text \<open>How the loop classifies a role.\<close>

definition leg_of :: "EntryLegOutcome list \<Rightarrow> BoxLegRole \<Rightarrow> EntryLegOutcome option" where
  "leg_of legs r = (case by_role legs r of Some l \<Rightarrow> (if leg_submitted l then Some l else None) | None \<Rightarrow> None)"

definition confirmed_of :: "EntryLegOutcome list \<Rightarrow> BoxLegRole \<Rightarrow> rat" where
  "confirmed_of legs r = (case leg_of legs r of Some l \<Rightarrow> clamp_filled (leg_confirmedFilled l) | None \<Rightarrow> 0)"

definition role_unknown :: "EntryLegOutcome list \<Rightarrow> BoxLegRole \<Rightarrow> bool" where
  "role_unknown legs r = (case leg_of legs r of Some l \<Rightarrow> \<not> leg_brokerStateKnown l | None \<Rightarrow> False)"

definition role_working :: "EntryLegOutcome list \<Rightarrow> BoxLegRole \<Rightarrow> bool" where
  "role_working legs r =
     (case leg_of legs r of Some l \<Rightarrow> leg_brokerStateKnown l \<and> \<not> leg_terminal l | None \<Rightarrow> False)"

definition role_met :: "EntryLegOutcome list \<Rightarrow> BoxLegRole \<Rightarrow> bool" where
  "role_met legs r =
     (case leg_of legs r of
        Some l \<Rightarrow> leg_brokerStateKnown l \<and> leg_terminal l
          \<and> \<not> js_lt (Fin (clamp_filled (leg_confirmedFilled l))) (leg_requested l)
      | None \<Rightarrow> False)"

lemmas role_defs = leg_of_def confirmed_of_def role_unknown_def role_working_def role_met_def

lemma clamp_filled_nonneg [simp]: "0 \<le> clamp_filled x"
  by (cases x) auto

lemma confirmed_of_nonneg [simp]: "0 \<le> confirmed_of legs r"
  by (simp add: confirmed_of_def split: option.split)

lemma plan_role_acc:
  "acc_totalConfirmed (plan_role (by_role legs) r a) = acc_totalConfirmed a + confirmed_of legs r"
  "acc_quantityUnknown (plan_role (by_role legs) r a) = (acc_quantityUnknown a \<or> role_unknown legs r)"
  "acc_allRequestedMet (plan_role (by_role legs) r a) = (acc_allRequestedMet a \<and> role_met legs r)"
  "acc_awaitTerminalRoles (plan_role (by_role legs) r a) =
     acc_awaitTerminalRoles a @ (if role_working legs r then [r] else [])"
  "acc_cancelRoles (plan_role (by_role legs) r a) =
     acc_cancelRoles a @ (if role_working legs r then [r] else [])"
  "acc_stopSubmitRoles (plan_role (by_role legs) r a) =
     acc_stopSubmitRoles a @ (if leg_of legs r = None then [r] else [])"
  "acc_confirmedByRole (plan_role (by_role legs) r a) =
     (acc_confirmedByRole a)(r \<mapsto> confirmed_of legs r)"
  by (auto simp: plan_role_def role_defs Let_def split: option.splits if_splits)

lemma plan_fold:
  "acc_totalConfirmed (fold (plan_role (by_role legs)) rs a) =
     acc_totalConfirmed a + sum_list (map (confirmed_of legs) rs)"
  "acc_quantityUnknown (fold (plan_role (by_role legs)) rs a) =
     (acc_quantityUnknown a \<or> list_ex (role_unknown legs) rs)"
  "acc_allRequestedMet (fold (plan_role (by_role legs)) rs a) =
     (acc_allRequestedMet a \<and> list_all (role_met legs) rs)"
  "acc_awaitTerminalRoles (fold (plan_role (by_role legs)) rs a) =
     acc_awaitTerminalRoles a @ filter (role_working legs) rs"
  "acc_cancelRoles (fold (plan_role (by_role legs)) rs a) =
     acc_cancelRoles a @ filter (role_working legs) rs"
  "acc_stopSubmitRoles (fold (plan_role (by_role legs)) rs a) =
     acc_stopSubmitRoles a @ filter (\<lambda>r. leg_of legs r = None) rs"
  by (induction rs arbitrary: a) (simp_all add: plan_role_acc)

lemma plan_fold_confirmed:
  "acc_confirmedByRole (fold (plan_role (by_role legs)) rs a) r =
     (if r \<in> set rs then Some (confirmed_of legs r) else acc_confirmedByRole a r)"
  by (induction rs arbitrary: a) (auto simp: plan_role_acc)

lemmas plan_simps = planPartialEntryRecovery_def plan_fold plan_fold_confirmed acc0_def Let_def

lemma unwind_of_confirmed:
  "unwind_of (by_role legs) c r = Some u \<Longrightarrow> c r = Some (confirmed_of legs r) \<Longrightarrow>
   \<exists>l. leg_of legs r = Some l \<and> u = \<lparr>unwind_role = r, unwind_side = reverseSide (leg_side l),
        unwind_quantity = confirmed_of legs r\<rparr> \<and> 0 < confirmed_of legs r"
  by (auto simp: unwind_of_def role_defs Let_def split: option.splits if_splits)

lemma unwind_of_None:
  "unwind_of (by_role legs) c r = None \<Longrightarrow> c r = Some (confirmed_of legs r) \<Longrightarrow> confirmed_of legs r = 0"
  using confirmed_of_nonneg [of legs r]
  by (auto simp: unwind_of_def role_defs Let_def split: option.splits if_splits)

lemma unwind_sum:
  assumes "\<And>r. r \<in> set rs \<Longrightarrow> c r = Some (confirmed_of legs r)"
  shows "sum_list (map unwind_quantity (List.map_filter (unwind_of (by_role legs) c) rs))
    = sum_list (map (confirmed_of legs) rs)"
  using assms
proof (induction rs)
  case (Cons r rs)
  then show ?case
    by (cases "unwind_of (by_role legs) c r")
      (auto simp: map_filter_simps dest: unwind_of_None unwind_of_confirmed)
qed (simp add: map_filter_simps)

lemma sum_confirmed_zero:
  "sum_list (map (confirmed_of legs) rs) = 0 \<longleftrightarrow> list_all (\<lambda>r. confirmed_of legs r = 0) rs"
proof -
  have "(sum_list (map (confirmed_of legs) rs) = 0) = (\<forall>x \<in> set (map (confirmed_of legs) rs). x = 0)"
    by (rule sum_list_nonneg_eq_0_iff) auto
  then show ?thesis by (simp add: list_all_iff)
qed

lemma role_met_excludes: "role_met legs r \<Longrightarrow> \<not> role_unknown legs r \<and> \<not> role_working legs r"
  by (auto simp: role_defs split: option.splits)

section \<open>Facts about the conservation check\<close>

definition unwound_of :: "(BoxLegRole \<rightharpoonup> jsnum) \<Rightarrow> EntryLegOutcome \<Rightarrow> jsnum" where
  "unwound_of ub leg = (case ub (leg_role leg) of Some u \<Rightarrow> u | None \<Rightarrow> Fin 0)"

lemma conserve_fold:
  "cons_violations (fold (conserve_leg ub) entry c) =
     cons_violations c @ concat (map (\<lambda>l. map (\<lambda>k. (leg_role l, k)) (leg_violations l (unwound_of ub l))) entry)"
  "cons_requiresRecovery (fold (conserve_leg ub) entry c) =
     (cons_requiresRecovery c \<or> list_ex (\<lambda>l. leg_violations l (unwound_of ub l) \<noteq> []) entry)"
  "cons_totalResidual (fold (conserve_leg ub) entry c) =
     fold (\<lambda>l t. js_add t (js_max (Fin 0) (js_sub (finite_or_0 (leg_confirmedFilled l)) (unwound_of ub l))))
       entry (cons_totalResidual c)"
  by (induction entry arbitrary: c) (auto simp: conserve_leg_def Let_def unwound_of_def)

lemma verify_conserved_iff:
  "cons_conserved (verifyQuantityConservation entry ub) =
     list_all (\<lambda>l. leg_violations l (unwound_of ub l) = []) entry"
  "cons_requiresRecovery (verifyQuantityConservation entry ub) =
     (\<not> list_all (\<lambda>l. leg_violations l (unwound_of ub l) = []) entry)"
  by (auto simp: verifyQuantityConservation_def Let_def conserve_fold list_all_iff list_ex_iff)

lemma leg_violations_Fin:
  assumes "leg_confirmedFilled l = Fin q" "leg_requested l = Fin n"
  shows "leg_violations l (Fin u) = [] \<longleftrightarrow> q \<le> n \<and> u \<le> q"
  using assms by (auto simp: leg_violations_def Let_def)

lemma residual_zero_fold:
  assumes "\<And>l. l \<in> set entry \<Longrightarrow>
    js_max (Fin 0) (js_sub (finite_or_0 (leg_confirmedFilled l)) (unwound_of ub l)) = Fin 0"
  shows "fold (\<lambda>l t. js_add t (js_max (Fin 0) (js_sub (finite_or_0 (leg_confirmedFilled l)) (unwound_of ub l))))
       entry (Fin 0) = Fin 0"
  using assms by (induction entry) auto

lemma by_role_other:
  "r \<notin> leg_role ` set ls \<Longrightarrow> fold put_leg ls m r = m r"
proof (induction ls arbitrary: m)
  case (Cons x ls)
  then have "fold put_leg ls (put_leg x m) r = put_leg x m r" by simp
  moreover have "put_leg x m r = m r" using Cons.prems by (simp add: put_leg_def)
  ultimately show ?case by simp
qed simp

lemma by_role_fold:
  "distinct (map leg_role ls) \<Longrightarrow> l \<in> set ls \<Longrightarrow>
   fold put_leg ls m (leg_role l) = Some l"
proof (induction ls arbitrary: m)
  case (Cons x ls)
  show ?case
  proof (cases "x = l")
    case True
    with Cons.prems have "fold put_leg ls (put_leg l m) (leg_role l) = put_leg l m (leg_role l)"
      by (intro by_role_other) auto
    moreover have "put_leg l m (leg_role l) = Some l" by (simp add: put_leg_def)
    ultimately show ?thesis using True by simp
  next
    case False
    with Cons show ?thesis by auto
  qed
qed simp

lemma by_role_distinct:
  "distinct (map leg_role legs) \<Longrightarrow> l \<in> set legs \<Longrightarrow> by_role legs (leg_role l) = Some l"
  by (simp add: by_role_def by_role_fold)

text \<open>The quantities an executor that follows the plan unwinds.\<close>

definition executed_unwind :: "PartialEntryPlan \<Rightarrow> BoxLegRole \<rightharpoonup> jsnum" where
  "executed_unwind p r =
     map_option (\<lambda>u. Fin (unwind_quantity u)) (find (\<lambda>u. unwind_role u = r) (plan_unwind p))"

lemma find_map_filter:
  assumes "\<And>x y. f x = Some y \<Longrightarrow> k y = x" "distinct rs"
  shows "find (\<lambda>y. k y = r) (List.map_filter f rs) = (if r \<in> set rs then f r else None)"
  using assms(2)
proof (induction rs)
  case (Cons x rs)
  then show ?case
    by (cases "f x") (auto simp: map_filter_simps dest: assms(1))
qed (simp add: map_filter_simps)

lemma unwind_of_role: "unwind_of b c r = Some u \<Longrightarrow> unwind_role u = r"
  by (auto simp: unwind_of_def Let_def split: option.splits if_splits)

section \<open>Properties\<close>

text \<open>The plan decides exactly by the legs.  It calls the box complete only if every expected leg
  is submitted, known, terminal and filled as requested; it quarantines exactly when some
  submitted leg's quantity is unprovable; it waits exactly when all are known and some still
  works; it reports no exposure exactly when all submitted legs are known, terminal and empty;
  and it unwinds in the remaining case.\<close>

theorem plan_action_exact:
  "(plan_action (planPartialEntryRecovery legs rs) = qualify_complete_box) =
     (rs \<noteq> [] \<and> list_all (role_met legs) rs)
   \<and> (plan_action (planPartialEntryRecovery legs rs) = quarantine_unknown) = list_ex (role_unknown legs) rs
   \<and> (plan_action (planPartialEntryRecovery legs rs) = await_terminal) =
       (\<not> list_ex (role_unknown legs) rs \<and> list_ex (role_working legs) rs)
   \<and> (plan_action (planPartialEntryRecovery legs rs) = no_exposure) =
       (\<not> (rs \<noteq> [] \<and> list_all (role_met legs) rs) \<and> \<not> list_ex (role_unknown legs) rs
        \<and> \<not> list_ex (role_working legs) rs \<and> list_all (\<lambda>r. confirmed_of legs r = 0) rs)
   \<and> (plan_action (planPartialEntryRecovery legs rs) = unwind_confirmed_exposure) =
       (\<not> list_all (role_met legs) rs \<and> \<not> list_ex (role_unknown legs) rs
        \<and> \<not> list_ex (role_working legs) rs \<and> list_ex (\<lambda>r. 0 < confirmed_of legs r) rs)"
proof -
  have e: "list_ex (\<lambda>r. 0 < confirmed_of legs r) rs = (\<not> list_all (\<lambda>r. confirmed_of legs r = 0) rs)"
    by (auto simp: list_ex_iff list_all_iff less_le)
  have w: "(filter (role_working legs) rs \<noteq> []) = list_ex (role_working legs) rs"
    by (auto simp: filter_empty_conv list_ex_iff)
  have m: "list_all (role_met legs) rs \<Longrightarrow> \<not> list_ex (role_unknown legs) rs \<and> \<not> list_ex (role_working legs) rs"
    using role_met_excludes by (auto simp: list_all_iff list_ex_iff)
  have n: "rs = [] \<Longrightarrow> list_all (\<lambda>r. confirmed_of legs r = 0) rs" by simp
  show ?thesis using e w m n by (cases "rs = []") (auto simp: plan_simps sum_confirmed_zero)
qed

text \<open>C23. When the plan unwinds, the unwind is exact: every unwound leg is a submitted leg, reversed,
  for precisely its confirmed quantity; every expected leg with confirmed quantity is unwound;
  and the unwound total is the confirmed total.\<close>

theorem unwind_is_exact:
  assumes "plan_action (planPartialEntryRecovery legs rs) = unwind_confirmed_exposure"
  shows "set (plan_unwind (planPartialEntryRecovery legs rs)) =
      {\<lparr>unwind_role = r, unwind_side = reverseSide (leg_side l), unwind_quantity = confirmed_of legs r\<rparr> |
        r l. r \<in> set rs \<and> leg_of legs r = Some l \<and> 0 < confirmed_of legs r}
    \<and> sum_list (map unwind_quantity (plan_unwind (planPartialEntryRecovery legs rs))) =
        plan_totalConfirmedQuantity (planPartialEntryRecovery legs rs)"
proof -
  let ?c = "acc_confirmedByRole (fold (plan_role (by_role legs)) rs acc0)"
  have c: "r \<in> set rs \<Longrightarrow> ?c r = Some (confirmed_of legs r)" for r by (simp add: plan_fold_confirmed)
  have u: "plan_unwind (planPartialEntryRecovery legs rs) = List.map_filter (unwind_of (by_role legs) ?c) rs"
    using assms by (auto simp: planPartialEntryRecovery_def Let_def split: if_splits)
  have t: "plan_totalConfirmedQuantity (planPartialEntryRecovery legs rs) = sum_list (map (confirmed_of legs) rs)"
    using assms by (auto simp: plan_simps split: if_splits)
  have "u \<in> set (List.map_filter (unwind_of (by_role legs) ?c) rs) \<longleftrightarrow>
      (\<exists>r l. r \<in> set rs \<and> leg_of legs r = Some l \<and> 0 < confirmed_of legs r
         \<and> u = \<lparr>unwind_role = r, unwind_side = reverseSide (leg_side l), unwind_quantity = confirmed_of legs r\<rparr>)" for u
  proof -
    have "unwind_of (by_role legs) ?c r = Some u \<longleftrightarrow> (\<exists>l. leg_of legs r = Some l \<and> 0 < confirmed_of legs r
         \<and> u = \<lparr>unwind_role = r, unwind_side = reverseSide (leg_side l), unwind_quantity = confirmed_of legs r\<rparr>)"
      if "r \<in> set rs" for r
      using unwind_of_confirmed [of legs ?c r u, OF _ c [OF that]] c [OF that]
      by (auto simp: unwind_of_def leg_of_def Let_def split: option.splits if_splits)
    then show ?thesis by (auto simp: List.map_filter_def image_iff) (metis option.distinct(1) option.sel)+
  qed
  moreover have "sum_list (map unwind_quantity (List.map_filter (unwind_of (by_role legs) ?c) rs))
      = sum_list (map (confirmed_of legs) rs)"
    by (rule unwind_sum) (rule c)
  ultimately show ?thesis unfolding u t by blast
qed

text \<open>Executing the plan conserves quantity: for legs whose fills are finite, non-negative and not
  above the request, and zero where nothing was submitted, unwinding exactly what the plan says
  leaves no residual on any leg and no violation, and needs no recovery.\<close>

theorem plan_then_verify_conserves:
  assumes "plan_action (planPartialEntryRecovery legs (map leg_role legs)) = unwind_confirmed_exposure"
    and "distinct (map leg_role legs)"
    and "\<forall>l \<in> set legs. \<exists>q n. leg_confirmedFilled l = Fin q \<and> leg_requested l = Fin n \<and> 0 \<le> q \<and> q \<le> n
           \<and> (leg_submitted l \<or> q = 0)"
  defines "v \<equiv> verifyQuantityConservation legs (executed_unwind (planPartialEntryRecovery legs (map leg_role legs)))"
  shows "cons_conserved v \<and> cons_violations v = [] \<and> cons_totalResidual v = Fin 0 \<and> \<not> cons_requiresRecovery v"
proof -
  let ?p = "planPartialEntryRecovery legs (map leg_role legs)"
  let ?c = "acc_confirmedByRole (fold (plan_role (by_role legs)) (map leg_role legs) acc0)"
  have u: "plan_unwind ?p = List.map_filter (unwind_of (by_role legs) ?c) (map leg_role legs)"
    using assms(1) by (auto simp: planPartialEntryRecovery_def Let_def split: if_splits)
  have conf: "\<exists>q n. leg_confirmedFilled l = Fin q \<and> leg_requested l = Fin n \<and> q \<le> n \<and> 0 \<le> q
      \<and> unwound_of (executed_unwind ?p) l = Fin q" if "l \<in> set legs" for l
  proof -
    from assms(3) that obtain q n where q: "leg_confirmedFilled l = Fin q" "leg_requested l = Fin n"
      "0 \<le> q" "q \<le> n" "leg_submitted l \<or> q = 0" by blast
    have cq: "confirmed_of legs (leg_role l) = q"
      using by_role_distinct [OF assms(2) that] q by (auto simp: role_defs)
    have cl: "?c (leg_role l) = Some q" using that cq by (simp add: plan_fold_confirmed)
    have "executed_unwind ?p (leg_role l) =
        map_option (\<lambda>u. Fin (unwind_quantity u)) (unwind_of (by_role legs) ?c (leg_role l))"
      unfolding executed_unwind_def u
      by (subst find_map_filter) (use that assms(2) in \<open>auto dest: unwind_of_role\<close>)
    then have "unwound_of (executed_unwind ?p) l = Fin q"
      using cl q(3) by_role_distinct [OF assms(2) that]
      by (auto simp: unwound_of_def unwind_of_def Let_def)
    with q show ?thesis by blast
  qed
  have ok: "list_all (\<lambda>l. leg_violations l (unwound_of (executed_unwind ?p) l) = []) legs"
    unfolding list_all_iff using conf leg_violations_Fin by (metis order_refl)
  have "cons_totalResidual v = Fin 0"
    unfolding v_def verifyQuantityConservation_def Let_def
    by (simp add: conserve_fold, rule residual_zero_fold) (use conf in force)
  moreover have "cons_violations v = []"
    using ok verify_conserved_iff(1) [of legs "executed_unwind ?p"]
    by (simp add: v_def verifyQuantityConservation_def Let_def)
  ultimately show ?thesis using ok by (simp add: v_def verify_conserved_iff)
qed

lemma first_violation_None: "first_violation f rs = None \<longleftrightarrow> (\<forall>r \<in> set rs. f r = None)"
  by (induction rs) (auto split: option.splits)

lemma isPositiveSafeInteger_iff:
  "isPositiveSafeInteger x \<longleftrightarrow> (\<exists>i. x = js_int i \<and> 0 < i \<and> i \<le> 9007199254740991)"
  by (auto simp: isPositiveSafeInteger_def is_safe_integer_iff)

lemma js_eq_int_iff: "js_eq x (js_int i) = (x = js_int i)"
  by (cases x) (auto simp: js_eq_def)

text \<open>The one-lot checks are exact.  A candidate passes iff all four legs have its positive lot
  size, an entry passes iff every leg filled exactly one lot, and a stored position passes iff
  its quantity is one lot, its legs agree, and every remainder is an integer between zero and
  the lot, lot multiple or not.\<close>

theorem single_lot_checks_exact:
  "(singleLotLegViolation lot legs = None) =
     (\<exists>n. lot = js_int n \<and> 0 < n \<and> n \<le> 9007199254740991 \<and> list_all (\<lambda>r. legs r = js_int n) BOX_LEG_ROLES)
   \<and> (exactEntryFillViolation lot fills = None) =
     (\<exists>n. lot = js_int n \<and> 0 < n \<and> n \<le> 9007199254740991 \<and> list_all (\<lambda>r. fills r = js_int n) BOX_LEG_ROLES)
   \<and> (singleLotPositionViolation lot qty rem (Some legs) = None) =
     (\<exists>n. lot = js_int n \<and> 0 < n \<and> n \<le> 9007199254740991 \<and> qty = js_int n
        \<and> list_all (\<lambda>r. legs r = js_int n) BOX_LEG_ROLES
        \<and> list_all (\<lambda>r. \<exists>k. rem r = js_int k \<and> 0 \<le> k \<and> k \<le> n) BOX_LEG_ROLES)"
proof (cases "isPositiveSafeInteger lot")
  case False
  then show ?thesis
    by (auto simp: singleLotLegViolation_def exactEntryFillViolation_def singleLotPositionViolation_def
        isPositiveSafeInteger_iff)
next
  case True
  then obtain n where n: "lot = js_int n" "0 < n" "n \<le> 9007199254740991"
    by (auto simp: isPositiveSafeInteger_iff)
  have u: "(\<exists>n'. lot = js_int n' \<and> 0 < n' \<and> n' \<le> 9007199254740991 \<and> P n') = P n" for P
    using n by auto
  have p: "isPositiveSafeInteger (js_int n)" using True n by simp
  have s: "is_safe_integer (js_int n)" using n by simp
  have a: "(singleLotLegViolation lot legs = None) = list_all (\<lambda>r. legs r = js_int n) BOX_LEG_ROLES"
    using p unfolding n(1) singleLotLegViolation_def
    by (auto simp: first_violation_None list_all_iff js_eq_int_iff split: if_splits)
  have b: "(exactEntryFillViolation lot fills = None) = list_all (\<lambda>r. fills r = js_int n) BOX_LEG_ROLES"
    using p s unfolding n(1) exactEntryFillViolation_def
    by (auto simp: first_violation_None list_all_iff js_eq_int_iff simp del: is_safe_integer_js_int split: if_splits)
  have r: "(\<not> (\<not> is_safe_integer x \<or> js_lt x (Fin 0)) \<and> \<not> js_lt (js_int n) x)
      = (\<exists>k. x = js_int k \<and> 0 \<le> k \<and> k \<le> n)" for x
    using n by (auto simp: is_safe_integer_iff)
  let ?L = "first_violation (\<lambda>r. if \<not> isPositiveSafeInteger (legs r) \<or> \<not> js_eq (legs r) (js_int n)
      then Some (leg_lot_mismatch r) else None) BOX_LEG_ROLES"
  let ?R = "first_violation (\<lambda>r. if \<not> is_safe_integer (rem r) \<or> js_lt (rem r) (Fin 0)
      then Some (remaining_invalid r)
      else if js_lt (js_int n) (rem r) then Some (remaining_exceeds_lot r) else None) BOX_LEG_ROLES"
  have L: "(?L = None) = list_all (\<lambda>r. legs r = js_int n) BOX_LEG_ROLES"
    using p by (auto simp: first_violation_None list_all_iff js_eq_int_iff split: if_splits)
  have R: "(?R = None) = list_all (\<lambda>r. \<exists>k. rem r = js_int k \<and> 0 \<le> k \<and> k \<le> n) BOX_LEG_ROLES"
    unfolding first_violation_None list_all_iff r [symmetric] by (auto split: if_splits)
  have c: "(singleLotPositionViolation lot qty rem (Some legs) = None) =
      (qty = js_int n \<and> ?L = None \<and> ?R = None)"
    using p s unfolding n(1) singleLotPositionViolation_def
    by (auto simp: js_eq_int_iff simp del: is_safe_integer_js_int split: option.split if_splits)
  show ?thesis unfolding a b c L R u by simp
qed

text \<open>A leg that failed after its siblings filled, for the witnesses.\<close>

definition sample_leg :: "BoxLegRole \<Rightarrow> OrderSide \<Rightarrow> rat \<Rightarrow> EntryLegOutcome" where
  "sample_leg r s q = \<lparr>leg_role = r, leg_side = s, leg_requested = Fin 75, leg_confirmedFilled = Fin q,
     leg_terminal = True, leg_submitted = True, leg_brokerStateKnown = True\<rparr>"

definition sample_legs :: "EntryLegOutcome list" where
  "sample_legs = [sample_leg k1_ce BUY 75, sample_leg k2_pe BUY 40, sample_leg k2_ce SELL 0,
     sample_leg k1_pe SELL 75]"

lemma sample_plan: "plan_action (planPartialEntryRecovery sample_legs (map leg_role sample_legs)) = unwind_confirmed_exposure"
  by (simp add: planPartialEntryRecovery_def Let_def sample_legs_def sample_leg_def by_role_def put_leg_def
      plan_role_def acc0_def)

theorem unwind_is_exact_witness:
  "sum_list (map unwind_quantity (plan_unwind (planPartialEntryRecovery sample_legs (map leg_role sample_legs)))) = 190"
  using unwind_is_exact [OF sample_plan]
  by (simp add: planPartialEntryRecovery_def Let_def sample_legs_def sample_leg_def by_role_def put_leg_def
      plan_role_def acc0_def)

theorem plan_then_verify_conserves_witness:
  "cons_conserved (verifyQuantityConservation sample_legs
     (executed_unwind (planPartialEntryRecovery sample_legs (map leg_role sample_legs))))"
  using plan_then_verify_conserves [OF sample_plan] by (simp add: sample_legs_def sample_leg_def)

text \<open>A terminal leg whose reported fill is not a number counts as empty: the plan then reports no
  exposure although the quantity is unprovable.\<close>

lemma non_finite_fill_counts_as_empty:
  "plan_action (planPartialEntryRecovery [(sample_leg k1_ce BUY 0)\<lparr>leg_confirmedFilled := NaN\<rparr>] [k1_ce])
     = no_exposure"
  by (simp add: planPartialEntryRecovery_def Let_def sample_leg_def by_role_def put_leg_def plan_role_def acc0_def)

end
