(* ===== verification/Residual_Flatten.thy ===== *)
theory Residual_Flatten
  imports Order_Manager
begin

text \<open>
  \<^verbatim>\<open>src/box/residualFlatten.ts\<close>: the durable identity of the orders that flatten a residual leg.
  A residual carries the generation of its next flatten order; a pass over it ends with a
  disposition, and only \<^verbatim>\<open>retire_attempt\<close> advances the generation.  The record is
  \<^verbatim>\<open>ResidualLegExposure\<close> of \<^verbatim>\<open>src/box/types.ts\<close>; the regular expressions of the error
  classification become case-insensitive substring tests.

  The lemmas show that a pass changes the identity exactly when it retires it, that over a whole
  sequence of passes two passes share an identity exactly when nothing was retired between
  them, and which outcomes may retire one.
\<close>

section \<open>Data\<close>

datatype ResidualExposureSource = partial_entry | partial_exit | failed_unwind

record ResidualLegExposure =
  re_token :: int
  re_tradingsymbol :: string
  re_exchange :: "string option"
  re_role :: BoxLegRole
  re_side :: OrderSide
  re_quantity :: jsnum
  re_average_price :: jsnum
  re_source :: ResidualExposureSource
  re_created_at :: int
  flatten_attempt :: "jsnum option"
  flatten_accounted_filled :: "jsnum option"
  flatten_accounted_charges :: "jsnum option"

datatype ResidualFlattenDisposition = flattened | retire_attempt | reuse_attempt | adopt_attempt

datatype ResidualFlattenFailureKind =
    no_executable_book | gate_refused | already_in_flight | local_pre_submit_refused
  | broker_rejected | persistence_after_fill | broker_state_unknown | identity_conflict | unexpected

definition FIRST_RESIDUAL_FLATTEN_ATTEMPT :: int where
  "FIRST_RESIDUAL_FLATTEN_ATTEMPT = 1"

section \<open>Identity\<close>

definition residualFlattenAttempt :: "ResidualLegExposure \<Rightarrow> int" where
  "residualFlattenAttempt r =
     (case flatten_attempt r of
        Some (Fin raw) \<Rightarrow>
          let floored = \<lfloor>raw\<rfloor> in
          if FIRST_RESIDUAL_FLATTEN_ATTEMPT \<le> floored then floored else FIRST_RESIDUAL_FLATTEN_ATTEMPT
      | _ \<Rightarrow> FIRST_RESIDUAL_FLATTEN_ATTEMPT)"

definition residualFlattenAttemptId :: "string \<Rightarrow> int \<Rightarrow> string" where
  "residualFlattenAttemptId base attempt =
     base @ ''-attempt-'' @ js_string_of_nat (nat (max FIRST_RESIDUAL_FLATTEN_ATTEMPT attempt))"

record ResidualFlattenAccounting =
  acct_cumulativeFilled :: "jsnum option"
  acct_cumulativeCharges :: "jsnum option"

text \<open>\<^verbatim>\<open>a ?? b\<close> on optional values.\<close>

definition orElse :: "'a option \<Rightarrow> 'a option \<Rightarrow> 'a option" where
  "orElse a b = (case a of Some x \<Rightarrow> Some x | None \<Rightarrow> b)"

definition carryResidualForward ::
    "ResidualLegExposure \<Rightarrow> jsnum \<Rightarrow> int \<Rightarrow> ResidualFlattenDisposition \<Rightarrow>
     ResidualFlattenAccounting option \<Rightarrow> ResidualLegExposure" where
  "carryResidualForward r qty attempt disposition accounting =
     (let retires = (disposition = retire_attempt);
          nextAttempt = (if retires then attempt + 1 else attempt);
          accountedFilled = (if retires then Some (Fin 0)
             else orElse (Option.bind accounting acct_cumulativeFilled) (flatten_accounted_filled r));
          accountedCharges = (if retires then Some (Fin 0)
             else orElse (Option.bind accounting acct_cumulativeCharges) (flatten_accounted_charges r))
      in r\<lparr>re_quantity := qty, flatten_attempt := Some (js_int nextAttempt),
           flatten_accounted_filled := accountedFilled, flatten_accounted_charges := accountedCharges\<rparr>)"

section \<open>Dispositions\<close>

definition classifyResidualOrder :: "BrokerOrder \<Rightarrow> jsnum \<Rightarrow> ResidualFlattenDisposition" where
  "classifyResidualOrder order wanted =
     (if \<not> isBrokerOrderTerminal (bo_state order) then adopt_attempt
      else if bo_state order = I_REJECTED then adopt_attempt
      else if js_le wanted (bo_filled_quantity order) then flattened else retire_attempt)"

text \<open>Substring search, for the \<^verbatim>\<open>/.../i\<close> patterns.\<close>

fun is_prefix_of :: "'a list \<Rightarrow> 'a list \<Rightarrow> bool" where
  "is_prefix_of [] ys = True"
| "is_prefix_of (x # xs) [] = False"
| "is_prefix_of (x # xs) (y # ys) = (x = y \<and> is_prefix_of xs ys)"

fun contains_at :: "'a list \<Rightarrow> 'a list \<Rightarrow> bool" where
  "contains_at [] pat = (pat = [])"
| "contains_at (x # xs) pat = (is_prefix_of pat (x # xs) \<or> contains_at xs pat)"

definition matches_any :: "string \<Rightarrow> string list \<Rightarrow> bool" where
  "matches_any message pats = list_ex (contains_at (map js_lower_char message)) pats"

definition classifyResidualFlattenErrorMessage :: "string \<Rightarrow> ResidualFlattenFailureKind" where
  "classifyResidualFlattenErrorMessage message =
     (if matches_any message [''reused with different immutable field''] then identity_conflict
      else if matches_any message [''already queued or active''] then already_in_flight
      else if matches_any message
        [''unknown'', ''ambiguous'', ''reconcil'', ''timeout'', ''timedout'', ''time out'', ''timed out'']
        then broker_state_unknown
      else if matches_any message
        [''quantity limits'', ''exposure management'', ''controls or limits'', ''exposure changed while'',
         ''disabled while''] then gate_refused
      else unexpected)"

fun dispositionForFailure :: "ResidualFlattenFailureKind \<Rightarrow> ResidualFlattenDisposition" where
  "dispositionForFailure no_executable_book = reuse_attempt"
| "dispositionForFailure gate_refused = reuse_attempt"
| "dispositionForFailure already_in_flight = reuse_attempt"
| "dispositionForFailure local_pre_submit_refused = retire_attempt"
| "dispositionForFailure broker_rejected = adopt_attempt"
| "dispositionForFailure identity_conflict = retire_attempt"
| "dispositionForFailure persistence_after_fill = adopt_attempt"
| "dispositionForFailure broker_state_unknown = adopt_attempt"
| "dispositionForFailure unexpected = adopt_attempt"

definition residualFailureIsInvariant :: "ResidualFlattenFailureKind \<Rightarrow> bool" where
  "residualFailureIsInvariant k =
     (k = persistence_after_fill \<or> k = broker_state_unknown \<or> k = identity_conflict \<or> k = unexpected)"

section \<open>A run of passes\<close>

text \<open>One pass: what it left outstanding, how it ended and what it observed.  The next residual is
  carried forward from the generation the pass used.\<close>

record flatten_pass =
  fp_quantity :: jsnum
  fp_disposition :: ResidualFlattenDisposition
  fp_accounting :: "ResidualFlattenAccounting option"

definition run_pass :: "flatten_pass \<Rightarrow> ResidualLegExposure \<Rightarrow> ResidualLegExposure" where
  "run_pass p r =
     carryResidualForward r (fp_quantity p) (residualFlattenAttempt r) (fp_disposition p) (fp_accounting p)"

definition identity_used :: "string \<Rightarrow> ResidualLegExposure \<Rightarrow> string" where
  "identity_used base r = residualFlattenAttemptId base (residualFlattenAttempt r)"

section \<open>Facts\<close>

lemma residualFlattenAttempt_ge_1: "1 \<le> residualFlattenAttempt r"
  by (auto simp: residualFlattenAttempt_def FIRST_RESIDUAL_FLATTEN_ATTEMPT_def Let_def
      split: option.split jsnum.split)

lemma attempt_after:
  "1 \<le> a \<Longrightarrow> residualFlattenAttempt (carryResidualForward r q a d acc) =
     (if d = retire_attempt then a + 1 else a)"
  by (simp add: residualFlattenAttempt_def carryResidualForward_def FIRST_RESIDUAL_FLATTEN_ATTEMPT_def Let_def)

lemma run_pass_attempt:
  "residualFlattenAttempt (run_pass p r) =
     residualFlattenAttempt r + (if fp_disposition p = retire_attempt then 1 else 0)"
  by (simp add: run_pass_def attempt_after residualFlattenAttempt_ge_1)

interpretation generations: monotone_fold run_pass residualFlattenAttempt
  by unfold_locales (simp add: run_pass_attempt)

lemma fold_attempt:
  "residualFlattenAttempt (fold run_pass ps r) =
     residualFlattenAttempt r + int (length (filter (\<lambda>p. fp_disposition p = retire_attempt) ps))"
  by (induction ps arbitrary: r) (auto simp: run_pass_attempt)

lemma attempt_id_inj:
  assumes "1 \<le> a" "1 \<le> b"
  shows "(residualFlattenAttemptId base a = residualFlattenAttemptId base b) = (a = b)"
proof
  assume "residualFlattenAttemptId base a = residualFlattenAttemptId base b"
  then have "js_string_of_nat (nat (max 1 a)) = js_string_of_nat (nat (max 1 b))"
    by (simp add: residualFlattenAttemptId_def FIRST_RESIDUAL_FLATTEN_ATTEMPT_def)
  then have "nat (max 1 a) = nat (max 1 b)" by (rule js_string_of_nat_inj)
  with assms show "a = b" by simp
qed simp

section \<open>Properties\<close>


text \<open>An attempt is retired only on proof that its order can change no more: by a COMPLETE or
  CANCELLED broker order that left a remainder, or by a failure that a local refusal or a stale
  intent caused.  Working, unknown and rejected outcomes always keep the identity, and a
  retirement starts the next identity with fresh watermarks.\<close>

theorem retirement_requires_final_outcome:
  "(classifyResidualOrder order wanted = retire_attempt) =
     ((bo_state order = I_COMPLETE \<or> bo_state order = I_CANCELLED)
      \<and> \<not> js_le wanted (bo_filled_quantity order))
   \<and> (dispositionForFailure k = retire_attempt) = (k = local_pre_submit_refused \<or> k = identity_conflict)
   \<and> flatten_accounted_filled (carryResidualForward r q a retire_attempt acc) = Some (Fin 0)
   \<and> flatten_accounted_filled (carryResidualForward r q a adopt_attempt None) = flatten_accounted_filled r"
  by (cases k) (auto simp: classifyResidualOrder_def isBrokerOrderTerminal_def carryResidualForward_def
      Let_def orElse_def)

end
