(* ===== verification/Reservation_Types.thy ===== *)
theory Reservation_Types
  imports Box_Prelude
begin

text \<open>
  The reservation contract of \<^verbatim>\<open>src/box/reservations/types.ts\<close>: leases, outcomes, the arguments of the
  four operations of \<^verbatim>\<open>InstrumentReservationStore\<close>, and the helpers every tier shares.
  Instants are whole milliseconds (\<open>int\<close>), as \<^verbatim>\<open>Date.now()\<close> yields them; a TTL is a raw number because
  \<^verbatim>\<open>normaliseTtl\<close> tests it.  An optional property of an argument object is an option.
\<close>

section \<open>Vocabulary\<close>

datatype ReservationDurability = durable_lease | local_only

record ReservationConflictDetail =
  cd_key :: string
  cd_heldBy :: string
  cd_heldSide :: "string option"
  cd_tier :: string

record ReservationLease =
  lease_owner :: string
  lease_keys :: "string list"
  lease_expiresAt :: int
  lease_fence :: nat
  lease_durability :: ReservationDurability

datatype ReservationOutcome =
    Granted ReservationLease
  | Conflict "ReservationConflictDetail list"
  | Unavailable (un_tier: string) (un_detail: string)

record ReservationContext =
  ctx_deployment :: string
  ctx_broker :: string
  ctx_generation :: int
  ctx_mode :: string

record AcquireArgs =
  aq_owner :: string
  aq_keys :: "string list"
  aq_ttlMs :: jsnum
  aq_now :: int
  aq_sideByKey :: "(string \<times> string) list option"
  aq_context :: "ReservationContext option"

record ReleaseArgs =
  rl_owner :: string
  rl_keys :: "string list option"
  rl_now :: int
  rl_fence :: "nat option"

record RenewArgs =
  rn_owner :: string
  rn_keys :: "string list"
  rn_ttlMs :: jsnum
  rn_now :: int
  rn_fence :: "nat option"
  rn_context :: "ReservationContext option"

datatype RenewFailure = renew_lost | renew_expired | renew_unavailable

datatype RenewOutcome =
    Renewed (rw_expiresAt: int) (rw_fence: nat)
  | NotRenewed (rw_reason: RenewFailure) (rw_detail: string)

datatype OwnershipLoss = own_expired | own_lost | own_superseded | own_unavailable

datatype OwnershipVerdict =
    Owned (ov_expiresAt: int) (ov_fence: nat)
  | NotOwned (ov_reason: OwnershipLoss) (ov_detail: string)

record VerifyArgs =
  vf_owner :: string
  vf_keys :: "string list"
  vf_now :: int
  vf_fence :: "nat option"
  vf_context :: "ReservationContext option"

section \<open>Helpers shared by the tiers\<close>

definition dedupeKeys :: "string list \<Rightarrow> string list" where
  "dedupeKeys ks = dedupe_from {} ks"

fun normaliseTtl :: "jsnum \<Rightarrow> int" where
  "normaliseTtl (Fin t) = (if 0 < t then \<lfloor>t\<rfloor> else 1000)"
| "normaliseTtl _ = 1000"

text \<open>\<^verbatim>\<open>args.sideByKey?.get(key)\<close>.\<close>

definition side_of :: "AcquireArgs \<Rightarrow> string \<Rightarrow> string option" where
  "side_of args k = Option.bind (aq_sideByKey args) (\<lambda>m. map_of m k)"

text \<open>A guard on an optional fence: \<^verbatim>\<open>args.fence !== undefined && x.fence !== args.fence\<close>.\<close>

definition fence_mismatch :: "nat option \<Rightarrow> nat \<Rightarrow> bool" where
  "fence_mismatch quoted issued = (\<exists>f. quoted = Some f \<and> issued \<noteq> f)"

lemma fence_mismatch_code [simp, code]:
  "fence_mismatch None i = False" "fence_mismatch (Some f) i = (i \<noteq> f)"
  by (auto simp: fence_mismatch_def)

lemma set_dedupeKeys [simp]: "set (dedupeKeys ks) = set ks"
  by (simp add: dedupeKeys_def set_dedupe_from)

lemma distinct_dedupeKeys [simp]: "distinct (dedupeKeys ks)"
  by (simp add: dedupeKeys_def distinct_dedupe_from)

lemma dedupeKeys_id: "distinct ks \<Longrightarrow> dedupeKeys ks = ks"
  by (simp add: dedupeKeys_def dedupe_from_id)

lemma dedupeKeys_Nil_iff [simp]: "dedupeKeys ks = [] \<longleftrightarrow> ks = []"
  by (metis set_dedupeKeys set_empty)

lemma normaliseTtl_nonneg: "0 \<le> normaliseTtl t"
  by (cases t) auto

text \<open>A TTL of at least one millisecond, or one that is not a usable number, gives a lease that
  outlives its own instant; a fraction of a millisecond is floored to nothing.\<close>

lemma normaliseTtl_pos_iff: "0 < normaliseTtl t \<longleftrightarrow> \<not> (\<exists>q. t = Fin q \<and> 0 < q \<and> q < 1)"
  by (cases t) (auto simp: zero_less_floor)

section \<open>Latency samples\<close>

text \<open>\<^verbatim>\<open>BoundedSamples\<close>: the last \<^verbatim>\<open>max\<close> finite samples and their percentiles.\<close>

record BoundedSamples =
  bs_buf :: "rat list"
  bs_max :: nat

definition bs_add :: "jsnum \<Rightarrow> BoundedSamples \<Rightarrow> BoundedSamples" where
  "bs_add v s =
     (case v of
        Fin q \<Rightarrow>
          (let b = (if bs_max s \<le> length (bs_buf s) then tl (bs_buf s) else bs_buf s)
           in s\<lparr>bs_buf := b @ [q]\<rparr>)
      | _ \<Rightarrow> s)"

definition bs_percentile :: "rat \<Rightarrow> BoundedSamples \<Rightarrow> rat option" where
  "bs_percentile p s =
     (let n = length (bs_buf s) in
      if n = 0 then None
      else
        let idx = min (int n - 1) \<lfloor>p * of_nat n\<rfloor>
        in if idx < 0 then None else Some (sort (bs_buf s) ! nat idx))"

text \<open>The window never exceeds its bound, and a percentile is one of the samples that rises with
  the fraction asked for.\<close>

lemma bs_add_bounded:
  "length (bs_buf s) \<le> max 1 (bs_max s) \<Longrightarrow> length (bs_buf (bs_add v s)) \<le> max 1 (bs_max (bs_add v s))"
  by (cases v) (auto simp: bs_add_def Let_def)

lemma bs_percentile_Some_iff:
  "bs_percentile p s = Some q \<longleftrightarrow>
     bs_buf s \<noteq> [] \<and> \<not> min (int (length (bs_buf s)) - 1) \<lfloor>p * of_nat (length (bs_buf s))\<rfloor> < 0 \<and>
     q = sort (bs_buf s) ! nat (min (int (length (bs_buf s)) - 1) \<lfloor>p * of_nat (length (bs_buf s))\<rfloor>)"
  by (auto simp: bs_percentile_def Let_def simp del: not_less min_less_iff_disj)

lemma nat_min_less_length: "xs \<noteq> [] \<Longrightarrow> nat (min (int (length xs) - 1) i) < length xs"
  by (cases xs) auto

lemma bs_percentile_sample:
  assumes "bs_percentile p s = Some q"
  shows "q \<in> set (bs_buf s)"
proof -
  let ?i = "nat (min (int (length (bs_buf s)) - 1) \<lfloor>p * of_nat (length (bs_buf s))\<rfloor>)"
  from assms have ne: "bs_buf s \<noteq> []" and q: "q = sort (bs_buf s) ! ?i"
    unfolding bs_percentile_Some_iff by blast+
  have "?i < length (sort (bs_buf s))" unfolding length_sort by (rule nat_min_less_length [OF ne])
  then have "sort (bs_buf s) ! ?i \<in> set (sort (bs_buf s))" by (rule nth_mem)
  then show ?thesis unfolding q set_sort .
qed

lemma bs_percentile_mono:
  assumes a: "bs_percentile p s = Some a" and b: "bs_percentile p' s = Some b" and le: "p \<le> p'"
  shows "a \<le> b"
proof -
  let ?n = "length (bs_buf s)"
  let ?i = "nat (min (int ?n - 1) \<lfloor>p * of_nat ?n\<rfloor>)" and ?j = "nat (min (int ?n - 1) \<lfloor>p' * of_nat ?n\<rfloor>)"
  have "p * of_nat ?n \<le> p' * of_nat ?n" using le by (simp add: mult_right_mono)
  then have "\<lfloor>p * of_nat ?n\<rfloor> \<le> \<lfloor>p' * of_nat ?n\<rfloor>" by (rule floor_mono)
  then have "?i \<le> ?j" by (intro nat_mono min.mono) auto
  moreover have "?j < length (sort (bs_buf s))"
    unfolding length_sort using a unfolding bs_percentile_Some_iff by (blast intro: nat_min_less_length)
  ultimately have "sort (bs_buf s) ! ?i \<le> sort (bs_buf s) ! ?j" by (intro sorted_nth_mono) auto
  then show ?thesis using a b unfolding bs_percentile_Some_iff by blast
qed

end
