(* ===== verification/Instrument_Key.thy ===== *)
theory Instrument_Key
  imports Box_Types "HOL-Library.Char_ord" "HOL-Library.List_Lexorder" "HOL-Library.Multiset"
begin

text \<open>
  Canonical contract keys, \<^verbatim>\<open>src/box/instrumentKey.ts\<close>: the broker-namespaced identity the reservation
  tiers exclude on.  Strings are ASCII, so the comparison of JavaScript strings by code unit is the
  lexicographic order on characters.  An absent trading symbol is \<open>None\<close>.
\<close>

record InstrumentRef =
  in_token :: nat
  in_tradingsymbol :: "string option"
  in_exchange :: string

definition normaliseBroker :: "string \<Rightarrow> string" where
  "normaliseBroker b = js_upper (js_trim b)"

definition instrumentKey :: "string \<Rightarrow> InstrumentRef \<Rightarrow> string" where
  "instrumentKey broker inst =
     (let ns = normaliseBroker broker;
          sy = map_option js_trim (in_tradingsymbol inst)
      in if sy \<noteq> None \<and> sy \<noteq> Some []
         then ns @ '':'' @ js_upper (js_trim (if in_exchange inst = [] then ''NFO'' else in_exchange inst))
                @ '':'' @ the sy
         else ns @ '':TOKEN:'' @ js_string_of_nat (in_token inst))"

record InstrumentLegRef =
  ref_key :: string
  ref_role :: BoxLegRole
  ref_side :: OrderSide
  ref_inst :: InstrumentRef

definition boxInstrumentRefs ::
    "string \<Rightarrow> (BoxLegRole \<Rightarrow> InstrumentRef) \<Rightarrow> (BoxLegRole \<Rightarrow> OrderSide) \<Rightarrow> BoxLegRole list \<Rightarrow>
     InstrumentLegRef list" where
  "boxInstrumentRefs broker legs sideFor roles =
     sort_key ref_key (map (\<lambda>r. \<lparr>ref_key = instrumentKey broker (legs r), ref_role = r, ref_side = sideFor r,
                                 ref_inst = legs r\<rparr>) roles)"

definition keysOf :: "InstrumentLegRef list \<Rightarrow> string list" where
  "keysOf refs = dedupe_from {} (map ref_key refs)"

datatype InstrumentConflictKind = same_side | opposite_side

record InstrumentConflict =
  ic_key :: string
  ic_kind :: InstrumentConflictKind
  ic_heldBy :: string

definition classifyConflict :: "string \<Rightarrow> string \<Rightarrow> OrderSide option \<Rightarrow> OrderSide \<Rightarrow> InstrumentConflict" where
  "classifyConflict key heldBy incumbent challenger =
     \<lparr>ic_key = key,
      ic_kind = (case incumbent of
                   Some s \<Rightarrow> if s \<noteq> challenger then opposite_side else same_side
                 | None \<Rightarrow> same_side),
      ic_heldBy = heldBy\<rparr>"

section \<open>The broker namespace of a key\<close>

definition keyBroker :: "string \<Rightarrow> string" where
  "keyBroker k = takeWhile (\<lambda>c. c \<noteq> CHR '':'') k"

lemma takeWhile_append_sep: "c \<notin> set xs \<Longrightarrow> takeWhile (\<lambda>x. x \<noteq> c) (xs @ c # ys) = xs"
  by (induction xs) auto

lemma keyBroker_instrumentKey:
  "CHR '':'' \<notin> set (normaliseBroker b) \<Longrightarrow> keyBroker (instrumentKey b i) = normaliseBroker b"
  by (simp add: keyBroker_def instrumentKey_def Let_def takeWhile_append_sep)

text \<open>Two brokers never share a key, and within a broker a named contract has its own key: the key
  determines the exchange and the symbol.\<close>

lemma instrumentKey_broker_inj:
  assumes "CHR '':'' \<notin> set (normaliseBroker b)" "CHR '':'' \<notin> set (normaliseBroker b')"
    and "instrumentKey b i = instrumentKey b' i'"
  shows "normaliseBroker b = normaliseBroker b'"
  using assms keyBroker_instrumentKey by metis

lemma append_sep_inj:
  assumes "c \<notin> set xs" "c \<notin> set xs'" "xs @ c # ys = xs' @ c # ys'"
  shows "xs = xs' \<and> ys = ys'"
proof -
  have "takeWhile (\<lambda>x. x \<noteq> c) (xs @ c # ys) = takeWhile (\<lambda>x. x \<noteq> c) (xs' @ c # ys')" using assms(3) by simp
  then have "xs = xs'" using assms(1,2) by (simp add: takeWhile_append_sep)
  then show ?thesis using assms(3) by simp
qed

lemma instrumentKey_contract_inj:
  assumes "instrumentKey b i = instrumentKey b i'"
    and "in_tradingsymbol i = Some s" "in_tradingsymbol i' = Some s'"
    and "trimmed s" "trimmed s'" "s \<noteq> []" "s' \<noteq> []"
    and "in_exchange i = e" "in_exchange i' = e'" "e \<noteq> []" "e' \<noteq> []"
    and "CHR '':'' \<notin> set (js_upper (js_trim e))" "CHR '':'' \<notin> set (js_upper (js_trim e'))"
  shows "js_upper (js_trim e) = js_upper (js_trim e') \<and> s = s'"
proof -
  have "js_upper (js_trim e) @ CHR '':'' # s = js_upper (js_trim e') @ CHR '':'' # s'"
    using assms(1-11) by (simp add: instrumentKey_def Let_def js_trim_id)
  then show ?thesis using append_sep_inj assms(12,13) by metis
qed

lemma mset_boxInstrumentRefs_roles:
  "mset (map ref_role (boxInstrumentRefs b legs sf roles)) = mset roles"
  by (simp add: boxInstrumentRefs_def multiset.map_comp comp_def)

lemma sorted_boxInstrumentRefs: "sorted (map ref_key (boxInstrumentRefs b legs sf roles))"
  by (simp add: boxInstrumentRefs_def)

lemma keysOf_distinct: "distinct (keysOf refs)" "set (keysOf refs) = ref_key ` set refs"
  by (simp_all add: keysOf_def distinct_dedupe_from set_dedupe_from)

end
