(* ===== verification/Reservation_Port.thy ===== *)
theory Reservation_Port
  imports Reservation_Types Instrument_Key "HOL-Library.AList"
begin

text \<open>
  The port of the durable reservation tier (\<^verbatim>\<open>src/box/reservations/port.ts\<close>) and its two
  implementations: the reference port of \<^verbatim>\<open>memoryStore.ts\<close>, which the source calls an executable
  specification, and the PostgreSQL port of \<^verbatim>\<open>pgStore.ts\<close> with the tables of migration 004.

  Every method of the port is one atomic action of the authority: \<open>port_call\<close> names the method with
  its arguments, \<open>port_reply\<close> what it resolves to.  A call that rejects is \<open>PR_fail\<close>; it is produced
  by the environment of the durable tier and by no implementation here.
\<close>

section \<open>The port\<close>

record DurableReservationDoc =
  dd_owner :: string
  dd_deployment :: string
  dd_broker :: string
  dd_generation :: int
  dd_mode :: string
  dd_keys :: "string list"
  dd_sides :: "(string \<times> string) list"
  dd_fence :: nat
  dd_instance :: string
  dd_createdAt :: int
  dd_expiresAt :: int
  dd_renewedAt :: int

datatype InsertReservationResult = inserted | key_conflict | owner_exists

datatype port_call =
    PC_serverTimeMs
  | PC_nextFence string
  | PC_insert DurableReservationDoc
  | PC_deleteExpired (pc_deployment: string) (pc_keys: "string list option") (pc_notAfter: int)
  | PC_findLiveByKeys string "string list" int
  | PC_findByOwner string
  | PC_deleteOwned string "nat option"
  | PC_renewOwned string "nat option" "string option" "int option" int int
  | PC_deleteByOwnerPrefix string
  | PC_countLive string int

datatype port_reply =
    PR_time int
  | PR_fence nat
  | PR_insert InsertReservationResult
  | PR_count nat
  | PR_docs "DurableReservationDoc list"
  | PR_doc "DurableReservationDoc option"
  | PR_fail string

section \<open>The reference port\<close>

record mem_db =
  docs :: "(string \<times> DurableReservationDoc) list"
  uniqueIndex :: "string \<rightharpoonup> string"
  fences :: "string \<rightharpoonup> nat"
  mem_clock :: int

definition new_mem_db :: "int \<Rightarrow> mem_db" where
  "new_mem_db t = \<lparr>docs = [], uniqueIndex = Map.empty, fences = Map.empty, mem_clock = t\<rparr>"

definition indexKey :: "string \<Rightarrow> string \<Rightarrow> string" where
  "indexKey deployment key = deployment @ [CHR 0x00] @ key"

definition mem_nextFence :: "string \<Rightarrow> mem_db \<Rightarrow> nat \<times> mem_db" where
  "mem_nextFence dep db =
     (let n = (case fences db dep of None \<Rightarrow> 0 | Some f \<Rightarrow> f) + 1
      in (n, db\<lparr>fences := (fences db)(dep \<mapsto> n)\<rparr>))"

definition mem_insert :: "DurableReservationDoc \<Rightarrow> mem_db \<Rightarrow> InsertReservationResult \<times> mem_db" where
  "mem_insert d db =
     (if map_of (docs db) (dd_owner d) \<noteq> None then (owner_exists, db)
      else
        let es = map (indexKey (dd_deployment d)) (dd_keys d)
        in if list_ex (\<lambda>e. uniqueIndex db e \<noteq> None) es then (key_conflict, db)
           else (inserted,
                 db\<lparr>uniqueIndex := fold (\<lambda>e m. m(e \<mapsto> dd_owner d)) es (uniqueIndex db),
                    docs := AList.update (dd_owner d) d (docs db)\<rparr>))"

definition removeDoc :: "DurableReservationDoc \<Rightarrow> mem_db \<Rightarrow> mem_db" where
  "removeDoc d db =
     db\<lparr>docs := AList.delete (dd_owner d) (docs db),
        uniqueIndex := fold (\<lambda>k m. if m (indexKey (dd_deployment d) k) = Some (dd_owner d)
                                   then m(indexKey (dd_deployment d) k := None) else m)
                         (dd_keys d) (uniqueIndex db)\<rparr>"

text \<open>The loops of \<^verbatim>\<open>deleteExpired\<close> and \<^verbatim>\<open>deleteByOwnerPrefix\<close>: remove the documents of a
  snapshot that satisfy a test, and count them.\<close>

definition remove_where :: "(DurableReservationDoc \<Rightarrow> bool) \<Rightarrow> mem_db \<Rightarrow> nat \<times> mem_db" where
  "remove_where P db =
     (let hit = filter P (map snd (docs db)) in (length hit, fold removeDoc hit db))"

definition overlaps_keys :: "string list \<Rightarrow> DurableReservationDoc \<Rightarrow> bool" where
  "overlaps_keys ks d = list_ex (\<lambda>k. k \<in> set ks) (dd_keys d)"

definition mem_deleteExpired :: "string \<Rightarrow> string list option \<Rightarrow> int \<Rightarrow> mem_db \<Rightarrow> nat \<times> mem_db" where
  "mem_deleteExpired dep keys notAfter db =
     remove_where (\<lambda>d. dd_deployment d = dep \<and> \<not> notAfter < dd_expiresAt d
        \<and> (case keys of None \<Rightarrow> True | Some ks \<Rightarrow> overlaps_keys ks d)) db"

definition mem_findLiveByKeys :: "string \<Rightarrow> string list \<Rightarrow> int \<Rightarrow> mem_db \<Rightarrow> DurableReservationDoc list" where
  "mem_findLiveByKeys dep keys now db =
     filter (\<lambda>d. dd_deployment d = dep \<and> \<not> dd_expiresAt d \<le> now \<and> overlaps_keys keys d) (map snd (docs db))"

definition mem_deleteOwned :: "string \<Rightarrow> nat option \<Rightarrow> mem_db \<Rightarrow> nat \<times> mem_db" where
  "mem_deleteOwned owner fence db =
     (case map_of (docs db) owner of
        None \<Rightarrow> (0, db)
      | Some d \<Rightarrow> if fence_mismatch fence (dd_fence d) then (0, db) else (1, removeDoc d db))"

definition mem_renewOwned ::
    "string \<Rightarrow> nat option \<Rightarrow> string option \<Rightarrow> int option \<Rightarrow> int \<Rightarrow> int \<Rightarrow> mem_db \<Rightarrow>
     DurableReservationDoc option \<times> mem_db" where
  "mem_renewOwned owner fence broker gen now expiresAt db =
     (case map_of (docs db) owner of
        None \<Rightarrow> (None, db)
      | Some d \<Rightarrow>
          if fence_mismatch fence (dd_fence d) then (None, db)
          else if broker \<noteq> None \<and> broker \<noteq> Some (dd_broker d) then (None, db)
          else if gen \<noteq> None \<and> gen \<noteq> Some (dd_generation d) then (None, db)
          else if dd_expiresAt d \<le> now then (None, db)
          else let u = d\<lparr>dd_expiresAt := expiresAt, dd_renewedAt := now\<rparr>
               in (Some u, db\<lparr>docs := AList.update (dd_owner d) u (docs db)\<rparr>))"

definition starts_with :: "string \<Rightarrow> string \<Rightarrow> bool" where
  "starts_with p s = (take (length p) s = p)"

definition mem_deleteByOwnerPrefix :: "string \<Rightarrow> mem_db \<Rightarrow> nat \<times> mem_db" where
  "mem_deleteByOwnerPrefix p db = remove_where (\<lambda>d. starts_with p (dd_owner d)) db"

definition mem_countLive :: "string \<Rightarrow> int \<Rightarrow> mem_db \<Rightarrow> nat" where
  "mem_countLive dep now db =
     length (filter (\<lambda>d. dd_deployment d = dep \<and> \<not> dd_expiresAt d \<le> now) (map snd (docs db)))"

fun mem_exec :: "port_call \<Rightarrow> mem_db \<Rightarrow> port_reply \<times> mem_db" where
  "mem_exec PC_serverTimeMs db = (PR_time (mem_clock db), db)"
| "mem_exec (PC_nextFence dep) db = (let (n, db') = mem_nextFence dep db in (PR_fence n, db'))"
| "mem_exec (PC_insert d) db = (let (r, db') = mem_insert d db in (PR_insert r, db'))"
| "mem_exec (PC_deleteExpired dep ks t) db = (let (n, db') = mem_deleteExpired dep ks t db in (PR_count n, db'))"
| "mem_exec (PC_findLiveByKeys dep ks now) db = (PR_docs (mem_findLiveByKeys dep ks now db), db)"
| "mem_exec (PC_findByOwner p) db = (PR_doc (map_of (docs db) p), db)"
| "mem_exec (PC_deleteOwned p f) db = (let (n, db') = mem_deleteOwned p f db in (PR_count n, db'))"
| "mem_exec (PC_renewOwned p f b g now x) db =
     (let (r, db') = mem_renewOwned p f b g now x db in (PR_doc r, db'))"
| "mem_exec (PC_deleteByOwnerPrefix p) db = (let (n, db') = mem_deleteByOwnerPrefix p db in (PR_count n, db'))"
| "mem_exec (PC_countLive dep now) db = (PR_count (mem_countLive dep now db), db)"

section \<open>The PostgreSQL port\<close>

text \<open>The two tables of migration 004 and the fence sequence.  SQL leaves the order of a result open
  where there is no ORDER BY, and that of ORDER BY on text to the collation: \<open>scan\<close> and \<open>collate\<close> stand
  for the server's choices.\<close>

record OwnerRow =
  ow_owner :: string
  ow_deployment :: string
  ow_broker :: string
  ow_generation :: int
  ow_mode :: string
  ow_fence :: nat
  ow_instance :: string
  ow_created_at :: int
  ow_expires_at :: int
  ow_renewed_at :: int

record KeyRow =
  kr_deployment_id :: string
  kr_broker :: string
  kr_instrument_key :: string
  kr_owner :: string
  kr_side :: string

record pg_db =
  box_reservation_owners :: "OwnerRow list"
  box_reservation_keys :: "KeyRow list"
  fence_seq :: nat
  pg_clock :: int

definition new_pg_db :: "int \<Rightarrow> pg_db" where
  "new_pg_db t = \<lparr>box_reservation_owners = [], box_reservation_keys = [], fence_seq = 0, pg_clock = t\<rparr>"

definition rows_of :: "string \<Rightarrow> pg_db \<Rightarrow> KeyRow list" where
  "rows_of owner db = filter (\<lambda>k. kr_owner k = owner) (box_reservation_keys db)"

definition loadKeys :: "(KeyRow list \<Rightarrow> KeyRow list) \<Rightarrow> string \<Rightarrow> pg_db \<Rightarrow> KeyRow list" where
  "loadKeys collate owner db = collate (rows_of owner db)"

definition toDoc :: "OwnerRow \<Rightarrow> KeyRow list \<Rightarrow> DurableReservationDoc" where
  "toDoc row keys =
     \<lparr>dd_owner = ow_owner row, dd_deployment = ow_deployment row, dd_broker = ow_broker row,
      dd_generation = ow_generation row, dd_mode = ow_mode row,
      dd_keys = map kr_instrument_key keys, dd_sides = map (\<lambda>k. (kr_instrument_key k, kr_side k)) keys,
      dd_fence = ow_fence row, dd_instance = ow_instance row, dd_createdAt = ow_created_at row,
      dd_expiresAt = ow_expires_at row, dd_renewedAt = ow_renewed_at row\<rparr>"

definition owner_row :: "DurableReservationDoc \<Rightarrow> OwnerRow" where
  "owner_row d =
     \<lparr>ow_owner = dd_owner d, ow_deployment = dd_deployment d, ow_broker = dd_broker d,
      ow_generation = dd_generation d, ow_mode = dd_mode d, ow_fence = dd_fence d,
      ow_instance = dd_instance d, ow_created_at = dd_createdAt d, ow_expires_at = dd_expiresAt d,
      ow_renewed_at = dd_renewedAt d\<rparr>"

definition key_row :: "DurableReservationDoc \<Rightarrow> string \<Rightarrow> KeyRow" where
  "key_row d k =
     \<lparr>kr_deployment_id = dd_deployment d, kr_broker = dd_broker d, kr_instrument_key = k, kr_owner = dd_owner d,
      kr_side = (case map_of (rev (dd_sides d)) k of None \<Rightarrow> [] | Some s \<Rightarrow> s)\<rparr>"

definition same_primary_key :: "KeyRow \<Rightarrow> KeyRow \<Rightarrow> bool" where
  "same_primary_key a b =
     (kr_deployment_id a = kr_deployment_id b \<and> kr_broker a = kr_broker b
      \<and> kr_instrument_key a = kr_instrument_key b)"

text \<open>The loop of key inserts; \<open>None\<close> is the unique violation that rolls the transaction back.\<close>

fun insert_keys :: "DurableReservationDoc \<Rightarrow> string list \<Rightarrow> KeyRow list \<Rightarrow> KeyRow list option" where
  "insert_keys d [] rows = Some rows"
| "insert_keys d (k # ks) rows =
     (if list_ex (same_primary_key (key_row d k)) rows then None
      else insert_keys d ks (rows @ [key_row d k]))"

definition pg_insert :: "DurableReservationDoc \<Rightarrow> pg_db \<Rightarrow> InsertReservationResult \<times> pg_db" where
  "pg_insert d db =
     (if list_ex (\<lambda>r. ow_owner r = dd_owner d) (box_reservation_owners db) then (owner_exists, db)
      else case insert_keys d (dd_keys d) (box_reservation_keys db) of
             None \<Rightarrow> (key_conflict, db)
           | Some rows \<Rightarrow>
               (inserted, db\<lparr>box_reservation_owners := box_reservation_owners db @ [owner_row d],
                             box_reservation_keys := rows\<rparr>))"

text \<open>\<^verbatim>\<open>DELETE FROM box_reservation_owners WHERE ...\<close> with its cascade to the key rows.\<close>

definition delete_owners :: "(OwnerRow \<Rightarrow> bool) \<Rightarrow> pg_db \<Rightarrow> nat \<times> pg_db" where
  "delete_owners P db =
     (let gone = filter P (box_reservation_owners db)
      in (length gone,
          db\<lparr>box_reservation_owners := filter (\<lambda>r. \<not> P r) (box_reservation_owners db),
             box_reservation_keys :=
               filter (\<lambda>k. kr_owner k \<notin> ow_owner ` set gone) (box_reservation_keys db)\<rparr>))"

definition has_key_in :: "string list \<Rightarrow> string \<Rightarrow> pg_db \<Rightarrow> bool" where
  "has_key_in ks owner db = list_ex (\<lambda>k. kr_instrument_key k \<in> set ks) (rows_of owner db)"

definition pg_deleteExpired :: "string \<Rightarrow> string list option \<Rightarrow> int \<Rightarrow> pg_db \<Rightarrow> nat \<times> pg_db" where
  "pg_deleteExpired dep keys notAfter db =
     (case keys of
        Some ks \<Rightarrow> delete_owners (\<lambda>r. ow_deployment r = dep \<and> ow_expires_at r \<le> notAfter
                      \<and> has_key_in ks (ow_owner r) db) db
      | None \<Rightarrow> delete_owners (\<lambda>r. ow_deployment r = dep \<and> ow_expires_at r \<le> notAfter) db)"

definition pg_findLiveByKeys ::
    "(OwnerRow list \<Rightarrow> OwnerRow list) \<Rightarrow> (KeyRow list \<Rightarrow> KeyRow list) \<Rightarrow> string \<Rightarrow> string list \<Rightarrow> int \<Rightarrow> pg_db \<Rightarrow>
     DurableReservationDoc list" where
  "pg_findLiveByKeys scan collate dep keys now db =
     map (\<lambda>r. toDoc r (loadKeys collate (ow_owner r) db))
       (scan (filter (\<lambda>r. ow_deployment r = dep \<and> has_key_in keys (ow_owner r) db \<and> now < ow_expires_at r)
                (box_reservation_owners db)))"

definition pg_findByOwner :: "(KeyRow list \<Rightarrow> KeyRow list) \<Rightarrow> string \<Rightarrow> pg_db \<Rightarrow> DurableReservationDoc option" where
  "pg_findByOwner collate owner db =
     (case find (\<lambda>r. ow_owner r = owner) (box_reservation_owners db) of
        None \<Rightarrow> None
      | Some r \<Rightarrow> Some (toDoc r (loadKeys collate owner db)))"

definition pg_deleteOwned :: "string \<Rightarrow> nat option \<Rightarrow> pg_db \<Rightarrow> nat \<times> pg_db" where
  "pg_deleteOwned owner fence db =
     (case fence of
        Some f \<Rightarrow> delete_owners (\<lambda>r. ow_owner r = owner \<and> ow_fence r = f) db
      | None \<Rightarrow> delete_owners (\<lambda>r. ow_owner r = owner) db)"

text \<open>The condition list of \<^verbatim>\<open>renewOwned\<close>: every optional guard adds a conjunct.\<close>

definition renew_matches ::
    "string \<Rightarrow> nat option \<Rightarrow> string option \<Rightarrow> int option \<Rightarrow> int \<Rightarrow> OwnerRow \<Rightarrow> bool" where
  "renew_matches owner fence broker gen now r =
     (ow_owner r = owner \<and> now < ow_expires_at r
      \<and> (case fence of None \<Rightarrow> True | Some f \<Rightarrow> ow_fence r = f)
      \<and> (case broker of None \<Rightarrow> True | Some b \<Rightarrow> ow_broker r = b)
      \<and> (case gen of None \<Rightarrow> True | Some g \<Rightarrow> ow_generation r = g))"

definition pg_renewOwned ::
    "(KeyRow list \<Rightarrow> KeyRow list) \<Rightarrow> string \<Rightarrow> nat option \<Rightarrow> string option \<Rightarrow> int option \<Rightarrow> int \<Rightarrow> int \<Rightarrow> pg_db \<Rightarrow>
     DurableReservationDoc option \<times> pg_db" where
  "pg_renewOwned collate owner fence broker gen now expiresAt db =
     (let upd = (\<lambda>r. r\<lparr>ow_expires_at := expiresAt, ow_renewed_at := now\<rparr>);
          m = renew_matches owner fence broker gen now;
          db' = db\<lparr>box_reservation_owners :=
                     map (\<lambda>r. if m r then upd r else r) (box_reservation_owners db)\<rparr>
      in case find m (box_reservation_owners db) of
           None \<Rightarrow> (None, db')
         | Some r \<Rightarrow> (Some (toDoc (upd r) (loadKeys collate (ow_owner r) db)), db'))"

definition pg_countLive :: "string \<Rightarrow> int \<Rightarrow> pg_db \<Rightarrow> nat" where
  "pg_countLive dep now db =
     length (filter (\<lambda>r. ow_deployment r = dep \<and> now < ow_expires_at r) (box_reservation_owners db))"

fun pg_exec ::
    "(OwnerRow list \<Rightarrow> OwnerRow list) \<Rightarrow> (KeyRow list \<Rightarrow> KeyRow list) \<Rightarrow> port_call \<Rightarrow> pg_db \<Rightarrow> port_reply \<times> pg_db" where
  "pg_exec scan collate PC_serverTimeMs db = (PR_time (pg_clock db), db)"
| "pg_exec scan collate (PC_nextFence dep) db =
     (PR_fence (fence_seq db + 1), db\<lparr>fence_seq := fence_seq db + 1\<rparr>)"
| "pg_exec scan collate (PC_insert d) db = (let (r, db') = pg_insert d db in (PR_insert r, db'))"
| "pg_exec scan collate (PC_deleteExpired dep ks t) db =
     (let (n, db') = pg_deleteExpired dep ks t db in (PR_count n, db'))"
| "pg_exec scan collate (PC_findLiveByKeys dep ks now) db =
     (PR_docs (pg_findLiveByKeys scan collate dep ks now db), db)"
| "pg_exec scan collate (PC_findByOwner p) db = (PR_doc (pg_findByOwner collate p db), db)"
| "pg_exec scan collate (PC_deleteOwned p f) db = (let (n, db') = pg_deleteOwned p f db in (PR_count n, db'))"
| "pg_exec scan collate (PC_renewOwned p f b g now x) db =
     (let (r, db') = pg_renewOwned collate p f b g now x db in (PR_doc r, db'))"
| "pg_exec scan collate (PC_deleteByOwnerPrefix p) db =
     (let (n, db') = delete_owners (\<lambda>r. starts_with p (ow_owner r)) db in (PR_count n, db'))"
| "pg_exec scan collate (PC_countLive dep now) db = (PR_count (pg_countLive dep now db), db)"

end
