(* ===== verification/Reservation_Contract.thy ===== *)
theory Reservation_Contract
  imports Reservation_Port
begin

text \<open>
  What the port promises, as an abstract machine, and that both implementations keep the promise.

  The abstract state maps an owner to its reservation, with the instrument keys as a set: the order
  in which a port returns keys or documents is not part of the contract, nor are the numbers handed
  out by \<^verbatim>\<open>nextFence\<close>.  The locale \<open>reservation_port\<close> is the interface the durable tier relies on; it is
  interpreted on the reference port and, for every server order of rows, on the PostgreSQL port.
\<close>

section \<open>The abstract machine\<close>

record adoc =
  ad_owner :: string
  ad_deployment :: string
  ad_broker :: string
  ad_generation :: int
  ad_mode :: string
  ad_keys :: "string set"
  ad_sides :: "string \<rightharpoonup> string"
  ad_fence :: nat
  ad_instance :: string
  ad_createdAt :: int
  ad_expiresAt :: int
  ad_renewedAt :: int

definition doc_side :: "DurableReservationDoc \<Rightarrow> string \<Rightarrow> string" where
  "doc_side d k = (case map_of (dd_sides d) k of None \<Rightarrow> [] | Some s \<Rightarrow> s)"

definition doc_abs :: "DurableReservationDoc \<Rightarrow> adoc" where
  "doc_abs d =
     \<lparr>ad_owner = dd_owner d, ad_deployment = dd_deployment d, ad_broker = dd_broker d,
      ad_generation = dd_generation d, ad_mode = dd_mode d, ad_keys = set (dd_keys d),
      ad_sides = (\<lambda>k. if k \<in> set (dd_keys d) then Some (doc_side d k) else None),
      ad_fence = dd_fence d, ad_instance = dd_instance d, ad_createdAt = dd_createdAt d,
      ad_expiresAt = dd_expiresAt d, ad_renewedAt = dd_renewedAt d\<rparr>"

lemma doc_abs_parts [simp]:
  "ad_owner (doc_abs d) = dd_owner d" "ad_deployment (doc_abs d) = dd_deployment d"
  "ad_broker (doc_abs d) = dd_broker d" "ad_generation (doc_abs d) = dd_generation d"
  "ad_keys (doc_abs d) = set (dd_keys d)" "ad_fence (doc_abs d) = dd_fence d"
  "ad_expiresAt (doc_abs d) = dd_expiresAt d"
  by (simp_all add: doc_abs_def)

datatype areply =
    AR_insert InsertReservationResult
  | AR_count nat
  | AR_docs "adoc set"
  | AR_doc "adoc option"
  | AR_other

fun reply_abs :: "port_reply \<Rightarrow> areply" where
  "reply_abs (PR_insert r) = AR_insert r"
| "reply_abs (PR_count n) = AR_count n"
| "reply_abs (PR_docs ds) = AR_docs (doc_abs ` set ds)"
| "reply_abs (PR_doc d) = AR_doc (map_option doc_abs d)"
| "reply_abs _ = AR_other"

type_synonym areservations = "string \<rightharpoonup> adoc"

definition holders :: "areservations \<Rightarrow> string \<Rightarrow> string set \<Rightarrow> adoc set" where
  "holders m dep ks = {e \<in> ran m. ad_deployment e = dep \<and> ad_keys e \<inter> ks \<noteq> {}}"

definition spec_remove :: "(adoc \<Rightarrow> bool) \<Rightarrow> areservations \<Rightarrow> areply \<times> areservations" where
  "spec_remove P m =
     (AR_count (card {p. \<exists>e. m p = Some e \<and> P e}),
      (\<lambda>p. case m p of None \<Rightarrow> None | Some e \<Rightarrow> if P e then None else Some e))"

fun spec_exec :: "port_call \<Rightarrow> areservations \<Rightarrow> areply \<times> areservations" where
  "spec_exec PC_serverTimeMs m = (AR_other, m)"
| "spec_exec (PC_nextFence _) m = (AR_other, m)"
| "spec_exec (PC_insert d) m =
     (if m (dd_owner d) \<noteq> None then (AR_insert owner_exists, m)
      else if holders m (dd_deployment d) (set (dd_keys d)) \<noteq> {} then (AR_insert key_conflict, m)
      else (AR_insert inserted, m(dd_owner d \<mapsto> doc_abs d)))"
| "spec_exec (PC_deleteExpired dep ks t) m =
     spec_remove (\<lambda>e. ad_deployment e = dep \<and> ad_expiresAt e \<le> t
        \<and> (case ks of None \<Rightarrow> True | Some l \<Rightarrow> ad_keys e \<inter> set l \<noteq> {})) m"
| "spec_exec (PC_findLiveByKeys dep ks now) m = (AR_docs {e \<in> holders m dep (set ks). now < ad_expiresAt e}, m)"
| "spec_exec (PC_findByOwner p) m = (AR_doc (m p), m)"
| "spec_exec (PC_deleteOwned p f) m = spec_remove (\<lambda>e. ad_owner e = p \<and> \<not> fence_mismatch f (ad_fence e)) m"
| "spec_exec (PC_renewOwned p f b g now x) m =
     (case m p of
        None \<Rightarrow> (AR_doc None, m)
      | Some e \<Rightarrow>
          if fence_mismatch f (ad_fence e) \<or> (b \<noteq> None \<and> b \<noteq> Some (ad_broker e))
             \<or> (g \<noteq> None \<and> g \<noteq> Some (ad_generation e)) \<or> ad_expiresAt e \<le> now
          then (AR_doc None, m)
          else let u = e\<lparr>ad_expiresAt := x, ad_renewedAt := now\<rparr> in (AR_doc (Some u), m(p \<mapsto> u)))"
| "spec_exec (PC_deleteByOwnerPrefix q) m = spec_remove (\<lambda>e. starts_with q (ad_owner e)) m"
| "spec_exec (PC_countLive dep now) m =
     (AR_count (card {p. \<exists>e. m p = Some e \<and> ad_deployment e = dep \<and> now < ad_expiresAt e}), m)"

text \<open>No contract is in two reservations of a deployment, and reservations sit under their owner.\<close>

definition exclusive :: "areservations \<Rightarrow> bool" where
  "exclusive m =
     ((\<forall>p e. m p = Some e \<longrightarrow> ad_owner e = p) \<and>
      (\<forall>p q d e. m p = Some d \<longrightarrow> m q = Some e \<longrightarrow> p \<noteq> q \<longrightarrow> ad_deployment d = ad_deployment e \<longrightarrow>
         ad_keys d \<inter> ad_keys e = {}))"

lemma exclusive_remove: "exclusive m \<Longrightarrow> exclusive (snd (spec_remove P m))"
  unfolding exclusive_def spec_remove_def by (fastforce split: option.splits if_splits)

lemma exclusive_insert:
  assumes "exclusive m" "m (dd_owner d) = None" "holders m (dd_deployment d) (set (dd_keys d)) = {}"
  shows "exclusive (m(dd_owner d \<mapsto> doc_abs d))"
proof -
  have a: "ad_keys e \<inter> set (dd_keys d) = {}" if "m p = Some e" "ad_deployment e = dd_deployment d" for p e
    using assms(3) that by (auto simp: holders_def ran_def)
  have b: "set (dd_keys d) \<inter> ad_keys e = {}" if "m p = Some e" "dd_deployment d = ad_deployment e" for p e
    using a [OF that(1)] that(2) by auto
  show ?thesis using assms(1) a b unfolding exclusive_def by (simp split: if_splits)
qed

lemma exclusive_renew:
  assumes "exclusive m" "m p = Some e"
  shows "exclusive (m(p \<mapsto> e\<lparr>ad_expiresAt := x, ad_renewedAt := t\<rparr>))"
  using assms unfolding exclusive_def by (auto split: if_splits)

lemma exclusive_step: "exclusive m \<Longrightarrow> exclusive (snd (spec_exec c m))"
  by (cases c) (auto simp: exclusive_remove exclusive_insert exclusive_renew Let_def split: option.split)

text \<open>What can end a reservation: a call of its owner, a broker switch of its process, or a reclaim
  whose horizon has reached its expiry.\<close>

fun spares :: "adoc \<Rightarrow> port_call \<Rightarrow> bool" where
  "spares e (PC_deleteExpired dep ks t) = (t < ad_expiresAt e)"
| "spares e (PC_deleteOwned p f) = (p \<noteq> ad_owner e)"
| "spares e (PC_renewOwned p f b g now x) = (p \<noteq> ad_owner e)"
| "spares e (PC_deleteByOwnerPrefix q) = (\<not> starts_with q (ad_owner e))"
| "spares e _ = True"

lemma spared_reservation_stays:
  assumes "exclusive m" "m p = Some e" "spares e c"
  shows "snd (spec_exec c m) p = Some e"
proof -
  have "ad_owner e = p" using assms(1,2) by (simp add: exclusive_def)
  then show ?thesis using assms(2,3) by (cases c) (auto simp: spec_remove_def Let_def split: option.split)
qed

text \<open>An insert that overlaps a standing reservation of the deployment is refused.\<close>

lemma overlapping_insert_refused:
  assumes "m p = Some e" "dd_owner d \<noteq> p" "ad_deployment e = dd_deployment d"
    and "ad_keys e \<inter> set (dd_keys d) \<noteq> {}"
  shows "fst (spec_exec (PC_insert d) m) \<noteq> AR_insert inserted"
  using assms by (auto simp: holders_def ran_def)

section \<open>The interface\<close>

locale reservation_port =
  fixes exec :: "port_call \<Rightarrow> 'db \<Rightarrow> port_reply \<times> 'db"
    and abs :: "'db \<Rightarrow> areservations"
    and inv :: "'db \<Rightarrow> bool"
    and ok :: "port_call \<Rightarrow> bool"
  assumes exec_inv: "inv db \<Longrightarrow> ok c \<Longrightarrow> inv (snd (exec c db))"
    and exec_reply: "inv db \<Longrightarrow> ok c \<Longrightarrow> reply_abs (fst (exec c db)) = fst (spec_exec c (abs db))"
    and exec_abs: "inv db \<Longrightarrow> ok c \<Longrightarrow> abs (snd (exec c db)) = snd (spec_exec c (abs db))"
    and inv_exclusive: "inv db \<Longrightarrow> exclusive (abs db)"
begin

definition run :: "port_call list \<Rightarrow> 'db \<Rightarrow> 'db" where
  "run cs db = fold (\<lambda>c d. snd (exec c d)) cs db"

lemma run_Nil [simp]: "run [] db = db"
  by (simp add: run_def)

lemma run_Cons [simp]: "run (c # cs) db = run cs (snd (exec c db))"
  by (simp add: run_def)

lemma run_inv: "inv db \<Longrightarrow> list_all ok cs \<Longrightarrow> inv (run cs db)"
  by (induction cs arbitrary: db) (auto simp: exec_inv)

lemma run_abs: "inv db \<Longrightarrow> list_all ok cs \<Longrightarrow> abs (run cs db) = fold (\<lambda>c m. snd (spec_exec c m)) cs (abs db)"
  by (induction cs arbitrary: db) (auto simp: exec_inv exec_abs)

lemma run_exclusive: "inv db \<Longrightarrow> list_all ok cs \<Longrightarrow> exclusive (abs (run cs db))"
  by (rule inv_exclusive [OF run_inv])

lemma reservation_survives:
  assumes "inv db" "abs db p = Some e" "list_all ok cs" "list_all (spares e) cs"
  shows "abs (run cs db) p = Some e"
  using assms
  by (induction cs arbitrary: db) (auto simp: exec_inv exec_abs spared_reservation_stays inv_exclusive)

lemma reply_determined:
  "inv db \<Longrightarrow> list_all ok cs \<Longrightarrow> ok c \<Longrightarrow>
   reply_abs (fst (exec c (run cs db))) = fst (spec_exec c (fold (\<lambda>c m. snd (spec_exec c m)) cs (abs db)))"
  by (simp add: exec_reply run_inv run_abs)

end

section \<open>The reference port keeps the contract\<close>

text \<open>What the callers guarantee: documents list their keys once, with a side for each, in a
  deployment whose name is free of the separator of the index, and keys carry the namespace of
  the document's broker.\<close>

definition doc_ok :: "DurableReservationDoc \<Rightarrow> bool" where
  "doc_ok d =
     (distinct (dd_keys d) \<and> map fst (dd_sides d) = dd_keys d \<and> CHR 0x00 \<notin> set (dd_deployment d)
      \<and> dd_broker d \<in> {''zerodha'', ''dhan''}
      \<and> list_all (\<lambda>k. keyBroker k = normaliseBroker (dd_broker d)) (dd_keys d))"

fun call_ok :: "port_call \<Rightarrow> bool" where
  "call_ok (PC_insert d) = doc_ok d"
| "call_ok _ = True"

definition mem_abs :: "mem_db \<Rightarrow> areservations" where
  "mem_abs db p = map_option doc_abs (map_of (docs db) p)"

definition mem_inv :: "mem_db \<Rightarrow> bool" where
  "mem_inv db =
     (distinct (map fst (docs db))
      \<and> (\<forall>p d. map_of (docs db) p = Some d \<longrightarrow> dd_owner d = p \<and> CHR 0x00 \<notin> set (dd_deployment d))
      \<and> (\<forall>x p. uniqueIndex db x = Some p \<longleftrightarrow>
            (\<exists>d. map_of (docs db) p = Some d \<and> x \<in> indexKey (dd_deployment d) ` set (dd_keys d))))"

lemma indexKey_inj:
  "CHR 0x00 \<notin> set a \<Longrightarrow> CHR 0x00 \<notin> set b \<Longrightarrow> indexKey a k = indexKey b l \<longleftrightarrow> a = b \<and> k = l"
  using append_sep_inj [of "CHR 0x00" a b k l] by (auto simp: indexKey_def)

lemma mem_inv_owner: "mem_inv db \<Longrightarrow> map_of (docs db) p = Some d \<Longrightarrow> dd_owner d = p"
  by (simp add: mem_inv_def)

lemma mem_inv_index:
  "mem_inv db \<Longrightarrow> uniqueIndex db x = Some p \<longleftrightarrow>
     (\<exists>d. map_of (docs db) p = Some d \<and> x \<in> indexKey (dd_deployment d) ` set (dd_keys d))"
  by (simp add: mem_inv_def)

lemma ran_mem_abs: "ran (mem_abs db) = doc_abs ` ran (map_of (docs db))"
  by (auto simp: mem_abs_def ran_def image_iff)

lemma index_taken_iff:
  assumes "mem_inv db" "CHR 0x00 \<notin> set dep"
  shows "list_ex (\<lambda>x. uniqueIndex db x \<noteq> None) (map (indexKey dep) ks) \<longleftrightarrow> holders (mem_abs db) dep (set ks) \<noteq> {}"
    (is "?l \<longleftrightarrow> ?r")
proof
  assume ?l
  then obtain k p where k: "k \<in> set ks" "uniqueIndex db (indexKey dep k) = Some p"
    by (auto simp: list_ex_iff)
  then obtain d l where d: "map_of (docs db) p = Some d" "indexKey dep k = indexKey (dd_deployment d) l" "l \<in> set (dd_keys d)"
    using mem_inv_index [OF assms(1)] by auto
  then have "dep = dd_deployment d \<and> k = l" using assms by (auto simp: mem_inv_def indexKey_inj)
  then have "doc_abs d \<in> holders (mem_abs db) dep (set ks)"
    using d k(1) by (auto simp: holders_def ran_mem_abs intro!: imageI ranI)
  then show ?r by blast
next
  assume ?r
  then obtain d k where r: "d \<in> ran (map_of (docs db))" and e: "dd_deployment d = dep" and d: "k \<in> set (dd_keys d)" "k \<in> set ks"
    by (auto simp: holders_def ran_mem_abs) blast
  from r obtain p where "map_of (docs db) p = Some d" by (auto simp: ran_def)
  then have "uniqueIndex db (indexKey dep k) = Some p" using mem_inv_index [OF assms(1)] d e by auto
  then show ?l using d(2) by (auto simp: list_ex_iff)
qed

lemma mem_exclusive:
  assumes "mem_inv db"
  shows "exclusive (mem_abs db)"
proof -
  have "p = q" if "map_of (docs db) p = Some d" "map_of (docs db) q = Some e" "dd_deployment d = dd_deployment e"
    "k \<in> set (dd_keys d)" "k \<in> set (dd_keys e)" for p q d e k
    using mem_inv_index [OF assms, of "indexKey (dd_deployment d) k"] that by (metis image_eqI option.inject)
  then show ?thesis using mem_inv_owner [OF assms] by (auto simp: exclusive_def mem_abs_def)
qed

lemma fold_index_insert: "fold (\<lambda>e m. m(e \<mapsto> p)) es m x = (if x \<in> set es then Some p else m x)"
  by (induction es arbitrary: m) auto

lemma fold_index_remove:
  "fold (\<lambda>k m. if m (f k) = Some p then m(f k := None) else m) ks m x =
     (if x \<in> f ` set ks \<and> m x = Some p then None else m x)"
  by (induction ks arbitrary: m) auto

lemma mem_insert_correct:
  assumes inv: "mem_inv db" and nul: "CHR 0x00 \<notin> set (dd_deployment d)"
  shows "mem_inv (snd (mem_insert d db))"
    and "AR_insert (fst (mem_insert d db)) = fst (spec_exec (PC_insert d) (mem_abs db))"
    and "mem_abs (snd (mem_insert d db)) = snd (spec_exec (PC_insert d) (mem_abs db))"
proof -
  let ?es = "map (indexKey (dd_deployment d)) (dd_keys d)"
  note taken = index_taken_iff [OF inv nul, of "dd_keys d"]
  show "AR_insert (fst (mem_insert d db)) = fst (spec_exec (PC_insert d) (mem_abs db))"
    using taken by (auto simp: mem_insert_def Let_def mem_abs_def)
  show "mem_abs (snd (mem_insert d db)) = snd (spec_exec (PC_insert d) (mem_abs db))"
    using taken by (auto simp: mem_insert_def Let_def mem_abs_def fun_eq_iff update_conv')
  show "mem_inv (snd (mem_insert d db))"
  proof (cases "map_of (docs db) (dd_owner d) = None \<and> \<not> list_ex (\<lambda>x. uniqueIndex db x \<noteq> None) ?es")
    case False
    then have "snd (mem_insert d db) = db" by (auto simp: mem_insert_def Let_def)
    then show ?thesis using inv by simp
  next
    case True
    then have free: "x \<in> set ?es \<Longrightarrow> uniqueIndex db x = None" for x by (auto simp: list_ex_iff)
    have e: "snd (mem_insert d db) = db\<lparr>uniqueIndex := fold (\<lambda>e m. m(e \<mapsto> dd_owner d)) ?es (uniqueIndex db),
        docs := AList.update (dd_owner d) d (docs db)\<rparr>"
      using True by (simp add: mem_insert_def Let_def)
    have "uniqueIndex db x \<noteq> Some (dd_owner d)" for x
      using True mem_inv_index [OF inv] by auto
    then have "(if x \<in> set ?es then Some (dd_owner d) else uniqueIndex db x) = Some p \<longleftrightarrow>
        (\<exists>e. ((map_of (docs db))(dd_owner d \<mapsto> d)) p = Some e \<and> x \<in> indexKey (dd_deployment e) ` set (dd_keys e))" for x p
      using free [of x] mem_inv_index [OF inv, of x p] by auto
    then show ?thesis
      unfolding e using inv nul by (auto simp: mem_inv_def fold_index_insert update_conv' distinct_update)
  qed
qed

lemma removeDoc_correct:
  assumes inv: "mem_inv db" and d: "map_of (docs db) (dd_owner d) = Some d"
  shows "mem_inv (removeDoc d db)" and "map_of (docs (removeDoc d db)) = (map_of (docs db))(dd_owner d := None)"
proof -
  show l: "map_of (docs (removeDoc d db)) = (map_of (docs db))(dd_owner d := None)"
    by (simp add: removeDoc_def delete_conv' fun_eq_iff)
  have i: "uniqueIndex (removeDoc d db) x = (if uniqueIndex db x = Some (dd_owner d) then None else uniqueIndex db x)" for x
    using mem_inv_index [OF inv, of x "dd_owner d"] d by (auto simp: removeDoc_def fold_index_remove)
  have dist: "distinct (map fst (docs (removeDoc d db)))"
    using inv by (simp add: removeDoc_def mem_inv_def distinct_delete)
  have x: "uniqueIndex (removeDoc d db) x = Some p \<longleftrightarrow> p \<noteq> dd_owner d \<and> uniqueIndex db x = Some p" for x p
    by (auto simp: i)
  have "\<forall>p e. map_of (docs db) p = Some e \<longrightarrow> dd_owner e = p \<and> CHR 0x00 \<notin> set (dd_deployment e)"
    using inv by (simp add: mem_inv_def)
  then show "mem_inv (removeDoc d db)"
    unfolding mem_inv_def l x mem_inv_index [OF inv] using dist by auto
qed

lemma remove_list_correct:
  assumes "mem_inv db" "distinct (map dd_owner ds)" "\<forall>d\<in>set ds. map_of (docs db) (dd_owner d) = Some d"
  shows "mem_inv (fold removeDoc ds db) \<and>
    map_of (docs (fold removeDoc ds db)) = (\<lambda>p. if p \<in> dd_owner ` set ds then None else map_of (docs db) p)"
  using assms
proof (induction ds arbitrary: db)
  case (Cons d ds)
  have "mem_inv (removeDoc d db)" and l: "map_of (docs (removeDoc d db)) = (map_of (docs db))(dd_owner d := None)"
    using removeDoc_correct [of db d] Cons.prems by auto
  moreover have "\<forall>e\<in>set ds. map_of (docs (removeDoc d db)) (dd_owner e) = Some e"
    using Cons.prems l by (auto simp: image_iff)
  ultimately show ?case using Cons.IH [of "removeDoc d db"] Cons.prems(2) by (auto simp: fun_eq_iff)
qed simp

lemma docs_by_owner:
  assumes "mem_inv db"
  shows "map dd_owner (map snd (docs db)) = map fst (docs db)"
    and "d \<in> snd ` set (docs db) \<longleftrightarrow> map_of (docs db) (dd_owner d) = Some d"
proof -
  have dist: "distinct (map fst (docs db))" using assms by (simp add: mem_inv_def)
  have o: "dd_owner (snd x) = fst x" if "x \<in> set (docs db)" for x
    using assms dist that by (cases x) (auto simp: mem_inv_def)
  show "map dd_owner (map snd (docs db)) = map fst (docs db)" using o by simp
  show "d \<in> snd ` set (docs db) \<longleftrightarrow> map_of (docs db) (dd_owner d) = Some d"
  proof
    assume "d \<in> snd ` set (docs db)"
    then obtain p where "(p, d) \<in> set (docs db)" by auto
    then show "map_of (docs db) (dd_owner d) = Some d" using o [of "(p, d)"] dist by simp
  qed (auto dest!: map_of_SomeD intro: rev_image_eqI)
qed

lemma hit_owners:
  assumes "mem_inv db"
  shows "dd_owner ` set (filter P (map snd (docs db))) = {p. \<exists>d. map_of (docs db) p = Some d \<and> P d}"
proof -
  have "set (filter P (map snd (docs db))) = {d. map_of (docs db) (dd_owner d) = Some d \<and> P d}"
    using docs_by_owner(2) [OF assms] by auto
  then show ?thesis using mem_inv_owner [OF assms] by (auto intro!: image_eqI)
qed

lemma distinct_hit_owners:
  assumes "mem_inv db"
  shows "distinct (map dd_owner (filter P (map snd (docs db))))"
proof -
  have "distinct (map dd_owner (map snd (docs db)))"
    unfolding docs_by_owner(1) [OF assms] using assms by (simp add: mem_inv_def)
  then show ?thesis by (rule distinct_map_filter)
qed

lemma count_where:
  assumes "mem_inv db"
  shows "length (filter P (map snd (docs db))) = card {p. \<exists>d. map_of (docs db) p = Some d \<and> P d}"
  using distinct_card [OF distinct_hit_owners [OF assms, of P]] hit_owners [OF assms, of P]
  by (metis length_map list.set_map)

lemma remove_where_correct:
  assumes inv: "mem_inv db" and PQ: "\<And>d. P d = Q (doc_abs d)"
  shows "mem_inv (snd (remove_where P db))"
    and "AR_count (fst (remove_where P db)) = fst (spec_remove Q (mem_abs db))"
    and "mem_abs (snd (remove_where P db)) = snd (spec_remove Q (mem_abs db))"
proof -
  let ?hit = "filter P (map snd (docs db))"
  have dist: "distinct (map dd_owner ?hit)" by (rule distinct_hit_owners [OF inv])
  have "\<forall>d\<in>set ?hit. map_of (docs db) (dd_owner d) = Some d"
    using docs_by_owner(2) [OF inv] by auto
  from remove_list_correct [OF inv dist this]
  have r: "mem_inv (snd (remove_where P db))"
    and l: "map_of (docs (snd (remove_where P db))) = (\<lambda>p. if p \<in> dd_owner ` set ?hit then None else map_of (docs db) p)"
    by (simp_all add: remove_where_def Let_def)
  have h: "p \<in> dd_owner ` set ?hit \<longleftrightarrow> (\<exists>d. map_of (docs db) p = Some d \<and> P d)" for p
    unfolding hit_owners [OF inv] by simp
  show "mem_inv (snd (remove_where P db))" by (rule r)
  show "AR_count (fst (remove_where P db)) = fst (spec_remove Q (mem_abs db))"
  proof -
    have "{p. \<exists>e. mem_abs db p = Some e \<and> Q e} = {p. \<exists>d. map_of (docs db) p = Some d \<and> P d}"
      by (auto simp: mem_abs_def PQ)
    then show ?thesis
      by (simp only: remove_where_def Let_def spec_remove_def count_where [OF inv] fst_conv)
  qed
  show "mem_abs (snd (remove_where P db)) = snd (spec_remove Q (mem_abs db))"
    unfolding mem_abs_def l h by (auto simp: spec_remove_def fun_eq_iff PQ split: option.splits)
qed

lemma doc_abs_renewed: "doc_abs (d\<lparr>dd_expiresAt := x, dd_renewedAt := t\<rparr>) = (doc_abs d)\<lparr>ad_expiresAt := x, ad_renewedAt := t\<rparr>"
  by (auto simp: doc_abs_def doc_side_def fun_eq_iff)

lemma mem_renew_correct:
  assumes inv: "mem_inv db"
  shows "mem_inv (snd (mem_renewOwned p f b g now x db))"
    and "AR_doc (map_option doc_abs (fst (mem_renewOwned p f b g now x db))) = fst (spec_exec (PC_renewOwned p f b g now x) (mem_abs db))"
    and "mem_abs (snd (mem_renewOwned p f b g now x db)) = snd (spec_exec (PC_renewOwned p f b g now x) (mem_abs db))"
proof -
  show "AR_doc (map_option doc_abs (fst (mem_renewOwned p f b g now x db))) = fst (spec_exec (PC_renewOwned p f b g now x) (mem_abs db))"
    by (cases "map_of (docs db) p") (auto simp: mem_renewOwned_def mem_abs_def Let_def doc_abs_renewed)
  show "mem_abs (snd (mem_renewOwned p f b g now x db)) = snd (spec_exec (PC_renewOwned p f b g now x) (mem_abs db))"
    using mem_inv_owner [OF inv, of p]
    by (cases "map_of (docs db) p")
      (auto simp: mem_renewOwned_def mem_abs_def Let_def doc_abs_renewed fun_eq_iff update_conv')
  show "mem_inv (snd (mem_renewOwned p f b g now x db))"
  proof (cases "snd (mem_renewOwned p f b g now x db) = db")
    case False
    then obtain d where d: "map_of (docs db) p = Some d"
      and e: "snd (mem_renewOwned p f b g now x db) =
        db\<lparr>docs := AList.update p (d\<lparr>dd_expiresAt := x, dd_renewedAt := now\<rparr>) (docs db)\<rparr>"
      using mem_inv_owner [OF inv] by (auto simp: mem_renewOwned_def Let_def split: option.splits if_splits)
    have "(\<exists>e. ((map_of (docs db))(p \<mapsto> d\<lparr>dd_expiresAt := x, dd_renewedAt := now\<rparr>)) q = Some e
        \<and> y \<in> indexKey (dd_deployment e) ` set (dd_keys e)) \<longleftrightarrow> uniqueIndex db y = Some q" for y q
      unfolding mem_inv_index [OF inv] using d by auto
    then show ?thesis
      unfolding e using inv d by (simp add: mem_inv_def update_conv' distinct_update)
  qed (use inv in simp)
qed

lemma mem_findLive_correct:
  assumes "mem_inv db"
  shows "doc_abs ` set (mem_findLiveByKeys dep ks now db) = {e \<in> holders (mem_abs db) dep (set ks). now < ad_expiresAt e}"
proof -
  have "ran (map_of (docs db)) = snd ` set (docs db)"
    using assms by (simp add: mem_inv_def ran_distinct)
  then show ?thesis
    by (auto simp: mem_findLiveByKeys_def holders_def ran_mem_abs overlaps_keys_def list_ex_iff intro!: imageI)
qed

lemma remove_one:
  assumes "mem_inv db" "map_of (docs db) p = Some d" "\<And>e. Q e \<Longrightarrow> ad_owner e = p" "Q (doc_abs d)"
  shows "mem_abs (removeDoc d db) = snd (spec_remove Q (mem_abs db))"
    and "fst (spec_remove Q (mem_abs db)) = AR_count 1"
proof -
  have o: "dd_owner d = p" using assms(1,2) by (rule mem_inv_owner)
  have n: "\<not> Q (doc_abs e)" if "map_of (docs db) q = Some e" "q \<noteq> p" for q e
    using assms(3) mem_inv_owner [OF assms(1) that(1)] that(2) by (metis doc_abs_parts(1))
  show "mem_abs (removeDoc d db) = snd (spec_remove Q (mem_abs db))"
    using removeDoc_correct(2) [OF assms(1)] assms(2,4) n
    by (auto simp: mem_abs_def spec_remove_def fun_eq_iff o split: option.split)
  have "{q. \<exists>e. mem_abs db q = Some e \<and> Q e} = {p}" using assms(2,4) n by (auto simp: mem_abs_def)
  then show "fst (spec_remove Q (mem_abs db)) = AR_count 1" by (simp add: spec_remove_def)
qed

lemma spec_remove_none:
  assumes "\<And>p e. m p = Some e \<Longrightarrow> \<not> Q e"
  shows "spec_remove Q m = (AR_count 0, m)"
proof -
  have none: "{p. \<exists>e. m p = Some e \<and> Q e} = {}" using assms by auto
  show ?thesis unfolding spec_remove_def none using assms by (auto simp: fun_eq_iff split: option.split)
qed

lemma mem_deleteOwned_correct:
  assumes inv: "mem_inv db"
  shows "mem_inv (snd (mem_deleteOwned p f db))"
    and "AR_count (fst (mem_deleteOwned p f db)) = fst (spec_exec (PC_deleteOwned p f) (mem_abs db))"
    and "mem_abs (snd (mem_deleteOwned p f db)) = snd (spec_exec (PC_deleteOwned p f) (mem_abs db))"
proof -
  let ?Q = "\<lambda>e. ad_owner e = p \<and> \<not> fence_mismatch f (ad_fence e)"
  have "mem_inv (snd (mem_deleteOwned p f db))
    \<and> AR_count (fst (mem_deleteOwned p f db)) = fst (spec_remove ?Q (mem_abs db))
    \<and> mem_abs (snd (mem_deleteOwned p f db)) = snd (spec_remove ?Q (mem_abs db))"
  proof (cases "\<exists>d. map_of (docs db) p = Some d \<and> \<not> fence_mismatch f (dd_fence d)")
    case True
    then obtain d where d: "map_of (docs db) p = Some d" "\<not> fence_mismatch f (dd_fence d)" by auto
    then have "?Q (doc_abs d)" using mem_inv_owner [OF inv] by simp
    from remove_one [where Q = ?Q, OF inv d(1) _ this] removeDoc_correct(1) [OF inv, of d] mem_inv_owner [OF inv d(1)] d
    show ?thesis by (simp add: mem_deleteOwned_def)
  next
    case False
    have "\<not> ?Q e" if "mem_abs db q = Some e" for q e
      using False that mem_inv_owner [OF inv] by (auto simp: mem_abs_def)
    then have "spec_remove ?Q (mem_abs db) = (AR_count 0, mem_abs db)" by (rule spec_remove_none)
    then show ?thesis using False inv by (auto simp: mem_deleteOwned_def split: option.split)
  qed
  then show "mem_inv (snd (mem_deleteOwned p f db))"
    and "AR_count (fst (mem_deleteOwned p f db)) = fst (spec_exec (PC_deleteOwned p f) (mem_abs db))"
    and "mem_abs (snd (mem_deleteOwned p f db)) = snd (spec_exec (PC_deleteOwned p f) (mem_abs db))"
    by simp_all
qed

lemma mem_countLive_correct:
  assumes "mem_inv db"
  shows "mem_countLive dep now db =
    card {p. \<exists>e. mem_abs db p = Some e \<and> ad_deployment e = dep \<and> now < ad_expiresAt e}"
proof -
  have "{p. \<exists>e. mem_abs db p = Some e \<and> ad_deployment e = dep \<and> now < ad_expiresAt e} =
      {p. \<exists>d. map_of (docs db) p = Some d \<and> (dd_deployment d = dep \<and> \<not> dd_expiresAt d \<le> now)}"
    by (auto simp: mem_abs_def)
  then show ?thesis by (simp only: mem_countLive_def count_where [OF assms])
qed

lemma mem_inv_same_docs:
  "docs db' = docs db \<Longrightarrow> uniqueIndex db' = uniqueIndex db \<Longrightarrow> mem_inv db' = mem_inv db"
  by (simp add: mem_inv_def)

lemmas mem_op_correct =
  mem_insert_correct mem_renew_correct mem_deleteOwned_correct mem_findLive_correct mem_countLive_correct

lemma mem_exec_correct:
  assumes inv: "mem_inv db" and ok: "call_ok c"
  shows "mem_inv (snd (mem_exec c db)) \<and> reply_abs (fst (mem_exec c db)) = fst (spec_exec c (mem_abs db))
    \<and> mem_abs (snd (mem_exec c db)) = snd (spec_exec c (mem_abs db))"
proof (cases c)
  case (PC_nextFence dep)
  then show ?thesis using inv mem_inv_same_docs [of "db\<lparr>fences := _\<rparr>" db]
    by (simp add: mem_nextFence_def Let_def mem_abs_def fun_eq_iff)
next
  case (PC_insert d)
  then show ?thesis using mem_insert_correct [OF inv, of d] ok by (simp add: doc_ok_def split_beta)
next
  case (PC_deleteExpired dep ks t)
  have "(dd_deployment d = dep \<and> \<not> t < dd_expiresAt d \<and> (case ks of None \<Rightarrow> True | Some l \<Rightarrow> overlaps_keys l d)) =
      (ad_deployment (doc_abs d) = dep \<and> ad_expiresAt (doc_abs d) \<le> t
        \<and> (case ks of None \<Rightarrow> True | Some l \<Rightarrow> ad_keys (doc_abs d) \<inter> set l \<noteq> {}))" for d
    by (auto simp: not_less overlaps_keys_def list_ex_iff split: option.split)
  from remove_where_correct
    [where Q = "\<lambda>e. ad_deployment e = dep \<and> ad_expiresAt e \<le> t \<and> (case ks of None \<Rightarrow> True | Some l \<Rightarrow> ad_keys e \<inter> set l \<noteq> {})",
      OF inv this]
  have "mem_inv (snd (mem_deleteExpired dep ks t db))
    \<and> AR_count (fst (mem_deleteExpired dep ks t db)) = fst (spec_exec c (mem_abs db))
    \<and> mem_abs (snd (mem_deleteExpired dep ks t db)) = snd (spec_exec c (mem_abs db))"
    unfolding mem_deleteExpired_def PC_deleteExpired spec_exec.simps by blast
  then show ?thesis by (simp add: PC_deleteExpired split_beta del: spec_exec.simps)
next
  case (PC_deleteByOwnerPrefix q)
  have "mem_inv (snd (mem_deleteByOwnerPrefix q db))
    \<and> AR_count (fst (mem_deleteByOwnerPrefix q db)) = fst (spec_exec c (mem_abs db))
    \<and> mem_abs (snd (mem_deleteByOwnerPrefix q db)) = snd (spec_exec c (mem_abs db))"
    using remove_where_correct [where Q = "\<lambda>e. starts_with q (ad_owner e)" and P = "\<lambda>d. starts_with q (dd_owner d)", OF inv]
    unfolding mem_deleteByOwnerPrefix_def PC_deleteByOwnerPrefix spec_exec.simps by simp
  then show ?thesis by (simp add: PC_deleteByOwnerPrefix split_beta del: spec_exec.simps)
next
  case (PC_renewOwned p f b g now x)
  then show ?thesis using mem_renew_correct [OF inv, of p f b g now x] by (simp add: split_beta del: spec_exec.simps)
next
  case (PC_deleteOwned p f)
  then show ?thesis using mem_deleteOwned_correct [OF inv, of p f] by (simp add: split_beta del: spec_exec.simps)
qed (use inv in \<open>simp_all add: mem_findLive_correct mem_countLive_correct, simp_all add: mem_abs_def\<close>)

interpretation mem: reservation_port mem_exec mem_abs mem_inv call_ok
  by unfold_locales (simp_all add: mem_exec_correct mem_exclusive)

lemma mem_inv_new: "mem_inv (new_mem_db t)" "mem_abs (new_mem_db t) = Map.empty"
  by (simp_all add: mem_inv_def new_mem_db_def mem_abs_def fun_eq_iff)

end
