(* ===== verification/Pg_Reservations.thy ===== *)
theory Pg_Reservations
  imports Reservation_Contract
begin

text \<open>
  The PostgreSQL port keeps the contract of the durable tier, whatever order the server returns rows
  in: the normalised tables of migration 004 with their primary keys and the cascade represent the
  same reservations as the reference port.  This is where the uniqueness on
  \<^verbatim>\<open>(deployment, broker, key)\<close>, wider than the reference port's \<^verbatim>\<open>(deployment, key)\<close>, needs keys to carry
  their broker's namespace.
\<close>

section \<open>The reservations in the tables\<close>

abbreviation owners :: "pg_db \<Rightarrow> OwnerRow list" where
  "owners \<equiv> box_reservation_owners"

abbreviation key_rows :: "pg_db \<Rightarrow> KeyRow list" where
  "key_rows \<equiv> box_reservation_keys"

definition primary_key :: "KeyRow \<Rightarrow> string \<times> string \<times> string" where
  "primary_key k = (kr_deployment_id k, kr_broker k, kr_instrument_key k)"

definition pg_abs :: "pg_db \<Rightarrow> areservations" where
  "pg_abs db p = map_option (\<lambda>r. doc_abs (toDoc r (rows_of p db))) (find (\<lambda>r. ow_owner r = p) (owners db))"

definition pg_inv :: "pg_db \<Rightarrow> bool" where
  "pg_inv db =
     (distinct (map ow_owner (owners db)) \<and> distinct (map primary_key (key_rows db))
      \<and> (\<forall>k\<in>set (key_rows db). \<exists>r\<in>set (owners db). ow_owner r = kr_owner k
           \<and> ow_deployment r = kr_deployment_id k \<and> ow_broker r = kr_broker k)
      \<and> (\<forall>k\<in>set (key_rows db). kr_broker k \<in> {''zerodha'', ''dhan''}
           \<and> keyBroker (kr_instrument_key k) = normaliseBroker (kr_broker k)))"

lemma find_owner:
  "distinct (map ow_owner rs) \<Longrightarrow> find (\<lambda>r. ow_owner r = p) rs = Some r \<longleftrightarrow> r \<in> set rs \<and> ow_owner r = p"
  by (induction rs) (auto simp: image_iff)

lemma find_snoc_other: "\<not> P x \<Longrightarrow> find P (xs @ [x]) = find P xs"
  by (induction xs) auto

lemma pg_abs_Some:
  assumes "distinct (map ow_owner (owners db))"
  shows "pg_abs db p = Some e \<longleftrightarrow>
    (\<exists>r\<in>set (owners db). ow_owner r = p \<and> e = doc_abs (toDoc r (rows_of p db)))"
  using find_owner [OF assms, of p] by (auto simp: pg_abs_def)

lemma map_eq_by_Some: "(\<And>p e. f p = Some e \<longleftrightarrow> g p = Some e) \<Longrightarrow> f = g"
  by (rule ext) (metis not_Some_eq)

lemma spec_remove_Some: "snd (spec_remove Q m) p = Some e \<longleftrightarrow> m p = Some e \<and> \<not> Q e"
  by (auto simp: spec_remove_def split: option.splits)

lemma toDoc_parts [simp]:
  "dd_owner (toDoc r ks) = ow_owner r" "dd_deployment (toDoc r ks) = ow_deployment r"
  "dd_broker (toDoc r ks) = ow_broker r" "dd_generation (toDoc r ks) = ow_generation r"
  "dd_fence (toDoc r ks) = ow_fence r" "dd_expiresAt (toDoc r ks) = ow_expires_at r"
  "dd_keys (toDoc r ks) = map kr_instrument_key ks"
  by (simp_all add: toDoc_def)

lemma set_rows_of: "set (rows_of p db) = {k \<in> set (key_rows db). kr_owner k = p}"
  by (simp add: rows_of_def)

lemma rows_of_key_row:
  assumes "pg_inv db" "k \<in> set (rows_of p db)" "r \<in> set (owners db)" "ow_owner r = p"
  shows "kr_deployment_id k = ow_deployment r \<and> kr_broker k = ow_broker r"
proof -
  obtain r' where "r' \<in> set (owners db)" "ow_owner r' = p" "ow_deployment r' = kr_deployment_id k" "ow_broker r' = kr_broker k"
    using assms(1,2) by (auto simp: pg_inv_def set_rows_of)
  moreover have "r' = r"
    using assms(1,3,4) calculation(1,2) by (auto simp: pg_inv_def distinct_map dest: inj_onD)
  ultimately show ?thesis by simp
qed

lemma rows_of_distinct:
  assumes "pg_inv db"
  shows "distinct (map kr_instrument_key (rows_of p db))"
proof -
  have d: "distinct (map primary_key (rows_of p db))"
    using assms by (simp add: pg_inv_def rows_of_def distinct_map_filter)
  have "inj_on kr_instrument_key (set (rows_of p db))"
  proof (rule inj_onI)
    fix a b assume ab: "a \<in> set (rows_of p db)" "b \<in> set (rows_of p db)" "kr_instrument_key a = kr_instrument_key b"
    obtain r where "r \<in> set (owners db)" "ow_owner r = p" using assms ab(1) by (auto simp: pg_inv_def set_rows_of)
    then have "primary_key a = primary_key b"
      using rows_of_key_row [OF assms ab(1)] rows_of_key_row [OF assms ab(2)] ab(3) by (simp add: primary_key_def)
    then show "a = b" using d ab(1,2) by (auto simp: distinct_map dest: inj_onD)
  qed
  then show ?thesis using d by (simp add: distinct_map)
qed

lemma normaliseBroker_known:
  "normaliseBroker ''zerodha'' = ''ZERODHA''" "normaliseBroker ''dhan'' = ''DHAN''"
  by code_simp+

lemma broker_of_namespace:
  "a \<in> {''zerodha'', ''dhan''} \<Longrightarrow> b \<in> {''zerodha'', ''dhan''} \<Longrightarrow> normaliseBroker a = normaliseBroker b \<Longrightarrow> a = b"
  by (auto simp: normaliseBroker_known)

lemma key_rows_broker:
  assumes "pg_inv db" "a \<in> set (key_rows db)" "b \<in> set (key_rows db)" "kr_instrument_key a = kr_instrument_key b"
  shows "kr_broker a = kr_broker b"
proof -
  have "kr_broker k \<in> {''zerodha'', ''dhan''} \<and> keyBroker (kr_instrument_key k) = normaliseBroker (kr_broker k)"
    if "k \<in> set (key_rows db)" for k
    using assms(1) that unfolding pg_inv_def by blast
  from this [OF assms(2)] this [OF assms(3)] show ?thesis using assms(4) broker_of_namespace by metis
qed

text \<open>One row holds a contract of a deployment, hence one reservation.\<close>

lemma pg_exclusive:
  assumes inv: "pg_inv db"
  shows "exclusive (pg_abs db)"
proof -
  have dist: "distinct (map ow_owner (owners db))" using inv by (simp add: pg_inv_def)
  have "p = q"
    if "r \<in> set (owners db)" "ow_owner r = p" "s \<in> set (owners db)" "ow_owner s = q"
      "ow_deployment r = ow_deployment s" "a \<in> set (rows_of p db)" "b \<in> set (rows_of q db)"
      "kr_instrument_key a = kr_instrument_key b" for p q r s a b
  proof -
    have "primary_key a = primary_key b"
      using rows_of_key_row [OF inv that(6,1,2)] rows_of_key_row [OF inv that(7,3,4)] that
        key_rows_broker [OF inv, of a b] by (simp add: primary_key_def set_rows_of)
    then have "a = b" using inv that(6,7) by (auto simp: pg_inv_def distinct_map set_rows_of dest: inj_onD)
    then show ?thesis using that(6,7) by (simp add: set_rows_of)
  qed
  note same = this
  show ?thesis
    unfolding exclusive_def
  proof (intro conjI allI impI)
    fix p q d e assume a: "pg_abs db p = Some d" "pg_abs db q = Some e" "p \<noteq> q" "ad_deployment d = ad_deployment e"
    show "ad_keys d \<inter> ad_keys e = {}"
    proof (rule ccontr)
      assume "ad_keys d \<inter> ad_keys e \<noteq> {}"
      then obtain k where k: "k \<in> ad_keys d" "k \<in> ad_keys e" by blast
      from a(1,2) obtain r s where rs: "r \<in> set (owners db)" "ow_owner r = p" "d = doc_abs (toDoc r (rows_of p db))"
          "s \<in> set (owners db)" "ow_owner s = q" "e = doc_abs (toDoc s (rows_of q db))"
        unfolding pg_abs_Some [OF dist] by blast
      then obtain x y where "x \<in> set (rows_of p db)" "y \<in> set (rows_of q db)" "kr_instrument_key x = kr_instrument_key y"
        using k by auto
      then have "p = q" using rs a(4) by (intro same [of r p s q x y]) simp_all
      then show False using a(3) by simp
    qed
  qed (auto simp: pg_abs_Some [OF dist])
qed

section \<open>The operations\<close>

lemma map_of_rev_distinct: "distinct (map fst xs) \<Longrightarrow> map_of (rev xs) = map_of xs"
  by (rule map_eq_by_Some) (simp add: map_of_eq_Some_iff rev_map [symmetric] distinct_rev)

lemma doc_abs_key_rows:
  assumes "distinct (map kr_instrument_key ks)" "mset ks' = mset ks"
  shows "doc_abs (toDoc r ks') = doc_abs (toDoc r ks)"
proof -
  have s: "set ks' = set ks" using assms(2) by (rule mset_eq_setD)
  have d: "distinct (map kr_instrument_key ks')"
    using assms by (metis mset_map mset_eq_imp_distinct_iff)
  let ?f = "\<lambda>k. (kr_instrument_key k, kr_side k)"
  have "map_of (map ?f ks') = map_of (map ?f ks)"
    using assms(1) d s by (intro map_eq_by_Some) (simp add: map_of_eq_Some_iff comp_def)
  then show ?thesis using s by (simp add: doc_abs_def doc_side_def toDoc_def fun_eq_iff)
qed

lemma doc_abs_inserted:
  assumes "doc_ok d"
  shows "doc_abs (toDoc (owner_row d) (map (key_row d) (dd_keys d))) = doc_abs d"
proof -
  have "map_of (rev (dd_sides d)) = map_of (dd_sides d)"
    using assms by (intro map_of_rev_distinct) (simp add: doc_ok_def)
  then have "map_of (map ((\<lambda>k. (kr_instrument_key k, kr_side k)) \<circ> key_row d) (dd_keys d)) k = Some (doc_side d k)"
    if "k \<in> set (dd_keys d)" for k
    using that by (simp add: comp_def key_row_def doc_side_def map_of_map_restrict)
  then show ?thesis
    by (auto simp: doc_abs_def toDoc_def owner_row_def doc_side_def key_row_def comp_def fun_eq_iff)
qed

lemma insert_keys_eq:
  "distinct ks \<Longrightarrow> insert_keys d ks rows =
     (if list_ex (\<lambda>k. list_ex (same_primary_key (key_row d k)) rows) ks then None else Some (rows @ map (key_row d) ks))"
proof (induction ks arbitrary: rows)
  case (Cons k ks)
  have "list_ex (\<lambda>l. list_ex (same_primary_key (key_row d l)) (rows @ [key_row d k])) ks =
      list_ex (\<lambda>l. list_ex (same_primary_key (key_row d l)) rows) ks"
    using Cons.prems by (auto simp: list_ex_iff same_primary_key_def key_row_def)
  then show ?case using Cons by simp
qed simp

lemma pg_inv_dist: "pg_inv db \<Longrightarrow> distinct (map ow_owner (owners db))"
  by (simp add: pg_inv_def)

lemma key_taken_iff:
  assumes inv: "pg_inv db" and ok: "doc_ok d"
  shows "list_ex (\<lambda>k. list_ex (same_primary_key (key_row d k)) (key_rows db)) (dd_keys d) \<longleftrightarrow>
    holders (pg_abs db) (dd_deployment d) (set (dd_keys d)) \<noteq> {}" (is "?l \<longleftrightarrow> ?r")
proof
  assume ?l
  then obtain x where x: "x \<in> set (key_rows db)" "kr_deployment_id x = dd_deployment d"
      "kr_instrument_key x \<in> set (dd_keys d)"
    by (auto simp: list_ex_iff same_primary_key_def key_row_def)
  then obtain r where r: "r \<in> set (owners db)" "ow_owner r = kr_owner x" "ow_deployment r = kr_deployment_id x"
    using inv by (auto simp: pg_inv_def)
  let ?e = "doc_abs (toDoc r (rows_of (ow_owner r) db))"
  have "pg_abs db (ow_owner r) = Some ?e" using r by (auto simp: pg_abs_Some [OF pg_inv_dist [OF inv]])
  moreover have "kr_instrument_key x \<in> ad_keys ?e" using x(1) r(2) by (simp add: set_rows_of)
  ultimately have "?e \<in> holders (pg_abs db) (dd_deployment d) (set (dd_keys d))"
    using x(2,3) r(3) by (auto simp: holders_def intro: ranI)
  then show ?r by blast
next
  assume ?r
  then obtain p e k where e: "pg_abs db p = Some e" "ad_deployment e = dd_deployment d" "k \<in> ad_keys e" "k \<in> set (dd_keys d)"
    by (auto simp: holders_def ran_def)
  then obtain r where r: "r \<in> set (owners db)" "ow_owner r = p" "e = doc_abs (toDoc r (rows_of p db))"
    by (auto simp: pg_abs_Some [OF pg_inv_dist [OF inv]])
  then obtain x where x: "x \<in> set (rows_of p db)" "kr_instrument_key x = k" using e(3) by auto
  have dep: "kr_deployment_id x = dd_deployment d" using rows_of_key_row [OF inv x(1) r(1,2)] r(3) e(2) by simp
  have "kr_broker x \<in> {''zerodha'', ''dhan''} \<and> keyBroker k = normaliseBroker (kr_broker x)"
    using inv x unfolding pg_inv_def set_rows_of by blast
  moreover have "dd_broker d \<in> {''zerodha'', ''dhan''} \<and> keyBroker k = normaliseBroker (dd_broker d)"
    using ok e(4) unfolding doc_ok_def list_all_iff by blast
  ultimately have "kr_broker x = dd_broker d" using broker_of_namespace by metis
  then have "same_primary_key (key_row d k) x" using dep x(2) by (simp add: same_primary_key_def key_row_def)
  then show ?l using x(1) e(4) by (auto simp: list_ex_iff set_rows_of)
qed

lemma pg_insert_correct:
  assumes inv: "pg_inv db" and ok: "doc_ok d"
  shows "pg_inv (snd (pg_insert d db)) \<and> AR_insert (fst (pg_insert d db)) = fst (spec_exec (PC_insert d) (pg_abs db))
    \<and> pg_abs (snd (pg_insert d db)) = snd (spec_exec (PC_insert d) (pg_abs db))"
proof -
  have dist: "distinct (map ow_owner (owners db))" and dk: "distinct (dd_keys d)"
    using inv ok by (simp_all add: pg_inv_def doc_ok_def)
  have own: "list_ex (\<lambda>r. ow_owner r = dd_owner d) (owners db) \<longleftrightarrow> pg_abs db (dd_owner d) \<noteq> None"
    unfolding not_None_eq pg_abs_Some [OF dist] list_ex_iff by blast
  show ?thesis
  proof (cases "pg_abs db (dd_owner d) \<noteq> None \<or> holders (pg_abs db) (dd_deployment d) (set (dd_keys d)) \<noteq> {}")
    case True
    then show ?thesis using inv own key_taken_iff [OF inv ok]
      by (auto simp: pg_insert_def insert_keys_eq [OF dk] simp flip: not_None_eq)
  next
    case False
    let ?new = "map (key_row d) (dd_keys d)"
    let ?db = "db\<lparr>box_reservation_owners := owners db @ [owner_row d], box_reservation_keys := key_rows db @ ?new\<rparr>"
    have e: "pg_insert d db = (inserted, ?db)"
      using False own key_taken_iff [OF inv ok] by (simp add: pg_insert_def insert_keys_eq [OF dk])
    have fresh: "ow_owner r \<noteq> dd_owner d" if "r \<in> set (owners db)" for r
      using False own that by (auto simp: list_ex_iff)
    have nokey: "kr_owner k \<noteq> dd_owner d" if "k \<in> set (key_rows db)" for k
      using inv that fresh by (auto simp: pg_inv_def)
    have disj: "primary_key k \<noteq> primary_key (key_row d l)" if "k \<in> set (key_rows db)" "l \<in> set (dd_keys d)" for k l
    proof
      assume "primary_key k = primary_key (key_row d l)"
      then have "same_primary_key (key_row d l) k" by (simp add: same_primary_key_def primary_key_def)
      then show False using False key_taken_iff [OF inv ok] that unfolding list_ex_iff by blast
    qed
    have "distinct (map primary_key ?new)"
      using dk by (auto simp: distinct_map primary_key_def key_row_def intro!: inj_onI)
    then have d2: "distinct (map primary_key (key_rows db @ ?new))"
      using inv disj by (fastforce simp: pg_inv_def)
    have "dd_owner d \<notin> ow_owner ` set (owners db)" using fresh by force
    then have d1: "distinct (map ow_owner (owners db @ [owner_row d]))"
      using dist by (simp add: owner_row_def)
    have fk: "\<forall>k\<in>set (key_rows db @ ?new). \<exists>r\<in>set (owners db @ [owner_row d]). ow_owner r = kr_owner k
         \<and> ow_deployment r = kr_deployment_id k \<and> ow_broker r = kr_broker k"
      using inv by (auto simp: pg_inv_def owner_row_def key_row_def)
    have ns: "\<forall>k\<in>set (key_rows db @ ?new). kr_broker k \<in> {''zerodha'', ''dhan''}
         \<and> keyBroker (kr_instrument_key k) = normaliseBroker (kr_broker k)"
      using inv ok by (auto simp: pg_inv_def doc_ok_def list_all_iff key_row_def)
    have inv': "pg_inv ?db"
      unfolding pg_inv_def using d1 d2 fk ns by simp
    have old: "rows_of p ?db = rows_of p db" if "p \<noteq> dd_owner d" for p
      using that by (simp add: rows_of_def key_row_def)
    have new: "rows_of (dd_owner d) ?db = ?new"
      using nokey by (simp add: rows_of_def filter_empty_conv) (simp add: key_row_def)
    have "pg_abs ?db p = ((pg_abs db)(dd_owner d \<mapsto> doc_abs d)) p" for p
    proof (cases "p = dd_owner d")
      case True
      have "pg_abs ?db p = Some (doc_abs (toDoc (owner_row d) (rows_of p ?db)))"
        using True pg_abs_Some [OF pg_inv_dist [OF inv'], of p] by (simp add: owner_row_def)
      then show ?thesis using True new doc_abs_inserted [OF ok] by simp
    next
      case False
      have "find (\<lambda>r. ow_owner r = p) (owners db @ [owner_row d]) = find (\<lambda>r. ow_owner r = p) (owners db)"
        using False by (intro find_snoc_other) (simp add: owner_row_def)
      then show ?thesis using False old [OF False] by (simp add: pg_abs_def)
    qed
    then show ?thesis using e inv' False by (auto simp: fun_eq_iff)
  qed
qed

lemma delete_owners_correct:
  assumes inv: "pg_inv db"
    and PQ: "\<And>r. r \<in> set (owners db) \<Longrightarrow> P r = Q (doc_abs (toDoc r (rows_of (ow_owner r) db)))"
  shows "pg_inv (snd (delete_owners P db)) \<and> AR_count (fst (delete_owners P db)) = fst (spec_remove Q (pg_abs db))
    \<and> pg_abs (snd (delete_owners P db)) = snd (spec_remove Q (pg_abs db))"
proof -
  note dist = pg_inv_dist [OF inv]
  let ?db = "snd (delete_owners P db)"
  have o: "owners ?db = filter (\<lambda>r. \<not> P r) (owners db)"
    and k: "key_rows ?db = filter (\<lambda>k. kr_owner k \<notin> ow_owner ` set (filter P (owners db))) (key_rows db)"
    by (simp_all add: delete_owners_def Let_def)
  have gone: "p \<in> ow_owner ` set (filter P (owners db)) \<longleftrightarrow> P r" if "r \<in> set (owners db)" "ow_owner r = p" for p r
    using that dist by (auto simp: distinct_map dest: inj_onD)
  have inv': "pg_inv ?db"
  proof -
    have "\<exists>r\<in>set (owners ?db). ow_owner r = kr_owner x \<and> ow_deployment r = kr_deployment_id x \<and> ow_broker r = kr_broker x"
      if "x \<in> set (key_rows ?db)" for x
    proof -
      have x: "x \<in> set (key_rows db)" "kr_owner x \<notin> ow_owner ` set (filter P (owners db))" using that k by auto
      then obtain r where r: "r \<in> set (owners db)" "ow_owner r = kr_owner x"
          "ow_deployment r = kr_deployment_id x" "ow_broker r = kr_broker x"
        using inv by (auto simp: pg_inv_def)
      then have "\<not> P r" using gone x(2) by metis
      then show ?thesis using r o by auto
    qed
    then show ?thesis
      using inv unfolding pg_inv_def o k by (auto simp: distinct_map_filter)
  qed
  have rows: "rows_of p ?db = rows_of p db" if "r \<in> set (owners db)" "ow_owner r = p" "\<not> P r" for p r
    unfolding rows_of_def k using gone [OF that(1,2)] that(3) by (auto intro!: filter_cong)
  have "pg_abs ?db p = Some e \<longleftrightarrow> snd (spec_remove Q (pg_abs db)) p = Some e" for p e
    unfolding spec_remove_Some pg_abs_Some [OF dist] pg_abs_Some [OF pg_inv_dist [OF inv']] o
    using rows PQ dist by (auto simp: distinct_map dest: inj_onD)
  then have abs: "pg_abs ?db = snd (spec_remove Q (pg_abs db))" by (rule map_eq_by_Some)
  have "{p. \<exists>e. pg_abs db p = Some e \<and> Q e} = ow_owner ` set (filter P (owners db))"
    unfolding pg_abs_Some [OF dist] using PQ by (auto simp: image_iff)
  moreover have "card (ow_owner ` set (filter P (owners db))) = length (filter P (owners db))"
    using distinct_card [of "map ow_owner (filter P (owners db))"] dist by (simp add: distinct_map_filter)
  ultimately have "AR_count (fst (delete_owners P db)) = fst (spec_remove Q (pg_abs db))"
    by (simp add: delete_owners_def Let_def spec_remove_def)
  then show ?thesis using inv' abs by simp
qed

lemma doc_abs_row_renewed:
  "doc_abs (toDoc (r\<lparr>ow_expires_at := x, ow_renewed_at := t\<rparr>) ks) =
     (doc_abs (toDoc r ks))\<lparr>ad_expiresAt := x, ad_renewedAt := t\<rparr>"
  by (simp add: toDoc_def doc_abs_renewed [symmetric])

text \<open>The effect of \<^verbatim>\<open>UPDATE ... WHERE\<close> on the table, seen through its rows.\<close>

lemma pg_renew_correct:
  assumes inv: "pg_inv db" and coll: "\<And>ks. mset (collate ks) = mset ks"
  shows "pg_inv (snd (pg_renewOwned collate p f b g now x db))
    \<and> AR_doc (map_option doc_abs (fst (pg_renewOwned collate p f b g now x db))) =
        fst (spec_exec (PC_renewOwned p f b g now x) (pg_abs db))
    \<and> pg_abs (snd (pg_renewOwned collate p f b g now x db)) = snd (spec_exec (PC_renewOwned p f b g now x) (pg_abs db))"
proof -
  note dist = pg_inv_dist [OF inv]
  let ?upd = "\<lambda>r::OwnerRow. r\<lparr>ow_expires_at := x, ow_renewed_at := now\<rparr>"
  let ?m = "renew_matches p f b g now"
  define h where "h = (\<lambda>r. if ?m r then ?upd r else r)"
  let ?db = "db\<lparr>box_reservation_owners := map h (owners db)\<rparr>"
  have s: "snd (pg_renewOwned collate p f b g now x db) = ?db"
    by (simp add: pg_renewOwned_def Let_def h_def split: option.split)
  have h: "ow_owner (h r) = ow_owner r" "ow_deployment (h r) = ow_deployment r" "ow_broker (h r) = ow_broker r" for r
    by (simp_all add: h_def)
  have rows: "rows_of q ?db = rows_of q db" for q by (simp add: rows_of_def)
  have dist': "distinct (map ow_owner (owners ?db))" using dist by (simp add: comp_def h)
  have inv': "pg_inv ?db"
    using inv dist' by (simp add: pg_inv_def h)
  have abs': "pg_abs ?db q = Some e \<longleftrightarrow> (\<exists>r\<in>set (owners db). ow_owner r = q \<and> e = doc_abs (toDoc (h r) (rows_of q db)))" for q e
    unfolding pg_abs_Some [OF dist'] rows by (auto simp: h)
  show ?thesis
  proof (cases "\<exists>r\<in>set (owners db). ?m r")
    case False
    then have "map h (owners db) = owners db" by (auto simp: h_def intro: map_idI)
    then have same: "?db = db" by simp
    have none: "find ?m (owners db) = None" using False by (simp add: find_None_iff)
    have "spec_exec (PC_renewOwned p f b g now x) (pg_abs db) = (AR_doc None, pg_abs db)"
    proof (cases "pg_abs db p")
      case (Some e)
      then obtain r where r: "r \<in> set (owners db)" "ow_owner r = p" "e = doc_abs (toDoc r (rows_of p db))"
        unfolding pg_abs_Some [OF dist] by blast
      then have "\<not> ?m r" using False by blast
      then show ?thesis using Some r
        by (auto simp: renew_matches_def Let_def split: option.splits)
    qed simp
    then show ?thesis using s same inv none by (simp add: pg_renewOwned_def Let_def)
  next
    case True
    then obtain r where r: "r \<in> set (owners db)" "?m r" by blast
    then have p: "ow_owner r = p" by (simp add: renew_matches_def)
    have only: "q = r" if "q \<in> set (owners db)" "ow_owner q = p" for q
      using that r(1) p dist by (auto simp: distinct_map dest: inj_onD)
    have "find ?m (owners db) = Some r"
    proof -
      obtain q where q: "find ?m (owners db) = Some q" using True by (metis find_None_iff not_Some_eq)
      then have "q \<in> set (owners db)" "?m q" by (auto simp: find_Some_iff)
      then show ?thesis using q only by (simp add: renew_matches_def)
    qed
    then have reply: "fst (pg_renewOwned collate p f b g now x db) = Some (toDoc (?upd r) (loadKeys collate p db))"
      by (simp add: pg_renewOwned_def Let_def p)
    have e: "pg_abs db p = Some (doc_abs (toDoc r (rows_of p db)))"
      unfolding pg_abs_Some [OF dist] using r(1) p by blast
    let ?u = "(doc_abs (toDoc r (rows_of p db)))\<lparr>ad_expiresAt := x, ad_renewedAt := now\<rparr>"
    have sp: "spec_exec (PC_renewOwned p f b g now x) (pg_abs db) = (AR_doc (Some ?u), (pg_abs db)(p \<mapsto> ?u))"
      using e r(2) by (auto simp: renew_matches_def Let_def split: option.splits)
    have "doc_abs (toDoc (?upd r) (loadKeys collate p db)) = ?u"
      using doc_abs_key_rows [OF rows_of_distinct [OF inv] coll, of "?upd r" p]
      by (simp add: loadKeys_def doc_abs_row_renewed)
    moreover have "pg_abs ?db = (pg_abs db)(p \<mapsto> ?u)"
    proof (rule map_eq_by_Some)
      fix q e
      show "pg_abs ?db q = Some e \<longleftrightarrow> ((pg_abs db)(p \<mapsto> ?u)) q = Some e"
      proof (cases "q = p")
        case True
        have "pg_abs ?db p = Some e \<longleftrightarrow> e = doc_abs (toDoc (h r) (rows_of p db))"
          unfolding abs' using r(1) p only by blast
        moreover have "h r = ?upd r" using r(2) by (simp add: h_def)
        ultimately show ?thesis using True by (auto simp: doc_abs_row_renewed)
      next
        case False
        have "\<not> ?m r'" if "ow_owner r' = q" for r' using False that by (simp add: renew_matches_def)
        then have "h r' = r'" if "ow_owner r' = q" for r' using that by (simp add: h_def)
        then show ?thesis using False by (auto simp: abs' pg_abs_Some [OF dist])
      qed
    qed
    ultimately show ?thesis using s inv' reply sp by simp
  qed
qed

lemma image_Collect_restrict:
  "(\<And>x. Q x = P (f x)) \<Longrightarrow> f ` {x \<in> A. Q x} = {y \<in> f ` A. P y}"
  by auto

locale pg_server =
  fixes scan :: "OwnerRow list \<Rightarrow> OwnerRow list"
    and collate :: "KeyRow list \<Rightarrow> KeyRow list"
  assumes mset_scan: "mset (scan rs) = mset rs"
    and mset_collate: "mset (collate ks) = mset ks"
begin

lemma set_scan: "set (scan rs) = set rs"
  by (rule mset_eq_setD) (rule mset_scan)

lemma loadKeys_abs:
  "pg_inv db \<Longrightarrow> doc_abs (toDoc r (loadKeys collate p db)) = doc_abs (toDoc r (rows_of p db))"
  unfolding loadKeys_def by (rule doc_abs_key_rows [OF rows_of_distinct mset_collate])

lemma pg_find_correct:
  assumes "pg_inv db"
  shows "map_option doc_abs (pg_findByOwner collate p db) = pg_abs db p"
  by (simp add: pg_findByOwner_def pg_abs_def loadKeys_abs [OF assms] split: option.split)

lemma pg_findLive_correct:
  assumes inv: "pg_inv db"
  shows "doc_abs ` set (pg_findLiveByKeys scan collate dep ks now db) =
    {e \<in> holders (pg_abs db) dep (set ks). now < ad_expiresAt e}"
proof -
  have key: "has_key_in ks (ow_owner r) db \<longleftrightarrow> set (map kr_instrument_key (rows_of (ow_owner r) db)) \<inter> set ks \<noteq> {}" for r
    by (auto simp: has_key_in_def list_ex_iff)
  have "ran (pg_abs db) = (\<lambda>r. doc_abs (toDoc r (rows_of (ow_owner r) db))) ` set (owners db)"
    unfolding ran_def pg_abs_Some [OF pg_inv_dist [OF inv]] by blast
  then have "{e \<in> holders (pg_abs db) dep (set ks). now < ad_expiresAt e} =
      {e \<in> (\<lambda>r. doc_abs (toDoc r (rows_of (ow_owner r) db))) ` set (owners db).
        ad_deployment e = dep \<and> ad_keys e \<inter> set ks \<noteq> {} \<and> now < ad_expiresAt e}"
    unfolding holders_def by blast
  also have "\<dots> = (\<lambda>r. doc_abs (toDoc r (rows_of (ow_owner r) db))) ` {r \<in> set (owners db).
        ow_deployment r = dep \<and> has_key_in ks (ow_owner r) db \<and> now < ow_expires_at r}"
    by (rule image_Collect_restrict [symmetric]) (simp add: key)
  finally show ?thesis
    by (simp add: pg_findLiveByKeys_def loadKeys_abs [OF inv] image_image set_scan)
qed

lemma pg_countLive_correct:
  assumes inv: "pg_inv db"
  shows "pg_countLive dep now db = card {p. \<exists>e. pg_abs db p = Some e \<and> ad_deployment e = dep \<and> now < ad_expiresAt e}"
  using delete_owners_correct [OF inv, of "\<lambda>r. ow_deployment r = dep \<and> now < ow_expires_at r"
      "\<lambda>e. ad_deployment e = dep \<and> now < ad_expiresAt e"]
  by (simp add: delete_owners_def spec_remove_def pg_countLive_def Let_def)

lemma pg_exec_correct:
  assumes inv: "pg_inv db" and ok: "call_ok c"
  shows "pg_inv (snd (pg_exec scan collate c db)) \<and>
    reply_abs (fst (pg_exec scan collate c db)) = fst (spec_exec c (pg_abs db))
    \<and> pg_abs (snd (pg_exec scan collate c db)) = snd (spec_exec c (pg_abs db))"
proof (cases c)
  case (PC_nextFence dep)
  have "rows_of p (db\<lparr>fence_seq := n\<rparr>) = rows_of p db" for p n by (simp add: rows_of_def)
  then show ?thesis using inv PC_nextFence by (simp add: pg_inv_def pg_abs_def fun_eq_iff)
next
  case (PC_insert d)
  then show ?thesis using pg_insert_correct [OF inv, of d] ok by (simp add: split_beta del: spec_exec.simps)
next
  case (PC_deleteExpired dep ks t)
  let ?Q = "\<lambda>e. ad_deployment e = dep \<and> ad_expiresAt e \<le> t
      \<and> (case ks of None \<Rightarrow> True | Some l \<Rightarrow> ad_keys e \<inter> set l \<noteq> {})"
  let ?P = "\<lambda>r. ow_deployment r = dep \<and> ow_expires_at r \<le> t
      \<and> (case ks of None \<Rightarrow> True | Some l \<Rightarrow> has_key_in l (ow_owner r) db)"
  have e: "pg_deleteExpired dep ks t db = delete_owners ?P db"
    by (simp add: pg_deleteExpired_def split: option.split)
  have "?P r = ?Q (doc_abs (toDoc r (rows_of (ow_owner r) db)))" for r
    by (auto simp: has_key_in_def list_ex_iff split: option.split)
  from delete_owners_correct [OF inv, of ?P ?Q, OF this]
  show ?thesis by (simp add: PC_deleteExpired split_beta e)
next
  case (PC_deleteByOwnerPrefix q)
  then show ?thesis
    using delete_owners_correct [OF inv, of "\<lambda>r. starts_with q (ow_owner r)" "\<lambda>e. starts_with q (ad_owner e)"]
    by (simp add: split_beta)
next
  case (PC_deleteOwned p f)
  let ?P = "\<lambda>r. ow_owner r = p \<and> \<not> fence_mismatch f (ow_fence r)"
  have "pg_deleteOwned p f db = delete_owners ?P db" by (simp add: pg_deleteOwned_def split: option.split)
  then show ?thesis
    using delete_owners_correct [OF inv, of ?P "\<lambda>e. ad_owner e = p \<and> \<not> fence_mismatch f (ad_fence e)"]
    by (simp add: PC_deleteOwned split_beta)
next
  case (PC_renewOwned p f b g now x)
  then show ?thesis using pg_renew_correct [OF inv mset_collate, of p f b g now x]
    by (simp add: split_beta del: spec_exec.simps)
qed (use inv in \<open>simp_all add: pg_findLive_correct pg_countLive_correct pg_find_correct\<close>)

lemma pg_port: "reservation_port (pg_exec scan collate) pg_abs pg_inv call_ok"
  by unfold_locales (simp_all add: pg_exec_correct pg_exclusive)

end

sublocale pg_server \<subseteq> pg: reservation_port "pg_exec scan collate" pg_abs pg_inv call_ok
  by (rule pg_port)

context pg_server
begin

lemma pg_run_inv:
  "list_all call_ok cs \<Longrightarrow> pg_inv db \<Longrightarrow> pg_inv (fold (\<lambda>c d. snd (pg_exec scan collate c d)) cs db)"
  using pg.run_inv by (simp add: pg.run_def)

lemma pg_reply_determined:
  "list_all call_ok cs \<Longrightarrow> call_ok c \<Longrightarrow> pg_inv db \<Longrightarrow>
   reply_abs (fst (pg_exec scan collate c (fold (\<lambda>c d. snd (pg_exec scan collate c d)) cs db))) =
     fst (spec_exec c (fold (\<lambda>c m. snd (spec_exec c m)) cs (pg_abs db)))"
  using pg.reply_determined by (simp add: pg.run_def)

end

text \<open>A server that scans its heap in physical order and sorts text by byte value.\<close>

interpretation c_collation: pg_server "\<lambda>rs. rs" "sort_key kr_instrument_key"
  by (rule pg_server.intro) (rule refl, rule mset_sort)

lemma pg_inv_new: "pg_inv (new_pg_db t)" "pg_abs (new_pg_db t) = Map.empty"
  by (simp_all add: pg_inv_def new_pg_db_def pg_abs_def fun_eq_iff)

section \<open>Properties\<close>


text \<open>C27. No contract is reserved twice.  After any calls the PostgreSQL port never holds two
  reservations of one deployment that share an instrument key.\<close>

theorem no_contract_held_twice:
  assumes "pg_server scan collate" and "list_all call_ok cs"
    and "db = fold (\<lambda>c d. snd (pg_exec scan collate c d)) cs (new_pg_db t)"
    and "pg_findByOwner collate p db = Some d" and "pg_findByOwner collate q db = Some e"
    and "p \<noteq> q" and "dd_deployment d = dd_deployment e"
  shows "set (dd_keys d) \<inter> set (dd_keys e) = {}"
proof -
  have inv: "pg_inv db" unfolding assms(3) by (rule pg_server.pg_run_inv [OF assms(1,2) pg_inv_new(1)])
  note find = pg_server.pg_find_correct [OF assms(1) inv, symmetric]
  have "pg_abs db p = Some (doc_abs d)" "pg_abs db q = Some (doc_abs e)"
    using assms(4,5) by (simp_all add: find)
  then show ?thesis using pg_exclusive [OF inv] assms(6,7) unfolding exclusive_def by fastforce
qed

definition sample_doc :: "string \<Rightarrow> string list \<Rightarrow> int \<Rightarrow> DurableReservationDoc" where
  "sample_doc p ks x =
     \<lparr>dd_owner = p, dd_deployment = ''prod'', dd_broker = ''dhan'', dd_generation = 1, dd_mode = ''live'',
      dd_keys = ks, dd_sides = map (\<lambda>k. (k, ''BUY'')) ks, dd_fence = 1, dd_instance = ''i'',
      dd_createdAt = 0, dd_expiresAt = x, dd_renewedAt = 0\<rparr>"

lemma sample_doc_ok:
  "call_ok (PC_insert (sample_doc ''A'' [''DHAN:1'', ''DHAN:2''] 100))"
  "call_ok (PC_insert (sample_doc ''B'' [''DHAN:2'', ''DHAN:3''] 100))"
  "call_ok (PC_insert (sample_doc ''B'' [''DHAN:3''] 100))"
  by (simp_all add: doc_ok_def sample_doc_def keyBroker_def normaliseBroker_known)


theorem no_contract_held_twice_witness:
  "set (dd_keys (sample_doc ''A'' [''DHAN:1'', ''DHAN:2''] 100)) \<inter> set (dd_keys (sample_doc ''B'' [''DHAN:3''] 100)) = {}"
proof (rule no_contract_held_twice [OF c_collation.pg_server_axioms _ refl, where t = 0 and p = "''A''" and q = "''B''"
        and cs = "[PC_insert (sample_doc ''A'' [''DHAN:1'', ''DHAN:2''] 100), PC_insert (sample_doc ''B'' [''DHAN:3''] 100)]"])
  let ?run = "fold (\<lambda>c d. snd (pg_exec (\<lambda>rs. rs) (sort_key kr_instrument_key) c d))
    [PC_insert (sample_doc ''A'' [''DHAN:1'', ''DHAN:2''] 100), PC_insert (sample_doc ''B'' [''DHAN:3''] 100)] (new_pg_db 0)"
  show "pg_findByOwner (sort_key kr_instrument_key) ''A'' ?run = Some (sample_doc ''A'' [''DHAN:1'', ''DHAN:2''] 100)"
    by code_simp
  show "pg_findByOwner (sort_key kr_instrument_key) ''B'' ?run = Some (sample_doc ''B'' [''DHAN:3''] 100)"
    by code_simp
qed (simp_all add: sample_doc_ok del: call_ok.simps, simp_all add: sample_doc_def)

end
