(* ===== verification/Durable_Reservations.thy ===== *)
theory Durable_Reservations
  imports Pg_Reservations
begin

text \<open>
  The durable tier, \<^verbatim>\<open>src/box/reservations/durable.ts\<close>.

  An asynchronous method is a program of type \<open>prog\<close>: the code between two awaits is one \<open>Local\<close> step on
  the state of the process (\<open>worker\<close>), with the values it reads from outside (local clock, readiness
  of the port, active context) as \<open>inputs\<close>; an awaited port method is a \<open>Call\<close>, which may also reject,
  before or after it took effect; joining a promise in flight is an \<open>Await\<close>; the background clock
  refresh is a \<open>Spawn\<close>.  A system runs any number of programs in any number of processes against one
  database, one step at a time, in any order.

  The texts of refusals leave out the values the source interpolates.  Error texts pass through the source's scrubbing function, here the parameter \<open>cf_scrub\<close>.  The
  latency samples and the log lines are left out.
\<close>

section \<open>Programs\<close>

record HeldLease =
  hl_keys :: "string list"
  hl_expiresAt :: int
  hl_fence :: nat

record worker =
  clockOffsetMs :: int
  clockSyncedAt :: int
  clockSyncInFlight :: bool
  clockOutcome :: "string option"
  lastReadyAttempt :: int
  readyInFlight :: bool
  initialised :: bool
  held :: "(string \<times> HeldLease) list"
  spareFences :: "nat list"
  dw_acquireAttempts :: nat
  dw_acquireSuccess :: nat
  dw_conflicts :: nat
  dw_errors :: nat
  dw_renewSuccess :: nat
  dw_renewFailure :: nat
  dw_ownershipLost :: nat
  dw_expiredObserved :: nat
  lastError :: "string option"

record inputs =
  in_now :: int
  in_portReady :: bool
  in_context :: ReservationContext

datatype result =
    R_acquire ReservationOutcome
  | R_renew RenewOutcome
  | R_verify OwnershipVerdict
  | R_count nat
  | R_number "nat option"
  | R_string "string option"
  | R_none

datatype prog =
    Ret result
  | Call port_call "port_reply \<Rightarrow> prog"
  | Ensure "string option \<Rightarrow> prog"
  | Local "inputs \<Rightarrow> worker \<Rightarrow> worker \<times> prog"
  | Await "worker \<Rightarrow> bool" prog
  | Spawn prog prog

record config =
  cf_name :: string
  cf_durable :: bool
  cf_skewGraceMs :: int
  cf_clockSyncIntervalMs :: int
  cf_clockSyncMaxStaleMs :: int
  cf_readyRetryMs :: int
  cf_ownerPrefix :: string
  cf_scrub :: "string \<Rightarrow> string"

definition orDefault :: "int option \<Rightarrow> int \<Rightarrow> int" where
  "orDefault v d = (case v of None \<Rightarrow> d | Some x \<Rightarrow> x)"

definition new_config ::
    "string \<Rightarrow> bool \<Rightarrow> int option \<Rightarrow> int option \<Rightarrow> int option \<Rightarrow> int option \<Rightarrow> string \<Rightarrow> (string \<Rightarrow> string) \<Rightarrow> config" where
  "new_config name crossProcess grace interval stale retry prefix scrub =
     (let iv = max 1000 (orDefault interval 15000) in
      \<lparr>cf_name = name, cf_durable = crossProcess, cf_skewGraceMs = max 0 (orDefault grace 250),
       cf_clockSyncIntervalMs = iv, cf_clockSyncMaxStaleMs = max iv (orDefault stale 150000),
       cf_readyRetryMs = max 100 (orDefault retry 1000), cf_ownerPrefix = prefix, cf_scrub = scrub\<rparr>)"

definition new_worker :: worker where
  "new_worker =
     \<lparr>clockOffsetMs = 0, clockSyncedAt = 0, clockSyncInFlight = False, clockOutcome = None, lastReadyAttempt = 0,
      readyInFlight = False, initialised = False, held = [], spareFences = [], dw_acquireAttempts = 0,
      dw_acquireSuccess = 0, dw_conflicts = 0, dw_errors = 0, dw_renewSuccess = 0, dw_renewFailure = 0,
      dw_ownershipLost = 0, dw_expiredObserved = 0, lastError = None\<rparr>"

definition dw_ready :: "inputs \<Rightarrow> worker \<Rightarrow> bool" where
  "dw_ready i w = (in_portReady i \<and> initialised w)"

definition note_error :: "config \<Rightarrow> string \<Rightarrow> worker \<Rightarrow> worker" where
  "note_error cfg m w = w\<lparr>dw_errors := dw_errors w + 1, lastError := Some (cf_scrub cfg m)\<rparr>"

section \<open>Clock and lifecycle\<close>

definition toAuthority :: "worker \<Rightarrow> int \<Rightarrow> int" where
  "toAuthority w t = t + clockOffsetMs w"

definition toLocal :: "worker \<Rightarrow> int \<Rightarrow> int" where
  "toLocal w t = t - clockOffsetMs w"

definition js_round :: "rat \<Rightarrow> int" where
  "js_round x = \<lfloor>x + 1 / 2\<rfloor>"

definition clock_offset :: "int \<Rightarrow> int \<Rightarrow> int \<Rightarrow> int" where
  "clock_offset before after serverMs =
     js_round (of_int serverMs - (of_int before + of_int (after - before) / 2))"

definition clock_failed :: "(string option \<Rightarrow> prog) \<Rightarrow> string \<Rightarrow> prog" where
  "clock_failed k m = Local (\<lambda>i w. (w\<lparr>clockSyncInFlight := False, clockOutcome := Some m\<rparr>, k (Some m)))"

definition syncClock :: "(string option \<Rightarrow> prog) \<Rightarrow> prog" where
  "syncClock k = Local (\<lambda>i w.
     if clockSyncInFlight w
     then (w, Await (\<lambda>w. \<not> clockSyncInFlight w) (Local (\<lambda>i w. (w, k (clockOutcome w)))))
     else (w\<lparr>clockSyncInFlight := True\<rparr>,
       Call PC_serverTimeMs (\<lambda>r.
         case r of
           PR_time serverMs \<Rightarrow>
             Local (\<lambda>j w. (w\<lparr>clockOffsetMs := clock_offset (in_now i) (in_now j) serverMs,
                             clockSyncedAt := in_now j, clockSyncInFlight := False, clockOutcome := None\<rparr>, k None))
         | PR_fail m \<Rightarrow> clock_failed k m
         | _ \<Rightarrow> clock_failed k [])))"

definition background_sync :: "config \<Rightarrow> prog" where
  "background_sync cfg =
     syncClock (\<lambda>failure. case failure of
         None \<Rightarrow> Ret R_none
       | Some m \<Rightarrow> Local (\<lambda>i w. (note_error cfg m w, Ret R_none)))"

definition refreshClockIfNeeded :: "config \<Rightarrow> (string option \<Rightarrow> prog) \<Rightarrow> prog" where
  "refreshClockIfNeeded cfg k = Local (\<lambda>i w.
     let age = in_now i - clockSyncedAt w in
     if age < cf_clockSyncIntervalMs cfg then (w, k None)
     else if cf_clockSyncMaxStaleMs cfg \<le> age then (w, syncClock k)
     else (w, Spawn (background_sync cfg) (k None)))"

definition initialise_failed :: "(string option \<Rightarrow> prog) \<Rightarrow> string \<Rightarrow> prog" where
  "initialise_failed k m = Local (\<lambda>i w. (w\<lparr>readyInFlight := False\<rparr>, k (Some m)))"

definition initialise :: "config \<Rightarrow> (string option \<Rightarrow> prog) \<Rightarrow> prog" where
  "initialise cfg k = Local (\<lambda>i w. (w\<lparr>lastReadyAttempt := in_now i, readyInFlight := True\<rparr>,
     Ensure (\<lambda>failure. case failure of
         Some m \<Rightarrow> initialise_failed k m
       | None \<Rightarrow> syncClock (\<lambda>failure. case failure of
             Some m \<Rightarrow> initialise_failed k m
           | None \<Rightarrow> Local (\<lambda>i w. (w\<lparr>initialised := True, lastError := None, readyInFlight := False\<rparr>, k None))))))"

definition ensureUsable :: "config \<Rightarrow> (bool \<Rightarrow> prog) \<Rightarrow> prog" where
  "ensureUsable cfg k = Local (\<lambda>i w.
     if dw_ready i w then (w, k True)
     else if readyInFlight w
       then (w, Await (\<lambda>w. \<not> readyInFlight w) (Local (\<lambda>i w. (w, k (dw_ready i w)))))
     else if in_now i - lastReadyAttempt w < cf_readyRetryMs cfg then (w, k False)
     else (w, initialise cfg (\<lambda>failure. Local (\<lambda>i w.
            (case failure of None \<Rightarrow> w | Some m \<Rightarrow> note_error cfg m w, k (dw_ready i w))))))"

definition not_ready_detail :: "config \<Rightarrow> worker \<Rightarrow> string" where
  "not_ready_detail cfg w =
     (case lastError w of Some m \<Rightarrow> m | None \<Rightarrow> cf_name cfg @ '' reservation authority is not ready'')"

definition context_of :: "ReservationContext option \<Rightarrow> inputs \<Rightarrow> ReservationContext" where
  "context_of c i = (case c of Some x \<Rightarrow> x | None \<Rightarrow> in_context i)"

text \<open>An awaited port method inside a try block: \<open>h\<close> is the catch.\<close>

definition port :: "port_call \<Rightarrow> (string \<Rightarrow> prog) \<Rightarrow> (port_reply \<Rightarrow> prog) \<Rightarrow> prog" where
  "port c h k = Call c (\<lambda>r. case r of PR_fail m \<Rightarrow> h m | _ \<Rightarrow> k r)"

section \<open>Acquire\<close>

definition MAX_SPARE_FENCES :: nat where "MAX_SPARE_FENCES = 8"

text \<open>The pool is a stack: \<^verbatim>\<open>push\<close> and \<^verbatim>\<open>pop\<close> work at its head.\<close>

definition recycleFence :: "nat \<Rightarrow> worker \<Rightarrow> worker" where
  "recycleFence f w =
     (if MAX_SPARE_FENCES \<le> length (spareFences w) then w else w\<lparr>spareFences := f # spareFences w\<rparr>)"

fun conflict_scan ::
    "string \<Rightarrow> string list \<Rightarrow> string set \<Rightarrow> (DurableReservationDoc \<times> string) list \<Rightarrow> ReservationConflictDetail list" where
  "conflict_scan tier wanted seen [] = []"
| "conflict_scan tier wanted seen ((d, k) # rest) =
     (if k \<notin> set wanted \<or> k \<in> seen then conflict_scan tier wanted seen rest
      else \<lparr>cd_key = k, cd_heldBy = dd_owner d,
            cd_heldSide = (case map_of (dd_sides d) k of None \<Rightarrow> None | Some s \<Rightarrow> if s = [] then None else Some s),
            cd_tier = tier\<rparr> # conflict_scan tier wanted (insert k seen) rest)"

definition describeConflicts :: "config \<Rightarrow> string list \<Rightarrow> DurableReservationDoc list \<Rightarrow> ReservationConflictDetail list" where
  "describeConflicts cfg keys lv =
     conflict_scan (cf_name cfg) keys {} (concat (map (\<lambda>d. map (\<lambda>k. (d, k)) (dd_keys d)) lv))"

definition acquire_failed :: "config \<Rightarrow> string \<Rightarrow> prog" where
  "acquire_failed cfg m = Local (\<lambda>i w.
     (note_error cfg m w, Ret (R_acquire (Unavailable (cf_name cfg) (cf_scrub cfg m)))))"

definition acquire_doc ::
    "config \<Rightarrow> AcquireArgs \<Rightarrow> ReservationContext \<Rightarrow> int \<Rightarrow> nat \<Rightarrow> DurableReservationDoc" where
  "acquire_doc cfg a ctx authNow fence =
     (let keys = dedupeKeys (aq_keys a) in
      \<lparr>dd_owner = aq_owner a, dd_deployment = ctx_deployment ctx, dd_broker = ctx_broker ctx,
       dd_generation = ctx_generation ctx, dd_mode = ctx_mode ctx, dd_keys = keys,
       dd_sides = map (\<lambda>k. (k, case side_of a k of None \<Rightarrow> [] | Some s \<Rightarrow> s)) keys,
       dd_fence = fence, dd_instance = cf_ownerPrefix cfg, dd_createdAt = authNow,
       dd_expiresAt = authNow + normaliseTtl (aq_ttlMs a), dd_renewedAt = authNow\<rparr>)"

definition grant :: "AcquireArgs \<Rightarrow> string list \<Rightarrow> int \<Rightarrow> nat \<Rightarrow> prog" where
  "grant a keys authExpiresAt fence = Local (\<lambda>i w.
     let localExpiresAt = toLocal w authExpiresAt in
     (w\<lparr>held := AList.update (aq_owner a) \<lparr>hl_keys = keys, hl_expiresAt = localExpiresAt, hl_fence = fence\<rparr> (held w),
        dw_acquireSuccess := dw_acquireSuccess w + 1\<rparr>,
      Ret (R_acquire (Granted \<lparr>lease_owner = aq_owner a, lease_keys = keys, lease_expiresAt = localExpiresAt,
             lease_fence = fence, lease_durability = durable_lease\<rparr>))))"

text \<open>The end of \<^verbatim>\<open>tryAcquireAll\<close> when the insert failed: name the holders; a live document of our own, and
  only of our own, is the success it really was.\<close>

definition refused_by :: "config \<Rightarrow> AcquireArgs \<Rightarrow> nat \<Rightarrow> DurableReservationDoc list \<Rightarrow> prog" where
  "refused_by cfg a fence lv =
     (case find (\<lambda>d. dd_owner d = aq_owner a) lv of
        Some mine \<Rightarrow>
          if list_all (\<lambda>d. dd_owner d = aq_owner a) lv
          then grant a (dd_keys mine) (dd_expiresAt mine) (dd_fence mine)
          else Local (\<lambda>i w. (recycleFence fence (w\<lparr>dw_conflicts := dw_conflicts w + 1\<rparr>),
                 Ret (R_acquire (Conflict (describeConflicts cfg (dedupeKeys (aq_keys a)) lv)))))
      | None \<Rightarrow> Local (\<lambda>i w. (recycleFence fence (w\<lparr>dw_conflicts := dw_conflicts w + 1\<rparr>),
                 Ret (R_acquire (Conflict (describeConflicts cfg (dedupeKeys (aq_keys a)) lv))))))"

definition acquire_finish ::
    "config \<Rightarrow> AcquireArgs \<Rightarrow> DurableReservationDoc \<Rightarrow> port_reply \<Rightarrow> prog" where
  "acquire_finish cfg a d r =
     (if r = PR_insert inserted then grant a (dd_keys d) (dd_expiresAt d) (dd_fence d)
      else port (PC_findLiveByKeys (dd_deployment d) (dd_keys d) (dd_createdAt d)) (acquire_failed cfg)
             (\<lambda>r. case r of PR_docs lv \<Rightarrow> refused_by cfg a (dd_fence d) lv | _ \<Rightarrow> acquire_failed cfg []))"

definition acquire_reclaim ::
    "config \<Rightarrow> AcquireArgs \<Rightarrow> DurableReservationDoc \<Rightarrow> port_reply \<Rightarrow> prog" where
  "acquire_reclaim cfg a d r =
     (if r = PR_insert key_conflict
      then port (PC_deleteExpired (dd_deployment d) (Some (dd_keys d)) (dd_createdAt d - cf_skewGraceMs cfg))
             (acquire_failed cfg)
             (\<lambda>n. case n of
                PR_count reclaimed \<Rightarrow>
                  if 0 < reclaimed
                  then Local (\<lambda>i w. (w\<lparr>dw_expiredObserved := dw_expiredObserved w + reclaimed\<rparr>,
                         port (PC_insert d) (acquire_failed cfg) (acquire_finish cfg a d)))
                  else acquire_finish cfg a d r
              | _ \<Rightarrow> acquire_failed cfg [])
      else acquire_finish cfg a d r)"

definition acquire_insert :: "config \<Rightarrow> AcquireArgs \<Rightarrow> DurableReservationDoc \<Rightarrow> prog" where
  "acquire_insert cfg a d =
     port (PC_insert d) (acquire_failed cfg)
       (\<lambda>r. if r = PR_insert owner_exists
            then port (PC_deleteOwned (aq_owner a) None) (acquire_failed cfg)
                   (\<lambda>_. port (PC_insert d) (acquire_failed cfg) (acquire_reclaim cfg a d))
            else acquire_reclaim cfg a d r)"

definition acquire_with :: "config \<Rightarrow> AcquireArgs \<Rightarrow> ReservationContext \<Rightarrow> prog" where
  "acquire_with cfg a ctx =
     refreshClockIfNeeded cfg (\<lambda>failure. case failure of
         Some m \<Rightarrow> acquire_failed cfg m
       | None \<Rightarrow> Local (\<lambda>i w.
           let authNow = toAuthority w (aq_now a) in
           case spareFences w of
             f # fs \<Rightarrow> (w\<lparr>spareFences := fs\<rparr>, acquire_insert cfg a (acquire_doc cfg a ctx authNow f))
           | [] \<Rightarrow> (w, port (PC_nextFence (ctx_deployment ctx)) (acquire_failed cfg)
                      (\<lambda>r. case r of
                         PR_fence f \<Rightarrow> acquire_insert cfg a (acquire_doc cfg a ctx authNow f)
                       | _ \<Rightarrow> acquire_failed cfg []))))"

definition tryAcquireAll :: "config \<Rightarrow> AcquireArgs \<Rightarrow> prog" where
  "tryAcquireAll cfg a = Local (\<lambda>i w.
     (w\<lparr>dw_acquireAttempts := dw_acquireAttempts w + 1\<rparr>,
      if dedupeKeys (aq_keys a) = []
      then Ret (R_acquire (Unavailable (cf_name cfg) ''refusing to reserve an empty instrument set''))
      else ensureUsable cfg (\<lambda>usable. Local (\<lambda>i w.
        if \<not> usable then (w, Ret (R_acquire (Unavailable (cf_name cfg) (not_ready_detail cfg w))))
        else (w, acquire_with cfg a (context_of (aq_context a) i))))))"

section \<open>Release, renew, verify\<close>

definition release_failed :: "config \<Rightarrow> string \<Rightarrow> prog" where
  "release_failed cfg m = Local (\<lambda>i w. (note_error cfg m w, Ret (R_count 0)))"

definition release :: "config \<Rightarrow> ReleaseArgs \<Rightarrow> prog" where
  "release cfg a = Local (\<lambda>i w.
     let w1 = w\<lparr>held := AList.delete (rl_owner a) (held w)\<rparr> in
     if \<not> dw_ready i w1
     then (w1\<lparr>dw_errors := dw_errors w1 + 1,
              lastError := Some (cf_name cfg @ '': release skipped while the authority was unavailable; the lease will expire by TTL'')\<rparr>,
           Ret (R_count 0))
     else (w1, port (PC_deleteOwned (rl_owner a) (rl_fence a)) (release_failed cfg)
                 (\<lambda>r. case r of PR_count n \<Rightarrow> Ret (R_count n) | _ \<Rightarrow> release_failed cfg [])))"

definition renew_unreachable :: "config \<Rightarrow> string \<Rightarrow> prog" where
  "renew_unreachable cfg m = Local (\<lambda>i w.
     ((note_error cfg m w)\<lparr>dw_renewFailure := dw_renewFailure w + 1\<rparr>,
      Ret (R_renew (NotRenewed renew_unavailable (cf_scrub cfg m)))))"

text \<open>\<^verbatim>\<open>findByOwner(...).catch(() => null)\<close> after a renewal that matched nothing.\<close>

definition renew_classify :: "config \<Rightarrow> ReservationContext \<Rightarrow> DurableReservationDoc option \<Rightarrow> prog" where
  "renew_classify cfg ctx existing =
     (case existing of
        Some d \<Rightarrow>
          if dd_broker d \<noteq> ctx_broker ctx \<or> dd_generation d \<noteq> ctx_generation ctx
          then Ret (R_renew (NotRenewed renew_lost (cf_name cfg @ '': reservation belongs to another broker generation'')))
          else Ret (R_renew (NotRenewed renew_expired (cf_name cfg @ '': renewal matched no live reservation for this owner and fence'')))
      | None \<Rightarrow> Ret (R_renew (NotRenewed renew_lost (cf_name cfg @ '': renewal matched no live reservation for this owner and fence''))))"

definition renew :: "config \<Rightarrow> RenewArgs \<Rightarrow> prog" where
  "renew cfg a =
     ensureUsable cfg (\<lambda>usable. Local (\<lambda>i w.
       if \<not> usable
       then (w\<lparr>dw_renewFailure := dw_renewFailure w + 1\<rparr>,
             Ret (R_renew (NotRenewed renew_unavailable (not_ready_detail cfg w))))
       else (w, let ctx = context_of (rn_context a) i in
         refreshClockIfNeeded cfg (\<lambda>failure. case failure of
             Some m \<Rightarrow> renew_unreachable cfg m
           | None \<Rightarrow> Local (\<lambda>i w.
               let authNow = toAuthority w (rn_now a) in
               (w, port (PC_renewOwned (rn_owner a) (rn_fence a) (Some (ctx_broker ctx)) (Some (ctx_generation ctx))
                          authNow (authNow + normaliseTtl (rn_ttlMs a)))
                     (renew_unreachable cfg)
                     (\<lambda>r. case r of
                        PR_doc (Some u) \<Rightarrow> Local (\<lambda>i w.
                          (w\<lparr>held := AList.update (rn_owner a) \<lparr>hl_keys = dd_keys u,
                                        hl_expiresAt = toLocal w (dd_expiresAt u), hl_fence = dd_fence u\<rparr> (held w),
                             dw_renewSuccess := dw_renewSuccess w + 1\<rparr>,
                           Ret (R_renew (Renewed (toLocal w (dd_expiresAt u)) (dd_fence u)))))
                      | PR_doc None \<Rightarrow> Local (\<lambda>i w.
                          (w\<lparr>dw_renewFailure := dw_renewFailure w + 1, dw_ownershipLost := dw_ownershipLost w + 1,
                             held := AList.delete (rn_owner a) (held w)\<rparr>,
                           Call (PC_findByOwner (rn_owner a))
                             (\<lambda>r. renew_classify cfg ctx (case r of PR_doc e \<Rightarrow> e | _ \<Rightarrow> None))))
                      | _ \<Rightarrow> renew_unreachable cfg []))))))) "

definition verify_failed :: "config \<Rightarrow> string \<Rightarrow> prog" where
  "verify_failed cfg m = Local (\<lambda>i w.
     (note_error cfg m w, Ret (R_verify (NotOwned own_unavailable (cf_scrub cfg m)))))"

text \<open>The verdict on the document found: fence, pessimistic expiry, deployment, broker generation,
  coverage, in this order.\<close>

definition verify_doc ::
    "config \<Rightarrow> VerifyArgs \<Rightarrow> ReservationContext \<Rightarrow> worker \<Rightarrow> DurableReservationDoc option \<Rightarrow> OwnershipVerdict" where
  "verify_doc cfg a ctx w found =
     (case found of
        None \<Rightarrow> NotOwned own_lost (cf_name cfg @ '': no reservation for this owner'')
      | Some d \<Rightarrow>
          if fence_mismatch (vf_fence a) (dd_fence d)
            then NotOwned own_lost (cf_name cfg @ '': reservation fence supersedes the one quoted'')
          else if dd_expiresAt d - cf_skewGraceMs cfg \<le> toAuthority w (vf_now a)
            then NotOwned own_expired (cf_name cfg @ '': reservation has expired or is within its skew grace'')
          else if dd_deployment d \<noteq> ctx_deployment ctx
            then NotOwned own_superseded (cf_name cfg @ '': reservation belongs to another deployment'')
          else if dd_broker d \<noteq> ctx_broker ctx \<or> dd_generation d \<noteq> ctx_generation ctx
            then NotOwned own_superseded (cf_name cfg @ '': reservation belongs to another broker generation'')
          else (case find (\<lambda>k. k \<notin> set (dd_keys d)) (dedupeKeys (vf_keys a)) of
                  Some k \<Rightarrow> NotOwned own_lost (cf_name cfg @ '': reservation does not cover '' @ k)
                | None \<Rightarrow> Owned (toLocal w (dd_expiresAt d)) (dd_fence d)))"

definition verify :: "config \<Rightarrow> VerifyArgs \<Rightarrow> prog" where
  "verify cfg a =
     ensureUsable cfg (\<lambda>usable. Local (\<lambda>i w.
       if \<not> usable then (w, Ret (R_verify (NotOwned own_unavailable (not_ready_detail cfg w))))
       else (w, let ctx = context_of (vf_context a) i in
         refreshClockIfNeeded cfg (\<lambda>failure. case failure of
             Some m \<Rightarrow> verify_failed cfg m
           | None \<Rightarrow> port (PC_findByOwner (vf_owner a)) (verify_failed cfg)
               (\<lambda>r. case r of
                  PR_doc found \<Rightarrow> Local (\<lambda>i w. (w, Ret (R_verify (verify_doc cfg a ctx w found))))
                | _ \<Rightarrow> verify_failed cfg [])))))"

section \<open>Reads and housekeeping\<close>

definition string_failed :: "config \<Rightarrow> string \<Rightarrow> prog" where
  "string_failed cfg m = Local (\<lambda>i w. (note_error cfg m w, Ret (R_string None)))"

definition find_key :: "config \<Rightarrow> string \<Rightarrow> int \<Rightarrow> (DurableReservationDoc list \<Rightarrow> string option) \<Rightarrow> prog" where
  "find_key cfg key now pick = Local (\<lambda>i w.
     if \<not> dw_ready i w then (w, Ret (R_string None))
     else (w, port (PC_findLiveByKeys (ctx_deployment (in_context i)) [key] (toAuthority w now)) (string_failed cfg)
                (\<lambda>r. case r of PR_docs lv \<Rightarrow> Ret (R_string (pick lv)) | _ \<Rightarrow> string_failed cfg [])))"

definition ownerOf :: "config \<Rightarrow> string \<Rightarrow> int \<Rightarrow> prog" where
  "ownerOf cfg key now = find_key cfg key now (\<lambda>lv. case lv of [] \<Rightarrow> None | d # _ \<Rightarrow> Some (dd_owner d))"

definition sideOf :: "config \<Rightarrow> string \<Rightarrow> int \<Rightarrow> prog" where
  "sideOf cfg key now = find_key cfg key now
     (\<lambda>lv. case lv of [] \<Rightarrow> None
       | d # _ \<Rightarrow> (case map_of (dd_sides d) key of None \<Rightarrow> None | Some s \<Rightarrow> if s = [] then None else Some s))"

definition pruneHeld :: "int \<Rightarrow> worker \<Rightarrow> worker" where
  "pruneHeld now w = w\<lparr>held := filter (\<lambda>(p, l). \<not> hl_expiresAt l \<le> now) (held w)\<rparr>"

definition activeCount :: "int \<Rightarrow> worker \<Rightarrow> nat \<times> worker" where
  "activeCount now w = (let w' = pruneHeld now w in (length (held w'), w'))"

definition activeKeys :: "int \<Rightarrow> worker \<Rightarrow> string list \<times> worker" where
  "activeKeys now w =
     (let w' = pruneHeld now w in (dedupeKeys (concat (map (\<lambda>(p, l). hl_keys l) (held w'))), w'))"

definition none_failed :: "config \<Rightarrow> string \<Rightarrow> prog" where
  "none_failed cfg m = Local (\<lambda>i w. (note_error cfg m w, Ret R_none))"

definition clear :: "config \<Rightarrow> prog" where
  "clear cfg = Local (\<lambda>i w.
     let w1 = w\<lparr>held := []\<rparr> in
     if \<not> dw_ready i w1 then (w1, Ret R_none)
     else (w1, port (PC_deleteByOwnerPrefix (cf_ownerPrefix cfg)) (none_failed cfg) (\<lambda>_. Ret R_none)))"

definition reap_failed :: "config \<Rightarrow> string \<Rightarrow> prog" where
  "reap_failed cfg m = Local (\<lambda>i w. (note_error cfg m w, Ret (R_count 0)))"

definition reapExpired :: "config \<Rightarrow> prog" where
  "reapExpired cfg =
     ensureUsable cfg (\<lambda>usable. Local (\<lambda>i w.
       if \<not> usable then (w, Ret (R_count 0))
       else (w, let ctx = in_context i in
         refreshClockIfNeeded cfg (\<lambda>failure. case failure of
             Some m \<Rightarrow> reap_failed cfg m
           | None \<Rightarrow> Local (\<lambda>i w.
               (w, port (PC_deleteExpired (ctx_deployment ctx) None (toAuthority w (in_now i) - cf_skewGraceMs cfg))
                     (reap_failed cfg)
                     (\<lambda>r. case r of
                        PR_count n \<Rightarrow> Local (\<lambda>i w.
                          (if 0 < n then w\<lparr>dw_expiredObserved := dw_expiredObserved w + n\<rparr> else w, Ret (R_count n)))
                      | _ \<Rightarrow> reap_failed cfg [])))))))"

definition countLive :: "config \<Rightarrow> int \<Rightarrow> prog" where
  "countLive cfg now = Local (\<lambda>i w.
     if \<not> dw_ready i w then (w, Ret (R_number None))
     else (w, port (PC_countLive (ctx_deployment (in_context i)) (toAuthority w now))
                (\<lambda>m. Local (\<lambda>i w. (note_error cfg m w, Ret (R_number None))))
                (\<lambda>r. case r of PR_count n \<Rightarrow> Ret (R_number (Some n)) | _ \<Rightarrow> Ret (R_number None))))"

text \<open>The methods an execution calls.\<close>

datatype durable_call =
    D_acquire AcquireArgs | D_release ReleaseArgs | D_renew RenewArgs | D_verify VerifyArgs
  | D_ownerOf string int | D_sideOf string int | D_clear | D_reap | D_count int | D_initialise

fun run_method :: "config \<Rightarrow> durable_call \<Rightarrow> prog" where
  "run_method cfg (D_acquire a) = tryAcquireAll cfg a"
| "run_method cfg (D_release a) = release cfg a"
| "run_method cfg (D_renew a) = renew cfg a"
| "run_method cfg (D_verify a) = verify cfg a"
| "run_method cfg (D_ownerOf k t) = ownerOf cfg k t"
| "run_method cfg (D_sideOf k t) = sideOf cfg k t"
| "run_method cfg D_clear = clear cfg"
| "run_method cfg D_reap = reapExpired cfg"
| "run_method cfg (D_count t) = countLive cfg t"
| "run_method cfg D_initialise = initialise cfg (\<lambda>_. Ret R_none)"

end
