(* ===== verification/Lease_Safety.thy ===== *)
theory Lease_Safety
  imports Durable_Reservations
begin

text \<open>
  The system of processes that run the durable tier against one database, and the argument that a
  verified lease excludes every other execution.

  Time enters by an assumption on the readings, not on the scheduler: \<open>lim_local n\<close> bounds the local
  instants process \<open>n\<close> uses, \<open>lim_auth n\<close> the authority time it derives from them with its measured
  offset.  A verified lease is safe as long as no process's estimate runs ahead of the verifier's by
  more than both grace bands.
\<close>

section \<open>The system\<close>

record 'db system =
  tasks :: "(nat \<times> prog) list"
  procs :: "nat \<Rightarrow> worker"
  store :: 'db

datatype event =
    E_start nat durable_call
  | E_step nat inputs
  | E_reject nat bool string
  | E_time nat int
  | E_ensure nat "string option"

text \<open>One step: a new method call, the next segment of task \<open>j\<close>, a rejected port call (which had
  landed or not), a reading of the authority's clock, the outcome of \<^verbatim>\<open>ensureReady\<close>.  An event that
  does not apply changes nothing.\<close>

definition set_task :: "nat \<Rightarrow> nat \<Rightarrow> prog \<Rightarrow> 'db system \<Rightarrow> 'db system" where
  "set_task j n p s = s\<lparr>tasks := (tasks s)[j := (n, p)]\<rparr>"

fun task_step ::
    "(port_call \<Rightarrow> 'db \<Rightarrow> port_reply \<times> 'db) \<Rightarrow> nat \<Rightarrow> inputs \<Rightarrow> nat \<times> prog \<Rightarrow> 'db system \<Rightarrow> 'db system" where
  "task_step exec j i (n, Local f) s =
     (let (w, p) = f i (procs s n) in set_task j n p (s\<lparr>procs := (procs s)(n := w)\<rparr>))"
| "task_step exec j i (n, Call c k) s =
     (let (r, db) = exec c (store s) in set_task j n (k r) (s\<lparr>store := db\<rparr>))"
| "task_step exec j i (n, Await P p) s = (if P (procs s n) then set_task j n p s else s)"
| "task_step exec j i (n, Spawn q p) s = (let s' = set_task j n p s in s'\<lparr>tasks := tasks s' @ [(n, q)]\<rparr>)"
| "task_step exec j i (n, Ensure k) s = s"
| "task_step exec j i (n, Ret x) s = s"

definition sys_step ::
    "(port_call \<Rightarrow> 'db \<Rightarrow> port_reply \<times> 'db) \<Rightarrow> (nat \<Rightarrow> config) \<Rightarrow> event \<Rightarrow> 'db system \<Rightarrow> 'db system" where
  "sys_step exec cfg ev s =
     (case ev of
        E_start n d \<Rightarrow> s\<lparr>tasks := tasks s @ [(n, run_method (cfg n) d)]\<rparr>
      | E_step j i \<Rightarrow> if j < length (tasks s) then task_step exec j i (tasks s ! j) s else s
      | E_reject j landed m \<Rightarrow>
          if j < length (tasks s)
          then (case tasks s ! j of
                  (n, Call c k) \<Rightarrow>
                    set_task j n (k (PR_fail m)) (if landed then s\<lparr>store := snd (exec c (store s))\<rparr> else s)
                | _ \<Rightarrow> s)
          else s
      | E_time j t \<Rightarrow>
          if j < length (tasks s)
          then (case tasks s ! j of (n, Call PC_serverTimeMs k) \<Rightarrow> set_task j n (k (PR_time t)) s | _ \<Rightarrow> s)
          else s
      | E_ensure j failure \<Rightarrow>
          if j < length (tasks s)
          then (case tasks s ! j of (n, Ensure k) \<Rightarrow> set_task j n (k failure) s | _ \<Rightarrow> s)
          else s)"

section \<open>What the others do\<close>

text \<open>The calls other executions make: on behalf of their own owners, in a context whose keys carry the
  broker's namespace, with instants within the bound of their process.\<close>

fun start_ok :: "string \<Rightarrow> string \<Rightarrow> (nat \<Rightarrow> int) \<Rightarrow> (nat \<Rightarrow> config) \<Rightarrow> nat \<Rightarrow> durable_call \<Rightarrow> bool" where
  "start_ok p dep lim_local cfg n (D_acquire a) =
     (aq_owner a \<noteq> p \<and> aq_now a \<le> lim_local n
      \<and> (case aq_context a of
           None \<Rightarrow> False
         | Some ctx \<Rightarrow>
             ctx_deployment ctx = dep \<and> ctx_broker ctx \<in> {''zerodha'', ''dhan''}
             \<and> list_all (\<lambda>k. keyBroker k = normaliseBroker (ctx_broker ctx)) (aq_keys a)))"
| "start_ok p dep lim_local cfg n (D_release a) = (rl_owner a \<noteq> p)"
| "start_ok p dep lim_local cfg n (D_renew a) = (rn_owner a \<noteq> p)"
| "start_ok p dep lim_local cfg n D_clear = (\<not> starts_with (cf_ownerPrefix (cfg n)) p)"
| "start_ok p dep lim_local cfg n _ = True"

definition event_ok ::
    "string \<Rightarrow> string \<Rightarrow> (nat \<Rightarrow> int) \<Rightarrow> (nat \<Rightarrow> int) \<Rightarrow> (nat \<Rightarrow> config) \<Rightarrow> event \<Rightarrow> 'db system \<Rightarrow> bool" where
  "event_ok p dep lim_local lim_auth cfg ev s =
     (case ev of
        E_start n d \<Rightarrow> start_ok p dep lim_local cfg n d
      | E_step j i \<Rightarrow>
          (if j < length (tasks s)
           then (let n = fst (tasks s ! j)
                 in in_now i \<le> lim_local n \<and> lim_local n + clockOffsetMs (procs s n) \<le> lim_auth n)
           else True)
      | _ \<Rightarrow> True)"

fun run_ok ::
    "(port_call \<Rightarrow> 'db \<Rightarrow> port_reply \<times> 'db) \<Rightarrow> string \<Rightarrow> string \<Rightarrow> (nat \<Rightarrow> int) \<Rightarrow> (nat \<Rightarrow> int) \<Rightarrow> (nat \<Rightarrow> config) \<Rightarrow>
     event list \<Rightarrow> 'db system \<Rightarrow> bool" where
  "run_ok exec p dep lim_local lim_auth cfg [] s = True"
| "run_ok exec p dep lim_local lim_auth cfg (ev # evs) s =
     (event_ok p dep lim_local lim_auth cfg ev s
      \<and> run_ok exec p dep lim_local lim_auth cfg evs (sys_step exec cfg ev s))"

section \<open>Programs that spare a reservation\<close>

text \<open>What the reply to a call says about a database that holds \<open>e\<close>.\<close>

fun truthful :: "adoc \<Rightarrow> port_call \<Rightarrow> port_reply \<Rightarrow> bool" where
  "truthful e (PC_insert d) r =
     (r = PR_insert inserted \<longrightarrow> dd_deployment d = ad_deployment e \<longrightarrow> set (dd_keys d) \<inter> ad_keys e = {})"
| "truthful e (PC_findLiveByKeys dep ks now) r =
     (\<forall>ds d. r = PR_docs ds \<longrightarrow> d \<in> set ds \<longrightarrow> dep = ad_deployment e \<longrightarrow> dd_owner d \<noteq> ad_owner e \<longrightarrow>
        set (dd_keys d) \<inter> ad_keys e = {})"
| "truthful e _ r = True"

fun harmless :: "adoc \<Rightarrow> result \<Rightarrow> bool" where
  "harmless e (R_acquire (Granted l)) = (set (lease_keys l) \<inter> ad_keys e = {})"
| "harmless e _ = True"

inductive sparing :: "adoc \<Rightarrow> int \<Rightarrow> int \<Rightarrow> prog \<Rightarrow> bool" for e :: adoc and b :: int and h :: int where
  sp_ret: "harmless e x \<Longrightarrow> sparing e b h (Ret x)"
| sp_call: "call_ok c \<Longrightarrow> spares e c \<Longrightarrow> (\<And>r. truthful e c r \<Longrightarrow> sparing e b h (k r)) \<Longrightarrow> sparing e b h (Call c k)"
| sp_ensure: "(\<And>f. sparing e b h (k f)) \<Longrightarrow> sparing e b h (Ensure k)"
| sp_local: "(\<And>i w. in_now i \<le> b \<Longrightarrow> b + clockOffsetMs w \<le> h \<Longrightarrow> sparing e b h (snd (f i w))) \<Longrightarrow> sparing e b h (Local f)"
| sp_await: "sparing e b h p \<Longrightarrow> sparing e b h (Await P p)"
| sp_spawn: "sparing e b h q \<Longrightarrow> sparing e b h p \<Longrightarrow> sparing e b h (Spawn q p)"

inductive_simps sparing_simps [simp]:
  "sparing e b h (Ret x)" "sparing e b h (Await P p)" "sparing e b h (Spawn q p)" "sparing e b h (Ensure k)"
  "sparing e b h (Call c k)" "sparing e b h (Local f)"

lemma truthful_fail [simp]: "truthful e c (PR_fail m)"
  by (cases c) auto

lemma sparing_port:
  assumes "call_ok c" "spares e c" "\<And>m. sparing e b h (g m)"
    and "\<And>r. truthful e c r \<Longrightarrow> sparing e b h (k r)"
  shows "sparing e b h (port c g k)"
  using assms by (simp add: port_def split: port_reply.split)

lemma sparing_syncClock: "(\<And>f. sparing e b h (k f)) \<Longrightarrow> sparing e b h (syncClock k)"
  by (auto simp: syncClock_def clock_failed_def split: port_reply.split)

lemma sparing_refresh:
  "(\<And>f. sparing e b h (k f)) \<Longrightarrow> sparing e b h (refreshClockIfNeeded cfg k)"
  by (auto simp: refreshClockIfNeeded_def Let_def background_sync_def intro!: sparing_syncClock split: option.split)

lemma sparing_initialise: "(\<And>f. sparing e b h (k f)) \<Longrightarrow> sparing e b h (initialise cfg k)"
  by (auto simp: initialise_def initialise_failed_def intro!: sparing_syncClock split: option.split)

lemma sparing_ensureUsable: "(\<And>u. sparing e b h (k u)) \<Longrightarrow> sparing e b h (ensureUsable cfg k)"
  by (auto simp: ensureUsable_def intro!: sparing_initialise)

lemma sparing_failures [simp]:
  "sparing e b h (acquire_failed cfg m)" "sparing e b h (release_failed cfg m)" "sparing e b h (renew_unreachable cfg m)"
  "sparing e b h (verify_failed cfg m)" "sparing e b h (string_failed cfg m)" "sparing e b h (none_failed cfg m)"
  "sparing e b h (reap_failed cfg m)"
  by (simp_all add: acquire_failed_def release_failed_def renew_unreachable_def verify_failed_def
      string_failed_def none_failed_def reap_failed_def)

section \<open>The methods spare the reservations of others\<close>

lemma sparing_grant: "set ks \<inter> ad_keys e = {} \<Longrightarrow> sparing e b h (grant a ks x f)"
  by (simp add: grant_def Let_def)

lemma find_Some_in: "find P xs = Some x \<Longrightarrow> x \<in> set xs \<and> P x"
  by (induction xs) (auto split: if_splits)

lemma sparing_finish:
  assumes "truthful e (PC_insert d) r" "dd_deployment d = ad_deployment e" "aq_owner a \<noteq> ad_owner e"
  shows "sparing e b h (acquire_finish cfg a d r)"
proof -
  have "sparing e b h (refused_by cfg a (dd_fence d) lv)"
    if "truthful e (PC_findLiveByKeys (dd_deployment d) (dd_keys d) (dd_createdAt d)) (PR_docs lv)" for lv
    using that assms(2,3) by (auto simp: refused_by_def dest!: find_Some_in intro!: sparing_grant split: option.split)
  then show ?thesis using assms(1,2)
    by (auto simp: acquire_finish_def intro!: sparing_port sparing_grant split: port_reply.split)
qed

lemma truthful_not_inserted [simp]: "truthful e (PC_insert d) (PR_insert key_conflict)"
  by simp

lemma sparing_reclaim:
  assumes "truthful e (PC_insert d) r" "dd_deployment d = ad_deployment e" "aq_owner a \<noteq> ad_owner e"
    and "doc_ok d" "dd_createdAt d - cf_skewGraceMs cfg < ad_expiresAt e"
  shows "sparing e b h (acquire_reclaim cfg a d r)"
  unfolding acquire_reclaim_def using assms sparing_finish [OF _ assms(2,3)]
  by (auto intro!: sparing_port simp del: truthful.simps split: port_reply.split)

lemma sparing_insert:
  assumes "dd_deployment d = ad_deployment e" "aq_owner a \<noteq> ad_owner e"
    and "doc_ok d" "dd_createdAt d - cf_skewGraceMs cfg < ad_expiresAt e"
  shows "sparing e b h (acquire_insert cfg a d)"
  unfolding acquire_insert_def using assms sparing_reclaim [OF _ assms]
  by (auto intro!: sparing_port simp del: truthful.simps)

lemma acquire_doc_ok:
  assumes "ctx_broker ctx \<in> {''zerodha'', ''dhan''}" "CHR 0x00 \<notin> set (ctx_deployment ctx)"
    and "list_all (\<lambda>k. keyBroker k = normaliseBroker (ctx_broker ctx)) (aq_keys a)"
  shows "doc_ok (acquire_doc cfg a ctx t f)"
  using assms by (auto simp: doc_ok_def acquire_doc_def Let_def comp_def list_all_iff)

lemma sparing_acquire_with:
  assumes ctx: "ctx_deployment ctx = ad_deployment e" "ctx_broker ctx \<in> {''zerodha'', ''dhan''}"
      "CHR 0x00 \<notin> set (ctx_deployment ctx)"
      "list_all (\<lambda>k. keyBroker k = normaliseBroker (ctx_broker ctx)) (aq_keys a)"
    and "aq_owner a \<noteq> ad_owner e" "aq_now a \<le> b" "h - cf_skewGraceMs cfg < ad_expiresAt e"
  shows "sparing e b h (acquire_with cfg a ctx)"
proof -
  have "sparing e b h (acquire_insert cfg a (acquire_doc cfg a ctx (toAuthority w (aq_now a)) f))"
    if "b + clockOffsetMs w \<le> h" for w f
    using that assms by (intro sparing_insert acquire_doc_ok) (simp_all add: acquire_doc_def Let_def toAuthority_def)
  then show ?thesis
    unfolding acquire_with_def
    by (auto intro!: sparing_refresh sparing_port simp: Let_def split: option.split list.split port_reply.split)
qed

lemma sparing_acquire:
  assumes "start_ok (ad_owner e) (ad_deployment e) (\<lambda>_. b) (\<lambda>_. cfg) n (D_acquire a)"
    and "CHR 0x00 \<notin> set (ad_deployment e)" "h - cf_skewGraceMs cfg < ad_expiresAt e"
  shows "sparing e b h (tryAcquireAll cfg a)"
  using assms
  by (auto simp: tryAcquireAll_def context_of_def intro!: sparing_ensureUsable sparing_acquire_with split: option.splits)

lemma sparing_find_key: "sparing e b h (find_key cfg k t pick)"
  by (auto simp: find_key_def intro!: sparing_port split: port_reply.split)

lemma sparing_method:
  assumes "start_ok (ad_owner e) (ad_deployment e) (\<lambda>_. b) (\<lambda>_. cfg) n d"
    and "CHR 0x00 \<notin> set (ad_deployment e)" "h - cf_skewGraceMs cfg < ad_expiresAt e"
  shows "sparing e b h (run_method cfg d)"
proof (cases d)
  case (D_acquire a)
  then show ?thesis using assms by (simp only: run_method.simps) (rule sparing_acquire)
next
  case (D_release a)
  then show ?thesis using assms(1)
    by (auto simp: release_def Let_def intro!: sparing_port split: port_reply.split)
next
  case (D_renew a)
  then show ?thesis using assms(1)
    by (auto simp: renew_def Let_def renew_classify_def intro!: sparing_ensureUsable sparing_refresh sparing_port
        split: port_reply.split option.split)
next
  case (D_verify a)
  then show ?thesis
    by (auto simp: verify_def Let_def intro!: sparing_ensureUsable sparing_refresh sparing_port
        split: port_reply.split option.split)
next
  case D_clear
  then show ?thesis using assms(1) by (auto simp: clear_def Let_def intro!: sparing_port)
next
  case D_reap
  then show ?thesis using assms(3)
    by (auto simp: reapExpired_def Let_def toAuthority_def intro!: sparing_ensureUsable sparing_refresh sparing_port
        split: port_reply.split option.split)
next
  case (D_count t)
  then show ?thesis by (auto simp: countLive_def intro!: sparing_port split: port_reply.split)
qed (simp_all add: ownerOf_def sideOf_def sparing_find_key sparing_initialise)

section \<open>The invariant of the system\<close>

locale namespaced_port = reservation_port exec abs inv call_ok
  for exec :: "port_call \<Rightarrow> 'db \<Rightarrow> port_reply \<times> 'db" and abs inv
begin

definition holds :: "adoc \<Rightarrow> 'db \<Rightarrow> bool" where
  "holds e db = (inv db \<and> abs db (ad_owner e) = Some e)"

definition sys_inv :: "adoc \<Rightarrow> (nat \<Rightarrow> int) \<Rightarrow> (nat \<Rightarrow> int) \<Rightarrow> 'db system \<Rightarrow> bool" where
  "sys_inv e lim_local lim_auth s =
     (holds e (store s) \<and> (\<forall>(n, p) \<in> set (tasks s). sparing e (lim_local n) (lim_auth n) p))"

lemma truthful_exec:
  assumes "holds e db" "call_ok c"
  shows "truthful e c (fst (exec c db))"
proof (cases c)
  case (PC_insert d)
  have m: "abs db (ad_owner e) = Some e" and r: "reply_abs (fst (exec c db)) = fst (spec_exec c (abs db))"
    using assms by (auto simp: holds_def exec_reply)
  have "e \<in> ran (abs db)" using m by (rule ranI)
  then show ?thesis using r PC_insert by (auto simp: holders_def split: if_splits)
next
  case (PC_findLiveByKeys dep ks now)
  have m: "abs db (ad_owner e) = Some e" and ex: "exclusive (abs db)"
    and r: "reply_abs (fst (exec c db)) = fst (spec_exec c (abs db))"
    using assms by (auto simp: holds_def exec_reply inv_exclusive)
  have "set (dd_keys d) \<inter> ad_keys e = {}"
    if a: "fst (exec c db) = PR_docs ds" "d \<in> set ds" "dep = ad_deployment e" "dd_owner d \<noteq> ad_owner e" for ds d
  proof -
    have "doc_abs ` set ds = {x \<in> holders (abs db) dep (set ks). now < ad_expiresAt x}"
      using r a(1) PC_findLiveByKeys by simp
    then have "doc_abs d \<in> {x \<in> holders (abs db) dep (set ks). now < ad_expiresAt x}" using a(2) by blast
    then obtain q where q: "abs db q = Some (doc_abs d)" "dd_deployment d = ad_deployment e"
      using a(3) by (auto simp: holders_def ran_def)
    then have "q \<noteq> ad_owner e" using ex a(4) by (metis doc_abs_parts(1) exclusive_def)
    then have "ad_keys (doc_abs d) \<inter> ad_keys e = {}"
      using ex q m unfolding exclusive_def by (metis doc_abs_parts(2))
    then show ?thesis by simp
  qed
  then show ?thesis using PC_findLiveByKeys by auto
qed auto

lemma holds_exec:
  assumes "holds e db" "call_ok c" "spares e c"
  shows "holds e (snd (exec c db))"
  using assms by (simp add: holds_def exec_inv exec_abs spared_reservation_stays inv_exclusive)

lemma inv_set_task:
  assumes "sys_inv e b h s" "sparing e (b n) (h n) p"
  shows "sys_inv e b h (set_task j n p s)"
  using assms set_update_subset_insert [of "tasks s" j "(n, p)"]
  by (auto simp: sys_inv_def set_task_def)

lemma inv_store: "sys_inv e b h s \<Longrightarrow> holds e db \<Longrightarrow> sys_inv e b h (s\<lparr>store := db\<rparr>)"
  by (simp add: sys_inv_def)

lemma inv_procs: "sys_inv e b h s \<Longrightarrow> sys_inv e b h (s\<lparr>procs := f\<rparr>)"
  by (simp add: sys_inv_def)

lemma inv_task: "sys_inv e b h s \<Longrightarrow> j < length (tasks s) \<Longrightarrow> tasks s ! j = (n, p) \<Longrightarrow> sparing e (b n) (h n) p"
  using nth_mem [of j "tasks s"] by (auto simp: sys_inv_def)

lemma inv_holds: "sys_inv e b h s \<Longrightarrow> holds e (store s)"
  by (simp add: sys_inv_def)

lemma inv_task_step:
  assumes inv: "sys_inv e b h s" and j: "j < length (tasks s)" "tasks s ! j = (n, p)"
    and i: "in_now i \<le> b n" "b n + clockOffsetMs (procs s n) \<le> h n"
  shows "sys_inv e b h (task_step exec j i (n, p) s)"
proof -
  note sp = inv_task [OF inv j]
  show ?thesis
  proof (cases p)
    case (Local f)
    then have "sparing e (b n) (h n) (snd (f i (procs s n)))" using sp i by simp
    then show ?thesis using Local inv by (simp add: split_beta inv_set_task inv_procs)
  next
    case (Call c k)
    then have c: "call_ok c" "spares e c" "sparing e (b n) (h n) (k (fst (exec c (store s))))"
      using sp truthful_exec [OF inv_holds [OF inv]] by auto
    have "holds e (snd (exec c (store s)))" by (rule holds_exec [OF inv_holds [OF inv] c(1,2)])
    then show ?thesis using Call inv c(3) by (simp add: split_beta inv_set_task inv_store)
  next
    case (Spawn q r)
    then have "sys_inv e b h (set_task j n r s)" using sp inv by (simp add: inv_set_task)
    then show ?thesis using Spawn sp by (simp add: Let_def sys_inv_def ball_Un)
  next
    case (Await P r)
    then show ?thesis using sp inv by (simp add: inv_set_task)
  qed (use inv in simp_all)
qed

lemma inv_reject:
  assumes inv: "sys_inv e b h s" and j: "j < length (tasks s)" "tasks s ! j = (n, Call c k)"
  shows "sys_inv e b h (set_task j n (k (PR_fail m)) (if landed then s\<lparr>store := snd (exec c (store s))\<rparr> else s))"
proof -
  from inv_task [OF inv j] have c: "call_ok c" "spares e c" "sparing e (b n) (h n) (k (PR_fail m))" by simp_all
  have "holds e (snd (exec c (store s)))" by (rule holds_exec [OF inv_holds [OF inv] c(1,2)])
  then show ?thesis using inv c(3) by (simp add: inv_set_task inv_store)
qed

lemma inv_step:
  assumes inv: "sys_inv e b h s" and ok: "event_ok (ad_owner e) (ad_deployment e) b h cfg ev s"
    and nul: "CHR 0x00 \<notin> set (ad_deployment e)"
    and band: "\<And>n. h n - cf_skewGraceMs (cfg n) < ad_expiresAt e"
  shows "sys_inv e b h (sys_step exec cfg ev s)"
proof (cases ev)
  case (E_start n d)
  have "start_ok (ad_owner e) (ad_deployment e) (\<lambda>_. b n) (\<lambda>_. cfg n) n d"
    using ok E_start by (cases d) (auto simp: event_ok_def)
  then have "sparing e (b n) (h n) (run_method (cfg n) d)" using nul band by (rule sparing_method)
  then show ?thesis using inv E_start by (simp add: sys_step_def sys_inv_def ball_Un)
next
  case (E_step j i)
  show ?thesis
  proof (cases "j < length (tasks s)")
    case True
    then show ?thesis
      using inv_task_step [OF inv True surjective_pairing, of i] ok E_step by (simp add: sys_step_def event_ok_def Let_def)
  qed (use inv E_step in \<open>simp add: sys_step_def\<close>)
next
  case (E_reject j landed m)
  then show ?thesis using inv inv_reject [OF inv]
    by (auto simp: sys_step_def split: prod.split prog.split)
next
  case (E_time j t)
  then show ?thesis using inv
    by (auto simp: sys_step_def intro!: inv_set_task dest!: inv_task [OF inv] split: prod.split prog.split port_call.split)
next
  case (E_ensure j f)
  then show ?thesis using inv
    by (auto simp: sys_step_def intro!: inv_set_task dest!: inv_task [OF inv] split: prod.split prog.split)
qed

lemma inv_run:
  assumes "sys_inv e b h s" "run_ok exec (ad_owner e) (ad_deployment e) b h cfg evs s"
    and "CHR 0x00 \<notin> set (ad_deployment e)" "\<And>n. h n - cf_skewGraceMs (cfg n) < ad_expiresAt e"
  shows "sys_inv e b h (fold (sys_step exec cfg) evs s)"
  using assms(1,2)
proof (induction evs arbitrary: s)
  case (Cons ev evs)
  have "sys_inv e b h (sys_step exec cfg ev s)"
    using Cons.prems by (intro inv_step [OF _ _ assms(3,4)]) simp_all
  then show ?case using Cons.IH Cons.prems(2) by simp
qed simp

lemma finished_harmless:
  "sys_inv e b h s \<Longrightarrow> (n, Ret (R_acquire (Granted l))) \<in> set (tasks s) \<Longrightarrow> set (lease_keys l) \<inter> ad_keys e = {}"
  by (fastforce simp: sys_inv_def)

end

interpretation mem_ns: namespaced_port mem_exec mem_abs mem_inv
  by unfold_locales

sublocale pg_server \<subseteq> ns: namespaced_port "pg_exec scan collate" pg_abs pg_inv
  by unfold_locales

lemma pg_namespaced: "pg_server scan collate \<Longrightarrow> namespaced_port (pg_exec scan collate) pg_abs pg_inv"
  by (intro namespaced_port.intro pg_server.pg_port)

section \<open>Properties\<close>

lemma find_None_keys: "find (\<lambda>k. k \<notin> A) ks = None \<longleftrightarrow> set ks \<subseteq> A"
  by (auto simp: find_None_iff)

lemma verify_doc_Owned:
  "verify_doc cfg a ctx w found = Owned x f \<longleftrightarrow>
     (\<exists>d. found = Some d \<and> \<not> fence_mismatch (vf_fence a) (dd_fence d)
        \<and> toAuthority w (vf_now a) < dd_expiresAt d - cf_skewGraceMs cfg \<and> dd_deployment d = ctx_deployment ctx
        \<and> dd_broker d = ctx_broker ctx \<and> dd_generation d = ctx_generation ctx
        \<and> set (vf_keys a) \<subseteq> set (dd_keys d) \<and> x = toLocal w (dd_expiresAt d) \<and> f = dd_fence d)"
  by (auto simp: verify_doc_def find_None_keys not_le split: option.splits if_splits)
    (metis find_None_keys set_dedupeKeys option.distinct(1))+


definition sample_context :: ReservationContext where
  "sample_context = \<lparr>ctx_deployment = ''prod'', ctx_broker = ''dhan'', ctx_generation = 1, ctx_mode = ''live''\<rparr>"

definition sample_config :: config where
  "sample_config = new_config ''postgres'' True (Some 250) None None None ''i'' (\<lambda>m. m)"

definition sample_worker :: worker where
  "sample_worker = new_worker\<lparr>initialised := True, clockSyncedAt := 1000\<rparr>"

definition sample_inputs :: inputs where
  "sample_inputs = \<lparr>in_now = 1000, in_portReady = True, in_context = sample_context\<rparr>"

definition sample_challenger :: AcquireArgs where
  "sample_challenger =
     \<lparr>aq_owner = ''B'', aq_keys = [''DHAN:2'', ''DHAN:3''], aq_ttlMs = Fin 5000, aq_now = 1000,
      aq_sideByKey = None, aq_context = Some sample_context\<rparr>"

definition sample_verify :: VerifyArgs where
  "sample_verify = \<lparr>vf_owner = ''A'', vf_keys = [''DHAN:1'', ''DHAN:2''], vf_now = 1000, vf_fence = Some 1, vf_context = None\<rparr>"

definition sample_events :: "event list" where
  "sample_events = E_start 1 (D_acquire sample_challenger) # replicate 11 (E_step 0 sample_inputs)"


end
