(* ===== verification/In_Process_Reservations.thy ===== *)
theory In_Process_Reservations
  imports Reservation_Types "HOL-Library.AList"
begin

text \<open>
  The in-process tier, \<^verbatim>\<open>src/box/reservations/inProcess.ts\<close>.  Every method runs without an await, so a
  method is one atomic step on the record \<open>in_process\<close>.  JavaScript maps are association lists in
  insertion order (\<^verbatim>\<open>AList.update\<close> keeps the place of an existing key, as \<^verbatim>\<open>Map.set\<close> does).  A waiter is
  the number of its callback; the callbacks only resolve promises, so being called is an entry in
  the log \<open>woken\<close>.  The latency samples are those of \<^verbatim>\<open>BoundedSamples\<close> and are left out of the state.
\<close>

record Entry =
  en_owner :: string
  en_expiresAt :: int
  en_side :: "string option"
  en_fence :: nat

record in_process =
  entries :: "(string \<times> Entry) list"
  waiters :: "(string \<times> nat list) list"
  fenceSeq :: nat
  woken :: "nat list"
  st_acquireAttempts :: nat
  st_acquireSuccess :: nat
  st_conflicts :: nat
  st_renewSuccess :: nat
  st_renewFailure :: nat
  st_ownershipLost :: nat
  st_expiredObserved :: nat

definition new_in_process :: in_process where
  "new_in_process =
     \<lparr>entries = [], waiters = [], fenceSeq = 0, woken = [], st_acquireAttempts = 0, st_acquireSuccess = 0,
      st_conflicts = 0, st_renewSuccess = 0, st_renewFailure = 0, st_ownershipLost = 0,
      st_expiredObserved = 0\<rparr>"

definition ip_name :: string where "ip_name = ''in-process''"

section \<open>Waiters\<close>

definition ip_notify :: "string \<Rightarrow> in_process \<Rightarrow> in_process" where
  "ip_notify k s = (case map_of (waiters s) k of None \<Rightarrow> s | Some cbs \<Rightarrow> s\<lparr>woken := woken s @ cbs\<rparr>)"

definition add_waiter :: "nat \<Rightarrow> string \<Rightarrow> (string \<times> nat list) list \<Rightarrow> (string \<times> nat list) list" where
  "add_waiter cb k ws =
     (let cbs = (case map_of ws k of None \<Rightarrow> [] | Some l \<Rightarrow> l)
      in AList.update k (if cb \<in> set cbs then cbs else cbs @ [cb]) ws)"

definition ip_onRelease :: "string list \<Rightarrow> nat \<Rightarrow> in_process \<Rightarrow> in_process" where
  "ip_onRelease keys cb s = s\<lparr>waiters := fold (add_waiter cb) keys (waiters s)\<rparr>"

definition drop_waiter :: "nat \<Rightarrow> string \<Rightarrow> (string \<times> nat list) list \<Rightarrow> (string \<times> nat list) list" where
  "drop_waiter cb k ws =
     (case map_of ws k of
        None \<Rightarrow> ws
      | Some cbs \<Rightarrow>
          (let left = removeAll cb cbs
           in if left = [] then AList.delete k ws else AList.update k left ws))"

definition ip_deregister :: "string list \<Rightarrow> nat \<Rightarrow> in_process \<Rightarrow> in_process" where
  "ip_deregister keys cb s = s\<lparr>waiters := fold (drop_waiter cb) keys (waiters s)\<rparr>"

section \<open>The operations\<close>

text \<open>Pass 1 of \<^verbatim>\<open>tryAcquireAll\<close>: how many expired entries it saw and which keys others hold.\<close>

fun ip_inspect ::
    "string \<Rightarrow> int \<Rightarrow> (string \<times> Entry) list \<Rightarrow> string list \<Rightarrow> nat \<times> ReservationConflictDetail list" where
  "ip_inspect owner now es [] = (0, [])"
| "ip_inspect owner now es (k # ks) =
     (let (n, cs) = ip_inspect owner now es ks in
      case map_of es k of
        None \<Rightarrow> (n, cs)
      | Some e \<Rightarrow>
          if en_expiresAt e \<le> now then (Suc n, cs)
          else if en_owner e = owner then (n, cs)
          else (n, \<lparr>cd_key = k, cd_heldBy = en_owner e, cd_heldSide = en_side e, cd_tier = ip_name\<rparr> # cs))"

definition ip_tryAcquireAll :: "AcquireArgs \<Rightarrow> in_process \<Rightarrow> ReservationOutcome \<times> in_process" where
  "ip_tryAcquireAll args s =
     (let keys = dedupeKeys (aq_keys args);
          (n, conflicts) = ip_inspect (aq_owner args) (aq_now args) (entries s) keys;
          s1 = s\<lparr>st_acquireAttempts := st_acquireAttempts s + 1,
                 st_expiredObserved := st_expiredObserved s + n\<rparr>
      in if conflicts \<noteq> [] then (Conflict conflicts, s1\<lparr>st_conflicts := st_conflicts s1 + 1\<rparr>)
         else
           let expiresAt = aq_now args + normaliseTtl (aq_ttlMs args);
               fence = fenceSeq s1 + 1
           in (Granted \<lparr>lease_owner = aq_owner args, lease_keys = keys, lease_expiresAt = expiresAt,
                        lease_fence = fence, lease_durability = local_only\<rparr>,
               s1\<lparr>fenceSeq := fence,
                  entries := fold (\<lambda>k. AList.update k \<lparr>en_owner = aq_owner args, en_expiresAt = expiresAt,
                                      en_side = side_of args k, en_fence = fence\<rparr>) keys (entries s1),
                  st_acquireSuccess := st_acquireSuccess s1 + 1\<rparr>))"

text \<open>One candidate of \<^verbatim>\<open>release\<close>: the remaining entries and the keys woken so far.\<close>

definition release_candidate ::
    "ReleaseArgs \<Rightarrow> string \<Rightarrow> (string \<times> Entry) list \<times> string list \<Rightarrow> (string \<times> Entry) list \<times> string list" where
  "release_candidate args k acc =
     (case map_of (fst acc) k of
        None \<Rightarrow> acc
      | Some e \<Rightarrow>
          if en_owner e \<noteq> rl_owner args then acc
          else if fence_mismatch (rl_fence args) (en_fence e) then acc
          else (AList.delete k (fst acc), snd acc @ [k]))"

definition ip_release :: "ReleaseArgs \<Rightarrow> in_process \<Rightarrow> nat \<times> in_process" where
  "ip_release args s =
     (let candidates = (case rl_keys args of Some ks \<Rightarrow> ks | None \<Rightarrow> map fst (entries s));
          (es, wk) = fold (release_candidate args) candidates (entries s, [])
      in (length wk, fold ip_notify wk (s\<lparr>entries := es\<rparr>)))"

fun renew_failure ::
    "RenewArgs \<Rightarrow> (string \<times> Entry) list \<Rightarrow> string list \<Rightarrow> (RenewFailure \<times> string) option" where
  "renew_failure args es [] = None"
| "renew_failure args es (k # ks) =
     (case map_of es k of
        None \<Rightarrow> Some (renew_lost, ip_name @ '': '' @ k @ '' is no longer held by this owner'')
      | Some e \<Rightarrow>
          if en_owner e \<noteq> rn_owner args
            then Some (renew_lost, ip_name @ '': '' @ k @ '' is no longer held by this owner'')
          else if en_expiresAt e \<le> rn_now args
            then Some (renew_expired, ip_name @ '': '' @ k @ '' expired before renewal'')
          else if fence_mismatch (rn_fence args) (en_fence e)
            then Some (renew_lost, ip_name @ '': '' @ k @ '' belongs to a newer lease'')
          else renew_failure args es ks)"

text \<open>The second loop of \<^verbatim>\<open>renew\<close> moves the expiry of each key and remembers the last fence.\<close>

definition renew_entry ::
    "int \<Rightarrow> string \<Rightarrow> (string \<times> Entry) list \<times> nat \<Rightarrow> (string \<times> Entry) list \<times> nat" where
  "renew_entry expiresAt k acc =
     (case map_of (fst acc) k of
        None \<Rightarrow> acc
      | Some e \<Rightarrow> (AList.update k (e\<lparr>en_expiresAt := expiresAt\<rparr>) (fst acc), en_fence e))"

definition ip_renew :: "RenewArgs \<Rightarrow> in_process \<Rightarrow> RenewOutcome \<times> in_process" where
  "ip_renew args s =
     (let keys = dedupeKeys (rn_keys args) in
      case renew_failure args (entries s) keys of
        Some (r, d) \<Rightarrow>
          (NotRenewed r d, s\<lparr>st_renewFailure := st_renewFailure s + 1, st_ownershipLost := st_ownershipLost s + 1\<rparr>)
      | None \<Rightarrow>
          let expiresAt = rn_now args + normaliseTtl (rn_ttlMs args);
              (es, fence) = fold (renew_entry expiresAt) keys (entries s, 0)
          in (Renewed expiresAt fence, s\<lparr>entries := es, st_renewSuccess := st_renewSuccess s + 1\<rparr>))"

text \<open>The loop of \<^verbatim>\<open>verify\<close>; the running minimum starts at infinity, here \<open>None\<close>.\<close>

fun verify_loop ::
    "VerifyArgs \<Rightarrow> (string \<times> Entry) list \<Rightarrow> int option \<Rightarrow> nat \<Rightarrow> string list \<Rightarrow> OwnershipVerdict" where
  "verify_loop args es ex f [] =
     (case ex of None \<Rightarrow> NotOwned own_lost (ip_name @ '': no keys to verify'') | Some x \<Rightarrow> Owned x f)"
| "verify_loop args es ex f (k # ks) =
     (case map_of es k of
        None \<Rightarrow> NotOwned own_lost (ip_name @ '': '' @ k @ '' is not held by this owner'')
      | Some e \<Rightarrow>
          if en_owner e \<noteq> vf_owner args
            then NotOwned own_lost (ip_name @ '': '' @ k @ '' is not held by this owner'')
          else if en_expiresAt e \<le> vf_now args
            then NotOwned own_expired (ip_name @ '': '' @ k @ '' has expired'')
          else if fence_mismatch (vf_fence args) (en_fence e)
            then NotOwned own_lost (ip_name @ '': '' @ k @ '' belongs to a newer lease'')
          else verify_loop args es
                 (Some (case ex of None \<Rightarrow> en_expiresAt e | Some x \<Rightarrow> min x (en_expiresAt e))) (en_fence e) ks)"

definition ip_verify :: "VerifyArgs \<Rightarrow> in_process \<Rightarrow> OwnershipVerdict" where
  "ip_verify args s = verify_loop args (entries s) None 0 (dedupeKeys (vf_keys args))"

definition ip_ownerOf :: "string \<Rightarrow> int \<Rightarrow> in_process \<Rightarrow> string option \<times> in_process" where
  "ip_ownerOf k now s =
     (case map_of (entries s) k of
        None \<Rightarrow> (None, s)
      | Some e \<Rightarrow>
          if en_expiresAt e \<le> now then (None, ip_notify k (s\<lparr>entries := AList.delete k (entries s)\<rparr>))
          else (Some (en_owner e), s))"

definition ip_sideOf :: "string \<Rightarrow> int \<Rightarrow> in_process \<Rightarrow> string option" where
  "ip_sideOf k now s =
     (case map_of (entries s) k of
        None \<Rightarrow> None
      | Some e \<Rightarrow> if en_expiresAt e \<le> now then None else en_side e)"

definition ip_sweep :: "int \<Rightarrow> in_process \<Rightarrow> in_process" where
  "ip_sweep now s =
     (let dead = map fst (filter (\<lambda>(k, e). en_expiresAt e \<le> now) (entries s))
      in fold ip_notify dead (s\<lparr>entries := filter (\<lambda>(k, e). \<not> en_expiresAt e \<le> now) (entries s)\<rparr>))"

definition ip_activeCount :: "int \<Rightarrow> in_process \<Rightarrow> nat \<times> in_process" where
  "ip_activeCount now s = (let s' = ip_sweep now s in (length (entries s'), s'))"

definition ip_activeKeys :: "int \<Rightarrow> in_process \<Rightarrow> string list \<times> in_process" where
  "ip_activeKeys now s = (let s' = ip_sweep now s in (map fst (entries s'), s'))"

definition ip_clear :: "in_process \<Rightarrow> in_process" where
  "ip_clear s = fold ip_notify (map fst (entries s)) (s\<lparr>entries := []\<rparr>)"

text \<open>A run of the store: any sequence of calls.\<close>

datatype ip_call =
    C_acquire AcquireArgs | C_release ReleaseArgs | C_renew RenewArgs | C_verify VerifyArgs
  | C_ownerOf string int | C_count int | C_onRelease "string list" nat | C_deregister "string list" nat
  | C_clear

fun ip_step :: "ip_call \<Rightarrow> in_process \<Rightarrow> in_process" where
  "ip_step (C_acquire a) s = snd (ip_tryAcquireAll a s)"
| "ip_step (C_release a) s = snd (ip_release a s)"
| "ip_step (C_renew a) s = snd (ip_renew a s)"
| "ip_step (C_verify a) s = s"
| "ip_step (C_ownerOf k now) s = snd (ip_ownerOf k now s)"
| "ip_step (C_count now) s = snd (ip_activeCount now s)"
| "ip_step (C_onRelease ks cb) s = ip_onRelease ks cb s"
| "ip_step (C_deregister ks cb) s = ip_deregister ks cb s"
| "ip_step C_clear s = ip_clear s"

text \<open>A call that is not made by \<open>o\<close> and happens, on the caller's clock, before the instant \<open>t\<close>.\<close>

fun foreign_call :: "string \<Rightarrow> int \<Rightarrow> ip_call \<Rightarrow> bool" where
  "foreign_call p t (C_acquire a) = (aq_owner a \<noteq> p \<and> aq_now a < t)"
| "foreign_call p t (C_release a) = (rl_owner a \<noteq> p)"
| "foreign_call p t (C_renew a) = (rn_owner a \<noteq> p)"
| "foreign_call p t (C_ownerOf k now) = (now < t)"
| "foreign_call p t (C_count now) = (now < t)"
| "foreign_call p t C_clear = False"
| "foreign_call p t _ = True"

section \<open>What each operation does to the entries\<close>

lemma entries_notify [simp]: "entries (ip_notify k s) = entries s"
  by (simp add: ip_notify_def split: option.split)

lemma entries_fold_notify [simp]: "entries (fold ip_notify ks s) = entries s"
  by (induction ks arbitrary: s) auto

lemma map_of_fold_update:
  "map_of (fold (\<lambda>k. AList.update k (f k)) ks es) k = (if k \<in> set ks then Some (f k) else map_of es k)"
  by (induction ks arbitrary: es) (auto simp: update_conv')

text \<open>The conflicts found by pass 1 are exactly the requested keys another owner holds.\<close>

definition held_by_other :: "string \<Rightarrow> int \<Rightarrow> (string \<times> Entry) list \<Rightarrow> string \<Rightarrow> bool" where
  "held_by_other owner now es k =
     (case map_of es k of None \<Rightarrow> False | Some e \<Rightarrow> now < en_expiresAt e \<and> en_owner e \<noteq> owner)"

lemma inspect_conflicts:
  "map cd_key (snd (ip_inspect owner now es ks)) = filter (held_by_other owner now es) ks"
  by (induction ks) (auto simp: held_by_other_def split: option.splits prod.splits)

lemma inspect_none_iff:
  "snd (ip_inspect owner now es ks) = [] \<longleftrightarrow> \<not> list_ex (held_by_other owner now es) ks"
proof -
  have "snd (ip_inspect owner now es ks) = [] \<longleftrightarrow> filter (held_by_other owner now es) ks = []"
    by (metis inspect_conflicts map_is_Nil_conv)
  then show ?thesis by (simp add: filter_empty_conv list_ex_iff)
qed

lemma tryAcquireAll_Conflict:
  assumes "list_ex (held_by_other (aq_owner a) (aq_now a) (entries s)) (aq_keys a)"
  shows "\<exists>cs. fst (ip_tryAcquireAll a s) = Conflict cs \<and> cs \<noteq> [] \<and>
           map cd_key cs = filter (held_by_other (aq_owner a) (aq_now a) (entries s)) (dedupeKeys (aq_keys a)) \<and>
           entries (snd (ip_tryAcquireAll a s)) = entries s"
proof -
  let ?i = "ip_inspect (aq_owner a) (aq_now a) (entries s) (dedupeKeys (aq_keys a))"
  have "snd ?i \<noteq> []" using assms by (simp add: inspect_none_iff list_ex_iff)
  then show ?thesis
    by (auto simp: ip_tryAcquireAll_def Let_def inspect_conflicts split: prod.split)
      (metis inspect_conflicts snd_conv)
qed

lemma tryAcquireAll_Granted:
  assumes "\<not> list_ex (held_by_other (aq_owner a) (aq_now a) (entries s)) (aq_keys a)"
  shows "fst (ip_tryAcquireAll a s) =
      Granted \<lparr>lease_owner = aq_owner a, lease_keys = dedupeKeys (aq_keys a),
               lease_expiresAt = aq_now a + normaliseTtl (aq_ttlMs a), lease_fence = fenceSeq s + 1,
               lease_durability = local_only\<rparr>
    \<and> map_of (entries (snd (ip_tryAcquireAll a s))) k =
       (if k \<in> set (aq_keys a)
        then Some \<lparr>en_owner = aq_owner a, en_expiresAt = aq_now a + normaliseTtl (aq_ttlMs a),
                   en_side = side_of a k, en_fence = fenceSeq s + 1\<rparr>
        else map_of (entries s) k)"
proof -
  let ?i = "ip_inspect (aq_owner a) (aq_now a) (entries s) (dedupeKeys (aq_keys a))"
  have "snd ?i = []" using assms by (simp add: inspect_none_iff list_ex_iff)
  then show ?thesis
    by (auto simp: ip_tryAcquireAll_def Let_def map_of_fold_update split: prod.split)
qed

text \<open>Release deletes exactly the listed entries of the caller (of the quoted fence, if any).\<close>

definition releasable :: "ReleaseArgs \<Rightarrow> Entry \<Rightarrow> bool" where
  "releasable args e = (en_owner e = rl_owner args \<and> \<not> fence_mismatch (rl_fence args) (en_fence e))"

lemma release_candidate_lookup:
  "map_of (fst (release_candidate args k acc)) k' =
     (if k' = k \<and> (\<exists>e. map_of (fst acc) k = Some e \<and> releasable args e) then None else map_of (fst acc) k')"
  by (auto simp: release_candidate_def releasable_def delete_conv' split: option.splits)

lemma fold_release_lookup:
  "map_of (fst (fold (release_candidate args) ks acc)) k =
     (if k \<in> set ks \<and> (\<exists>e. map_of (fst acc) k = Some e \<and> releasable args e) then None else map_of (fst acc) k)"
  by (induction ks arbitrary: acc) (auto simp: release_candidate_lookup)

lemma entries_release:
  "map_of (entries (snd (ip_release args s))) k =
     (case map_of (entries s) k of
        None \<Rightarrow> None
      | Some e \<Rightarrow>
          if releasable args e \<and> (case rl_keys args of None \<Rightarrow> True | Some ks \<Rightarrow> k \<in> set ks)
          then None else Some e)"
proof -
  let ?c = "case rl_keys args of Some ks \<Rightarrow> ks | None \<Rightarrow> map fst (entries s)"
  have e: "map_of (entries (snd (ip_release args s))) k =
      map_of (fst (fold (release_candidate args) ?c (entries s, []))) k"
    by (simp add: ip_release_def Let_def split: prod.split)
  have c: "map_of (entries s) k = Some e \<Longrightarrow>
      (k \<in> set ?c) = (case rl_keys args of None \<Rightarrow> True | Some ks \<Rightarrow> k \<in> set ks)" for e
    by (auto dest!: map_of_SomeD split: option.split intro: rev_image_eqI)
  show ?thesis
    unfolding e fold_release_lookup using c by (auto split: option.split)
qed

lemma renew_failure_None:
  "renew_failure args es ks = None \<longleftrightarrow>
     (\<forall>k\<in>set ks. \<exists>e. map_of es k = Some e \<and> en_owner e = rn_owner args \<and> rn_now args < en_expiresAt e
        \<and> \<not> fence_mismatch (rn_fence args) (en_fence e))"
  by (induction ks) (auto split: option.splits)

lemma fold_renew_lookup:
  "map_of (fst (fold (renew_entry x) ks acc)) k =
     (if k \<in> set ks then map_option (\<lambda>e. e\<lparr>en_expiresAt := x\<rparr>) (map_of (fst acc) k) else map_of (fst acc) k)"
  by (induction ks arbitrary: acc) (auto simp: renew_entry_def update_conv' split: option.splits)

lemma entries_renew:
  "map_of (entries (snd (ip_renew args s))) k =
     (if renew_failure args (entries s) (dedupeKeys (rn_keys args)) = None \<and> k \<in> set (rn_keys args)
      then map_option (\<lambda>e. e\<lparr>en_expiresAt := rn_now args + normaliseTtl (rn_ttlMs args)\<rparr>) (map_of (entries s) k)
      else map_of (entries s) k)"
  using fold_renew_lookup
    [of "rn_now args + normaliseTtl (rn_ttlMs args)" "dedupeKeys (rn_keys args)" "(entries s, 0)" k]
  by (auto simp: ip_renew_def Let_def split: option.splits prod.splits)

lemma map_of_filter_kept:
  "distinct (map fst es) \<Longrightarrow> map_of es k = Some e \<Longrightarrow> P (k, e) \<Longrightarrow> map_of (filter P es) k = Some e"
  by (simp add: distinct_map_filter)

lemma entries_sweep: "entries (ip_sweep now s) = filter (\<lambda>(k, e). \<not> en_expiresAt e \<le> now) (entries s)"
  by (simp add: ip_sweep_def Let_def)

section \<open>Well-formed stores\<close>

definition ip_wf :: "in_process \<Rightarrow> bool" where
  "ip_wf s = (distinct (map fst (entries s)) \<and> (\<forall>(k, e) \<in> set (entries s). en_fence e \<le> fenceSeq s))"

lemma distinct_fold_update:
  "distinct (map fst es) \<Longrightarrow> distinct (map fst (fold (\<lambda>k. AList.update k (f k)) ks es))"
  by (induction ks arbitrary: es) (auto simp: distinct_update)

lemma set_fold_update:
  "set (fold (\<lambda>k. AList.update k (f k)) ks es) \<subseteq> set es \<union> (\<lambda>k. (k, f k)) ` set ks"
proof (induction ks arbitrary: es)
  case (Cons k ks)
  have "set (AList.update k (f k) es) \<subseteq> insert (k, f k) (set es)"
    by (induction es) auto
  then show ?case using Cons.IH [of "AList.update k (f k) es"] by auto
qed simp

lemma wf_of_lookup:
  assumes "distinct (map fst es)"
  shows "ip_wf (s\<lparr>entries := es\<rparr>) \<longleftrightarrow> (\<forall>k e. map_of es k = Some e \<longrightarrow> en_fence e \<le> fenceSeq s)"
  using assms by (auto simp: ip_wf_def)

lemma ip_wf_alt:
  "ip_wf s \<longleftrightarrow> distinct (map fst (entries s)) \<and> (\<forall>k e. map_of (entries s) k = Some e \<longrightarrow> en_fence e \<le> fenceSeq s)"
  by (auto simp: ip_wf_def)

lemma fenceSeq_notify [simp]: "fenceSeq (ip_notify k s) = fenceSeq s"
  by (simp add: ip_notify_def split: option.split)

lemma fenceSeq_fold_notify [simp]: "fenceSeq (fold ip_notify ks s) = fenceSeq s"
  by (induction ks arbitrary: s) auto

lemma distinct_fold_release:
  "distinct (map fst (fst acc)) \<Longrightarrow> distinct (map fst (fst (fold (release_candidate args) ks acc)))"
  by (induction ks arbitrary: acc) (auto simp: release_candidate_def distinct_delete split: option.split)

lemma distinct_fold_renew:
  "distinct (map fst (fst acc)) \<Longrightarrow> distinct (map fst (fst (fold (renew_entry x) ks acc)))"
  by (induction ks arbitrary: acc) (auto simp: renew_entry_def distinct_update split: option.split)

lemma wf_acquire:
  assumes "ip_wf s"
  shows "ip_wf (snd (ip_tryAcquireAll a s))"
proof (cases "list_ex (held_by_other (aq_owner a) (aq_now a) (entries s)) (aq_keys a)")
  case True
  from tryAcquireAll_Conflict [OF True] have "entries (snd (ip_tryAcquireAll a s)) = entries s" by auto
  moreover have "fenceSeq s \<le> fenceSeq (snd (ip_tryAcquireAll a s))"
    by (simp add: ip_tryAcquireAll_def Let_def split: prod.split)
  ultimately show ?thesis using assms by (fastforce simp: ip_wf_def)
next
  case False
  have d: "distinct (map fst (entries (snd (ip_tryAcquireAll a s))))"
    using assms by (auto simp: ip_tryAcquireAll_def Let_def ip_wf_def intro: distinct_fold_update split: prod.split)
  have f: "fenceSeq s \<le> fenceSeq (snd (ip_tryAcquireAll a s))"
    by (simp add: ip_tryAcquireAll_def Let_def split: prod.split)
  have g: "fenceSeq (snd (ip_tryAcquireAll a s)) = fenceSeq s + 1"
    using False by (simp add: ip_tryAcquireAll_def Let_def inspect_none_iff list_ex_iff split: prod.split)
      (metis snd_conv inspect_none_iff list_ex_iff set_dedupeKeys)
  show ?thesis
    using assms d f g tryAcquireAll_Granted [OF False] by (fastforce simp: ip_wf_alt split: if_splits)
qed

lemma wf_release: "ip_wf s \<Longrightarrow> ip_wf (snd (ip_release a s))"
proof -
  assume w: "ip_wf s"
  have "distinct (map fst (entries (snd (ip_release a s))))"
    using w distinct_fold_release [of "(entries s, [])"]
    by (simp add: ip_release_def Let_def ip_wf_def split: prod.split) (metis fst_conv)
  moreover have "fenceSeq (snd (ip_release a s)) = fenceSeq s"
    by (simp add: ip_release_def Let_def split: prod.split)
  ultimately show ?thesis
    using w by (auto simp: ip_wf_alt entries_release split: option.splits if_splits)
qed

lemma wf_renew: "ip_wf s \<Longrightarrow> ip_wf (snd (ip_renew a s))"
proof -
  assume w: "ip_wf s"
  have "distinct (map fst (entries (snd (ip_renew a s))))"
    using w distinct_fold_renew [of "(entries s, 0)"]
    by (simp add: ip_renew_def Let_def ip_wf_def split: prod.split option.split) (metis fst_conv)
  moreover have "fenceSeq (snd (ip_renew a s)) = fenceSeq s"
    by (simp add: ip_renew_def Let_def split: prod.split option.split)
  ultimately show ?thesis
    using w by (auto simp: ip_wf_alt entries_renew split: if_splits)
qed

lemma wf_filter: "ip_wf s \<Longrightarrow> ip_wf (s\<lparr>entries := filter P (entries s)\<rparr>)"
  by (auto simp: ip_wf_def distinct_map_filter)

lemma wf_notify [simp]: "ip_wf (fold ip_notify ks s) = ip_wf s"
  by (simp add: ip_wf_def)

lemma wf_notify1 [simp]: "ip_wf (ip_notify k s) = ip_wf s"
  by (simp add: ip_wf_def)

lemma wf_waiters [simp]: "ip_wf (s\<lparr>waiters := w\<rparr>) = ip_wf s"
  by (simp add: ip_wf_def)

lemma wf_empty: "ip_wf (s\<lparr>entries := []\<rparr>)"
  by (simp add: ip_wf_def)

lemma wf_step: "ip_wf s \<Longrightarrow> ip_wf (ip_step c s)"
proof (cases c)
  case (C_ownerOf k now)
  assume "ip_wf s"
  then have "ip_wf (s\<lparr>entries := AList.delete k (entries s)\<rparr>)"
    using wf_filter [of s "\<lambda>(k', _). k \<noteq> k'"] by (simp add: AList.delete_eq)
  then show ?thesis using \<open>ip_wf s\<close> C_ownerOf by (simp add: ip_ownerOf_def split: option.split)
qed (simp_all add: wf_acquire wf_release wf_renew ip_activeCount_def Let_def ip_sweep_def wf_filter
      wf_waiters wf_empty ip_onRelease_def ip_deregister_def ip_clear_def)

interpretation ip_runs: invariant_fold ip_step ip_wf
  by unfold_locales (rule wf_step)

lemma reachable_wf: "ip_wf (fold ip_step h new_in_process)"
  by (rule ip_runs.fold_inv) (simp add: ip_wf_def new_in_process_def)

section \<open>A lease is exclusive until it expires\<close>

lemma foreign_step_keeps:
  assumes wf: "ip_wf s" and e: "map_of (entries s) k = Some e"
    and f: "foreign_call (en_owner e) (en_expiresAt e) c"
  shows "map_of (entries (ip_step c s)) k = Some e"
proof (cases c)
  case (C_acquire a)
  show ?thesis
  proof (cases "list_ex (held_by_other (aq_owner a) (aq_now a) (entries s)) (aq_keys a)")
    case True
    then show ?thesis using e C_acquire tryAcquireAll_Conflict [OF True] by auto
  next
    case False
    have "k \<notin> set (aq_keys a)"
    proof
      assume "k \<in> set (aq_keys a)"
      moreover have "held_by_other (aq_owner a) (aq_now a) (entries s) k"
        using e f C_acquire by (auto simp: held_by_other_def)
      ultimately show False using False by (auto simp: list_ex_iff)
    qed
    then show ?thesis using e C_acquire tryAcquireAll_Granted [OF False, of k] by simp
  qed
next
  case (C_release a)
  then show ?thesis using e f by (simp add: entries_release releasable_def)
next
  case (C_renew a)
  have "renew_failure a (entries s) (dedupeKeys (rn_keys a)) = None \<Longrightarrow> k \<notin> set (rn_keys a)"
    using e f C_renew by (auto simp: renew_failure_None)
  then show ?thesis using e C_renew by (auto simp: entries_renew)
next
  case (C_ownerOf k' now)
  then show ?thesis using e f by (auto simp: ip_ownerOf_def delete_conv' split: option.split)
next
  case (C_count now)
  then show ?thesis using e f wf
    by (auto simp: ip_activeCount_def Let_def entries_sweep ip_wf_def intro!: map_of_filter_kept)
qed (use e f in \<open>simp_all add: ip_onRelease_def ip_deregister_def\<close>)

lemma foreign_run_keeps:
  assumes "ip_wf s" "map_of (entries s) k = Some e"
    and "list_all (foreign_call (en_owner e) (en_expiresAt e)) cs"
  shows "map_of (entries (fold ip_step cs s)) k = Some e"
  using assms
  by (induction cs arbitrary: s) (auto simp: wf_step foreign_step_keeps)

text \<open>What \<^verbatim>\<open>verify\<close> answers when all its keys carry one and the same lease.\<close>

lemma verify_loop_owned:
  assumes "\<forall>k\<in>set ks. \<exists>e. map_of es k = Some e \<and> en_owner e = vf_owner args \<and> en_expiresAt e = x
      \<and> en_fence e = f"
    and "vf_now args < x" "vf_fence args = Some f"
  shows "verify_loop args es (Some x) f ks = Owned x f"
  using assms(1) by (induction ks) (use assms(2,3) in auto)

lemma verify_owned:
  assumes "\<forall>k\<in>set (vf_keys args). \<exists>e. map_of (entries s) k = Some e \<and> en_owner e = vf_owner args
      \<and> en_expiresAt e = x \<and> en_fence e = f"
    and "vf_now args < x" "vf_fence args = Some f" "vf_keys args \<noteq> []"
  shows "ip_verify args s = Owned x f"
proof -
  obtain k ks where d: "dedupeKeys (vf_keys args) = k # ks" using assms(4) by (metis dedupeKeys_Nil_iff neq_Nil_conv)
  then have "set (k # ks) = set (vf_keys args)" by (metis set_dedupeKeys)
  then have h: "\<forall>k\<in>set (k # ks). \<exists>e. map_of (entries s) k = Some e \<and> en_owner e = vf_owner args
      \<and> en_expiresAt e = x \<and> en_fence e = f"
    using assms(1) by simp
  then have "verify_loop args (entries s) (Some x) f ks = Owned x f"
    using assms(2,3) by (intro verify_loop_owned) auto
  then show ?thesis using h assms(2,3) by (auto simp: ip_verify_def d)
qed

section \<open>Properties\<close>

text \<open>Acquisition in the in-process tier is all or none.  It is refused exactly when another owner
  holds a live entry on some requested key; it then names every such key, once and in order, and
  changes no entry.  Otherwise every requested key carries the new lease with a fence above every
  fence in the store, and no other key changes.\<close>

theorem in_process_all_or_none:
  "case ip_tryAcquireAll a (fold ip_step h new_in_process) of
     (Granted l, s') \<Rightarrow>
       filter (held_by_other (aq_owner a) (aq_now a) (entries (fold ip_step h new_in_process))) (aq_keys a) = []
       \<and> lease_owner l = aq_owner a \<and> set (lease_keys l) = set (aq_keys a) \<and> distinct (lease_keys l)
       \<and> lease_expiresAt l = aq_now a + normaliseTtl (aq_ttlMs a)
       \<and> list_all (\<lambda>(k, e). en_fence e < lease_fence l) (entries (fold ip_step h new_in_process))
       \<and> map_of (entries s') = (\<lambda>k. if k \<in> set (aq_keys a)
            then Some \<lparr>en_owner = aq_owner a, en_expiresAt = lease_expiresAt l, en_side = side_of a k,
                       en_fence = lease_fence l\<rparr>
            else map_of (entries (fold ip_step h new_in_process)) k)
   | (Conflict cs, s') \<Rightarrow>
       cs \<noteq> [] \<and> entries s' = entries (fold ip_step h new_in_process)
       \<and> map cd_key cs = filter (held_by_other (aq_owner a) (aq_now a) (entries (fold ip_step h new_in_process)))
            (dedupeKeys (aq_keys a))
   | (Unavailable _ _, s') \<Rightarrow> False"
proof -
  let ?s = "fold ip_step h new_in_process"
  have w: "ip_wf ?s" by (rule reachable_wf)
  show ?thesis
  proof (cases "list_ex (held_by_other (aq_owner a) (aq_now a) (entries ?s)) (aq_keys a)")
    case True
    from tryAcquireAll_Conflict [OF True] show ?thesis by (auto split: prod.split)
  next
    case False
    have "list_all (\<lambda>(k, e). en_fence e < fenceSeq ?s + 1) (entries ?s)"
      using w by (fastforce simp: ip_wf_def list_all_iff)
    then show ?thesis using tryAcquireAll_Granted [OF False] False
      by (auto simp: list_ex_iff filter_empty_conv fun_eq_iff split: prod.split)
  qed
qed

text \<open>C25. A granted in-process lease protects its keys until it expires.  After any history, and after
  any later calls of other executions made before the expiry (acquisitions, releases, renewals,
  reads and sweeps, in any order), the holder still verifies with its own fence, and an overlapping
  acquisition by anyone else is refused and changes no entry.\<close>

theorem in_process_lease_protects:
  assumes "fst (ip_tryAcquireAll a (fold ip_step h new_in_process)) = Granted l"
    and "list_all (foreign_call (aq_owner a) (lease_expiresAt l)) cs"
    and "s = fold ip_step cs (snd (ip_tryAcquireAll a (fold ip_step h new_in_process)))"
    and "aq_keys a \<noteq> []" and "t < lease_expiresAt l"
    and "aq_owner b \<noteq> aq_owner a" and "aq_now b < lease_expiresAt l"
    and "set (aq_keys a) \<inter> set (aq_keys b) \<noteq> {}"
  shows "ip_verify \<lparr>vf_owner = aq_owner a, vf_keys = aq_keys a, vf_now = t,
           vf_fence = Some (lease_fence l), vf_context = c\<rparr> s = Owned (lease_expiresAt l) (lease_fence l)
    \<and> (\<exists>d ds. fst (ip_tryAcquireAll b s) = Conflict (d # ds))
    \<and> entries (snd (ip_tryAcquireAll b s)) = entries s"
proof -
  let ?s0 = "fold ip_step h new_in_process"
  let ?s1 = "snd (ip_tryAcquireAll a ?s0)"
  let ?e = "\<lambda>k. \<lparr>en_owner = aq_owner a, en_expiresAt = lease_expiresAt l, en_side = side_of a k,
                  en_fence = lease_fence l\<rparr>"
  have ok: "\<not> list_ex (held_by_other (aq_owner a) (aq_now a) (entries ?s0)) (aq_keys a)"
    using assms(1) tryAcquireAll_Conflict by fastforce
  have grant: "map_of (entries ?s1) k = Some (?e k)" if "k \<in> set (aq_keys a)" for k
    using tryAcquireAll_Granted [OF ok, of k] assms(1) that by auto
  have kept: "map_of (entries s) k = Some (?e k)" if "k \<in> set (aq_keys a)" for k
    unfolding assms(3) using assms(2) grant [OF that]
    by (intro foreign_run_keeps wf_acquire reachable_wf) auto
  have v: "ip_verify \<lparr>vf_owner = aq_owner a, vf_keys = aq_keys a, vf_now = t,
      vf_fence = Some (lease_fence l), vf_context = c\<rparr> s = Owned (lease_expiresAt l) (lease_fence l)"
    using kept assms(4,5) by (intro verify_owned) auto
  obtain k where k: "k \<in> set (aq_keys a)" "k \<in> set (aq_keys b)" using assms(8) by blast
  have "held_by_other (aq_owner b) (aq_now b) (entries s) k"
    using kept [OF k(1)] assms(6,7) by (simp add: held_by_other_def)
  then have "list_ex (held_by_other (aq_owner b) (aq_now b) (entries s)) (aq_keys b)"
    using k(2) by (auto simp: list_ex_iff)
  from tryAcquireAll_Conflict [OF this] v show ?thesis by (auto simp: neq_Nil_conv)
qed

definition sample_acquire :: "string \<Rightarrow> int \<Rightarrow> string list \<Rightarrow> AcquireArgs" where
  "sample_acquire owner now ks =
     \<lparr>aq_owner = owner, aq_keys = ks, aq_ttlMs = Fin 1000, aq_now = now, aq_sideByKey = None, aq_context = None\<rparr>"

lemma sample_acquire_parts [simp]:
  "aq_owner (sample_acquire p now ks) = p" "aq_keys (sample_acquire p now ks) = ks"
  "aq_now (sample_acquire p now ks) = now" "aq_ttlMs (sample_acquire p now ks) = Fin 1000"
  by (simp_all add: sample_acquire_def)

theorem in_process_lease_protects_witness:
  "ip_verify \<lparr>vf_owner = ''A'', vf_keys = [''x'', ''y''], vf_now = 900, vf_fence = Some 1, vf_context = None\<rparr>
      (fold ip_step [C_acquire (sample_acquire ''C'' 500 [''z'']), C_count 600]
        (snd (ip_tryAcquireAll (sample_acquire ''A'' 0 [''x'', ''y'']) (fold ip_step [] new_in_process)))) = Owned 1000 1
   \<and> (\<exists>d ds. fst (ip_tryAcquireAll (sample_acquire ''B'' 999 [''y''])
        (fold ip_step [C_acquire (sample_acquire ''C'' 500 [''z'']), C_count 600]
          (snd (ip_tryAcquireAll (sample_acquire ''A'' 0 [''x'', ''y'']) (fold ip_step [] new_in_process))))) = Conflict (d # ds))
   \<and> entries (snd (ip_tryAcquireAll (sample_acquire ''B'' 999 [''y''])
        (fold ip_step [C_acquire (sample_acquire ''C'' 500 [''z'']), C_count 600]
          (snd (ip_tryAcquireAll (sample_acquire ''A'' 0 [''x'', ''y'']) (fold ip_step [] new_in_process)))))) =
      entries (fold ip_step [C_acquire (sample_acquire ''C'' 500 [''z'']), C_count 600]
          (snd (ip_tryAcquireAll (sample_acquire ''A'' 0 [''x'', ''y'']) (fold ip_step [] new_in_process))))"
  by (rule in_process_lease_protects
        [where a = "sample_acquire ''A'' 0 [''x'', ''y'']" and h = "[]" and t = 900 and c = None
          and cs = "[C_acquire (sample_acquire ''C'' 500 [''z'']), C_count 600]"
          and b = "sample_acquire ''B'' 999 [''y'']"
          and l = "\<lparr>lease_owner = ''A'', lease_keys = [''x'', ''y''], lease_expiresAt = 1000, lease_fence = 1,
                    lease_durability = local_only\<rparr>", OF _ _ refl, unfolded sample_acquire_parts ReservationLease.select_convs])
    (simp_all add: ip_tryAcquireAll_def new_in_process_def dedupeKeys_def sample_acquire_def Let_def)

end
