(* ===== verification/Chained_Reservations.thy ===== *)
theory Chained_Reservations
  imports In_Process_Reservations
begin

text \<open>
  The chain of tiers, \<^verbatim>\<open>src/box/reservations/chained.ts\<close>, and the stack of
  \<^verbatim>\<open>createReservationStack\<close>: the in-process filter in front of the durable authority.

  A tier is a record of operations on the state \<open>'w\<close> of the whole stack; \<open>Inl\<close> is an operation that
  throws.  The chain itself keeps, per owner, the fence each tier issued.  An operation of a tier is
  one step here: the chain awaits it, and everything the other executions do meanwhile is part of
  the tier's state change.
\<close>

section \<open>Tiers\<close>

record 'w tier =
  t_name :: string
  t_durable :: bool
  t_ready :: "'w \<Rightarrow> bool"
  t_acquire :: "AcquireArgs \<Rightarrow> 'w \<Rightarrow> (string + ReservationOutcome) \<times> 'w"
  t_release :: "ReleaseArgs \<Rightarrow> 'w \<Rightarrow> (string + nat) \<times> 'w"
  t_renew :: "RenewArgs \<Rightarrow> 'w \<Rightarrow> (string + RenewOutcome) \<times> 'w"
  t_verify :: "VerifyArgs \<Rightarrow> 'w \<Rightarrow> (string + OwnershipVerdict) \<times> 'w"
  t_ownerOf :: "string \<Rightarrow> int \<Rightarrow> 'w \<Rightarrow> string option \<times> 'w"
  t_sideOf :: "string \<Rightarrow> int \<Rightarrow> 'w \<Rightarrow> string option \<times> 'w"
  t_activeCount :: "int \<Rightarrow> 'w \<Rightarrow> nat \<times> 'w"
  t_clear :: "'w \<Rightarrow> (string + unit) \<times> 'w"

record 'w chain =
  ch_fences :: "string \<rightharpoonup> (string \<rightharpoonup> nat)"
  ch_world :: 'w

definition chain_durable :: "'w tier list \<Rightarrow> bool" where
  "chain_durable ts = list_ex t_durable ts"

definition chain_ready :: "'w tier list \<Rightarrow> 'w chain \<Rightarrow> bool" where
  "chain_ready ts c = list_all (\<lambda>t. t_ready t (ch_world c)) ts"

definition chain_name :: "'w tier list \<Rightarrow> string" where
  "chain_name ts = concat (map (\<lambda>(i, t). (if i = 0 then [] else ''+'') @ t_name t) (zip [0..<length ts] ts))"

text \<open>\<^verbatim>\<open>[...tiers].reverse().find(t => t.durable) ?? tiers[0]\<close>.\<close>

definition authority :: "'w tier list \<Rightarrow> 'w tier option" where
  "authority ts =
     (case find t_durable (rev ts) of
        Some t \<Rightarrow> Some t
      | None \<Rightarrow> (case ts of [] \<Rightarrow> None | t # _ \<Rightarrow> Some t))"

section \<open>Fences per tier\<close>

definition fence_for :: "'w chain \<Rightarrow> string \<Rightarrow> string \<Rightarrow> nat option" where
  "fence_for c owner tier = Option.bind (ch_fences c owner) (\<lambda>m. m tier)"

definition authorityFenceMismatch :: "'w tier list \<Rightarrow> string \<Rightarrow> nat option \<Rightarrow> 'w chain \<Rightarrow> bool" where
  "authorityFenceMismatch ts owner quoted c =
     (case quoted of
        None \<Rightarrow> False
      | Some q \<Rightarrow>
          (case authority ts of
             None \<Rightarrow> False
           | Some t \<Rightarrow> (case fence_for c owner (t_name t) of None \<Rightarrow> False | Some i \<Rightarrow> i \<noteq> q)))"

definition forget :: "string \<Rightarrow> 'w chain \<Rightarrow> 'w chain" where
  "forget owner c = c\<lparr>ch_fences := (ch_fences c)(owner := None)\<rparr>"

section \<open>Acquire\<close>

fun rollback :: "'w tier list \<Rightarrow> AcquireArgs \<Rightarrow> 'w \<Rightarrow> 'w" where
  "rollback [] a w = w"
| "rollback (t # ts) a w =
     rollback ts a (snd (t_release t \<lparr>rl_owner = aq_owner a, rl_keys = Some (dedupeKeys (aq_keys a)),
                                      rl_now = aq_now a, rl_fence = None\<rparr> w))"

record grant_acc =
  ga_issued :: "string \<rightharpoonup> nat"
  ga_durability :: ReservationDurability
  ga_fence :: nat
  ga_expiresAt :: int

text \<open>The loop over the tiers; \<open>taken\<close> is in reverse order, as \<^verbatim>\<open>rollback\<close> walks it.\<close>

fun acquire_tiers ::
    "'w tier list \<Rightarrow> 'w tier list \<Rightarrow> grant_acc \<Rightarrow> AcquireArgs \<Rightarrow> 'w \<Rightarrow> (ReservationOutcome + grant_acc) \<times> 'w" where
  "acquire_tiers [] taken acc a w = (Inr acc, w)"
| "acquire_tiers (t # ts) taken acc a w =
     (case t_acquire t a w of
        (Inl m, w1) \<Rightarrow> (Inl (Unavailable (t_name t) m), rollback taken a w1)
      | (Inr (Granted l), w1) \<Rightarrow>
          (let acc1 = acc\<lparr>ga_issued := (ga_issued acc)(t_name t \<mapsto> lease_fence l)\<rparr>;
               acc2 = (if t_durable t \<or> ga_durability acc1 = local_only
                       then acc1\<lparr>ga_fence := lease_fence l, ga_expiresAt := lease_expiresAt l\<rparr> else acc1);
               acc3 = (if lease_durability l = durable_lease then acc2\<lparr>ga_durability := durable_lease\<rparr> else acc2)
           in acquire_tiers ts (t # taken) acc3 a w1)
      | (Inr refusal, w1) \<Rightarrow> (Inl refusal, rollback taken a w1))"

definition chain_tryAcquireAll :: "'w tier list \<Rightarrow> AcquireArgs \<Rightarrow> 'w chain \<Rightarrow> ReservationOutcome \<times> 'w chain" where
  "chain_tryAcquireAll ts a c =
     (case acquire_tiers ts []
        \<lparr>ga_issued = Map.empty, ga_durability = local_only, ga_fence = 0,
         ga_expiresAt = aq_now a + normaliseTtl (aq_ttlMs a)\<rparr> a (ch_world c) of
        (Inl refusal, w) \<Rightarrow> (refusal, forget (aq_owner a) (c\<lparr>ch_world := w\<rparr>))
      | (Inr acc, w) \<Rightarrow>
          (Granted \<lparr>lease_owner = aq_owner a, lease_keys = dedupeKeys (aq_keys a),
                    lease_expiresAt = ga_expiresAt acc, lease_fence = ga_fence acc,
                    lease_durability = ga_durability acc\<rparr>,
           c\<lparr>ch_world := w, ch_fences := (ch_fences c)(aq_owner a \<mapsto> ga_issued acc)\<rparr>))"

section \<open>Release, renew, verify\<close>

fun release_tiers :: "'w tier list \<Rightarrow> ('w tier \<Rightarrow> nat option) \<Rightarrow> ReleaseArgs \<Rightarrow> nat \<Rightarrow> 'w \<Rightarrow> nat \<times> 'w" where
  "release_tiers [] f a n w = (n, w)"
| "release_tiers (t # ts) f a n w =
     (case t_release t (a\<lparr>rl_fence := f t\<rparr>) w of
        (Inl _, w1) \<Rightarrow> release_tiers ts f a n w1
      | (Inr r, w1) \<Rightarrow> release_tiers ts f a (max n r) w1)"

definition chain_release :: "'w tier list \<Rightarrow> ReleaseArgs \<Rightarrow> 'w chain \<Rightarrow> nat \<times> 'w chain" where
  "chain_release ts a c =
     (if authorityFenceMismatch ts (rl_owner a) (rl_fence a) c then (0, c)
      else
        let (n, w) = release_tiers (rev ts) (\<lambda>t. fence_for c (rl_owner a) (t_name t)) a 0 (ch_world c)
        in (n, forget (rl_owner a) (c\<lparr>ch_world := w\<rparr>)))"

record 'w renew_acc =
  ra_expiresAt :: "int option"
  ra_fence :: nat
  ra_failure :: "(RenewFailure \<times> string) option"
  ra_chain :: "'w chain"

definition renew_tier :: "RenewArgs \<Rightarrow> 'w tier \<Rightarrow> 'w renew_acc \<Rightarrow> 'w renew_acc" where
  "renew_tier a t acc =
     (let c = ra_chain acc;
          (r, w) = t_renew t (a\<lparr>rn_fence := fence_for c (rn_owner a) (t_name t)\<rparr>) (ch_world c);
          outcome = (case r of Inl m \<Rightarrow> NotRenewed renew_unavailable m | Inr x \<Rightarrow> x);
          c1 = c\<lparr>ch_world := w\<rparr>
      in case outcome of
           NotRenewed reason d \<Rightarrow>
             (case ra_failure acc of
                None \<Rightarrow> acc\<lparr>ra_failure := Some (reason, d), ra_chain := c1\<rparr>
              | Some (old, _) \<Rightarrow>
                  if reason = renew_unavailable \<and> old \<noteq> renew_unavailable
                  then acc\<lparr>ra_failure := Some (reason, d), ra_chain := c1\<rparr> else acc\<lparr>ra_chain := c1\<rparr>)
         | Renewed x f \<Rightarrow>
             acc\<lparr>ra_expiresAt := Some (case ra_expiresAt acc of None \<Rightarrow> x | Some y \<Rightarrow> min y x),
                 ra_fence := (if t_durable t \<or> ra_fence acc = 0 then f else ra_fence acc),
                 ra_chain := c1\<lparr>ch_fences := (case ch_fences c1 (rn_owner a) of
                     None \<Rightarrow> ch_fences c1 | Some m \<Rightarrow> (ch_fences c1)(rn_owner a \<mapsto> m(t_name t \<mapsto> f)))\<rparr>\<rparr>)"

definition chain_renew :: "'w tier list \<Rightarrow> RenewArgs \<Rightarrow> 'w chain \<Rightarrow> RenewOutcome \<times> 'w chain" where
  "chain_renew ts a c =
     (if authorityFenceMismatch ts (rn_owner a) (rn_fence a) c
      then (NotRenewed renew_lost (chain_name ts @ '': the lease has been superseded''), c)
      else
        let acc = fold (renew_tier a) ts \<lparr>ra_expiresAt = None, ra_fence = 0, ra_failure = None, ra_chain = c\<rparr>
        in case ra_failure acc of
             Some (reason, d) \<Rightarrow>
               (NotRenewed reason d,
                if reason \<noteq> renew_unavailable then forget (rn_owner a) (ra_chain acc) else ra_chain acc)
           | None \<Rightarrow>
               (Renewed (case ra_expiresAt acc of None \<Rightarrow> rn_now a | Some x \<Rightarrow> x) (ra_fence acc), ra_chain acc))"

fun loss_rank :: "OwnershipLoss \<Rightarrow> nat" where
  "loss_rank own_unavailable = 3"
| "loss_rank own_superseded = 2"
| "loss_rank _ = 1"

record 'w verify_acc =
  va_expiresAt :: "int option"
  va_fence :: nat
  va_failure :: "(OwnershipLoss \<times> string) option"
  va_world :: 'w

definition verify_tier :: "('w tier \<Rightarrow> nat option) \<Rightarrow> VerifyArgs \<Rightarrow> 'w tier \<Rightarrow> 'w verify_acc \<Rightarrow> 'w verify_acc" where
  "verify_tier f a t acc =
     (let (r, w) = t_verify t (a\<lparr>vf_fence := f t\<rparr>) (va_world acc) in
      case (case r of Inl m \<Rightarrow> NotOwned own_unavailable m | Inr x \<Rightarrow> x) of
        NotOwned reason d \<Rightarrow>
          (case va_failure acc of
             None \<Rightarrow> acc\<lparr>va_failure := Some (reason, d), va_world := w\<rparr>
           | Some (old, _) \<Rightarrow>
               if loss_rank old < loss_rank reason
               then acc\<lparr>va_failure := Some (reason, d), va_world := w\<rparr> else acc\<lparr>va_world := w\<rparr>)
      | Owned x g \<Rightarrow>
          acc\<lparr>va_expiresAt := Some (case va_expiresAt acc of None \<Rightarrow> x | Some y \<Rightarrow> min y x),
              va_fence := (if t_durable t \<or> va_fence acc = 0 then g else va_fence acc), va_world := w\<rparr>)"

definition chain_verify :: "'w tier list \<Rightarrow> VerifyArgs \<Rightarrow> 'w chain \<Rightarrow> OwnershipVerdict \<times> 'w chain" where
  "chain_verify ts a c =
     (if authorityFenceMismatch ts (vf_owner a) (vf_fence a) c
      then (NotOwned own_lost (chain_name ts @ '': the lease has been superseded''), c)
      else
        let acc = fold (verify_tier (\<lambda>t. fence_for c (vf_owner a) (t_name t)) a) ts
                    \<lparr>va_expiresAt = None, va_fence = 0, va_failure = None, va_world = ch_world c\<rparr>;
            c1 = c\<lparr>ch_world := va_world acc\<rparr>
        in case va_failure acc of
             Some (reason, d) \<Rightarrow> (NotOwned reason d, c1)
           | None \<Rightarrow> (Owned (case va_expiresAt acc of None \<Rightarrow> vf_now a | Some x \<Rightarrow> x) (va_fence acc), c1))"

section \<open>Reads and clear\<close>

definition chain_read ::
    "('w tier \<Rightarrow> string \<Rightarrow> int \<Rightarrow> 'w \<Rightarrow> string option \<times> 'w) \<Rightarrow> 'w tier list \<Rightarrow> string \<Rightarrow> int \<Rightarrow> 'w chain \<Rightarrow>
     string option \<times> 'w chain" where
  "chain_read read ts key now c =
     (case authority ts of
        None \<Rightarrow> (None, c)
      | Some t \<Rightarrow>
          (case read t key now (ch_world c) of
             (Some p, w) \<Rightarrow> (Some p, c\<lparr>ch_world := w\<rparr>)
           | (None, w) \<Rightarrow>
               (case ts of
                  [] \<Rightarrow> (None, c\<lparr>ch_world := w\<rparr>)
                | first # _ \<Rightarrow>
                    if t_name first = t_name t then (None, c\<lparr>ch_world := w\<rparr>)
                    else let (r, w1) = read first key now w in (r, c\<lparr>ch_world := w1\<rparr>))))"

definition chain_ownerOf :: "'w tier list \<Rightarrow> string \<Rightarrow> int \<Rightarrow> 'w chain \<Rightarrow> string option \<times> 'w chain" where
  "chain_ownerOf ts key now c = chain_read t_ownerOf ts key now c"

definition chain_sideOf :: "'w tier list \<Rightarrow> string \<Rightarrow> int \<Rightarrow> 'w chain \<Rightarrow> string option \<times> 'w chain" where
  "chain_sideOf ts key now c = chain_read t_sideOf ts key now c"

definition chain_activeCount :: "'w tier list \<Rightarrow> int \<Rightarrow> 'w chain \<Rightarrow> nat \<times> 'w chain" where
  "chain_activeCount ts now c =
     (case ts of
        [] \<Rightarrow> (0, c)
      | t # _ \<Rightarrow> let (n, w) = t_activeCount t now (ch_world c) in (n, c\<lparr>ch_world := w\<rparr>))"

definition chain_clear :: "'w tier list \<Rightarrow> 'w chain \<Rightarrow> 'w chain" where
  "chain_clear ts c =
     \<lparr>ch_fences = Map.empty, ch_world = fold (\<lambda>t w. snd (t_clear t w)) (rev ts) (ch_world c)\<rparr>"

section \<open>The stack\<close>

text \<open>The in-process store as a tier on the first component of the state; none of its operations
  throws.\<close>

definition local_tier :: "(in_process \<times> 'd) tier" where
  "local_tier =
     \<lparr>t_name = ip_name, t_durable = False, t_ready = (\<lambda>_. True),
      t_acquire = (\<lambda>a (s, d). let (r, s') = ip_tryAcquireAll a s in (Inr r, s', d)),
      t_release = (\<lambda>a (s, d). let (n, s') = ip_release a s in (Inr n, s', d)),
      t_renew = (\<lambda>a (s, d). let (r, s') = ip_renew a s in (Inr r, s', d)),
      t_verify = (\<lambda>a (s, d). (Inr (ip_verify a s), s, d)),
      t_ownerOf = (\<lambda>k now (s, d). let (r, s') = ip_ownerOf k now s in (r, s', d)),
      t_sideOf = (\<lambda>k now (s, d). (ip_sideOf k now s, s, d)),
      t_activeCount = (\<lambda>now (s, d). let (n, s') = ip_activeCount now s in (n, s', d)),
      t_clear = (\<lambda>(s, d). (Inr (), ip_clear s, d))\<rparr>"

text \<open>\<^verbatim>\<open>createReservationStack\<close> with the durable tier enabled: the acquire order is local, then
  durable.  With the durable tier disabled the store is the in-process store itself, not a chain.\<close>

definition reservation_stack :: "(in_process \<times> 'd) tier \<Rightarrow> (in_process \<times> 'd) tier list" where
  "reservation_stack D = [local_tier, D]"

lemma local_tier_select [simp]:
  "t_name local_tier = ip_name" "t_durable local_tier = False"
  "t_acquire local_tier a (s, d) = (Inr (fst (ip_tryAcquireAll a s)), snd (ip_tryAcquireAll a s), d)"
  "t_release local_tier r (s, d) = (Inr (fst (ip_release r s)), snd (ip_release r s), d)"
  "t_verify local_tier v (s, d) = (Inr (ip_verify v s), s, d)"
  by (simp_all add: local_tier_def split: prod.split)

text \<open>A tier behind the local one leaves the in-process store alone.\<close>

definition separate :: "(in_process \<times> 'd) tier \<Rightarrow> bool" where
  "separate D \<longleftrightarrow>
     (\<forall>a w. fst (snd (t_acquire D a w)) = fst w) \<and> (\<forall>a w. fst (snd (t_release D a w)) = fst w) \<and>
     (\<forall>a w. fst (snd (t_verify D a w)) = fst w) \<and> t_name D \<noteq> ip_name"

section \<open>Acquiring and rolling back the local tier\<close>

text \<open>Acquiring and then releasing the same keys for an owner that held nothing leaves no entry of that
  owner and every entry that was live.\<close>

definition local_undone :: "AcquireArgs \<Rightarrow> in_process \<Rightarrow> in_process \<Rightarrow> bool" where
  "local_undone a s s' \<longleftrightarrow>
     map_of (entries s') \<subseteq>\<^sub>m map_of (entries s) \<and>
     (\<forall>k e. map_of (entries s) k = Some e \<longrightarrow> aq_now a < en_expiresAt e \<longrightarrow> map_of (entries s') k = Some e)"

definition owns_nothing :: "string \<Rightarrow> in_process \<Rightarrow> bool" where
  "owns_nothing p s \<longleftrightarrow> (\<forall>e \<in> ran (map_of (entries s)). en_owner e \<noteq> p)"

lemma acquire_release_undone:
  assumes "owns_nothing (aq_owner a) s"
    and "fst (ip_tryAcquireAll a s) = Granted l"
  shows "local_undone a s (snd (ip_release \<lparr>rl_owner = aq_owner a, rl_keys = Some (dedupeKeys (aq_keys a)),
           rl_now = n, rl_fence = None\<rparr> (snd (ip_tryAcquireAll a s))))"
proof -
  have ok: "\<not> list_ex (held_by_other (aq_owner a) (aq_now a) (entries s)) (aq_keys a)"
    using assms(2) tryAcquireAll_Conflict by fastforce
  have dead: "en_expiresAt e \<le> aq_now a" if "k \<in> set (aq_keys a)" "map_of (entries s) k = Some e" for k e
    using ok that assms(1) by (fastforce simp: list_ex_iff held_by_other_def owns_nothing_def ran_def)
  have fresh: "en_owner e \<noteq> aq_owner a" if "map_of (entries s) k = Some e" for k e
    using assms(1) that by (auto simp: owns_nothing_def ran_def)
  show ?thesis
    using dead fresh
    by (auto simp: local_undone_def map_le_def dom_def entries_release tryAcquireAll_Granted [OF ok] releasable_def
        fence_mismatch_def split: option.splits if_splits) fastforce+
qed

section \<open>Properties\<close>


text \<open>Execution may proceed only when every tier agrees.  The stack answers \<open>Owned\<close> exactly when the
  quoted fence is not one the authority has replaced, the local tier owns under the fence the local
  tier issued and the durable tier owns under the fence the durable tier issued; the expiry reported
  is the earlier of the two and the fence is the durable tier's.  Verifying changes no bookkeeping.\<close>

theorem stack_verify_unanimous:
  assumes "separate D" and "t_durable D"
    and "chain_verify (reservation_stack D) v \<lparr>ch_fences = m, ch_world = (s, d)\<rparr> = (r, c)"
  shows "(r = Owned x f \<longleftrightarrow>
      (case (vf_fence v, Option.bind (m (vf_owner v)) (\<lambda>t. t (t_name D))) of
         (Some q, Some i) \<Rightarrow> q = i | _ \<Rightarrow> True) \<and>
      (\<exists>xl fl xd. ip_verify (v\<lparr>vf_fence := Option.bind (m (vf_owner v)) (\<lambda>t. t ip_name)\<rparr>) s = Owned xl fl \<and>
         fst (t_verify D (v\<lparr>vf_fence := Option.bind (m (vf_owner v)) (\<lambda>t. t (t_name D))\<rparr>) (s, d)) = Inr (Owned xd f) \<and>
         x = min xl xd))
    \<and> ch_fences c = m"
proof -
  let ?fl = "Option.bind (m (vf_owner v)) (\<lambda>t. t ip_name)"
  let ?fd = "Option.bind (m (vf_owner v)) (\<lambda>t. t (t_name D))"
  obtain o1 w1 where t: "t_verify D (v\<lparr>vf_fence := ?fd\<rparr>) (s, d) = (o1, w1)" by (rule prod.exhaust)
  have auth: "authority (reservation_stack D) = Some D"
    using assms(2) by (simp add: authority_def reservation_stack_def)
  have mis: "authorityFenceMismatch (reservation_stack D) (vf_owner v) (vf_fence v) \<lparr>ch_fences = m, ch_world = (s, d)\<rparr>
      \<longleftrightarrow> \<not> (case (vf_fence v, ?fd) of (Some q, Some i) \<Rightarrow> q = i | _ \<Rightarrow> True)"
    by (auto simp: authorityFenceMismatch_def auth fence_for_def split: option.split)
  show ?thesis
  proof (cases "authorityFenceMismatch (reservation_stack D) (vf_owner v) (vf_fence v) \<lparr>ch_fences = m, ch_world = (s, d)\<rparr>")
    case True
    then show ?thesis using assms(3) mis by (auto simp: chain_verify_def)
  next
    case False
    show ?thesis
      using assms(2,3) False mis t
      by (auto simp: chain_verify_def reservation_stack_def fence_for_def verify_tier_def Let_def
          split: OwnershipVerdict.splits sum.splits option.splits if_splits)
  qed
qed

section \<open>Witnesses\<close>

text \<open>A durable tier that grants one lease under fence 7 and then cannot be reached.\<close>

definition sample_tier :: "(in_process \<times> bool) tier" where
  "sample_tier =
     \<lparr>t_name = ''durable'', t_durable = True, t_ready = (\<lambda>_. True),
      t_acquire = (\<lambda>a (s, up). (if up then Inr (Granted \<lparr>lease_owner = aq_owner a, lease_keys = aq_keys a,
          lease_expiresAt = aq_now a + 500, lease_fence = 7, lease_durability = durable_lease\<rparr>)
        else Inl ''connection refused'', s, False)),
      t_release = (\<lambda>a w. (Inr 0, w)), t_renew = (\<lambda>a w. (Inl ''connection refused'', w)),
      t_verify = (\<lambda>v w. (if vf_fence v = Some 7 then Inr (Owned 500 7) else Inr (NotOwned own_lost ''lost''), w)),
      t_ownerOf = (\<lambda>k now w. (None, w)), t_sideOf = (\<lambda>k now w. (None, w)),
      t_activeCount = (\<lambda>now w. (0, w)), t_clear = (\<lambda>w. (Inr (), w))\<rparr>"

definition sample_local :: in_process where
  "sample_local = snd (ip_tryAcquireAll (sample_acquire ''B'' 0 [''z'']) new_in_process)"

lemma sample_separate: "separate sample_tier"
  by (auto simp: separate_def sample_tier_def ip_name_def split: prod.split)


theorem stack_verify_unanimous_witness:
  "fst (chain_verify (reservation_stack sample_tier)
      \<lparr>vf_owner = ''B'', vf_keys = [''z''], vf_now = 1, vf_fence = Some 7, vf_context = None\<rparr>
      \<lparr>ch_fences = [''B'' \<mapsto> [''in-process'' \<mapsto> 1, ''durable'' \<mapsto> 7]], ch_world = (sample_local, True)\<rparr>) = Owned 500 7"
proof -
  have d: "t_durable sample_tier" by (simp add: sample_tier_def)
  show ?thesis
    by (rule stack_verify_unanimous [OF sample_separate d prod.collapse [symmetric], THEN conjunct1, THEN iffD2])
      (simp add: sample_tier_def sample_local_def ip_verify_def ip_tryAcquireAll_def new_in_process_def
        dedupeKeys_def sample_acquire_def ip_name_def Let_def)
qed

end
