(* ===== verification/Bounded_Queue.thy ===== *)
theory Bounded_Queue
  imports Box_Prelude "HOL-Library.AList"
begin

text \<open>
  Backpressure, \<^verbatim>\<open>src/box/boundedQueue.ts\<close>: the queue with its two overflow disciplines and the
  pipeline of stages, each drained by its own loop.

  The record \<open>queue\<close> holds the private fields of \<^verbatim>\<open>BoundedQueue\<close>; the overload callback is an entry in
  the log \<open>emitted\<close>.  Capacities are natural numbers.  The values are of any type without \<^verbatim>\<open>undefined\<close>.  A stage's drain loop runs in
  segments between the awaits of its handler: a pump starts the loop of every stage that has none
  running, and the completion of a handler resumes its stage alone.  \<open>handed\<close> records what the handler
  was given.
\<close>

section \<open>The queue\<close>

datatype OverflowPolicy = coalesce | never_drop

record BoundedQueueOptions =
  qo_name :: string
  qo_capacity :: nat
  qo_overflow :: OverflowPolicy

record 'a QueuedItem =
  qi_key :: string
  qi_value :: 'a
  qi_enqueuedAt :: int

record 'a queue =
  opts :: BoundedQueueOptions
  items :: "'a QueuedItem list"
  indexByKey :: "string \<rightharpoonup> nat"
  isOverloaded :: bool
  droppedHold :: bool
  enqueuedCount :: nat
  processedCount :: nat
  droppedCount :: nat
  coalescedCount :: nat
  overloadEventCount :: nat
  emitted :: "(string \<times> nat \<times> nat) list"

definition new_queue :: "BoundedQueueOptions \<Rightarrow> 'a queue" where
  "new_queue os =
     \<lparr>opts = os, items = [], indexByKey = Map.empty, isOverloaded = False, droppedHold = False,
      enqueuedCount = 0, processedCount = 0, droppedCount = 0, coalescedCount = 0,
      overloadEventCount = 0, emitted = []\<rparr>"

definition depth :: "'a queue \<Rightarrow> nat" where
  "depth q = length (items q)"

definition oldestAgeMs :: "int \<Rightarrow> 'a queue \<Rightarrow> int option" where
  "oldestAgeMs now q = (case items q of [] \<Rightarrow> None | i # _ \<Rightarrow> Some (max 0 (now - qi_enqueuedAt i)))"

definition peek :: "'a queue \<Rightarrow> 'a option" where
  "peek q = (case items q of [] \<Rightarrow> None | i # _ \<Rightarrow> Some (qi_value i))"

definition emitOverload :: "'a queue \<Rightarrow> 'a queue" where
  "emitOverload q =
     q\<lparr>overloadEventCount := overloadEventCount q + 1,
       emitted := emitted q @ [(qo_name (opts q), depth q, droppedCount q)]\<rparr>"

definition forceOverload :: "'a queue \<Rightarrow> 'a queue" where
  "forceOverload q =
     (let q1 = q\<lparr>droppedHold := True\<rparr>
      in if isOverloaded q1 then q1 else emitOverload (q1\<lparr>isOverloaded := True\<rparr>))"

definition reassess :: "'a queue \<Rightarrow> 'a queue" where
  "reassess q =
     (let nowOver = qo_capacity (opts q) < depth q in
      if nowOver \<and> \<not> isOverloaded q then emitOverload (q\<lparr>isOverloaded := True\<rparr>)
      else if \<not> nowOver \<and> isOverloaded q \<and> \<not> droppedHold q then q\<lparr>isOverloaded := False\<rparr>
      else q)"

text \<open>The index rebuilt over the whole queue.\<close>

fun index_from :: "nat \<Rightarrow> 'a QueuedItem list \<Rightarrow> (string \<rightharpoonup> nat) \<Rightarrow> (string \<rightharpoonup> nat)" where
  "index_from n [] m = m"
| "index_from n (i # is) m = index_from (Suc n) is (m(qi_key i \<mapsto> n))"

definition reindexAfterShift :: "string \<Rightarrow> 'a queue \<Rightarrow> 'a queue" where
  "reindexAfterShift removedKey q = q\<lparr>indexByKey := index_from 0 (items q) Map.empty\<rparr>"

definition dropOldest :: "'a queue \<Rightarrow> 'a queue" where
  "dropOldest q =
     (case items q of
        [] \<Rightarrow> q
      | d # rest \<Rightarrow>
          forceOverload (reindexAfterShift (qi_key d) (q\<lparr>items := rest, droppedCount := droppedCount q + 1\<rparr>)))"

definition enqueue :: "int \<Rightarrow> 'a \<Rightarrow> string \<Rightarrow> 'a queue \<Rightarrow> 'a queue" where
  "enqueue now v k q =
     (let q1 = q\<lparr>enqueuedCount := enqueuedCount q + 1\<rparr>;
          fresh = \<lparr>qi_key = k, qi_value = v, qi_enqueuedAt = now\<rparr>
      in case qo_overflow (opts q) of
           coalesce \<Rightarrow>
             (case indexByKey q1 k of
                Some i \<Rightarrow>
                  reassess (q1\<lparr>items := (items q1)[i := (items q1 ! i)\<lparr>qi_value := v\<rparr>],
                               coalescedCount := coalescedCount q1 + 1\<rparr>)
              | None \<Rightarrow>
                  let q2 = (if qo_capacity (opts q1) \<le> depth q1 then dropOldest q1 else q1);
                      q3 = q2\<lparr>items := items q2 @ [fresh]\<rparr>
                  in reassess (q3\<lparr>indexByKey := (indexByKey q3)(k \<mapsto> depth q3 - 1)\<rparr>))
         | never_drop \<Rightarrow> reassess (q1\<lparr>items := items q1 @ [fresh]\<rparr>))"

definition dequeue :: "'a queue \<Rightarrow> 'a option \<times> 'a queue" where
  "dequeue q =
     (case items q of
        [] \<Rightarrow> (None, q)
      | i # rest \<Rightarrow>
          let q1 = q\<lparr>items := rest, processedCount := processedCount q + 1, droppedHold := False\<rparr>;
              q2 = (if qo_overflow (opts q1) = coalesce then reindexAfterShift (qi_key i) q1 else q1)
          in (Some (qi_value i), reassess q2))"

definition drainAll :: "'a queue \<Rightarrow> 'a list \<times> 'a queue" where
  "drainAll q =
     (map qi_value (items q),
      reassess (q\<lparr>items := [], processedCount := processedCount q + depth q, indexByKey := Map.empty,
                  droppedHold := False\<rparr>))"

section \<open>The pipeline\<close>

record 'a stage =
  st_queue :: "'a queue"
  draining :: bool
  handling :: "'a option"
  handed :: "'a list"

type_synonym 'a pipeline = "(string \<times> 'a stage) list"

definition addStage :: "BoundedQueueOptions \<Rightarrow> 'a pipeline \<Rightarrow> string + 'a pipeline" where
  "addStage def p =
     (if qo_name def \<in> set (map fst p) then Inl (''stage '' @ qo_name def @ '' already exists'')
      else Inr (p @ [(qo_name def, \<lparr>st_queue = new_queue def, draining = False, handling = None, handed = []\<rparr>)]))"

definition pl_enqueue :: "string \<Rightarrow> int \<Rightarrow> 'a \<Rightarrow> string \<Rightarrow> 'a pipeline \<Rightarrow> string + 'a pipeline" where
  "pl_enqueue name now v k p =
     (case map_of p name of
        None \<Rightarrow> Inl (''unknown stage '' @ name)
      | Some s \<Rightarrow> Inr (AList.update name (s\<lparr>st_queue := enqueue now v k (st_queue s)\<rparr>) p))"

definition totalDepth :: "'a pipeline \<Rightarrow> nat" where
  "totalDepth p = (\<Sum>(n, s) \<leftarrow> p. depth (st_queue s))"

definition pl_isOverloaded :: "'a pipeline \<Rightarrow> bool" where
  "pl_isOverloaded p = list_ex (\<lambda>(n, s). isOverloaded (st_queue s)) p"

definition overloadedStages :: "'a pipeline \<Rightarrow> string list" where
  "overloadedStages p = map fst (filter (\<lambda>(n, s). isOverloaded (st_queue s)) p)"

text \<open>The body of the drain loop up to the next await, and the resumption after it.\<close>

definition drain_loop :: "'a stage \<Rightarrow> 'a stage" where
  "drain_loop s =
     (case dequeue (st_queue s) of
        (None, q) \<Rightarrow> s\<lparr>draining := False, handling := None\<rparr>
      | (Some v, q) \<Rightarrow> s\<lparr>st_queue := q, handling := Some v, handed := handed s @ [v]\<rparr>)"

definition drainStage :: "'a stage \<Rightarrow> 'a stage" where
  "drainStage s = (if draining s then s else drain_loop (s\<lparr>draining := True\<rparr>))"

definition handler_settled :: "bool \<Rightarrow> 'a stage \<Rightarrow> 'a stage" where
  "handler_settled ok s =
     (case handling s of
        None \<Rightarrow> s
      | Some v \<Rightarrow> if ok then drain_loop s else s\<lparr>draining := False, handling := None\<rparr>)"

definition on_stage :: "string \<Rightarrow> ('a stage \<Rightarrow> 'a stage) \<Rightarrow> 'a pipeline \<Rightarrow> 'a pipeline" where
  "on_stage name f p = (case map_of p name of None \<Rightarrow> p | Some s \<Rightarrow> AList.update name (f s) p)"

definition pumpUntilIdle :: "string list option \<Rightarrow> 'a pipeline \<Rightarrow> 'a pipeline" where
  "pumpUntilIdle names p =
     fold (\<lambda>n. on_stage n drainStage) (case names of None \<Rightarrow> map fst p | Some ns \<Rightarrow> ns) p"

datatype 'a pl_event =
    P_enqueue string int 'a string
  | P_pump "string list option"
  | P_settled string bool

fun pl_step :: "'a pl_event \<Rightarrow> 'a pipeline \<Rightarrow> 'a pipeline" where
  "pl_step (P_enqueue n now v k) p = (case pl_enqueue n now v k p of Inl e \<Rightarrow> p | Inr p' \<Rightarrow> p')"
| "pl_step (P_pump names) p = pumpUntilIdle names p"
| "pl_step (P_settled n ok) p = on_stage n (handler_settled ok) p"


section \<open>The index is exact\<close>

definition index_ok :: "'a QueuedItem list \<Rightarrow> (string \<rightharpoonup> nat) \<Rightarrow> bool" where
  "index_ok its m \<longleftrightarrow> (\<forall>k j. m k = Some j \<longleftrightarrow> j < length its \<and> qi_key (its ! j) = k)"

lemma index_from_eq:
  "distinct (map qi_key its) \<Longrightarrow>
     index_from n its m k = Some j \<longleftrightarrow>
       (n \<le> j \<and> j < n + length its \<and> qi_key (its ! (j - n)) = k) \<or> (k \<notin> qi_key ` set its \<and> m k = Some j)"
proof (induction its arbitrary: n m)
  case (Cons i its)
  show ?case
  proof (cases "j = n")
    case True
    then show ?thesis using Cons by auto
  next
    case False
    then have "n \<le> j \<and> j < n + length (i # its) \<and> qi_key ((i # its) ! (j - n)) = k \<longleftrightarrow>
        Suc n \<le> j \<and> j < Suc n + length its \<and> qi_key (its ! (j - Suc n)) = k"
      by (auto simp: nth_Cons' Suc_diff_le)
    then show ?thesis using Cons False by auto
  qed
qed auto

lemma index_ok_rebuild: "distinct (map qi_key its) \<Longrightarrow> index_ok its (index_from 0 its Map.empty)"
  by (simp add: index_ok_def index_from_eq)

lemma index_ok_None:
  assumes "index_ok its m"
  shows "m k = None \<longleftrightarrow> k \<notin> qi_key ` set its"
proof -
  have "(\<exists>j. m k = Some j) \<longleftrightarrow> k \<in> set (map qi_key its)"
    using assms by (auto simp: index_ok_def in_set_conv_nth simp del: set_map)
  then show ?thesis by (cases "m k") auto
qed

lemma index_ok_snoc:
  assumes "index_ok its m" "qi_key i \<notin> qi_key ` set its"
  shows "index_ok (its @ [i]) (m(qi_key i \<mapsto> length its))"
  unfolding index_ok_def
proof (intro allI)
  fix k j
  have at: "m k = Some j \<longleftrightarrow> j < length its \<and> qi_key (its ! j) = k" using assms(1) by (simp add: index_ok_def)
  have other: "j < length its \<Longrightarrow> qi_key (its ! j) \<noteq> qi_key i" using assms(2) by (metis image_eqI nth_mem)
  show "(m(qi_key i \<mapsto> length its)) k = Some j \<longleftrightarrow> j < length (its @ [i]) \<and> qi_key ((its @ [i]) ! j) = k"
  proof (cases "j < length its")
    case True
    then show ?thesis using at other by (auto simp: nth_append)
  next
    case False
    then show ?thesis using at by (auto simp: nth_append)
  qed
qed

lemma index_ok_update:
  "index_ok its m \<Longrightarrow> index_ok (its[j := (its ! j)\<lparr>qi_value := v\<rparr>]) m"
  by (cases "j < length its") (auto simp: index_ok_def nth_list_update)

lemma keys_update [simp]: "map qi_key (its[j := (its ! j)\<lparr>qi_value := v\<rparr>]) = map qi_key its"
  by (simp add: map_update) (metis list_update_id map_update nth_map list_update_beyond not_less length_map)

section \<open>The invariant of the queue\<close>

definition contents :: "'a queue \<Rightarrow> (string \<times> 'a) list" where
  "contents q = map (\<lambda>i. (qi_key i, qi_value i)) (items q)"

definition settled :: "'a queue \<Rightarrow> bool" where
  "settled q \<longleftrightarrow> isOverloaded q = (qo_capacity (opts q) < depth q \<or> droppedHold q)"

definition queue_inv :: "'a queue \<Rightarrow> bool" where
  "queue_inv q \<longleftrightarrow> settled q \<and>
     enqueuedCount q = processedCount q + droppedCount q + coalescedCount q + depth q \<and>
     (case qo_overflow (opts q) of
        coalesce \<Rightarrow> depth q \<le> max 1 (qo_capacity (opts q)) \<and> distinct (map qi_key (items q)) \<and>
          index_ok (items q) (indexByKey q)
      | never_drop \<Rightarrow> droppedCount q = 0 \<and> coalescedCount q = 0 \<and> \<not> droppedHold q)"

lemma emitOverload_frame [simp]:
  "opts (emitOverload q) = opts q" "items (emitOverload q) = items q" "indexByKey (emitOverload q) = indexByKey q"
  "isOverloaded (emitOverload q) = isOverloaded q" "droppedHold (emitOverload q) = droppedHold q"
  "enqueuedCount (emitOverload q) = enqueuedCount q" "processedCount (emitOverload q) = processedCount q"
  "droppedCount (emitOverload q) = droppedCount q" "coalescedCount (emitOverload q) = coalescedCount q"
  by (simp_all add: emitOverload_def)

lemma reassess_frame [simp]:
  "opts (reassess q) = opts q" "items (reassess q) = items q" "indexByKey (reassess q) = indexByKey q"
  "droppedHold (reassess q) = droppedHold q" "enqueuedCount (reassess q) = enqueuedCount q"
  "processedCount (reassess q) = processedCount q" "droppedCount (reassess q) = droppedCount q"
  "coalescedCount (reassess q) = coalescedCount q"
  by (simp_all add: reassess_def Let_def)

lemma forceOverload_frame [simp]:
  "opts (forceOverload q) = opts q" "items (forceOverload q) = items q" "indexByKey (forceOverload q) = indexByKey q"
  "droppedHold (forceOverload q)" "isOverloaded (forceOverload q)" "enqueuedCount (forceOverload q) = enqueuedCount q"
  "processedCount (forceOverload q) = processedCount q" "droppedCount (forceOverload q) = droppedCount q"
  "coalescedCount (forceOverload q) = coalescedCount q"
  by (simp_all add: forceOverload_def Let_def)

text \<open>Reassessing settles the flag, provided a drop that holds it has raised it.\<close>

lemma reassess_settled: "(droppedHold q \<Longrightarrow> isOverloaded q) \<Longrightarrow> settled (reassess q)"
  by (auto simp: settled_def reassess_def depth_def Let_def)

lemma settled_hold: "settled q \<Longrightarrow> droppedHold q \<Longrightarrow> isOverloaded q"
  by (simp add: settled_def)

lemma dropOldest_simps [simp]:
  "opts (dropOldest q) = opts q" "items (dropOldest q) = tl (items q)"
  "enqueuedCount (dropOldest q) = enqueuedCount q" "processedCount (dropOldest q) = processedCount q"
  "coalescedCount (dropOldest q) = coalescedCount q"
  "droppedCount (dropOldest q) = droppedCount q + (if items q = [] then 0 else 1)"
  by (simp_all add: dropOldest_def reindexAfterShift_def split: list.split)

lemma dropOldest_hold: "(droppedHold q \<Longrightarrow> isOverloaded q) \<Longrightarrow> droppedHold (dropOldest q) \<Longrightarrow> isOverloaded (dropOldest q)"
  by (auto simp: dropOldest_def split: list.splits)

lemma dropOldest_index:
  "distinct (map qi_key (items q)) \<Longrightarrow> index_ok (items q) (indexByKey q) \<Longrightarrow>
     index_ok (items (dropOldest q)) (indexByKey (dropOldest q))"
  by (auto simp: dropOldest_def reindexAfterShift_def index_ok_rebuild split: list.split)

lemma queue_inv_new: "queue_inv (new_queue os)"
  by (simp add: queue_inv_def new_queue_def settled_def depth_def index_ok_def split: OverflowPolicy.split)

lemma enqueue_coalesce_old:
  assumes "queue_inv q" "qo_overflow (opts q) = coalesce" "indexByKey q k = Some j"
  shows "queue_inv (enqueue now v k q)"
proof -
  have "settled (enqueue now v k q)"
    using assms by (auto simp: enqueue_def Let_def queue_inv_def settled_hold intro!: reassess_settled)
  then show ?thesis using assms
    by (auto simp: queue_inv_def enqueue_def Let_def depth_def index_ok_update)
qed

lemma enqueue_coalesce_new:
  assumes "queue_inv q" "qo_overflow (opts q) = coalesce" "indexByKey q k = None"
  shows "queue_inv (enqueue now v k q)"
proof -
  let ?q1 = "q\<lparr>enqueuedCount := enqueuedCount q + 1\<rparr>"
  let ?q2 = "if qo_capacity (opts q) \<le> depth q then dropOldest ?q1 else ?q1"
  have ix: "index_ok (items q) (indexByKey q)" and d: "distinct (map qi_key (items q))"
    and b: "depth q \<le> max 1 (qo_capacity (opts q))"
    using assms by (auto simp: queue_inv_def)
  have k: "k \<notin> qi_key ` set (items q)" using ix assms(3) by (simp add: index_ok_None)
  have i2: "items ?q2 = (if qo_capacity (opts q) \<le> depth q then tl (items q) else items q)" by simp
  have k2: "k \<notin> qi_key ` set (items ?q2)" using k i2 by (cases "items q") auto
  have d2: "distinct (map qi_key (items ?q2))" using d i2 by (auto simp: map_tl distinct_tl)
  have ix2: "index_ok (items ?q2) (indexByKey ?q2)" using dropOldest_index [of ?q1] ix d by auto
  have h2: "droppedHold ?q2 \<Longrightarrow> isOverloaded ?q2"
    using assms(1) dropOldest_hold [of ?q1] by (auto simp: queue_inv_def settled_hold split: if_splits)
  have s: "settled (enqueue now v k q)"
    using assms(2,3) h2 by (auto simp: enqueue_def Let_def depth_def intro!: reassess_settled split: if_splits)
  have ixn: "index_ok (items ?q2 @ [\<lparr>qi_key = k, qi_value = v, qi_enqueuedAt = now\<rparr>]) ((indexByKey ?q2)(k \<mapsto> length (items ?q2)))"
    using index_ok_snoc [OF ix2, of "\<lparr>qi_key = k, qi_value = v, qi_enqueuedAt = now\<rparr>"] k2 by simp
  show ?thesis
    using assms s ixn d2 k2 b
    by (cases "qo_capacity (opts q) \<le> depth q"; cases "items q")
      (auto simp: queue_inv_def enqueue_def Let_def depth_def)
qed

lemma enqueue_never_drop:
  assumes "queue_inv q" "qo_overflow (opts q) = never_drop"
  shows "queue_inv (enqueue now v k q)"
proof -
  have "settled (enqueue now v k q)"
    using assms by (auto simp: enqueue_def Let_def queue_inv_def intro!: reassess_settled)
  then show ?thesis using assms by (auto simp: queue_inv_def enqueue_def Let_def depth_def)
qed

lemma enqueue_inv: "queue_inv q \<Longrightarrow> queue_inv (enqueue now v k q)"
  by (metis OverflowPolicy.exhaust enqueue_coalesce_new enqueue_coalesce_old enqueue_never_drop not_None_eq)

lemma dequeue_inv:
  assumes "queue_inv q"
  shows "queue_inv (snd (dequeue q))"
proof (cases "items q")
  case Nil
  then show ?thesis using assms by (simp add: dequeue_def)
next
  case (Cons i rest)
  have "settled (snd (dequeue q))"
    using Cons by (auto simp: dequeue_def Let_def reindexAfterShift_def intro!: reassess_settled)
  then show ?thesis
    using assms Cons
    by (auto simp: queue_inv_def dequeue_def Let_def reindexAfterShift_def depth_def index_ok_rebuild
        split: OverflowPolicy.splits)
qed

lemma drainAll_inv:
  assumes "queue_inv q"
  shows "queue_inv (snd (drainAll q))"
proof -
  have "settled (snd (drainAll q))" by (auto simp: drainAll_def intro!: reassess_settled)
  then show ?thesis using assms
    by (auto simp: queue_inv_def drainAll_def depth_def index_ok_def split: OverflowPolicy.splits)
qed

section \<open>Runs of a queue\<close>

datatype 'a q_op = Q_enqueue int 'a string | Q_dequeue | Q_drain

fun q_step :: "'a q_op \<Rightarrow> 'a queue \<Rightarrow> 'a queue" where
  "q_step (Q_enqueue now v k) q = enqueue now v k q"
| "q_step Q_dequeue q = snd (dequeue q)"
| "q_step Q_drain q = snd (drainAll q)"

interpretation queue_runs: invariant_fold q_step queue_inv
proof (unfold_locales)
  fix e and q :: "'a queue" assume "queue_inv q"
  then show "queue_inv (q_step e q)" by (cases e) (simp_all add: enqueue_inv dequeue_inv drainAll_inv)
qed

lemma opts_step [simp]: "opts (q_step e q) = opts q"
  by (cases e) (auto simp: enqueue_def dequeue_def drainAll_def reindexAfterShift_def Let_def
      split: OverflowPolicy.split option.split list.split)

lemmas opts_ops [simp] = opts_step [of "Q_enqueue now v k" for now v k, simplified]
  opts_step [of Q_dequeue, simplified] opts_step [of Q_drain, simplified]

lemma opts_run [simp]: "opts (fold q_step es q) = opts q"
  by (induction es arbitrary: q) auto

text \<open>What was offered to the queue, in order.\<close>

fun offered :: "'a q_op list \<Rightarrow> (string \<times> 'a) list" where
  "offered [] = []"
| "offered (Q_enqueue now v k # es) = (k, v) # offered es"
| "offered (_ # es) = offered es"

lemma offered_append [simp]: "offered (xs @ ys) = offered xs @ offered ys"
  by (induction xs rule: offered.induct) auto

text \<open>The contents after each operation.\<close>

lemma contents_enqueue:
  assumes "queue_inv q"
  shows "contents (enqueue now v k q) =
    (case qo_overflow (opts q) of
       never_drop \<Rightarrow> contents q @ [(k, v)]
     | coalesce \<Rightarrow>
         AList.update k v (if k \<notin> fst ` set (contents q) \<and> qo_capacity (opts q) \<le> depth q
                           then tl (contents q) else contents q))"
proof -
  have upd: "distinct (map qi_key its) \<Longrightarrow> j < length its \<Longrightarrow>
      map (\<lambda>i. (qi_key i, qi_value i)) (its[j := (its ! j)\<lparr>qi_value := v\<rparr>]) =
      AList.update (qi_key (its ! j)) v (map (\<lambda>i. (qi_key i, qi_value i)) its)" for its :: "'a QueuedItem list" and j
  proof (induction its arbitrary: j)
    case (Cons i its)
    then show ?case by (cases j) (auto simp: nth_Cons' image_iff)
  qed simp
  have new: "k \<notin> fst ` set xs \<Longrightarrow> AList.update k v xs = xs @ [(k, v)]" for xs :: "(string \<times> 'a) list"
    by (induction xs) auto
  show ?thesis
  proof (cases "qo_overflow (opts q)")
    case coalesce
    then have ix: "index_ok (items q) (indexByKey q)" and d: "distinct (map qi_key (items q))"
      using assms by (auto simp: queue_inv_def)
    have keys: "fst ` set (contents q) = qi_key ` set (items q)" by (force simp: contents_def)
    show ?thesis
    proof (cases "indexByKey q k")
      case None
      then have "k \<notin> fst ` set (contents q)" using ix keys by (simp add: index_ok_None)
      moreover from this have "k \<notin> fst ` set (tl (contents q))" by (cases "contents q") auto
      ultimately show ?thesis using coalesce None
        by (auto simp: enqueue_def Let_def contents_def new map_tl depth_def)
    next
      case (Some j)
      then have "j < length (items q)" "qi_key (items q ! j) = k" "k \<in> fst ` set (contents q)"
        using ix keys by (auto simp: index_ok_def)
      then show ?thesis using coalesce Some upd [OF d, of j] by (simp add: enqueue_def contents_def)
    qed
  qed (simp add: enqueue_def contents_def)
qed

lemma contents_dequeue [simp]: "contents (snd (dequeue q)) = tl (contents q)"
  by (auto simp: dequeue_def contents_def reindexAfterShift_def Let_def split: list.split)

lemma contents_drainAll [simp]: "contents (snd (drainAll q)) = []"
  by (simp add: drainAll_def contents_def)

text \<open>A never-drop queue holds what was offered and not yet processed; a coalescing queue holds for each of
  its keys the value offered last.\<close>

definition tracks :: "'a q_op list \<Rightarrow> 'a queue \<Rightarrow> bool" where
  "tracks es q \<longleftrightarrow>
     enqueuedCount q = length (offered es) \<and>
     (case qo_overflow (opts q) of
        never_drop \<Rightarrow> contents q = drop (processedCount q) (offered es)
      | coalesce \<Rightarrow> list_all (\<lambda>(k, v). map_of (rev (offered es)) k = Some v) (contents q))"

lemma processed_step [simp]:
  "processedCount (q_step (Q_enqueue now v k) q) = processedCount q"
  "processedCount (q_step Q_dequeue q) = processedCount q + (if items q = [] then 0 else 1)"
  "processedCount (q_step Q_drain q) = processedCount q + depth q"
  by (auto simp: enqueue_def dequeue_def drainAll_def reindexAfterShift_def Let_def depth_def
      split: OverflowPolicy.split option.split list.split)

lemma enqueued_step [simp]:
  "enqueuedCount (q_step (Q_enqueue now v k) q) = enqueuedCount q + 1"
  "enqueuedCount (q_step Q_dequeue q) = enqueuedCount q"
  "enqueuedCount (q_step Q_drain q) = enqueuedCount q"
  by (auto simp: enqueue_def dequeue_def drainAll_def reindexAfterShift_def Let_def
      split: OverflowPolicy.split option.split list.split)

lemmas enqueued_ops [simp] = enqueued_step [simplified]

lemmas processed_ops [simp] = processed_step [simplified]

lemma length_contents [simp]: "length (contents q) = depth q"
  by (simp add: contents_def depth_def)

lemma list_all_tl: "list_all P xs \<Longrightarrow> list_all P (tl xs)"
  by (cases xs) auto

lemma list_all_update_new:
  assumes "list_all (\<lambda>(a, b). m a = Some b) xs" "distinct (map fst xs)"
  shows "list_all (\<lambda>(a, b). (m(k \<mapsto> v)) a = Some b) (AList.update k v xs)"
proof -
  have keep: "list_all (\<lambda>(a, b). (m(k \<mapsto> v)) a = Some b) ys"
    if o: "list_all (\<lambda>(a, b). m a = Some b) ys" and n: "k \<notin> fst ` set ys" for ys
    using o n by (induction ys) auto
  show ?thesis
    using assms
  proof (induction xs)
    case (Cons x xs)
    then show ?case using keep [of xs] by (cases x) auto
  qed simp
qed

lemma tracks_step:
  assumes "queue_inv q" "tracks es q"
  shows "tracks (es @ [e]) (q_step e q)"
proof (cases "qo_overflow (opts q)")
  case coalesce
  then have d: "distinct (map fst (contents q))"
    using assms(1) by (simp add: queue_inv_def contents_def comp_def)
  have h: "list_all (\<lambda>(k, v). map_of (rev (offered es)) k = Some v) (contents q)"
    using assms(2) coalesce by (simp add: tracks_def)
  show ?thesis
  proof (cases e)
    case (Q_enqueue now v k)
    let ?c = "if k \<notin> fst ` set (contents q) \<and> qo_capacity (opts q) \<le> depth q then tl (contents q) else contents q"
    have "list_all (\<lambda>(k, v). map_of (rev (offered es)) k = Some v) ?c" "distinct (map fst ?c)"
      using h d by (simp_all add: list_all_tl map_tl distinct_tl)
    from list_all_update_new [OF this, of k v] show ?thesis
      using coalesce Q_enqueue assms(2) by (simp add: tracks_def contents_enqueue [OF assms(1)] fun_upd_def)
  qed (use h coalesce assms(2) in \<open>simp_all add: tracks_def list_all_tl\<close>)
next
  case never_drop
  then have h: "contents q = drop (processedCount q) (offered es)"
    using assms(2) by (simp add: tracks_def)
  then have len: "depth q = length (offered es) - processedCount q" by (metis length_contents length_drop)
  show ?thesis
  proof (cases e)
    case (Q_enqueue now v k)
    have "processedCount q \<le> length (offered es)" using assms never_drop by (auto simp: queue_inv_def tracks_def)
    then show ?thesis
      using never_drop Q_enqueue h assms(2) by (auto simp: tracks_def contents_enqueue [OF assms(1)])
  next
    case Q_dequeue
    have "contents q = [] \<longleftrightarrow> items q = []" by (simp add: contents_def)
    then show ?thesis using Q_dequeue never_drop h assms(2)
      by (auto simp: tracks_def tl_drop drop_Suc)
  next
    case Q_drain
    then show ?thesis using never_drop len assms(2) by (simp add: tracks_def)
  qed
qed

lemma tracks_run: "queue_inv (fold q_step es (new_queue os)) \<and> tracks es (fold q_step es (new_queue os))"
proof (induction es rule: rev_induct)
  case Nil
  have "tracks [] (new_queue os)"
    by (simp add: tracks_def new_queue_def contents_def split: OverflowPolicy.split)
  then show ?case by (simp add: queue_inv_new)
next
  case (snoc e es)
  then show ?case using queue_runs.inv_op tracks_step by (auto simp: )
qed

section \<open>The drain loops\<close>

text \<open>What each event does to one stage; an event of another stage does nothing to it.\<close>

definition stage_ok :: "'a stage \<Rightarrow> bool" where
  "stage_ok s \<longleftrightarrow> queue_inv (st_queue s) \<and> draining s = (handling s \<noteq> None)"

lemma drain_loop_ok: "queue_inv (st_queue s) \<Longrightarrow> draining s \<Longrightarrow> stage_ok (drain_loop s)"
  using dequeue_inv [of "st_queue s"] by (auto simp: stage_ok_def drain_loop_def split: prod.split option.split)

lemma drainStage_ok: "stage_ok s \<Longrightarrow> stage_ok (drainStage s)"
  using drain_loop_ok [of "s\<lparr>draining := True\<rparr>"] by (simp add: drainStage_def stage_ok_def)

lemma handler_settled_ok: "stage_ok s \<Longrightarrow> stage_ok (handler_settled ok s)"
  by (auto simp: handler_settled_def stage_ok_def drain_loop_ok [unfolded stage_ok_def] split: option.split)

fun at_stage :: "string \<Rightarrow> 'a pl_event \<Rightarrow> 'a stage \<Rightarrow> 'a stage" where
  "at_stage n (P_enqueue m now v k) s = (if m = n then s\<lparr>st_queue := enqueue now v k (st_queue s)\<rparr> else s)"
| "at_stage n (P_pump names) s =
     (if (case names of None \<Rightarrow> True | Some ns \<Rightarrow> n \<in> set ns) then drainStage s else s)"
| "at_stage n (P_settled m ok) s = (if m = n then handler_settled ok s else s)"

lemma drain_loop_cases:
  "drain_loop s =
     (case contents (st_queue s) of
        [] \<Rightarrow> s\<lparr>draining := False, handling := None\<rparr>
      | (k, v) # rest \<Rightarrow> s\<lparr>st_queue := snd (dequeue (st_queue s)), handling := Some v, handed := handed s @ [v]\<rparr>)"
  by (auto simp: drain_loop_def dequeue_def contents_def Let_def split: list.split)

lemma drainStage_idem [simp]: "drainStage (drainStage s) = drainStage s"
  by (auto simp: drainStage_def drain_loop_cases split: list.split)

lemma on_stage_lookup: "map_of (on_stage m f p) n = (if m = n then map_option f (map_of p n) else map_of p n)"
  by (auto simp: on_stage_def update_conv' split: option.split)

lemma fold_drain_lookup:
  "map_of (fold (\<lambda>m. on_stage m drainStage) ns p) n =
     (if n \<in> set ns then map_option drainStage (map_of p n) else map_of p n)"
  by (induction ns arbitrary: p) (auto simp: on_stage_lookup option.map_comp comp_def)

lemma step_at_stage: "map_of (pl_step e p) n = map_option (at_stage n e) (map_of p n)"
proof (cases e)
  case (P_pump names)
  have "map_of p n = Some s \<Longrightarrow> n \<in> fst ` set p" for s by (force dest: map_of_SomeD)
  then show ?thesis using P_pump
    by (cases names; cases "map_of p n") (auto simp: pumpUntilIdle_def fold_drain_lookup)
qed ((cases "map_of p n"; force simp: pl_enqueue_def on_stage_lookup update_conv' split: option.split)+)

lemma run_at_stage: "map_of (fold pl_step es p) n = map_option (fold (at_stage n) es) (map_of p n)"
  by (induction es arbitrary: p) (simp_all add: step_at_stage option.map_comp comp_def option.map_ident id_def)

lemma at_stage_ok: "stage_ok s \<Longrightarrow> stage_ok (at_stage n e s)"
  by (cases e) (auto simp: drainStage_ok handler_settled_ok, auto simp: stage_ok_def enqueue_inv)

interpretation stage_runs: invariant_fold "at_stage n" stage_ok
  by unfold_locales (rule at_stage_ok)

text \<open>The values sent to a stage, in order.\<close>

fun sent :: "string \<Rightarrow> 'a pl_event list \<Rightarrow> 'a list" where
  "sent n [] = []"
| "sent n (P_enqueue m now v k # es) = (if m = n then [v] else []) @ sent n es"
| "sent n (_ # es) = sent n es"

definition delivered :: "'a stage \<Rightarrow> 'a list" where
  "delivered s = handed s @ map snd (contents (st_queue s))"

lemma delivered_drain [simp]: "delivered (drain_loop s) = delivered s"
  by (auto simp: delivered_def drain_loop_cases split: list.split)

lemma delivered_at_stage:
  assumes "stage_ok s" "qo_overflow (opts (st_queue s)) = never_drop"
  shows "delivered (at_stage n e s) = delivered s @ sent n [e]"
  using assms
  by (cases e) (auto simp: delivered_def contents_enqueue stage_ok_def drainStage_def handler_settled_def
      delivered_drain [unfolded delivered_def] split: option.split)

lemma opts_at_stage [simp]: "opts (st_queue (at_stage n e s)) = opts (st_queue s)"
  by (cases e) (auto simp: drainStage_def handler_settled_def drain_loop_cases split: option.split list.split)

lemma delivered_run:
  assumes "stage_ok s" "qo_overflow (opts (st_queue s)) = never_drop"
  shows "delivered (fold (at_stage n) es s) = delivered s @ sent n es"
  using assms
proof (induction es arbitrary: s)
  case (Cons e es)
  have "delivered (fold (at_stage n) es (at_stage n e s)) = delivered (at_stage n e s) @ sent n es"
    using Cons.prems by (intro Cons.IH) (simp_all add: at_stage_ok)
  moreover have "sent n [e] @ sent n es = sent n (e # es)" by (cases e) auto
  ultimately show ?case using delivered_at_stage [OF Cons.prems, of n e] by simp
qed simp

text \<open>Completions of a stage's handler that succeed, and a run that only completes handlers of the stage.\<close>

fun completions :: "string \<Rightarrow> 'a pl_event list \<Rightarrow> nat" where
  "completions n [] = 0"
| "completions n (P_settled m ok # es) = (if m = n then 1 else 0) + completions n es"
| "completions n (_ # es) = completions n es"

fun quiet_for :: "string \<Rightarrow> 'a pl_event \<Rightarrow> bool" where
  "quiet_for n (P_enqueue m now v k) = (m \<noteq> n)"
| "quiet_for n (P_settled m ok) = (m = n \<longrightarrow> ok)"
| "quiet_for n (P_pump names) = True"

lemma drain_finishes:
  assumes "stage_ok s" "list_all (quiet_for n) es"
    and "(draining s \<and> depth (st_queue s) < completions n es) \<or> (\<not> draining s \<and> contents (st_queue s) = [])"
  shows "\<not> draining (fold (at_stage n) es s) \<and> contents (st_queue (fold (at_stage n) es s)) = []"
  using assms
proof (induction es arbitrary: s)
  case (Cons e es)
  have d: "depth (st_queue s) = length (contents (st_queue s))" by simp
  have "(draining (at_stage n e s) \<and> depth (st_queue (at_stage n e s)) < completions n es) \<or>
      (\<not> draining (at_stage n e s) \<and> contents (st_queue (at_stage n e s)) = [])"
    using Cons.prems d
    by (cases e)
      (auto simp: stage_ok_def drainStage_def handler_settled_def drain_loop_cases simp flip: length_contents
        split: option.splits list.splits if_splits)
  then show ?case using Cons.IH [OF at_stage_ok [OF Cons.prems(1)]] Cons.prems(2) by simp
qed simp

lemma delivered_quiet:
  "list_all (quiet_for n) es \<Longrightarrow> delivered (fold (at_stage n) es s) = delivered s"
proof (induction es arbitrary: s)
  case (Cons e es)
  have "delivered (at_stage n e s) = delivered s" using Cons.prems
    by (cases e) (auto simp: drainStage_def handler_settled_def delivered_drain [unfolded delivered_def] delivered_def
        split: option.split)
  then show ?case using Cons by simp
qed simp

lemma addStage_lookup:
  "addStage os p0 = Inr p \<Longrightarrow>
     map_of p (qo_name os) = Some \<lparr>st_queue = new_queue os, draining = False, handling = None, handed = []\<rparr>"
  by (auto simp: addStage_def map_add_def simp flip: map_of_eq_None_iff split: if_splits)

lemma new_stage_ok: "stage_ok \<lparr>st_queue = new_queue os, draining = False, handling = None, handed = []\<rparr>"
  by (simp add: stage_ok_def queue_inv_new)

section \<open>Properties\<close>

text \<open>Backpressure loses nothing silently.  After any sequence of calls every offered item is
  accounted for: processed, dropped, coalesced or still queued; the overload flag is up exactly while
  the depth exceeds the capacity or a drop has not been observed.  A coalescing queue holds at most
  its capacity (one entry if that is zero), one entry per key, each with the value offered last for
  its key; a never-drop queue holds exactly the offered items that have not been processed, in order.\<close>

theorem queue_bounded_and_accounted:
  "let q = fold q_step ops (new_queue os) in
     enqueuedCount q = length (offered ops) \<and>
     enqueuedCount q = processedCount q + droppedCount q + coalescedCount q + depth q \<and>
     isOverloaded q = (qo_capacity os < depth q \<or> droppedHold q) \<and>
     (case qo_overflow os of
        coalesce \<Rightarrow>
          depth q \<le> max 1 (qo_capacity os) \<and> distinct (map fst (contents q)) \<and>
          list_all (\<lambda>(k, v). map_of (rev (offered ops)) k = Some v) (contents q)
      | never_drop \<Rightarrow>
          droppedCount q = 0 \<and> coalescedCount q = 0 \<and> contents q = drop (processedCount q) (offered ops))"
proof -
  have o: "opts (fold q_step ops (new_queue os)) = os" by (simp add: new_queue_def)
  show ?thesis
    using tracks_run [of ops os] o
    by (cases "qo_overflow os")
      (simp_all add: Let_def queue_inv_def settled_def tracks_def contents_def comp_def)
qed

text \<open>C30. Order events are never lost, repeated or reordered.  In a pipeline with a never-drop stage,
  after any events (arrivals on all stages, pumps, and handlers that complete or fail in any order),
  what the stage's handler was given followed by what is still queued is exactly what was sent to the
  stage, in order; and at most one handler of the stage is running.\<close>

theorem order_events_delivered_once:
  assumes "addStage os p0 = Inr p" and "qo_overflow os = never_drop"
  shows "\<exists>s. map_of (fold pl_step es p) (qo_name os) = Some s
    \<and> handed s @ map snd (contents (st_queue s)) = sent (qo_name os) es
    \<and> draining s = (handling s \<noteq> None)"
proof -
  let ?s = "\<lparr>st_queue = new_queue os, draining = False, handling = None, handed = []\<rparr>"
  have "map_of (fold pl_step es p) (qo_name os) = Some (fold (at_stage (qo_name os)) es ?s)"
    by (simp add: run_at_stage addStage_lookup [OF assms(1)])
  moreover have "delivered (fold (at_stage (qo_name os)) es ?s) = sent (qo_name os) es"
    using assms(2) delivered_run [OF new_stage_ok [of os], of "qo_name os" es]
    by (simp add: delivered_def new_queue_def contents_def)
  moreover have "stage_ok (fold (at_stage (qo_name os)) es ?s)" by (intro stage_runs.fold_inv new_stage_ok)
  ultimately show ?thesis by (auto simp: delivered_def stage_ok_def)
qed

text \<open>C31. A drain ends.  Once a stage is being drained and nothing more arrives for it, one successful
  completion of its handler per queued item and one for the item in work stop the loop with an empty
  queue and every queued item handed over, whatever the other stages do in between.\<close>

theorem drain_terminates:
  assumes "addStage os p0 = Inr p" and "map_of (fold pl_step es p) (qo_name os) = Some s" and "draining s"
    and "list_all (quiet_for (qo_name os)) fs" and "depth (st_queue s) < completions (qo_name os) fs"
  shows "\<exists>t. map_of (fold pl_step fs (fold pl_step es p)) (qo_name os) = Some t
    \<and> \<not> draining t \<and> depth (st_queue t) = 0 \<and> handed t = handed s @ map snd (contents (st_queue s))"
proof -
  let ?t = "fold (at_stage (qo_name os)) fs s"
  have "s = fold (at_stage (qo_name os)) es \<lparr>st_queue = new_queue os, draining = False, handling = None, handed = []\<rparr>"
    using assms(2) by (simp add: run_at_stage addStage_lookup [OF assms(1)])
  then have "stage_ok s" using stage_runs.fold_inv [OF new_stage_ok] by metis
  then have "\<not> draining ?t \<and> contents (st_queue ?t) = []"
    using assms(3-5) by (intro drain_finishes) auto
  moreover from this have "handed ?t = delivered s"
    using delivered_quiet [OF assms(4), of s] by (simp add: delivered_def)
  ultimately show ?thesis
    using assms(2) by (auto simp: run_at_stage [of fs] delivered_def depth_def contents_def)
qed

section \<open>Witnesses\<close>

definition order_stage :: BoundedQueueOptions where
  "order_stage = \<lparr>qo_name = ''orders'', qo_capacity = 1, qo_overflow = never_drop\<rparr>"

definition order_pipeline :: "nat pipeline" where
  "order_pipeline = [(''orders'', \<lparr>st_queue = new_queue order_stage, draining = False, handling = None, handed = []\<rparr>)]"

lemma order_pipeline_added: "addStage order_stage [] = Inr order_pipeline"
  by (simp add: addStage_def order_pipeline_def order_stage_def)

definition order_arrivals :: "nat pl_event list" where
  "order_arrivals = [P_enqueue ''orders'' 0 7 ''a'', P_pump None, P_enqueue ''orders'' 1 8 ''a'', P_enqueue ''orders'' 2 9 ''b'']"

theorem order_events_delivered_once_witness:
  "\<exists>s. map_of (fold pl_step order_arrivals order_pipeline) ''orders'' = Some s
    \<and> handed s @ map snd (contents (st_queue s)) = [7, 8, 9] \<and> draining s = (handling s \<noteq> None)"
  using order_events_delivered_once [OF order_pipeline_added, of order_arrivals]
  by (simp add: order_stage_def order_arrivals_def)

theorem drain_terminates_witness:
  "\<exists>t. map_of (fold pl_step (replicate 3 (P_settled ''orders'' True)) (fold pl_step order_arrivals order_pipeline)) ''orders'' = Some t
    \<and> \<not> draining t \<and> depth (st_queue t) = 0 \<and> handed t = [7, 8, 9]"
proof -
  obtain s where s: "map_of (fold pl_step order_arrivals order_pipeline) (qo_name order_stage) = Some s"
    "draining s" "depth (st_queue s) = 2" "handed s @ map snd (contents (st_queue s)) = [7, 8, 9]"
    by (simp add: order_arrivals_def order_pipeline_def order_stage_def new_queue_def pl_enqueue_def enqueue_def
        reassess_def depth_def pumpUntilIdle_def on_stage_def drainStage_def drain_loop_def dequeue_def contents_def
        emitOverload_def)
  show ?thesis
    using drain_terminates [OF order_pipeline_added s(1,2), of "replicate 3 (P_settled ''orders'' True)"] s(3,4)
    by (simp add: order_stage_def numeral_3_eq_3)
qed

end
