(* ===== verification/Trading_Session.thy ===== *)
theory Trading_Session
  imports Box_Prelude
begin

text \<open>
  The trading session: the pure record of \<^verbatim>\<open>src/box/tradingSession.ts\<close> with its two budgets (cycles are
  spent by succeeding, attempts by starting), and the manager of \<^verbatim>\<open>src/box/tradingSessionStore.ts\<close> that
  keeps it in step with the database.

  The manager's state is \<open>manager_state\<close>; the database is one row.  A method that writes runs up to its save
  (\<open>begin_commit\<close>); the save settles later (\<open>settle\<close>), in any order when several are in flight, and may
  be rejected before or after the row was written.  The numbers of the record are integers once read:
  \<^verbatim>\<open>loadBoxTradingSession\<close> reads NULL as 0.
\<close>

section \<open>The record\<close>

datatype BoxSessionState =
  IDLE | ARMED | ENTRY_IN_PROGRESS | POSITION_OPEN | EXIT_IN_PROGRESS | COMPLETED | BLOCKED | RECOVERY

record BoxSessionRecord =
  session_id :: string
  armed_at :: "int option"
  armed_by :: "string option"
  max_completed_trades :: int
  established_trade_ids :: "string list"
  completed_trade_ids :: "string list"
  aborted_attempts :: int
  entry_attempts :: int
  max_entry_attempts :: int
  arm_count :: int
  updated_at :: int

definition idleSessionRecord :: "int \<Rightarrow> BoxSessionRecord" where
  "idleSessionRecord now =
     \<lparr>session_id = [], armed_at = None, armed_by = None, max_completed_trades = 0, established_trade_ids = [],
      completed_trade_ids = [], aborted_attempts = 0, entry_attempts = 0, max_entry_attempts = 0,
      arm_count = 0, updated_at = now\<rparr>"

definition isArmed :: "BoxSessionRecord \<Rightarrow> bool" where
  "isArmed r \<longleftrightarrow> session_id r \<noteq> [] \<and> armed_at r \<noteq> None"

definition consumedCycles :: "BoxSessionRecord \<Rightarrow> int" where
  "consumedCycles r = int (length (established_trade_ids r))"

definition completedCycles :: "BoxSessionRecord \<Rightarrow> int" where
  "completedCycles r = int (length (completed_trade_ids r))"

definition remainingCycles :: "BoxSessionRecord \<Rightarrow> int option" where
  "remainingCycles r =
     (if max_completed_trades r \<le> 0 then None else Some (max 0 (max_completed_trades r - consumedCycles r)))"

definition isBudgetExhausted :: "BoxSessionRecord \<Rightarrow> bool" where
  "isBudgetExhausted r =
     (if max_completed_trades r \<le> 0 then False else max_completed_trades r \<le> consumedCycles r)"

definition remainingEntryAttempts :: "BoxSessionRecord \<Rightarrow> int option" where
  "remainingEntryAttempts r =
     (if max_entry_attempts r \<le> 0 then None else Some (max 0 (max_entry_attempts r - entry_attempts r)))"

definition isAttemptBudgetExhausted :: "BoxSessionRecord \<Rightarrow> bool" where
  "isAttemptBudgetExhausted r =
     (if max_entry_attempts r \<le> 0 then False else max_entry_attempts r \<le> entry_attempts r)"

datatype BoxSessionBlockReason =
  session_not_armed | session_budget_exhausted | session_attempt_budget_exhausted | session_recovery

definition evaluateSessionEntry :: "BoxSessionRecord \<Rightarrow> bool \<Rightarrow> BoxSessionBlockReason option" where
  "evaluateSessionEntry r recoveryActive =
     (if recoveryActive then Some session_recovery
      else if \<not> isArmed r then Some session_not_armed
      else if isBudgetExhausted r then Some session_budget_exhausted
      else if isAttemptBudgetExhausted r then Some session_attempt_budget_exhausted
      else None)"

record BoxSessionActivity =
  entryInProgress :: bool
  openBoxes :: int
  exitInProgress :: bool
  act_recoveryActive :: bool
  entryBlockedExternally :: bool

definition deriveSessionState :: "BoxSessionRecord \<Rightarrow> BoxSessionActivity \<Rightarrow> BoxSessionState" where
  "deriveSessionState r a =
     (if act_recoveryActive a then RECOVERY
      else if \<not> isArmed r then IDLE
      else if exitInProgress a then EXIT_IN_PROGRESS
      else if 0 < openBoxes a then POSITION_OPEN
      else if entryInProgress a then ENTRY_IN_PROGRESS
      else if isBudgetExhausted r \<and> consumedCycles r \<le> completedCycles r then COMPLETED
      else if isBudgetExhausted r \<or> entryBlockedExternally a then BLOCKED
      else ARMED)"

datatype arm_refusal = arm_recovery | arm_open_boxes int | arm_residual_legs int | arm_cycles_in_flight int

definition canArm :: "BoxSessionRecord \<Rightarrow> int \<Rightarrow> int \<Rightarrow> bool \<Rightarrow> arm_refusal option" where
  "canArm r open_boxes residualLegs recoveryActive =
     (let inFlight = consumedCycles r - completedCycles r in
      if recoveryActive then Some arm_recovery
      else if 0 < open_boxes then Some (arm_open_boxes open_boxes)
      else if 0 < residualLegs then Some (arm_residual_legs residualLegs)
      else if 0 < inFlight then Some (arm_cycles_in_flight inFlight)
      else None)"

text \<open>\<^const>\<open>nonneg_floor\<close> is \<^verbatim>\<open>Number.isFinite(x) ? Math.max(0, Math.floor(x)) : 0\<close>.\<close>

definition armSession ::
    "string \<Rightarrow> jsnum \<Rightarrow> jsnum option \<Rightarrow> string option \<Rightarrow> BoxSessionRecord \<Rightarrow> int \<Rightarrow> BoxSessionRecord" where
  "armSession sid maxCompletedTrades maxEntryAttempts by_whom previous now =
     \<lparr>session_id = sid, armed_at = Some now, armed_by = by_whom,
      max_completed_trades = nonneg_floor maxCompletedTrades, established_trade_ids = [], completed_trade_ids = [],
      aborted_attempts = 0, entry_attempts = 0,
      max_entry_attempts = (case maxEntryAttempts of None \<Rightarrow> 0 | Some x \<Rightarrow> nonneg_floor x),
      arm_count = arm_count previous + 1, updated_at = now\<rparr>"

definition disarmSession :: "BoxSessionRecord \<Rightarrow> int \<Rightarrow> BoxSessionRecord" where
  "disarmSession r now = r\<lparr>armed_at := None, updated_at := now\<rparr>"

definition recordEstablishedBox :: "BoxSessionRecord \<Rightarrow> string \<Rightarrow> int \<Rightarrow> BoxSessionRecord" where
  "recordEstablishedBox r tradeId now =
     (if tradeId = [] then r
      else if tradeId \<in> set (established_trade_ids r) then r
      else r\<lparr>established_trade_ids := established_trade_ids r @ [tradeId], updated_at := now\<rparr>)"

definition recordCompletedBox :: "BoxSessionRecord \<Rightarrow> string \<Rightarrow> int \<Rightarrow> BoxSessionRecord" where
  "recordCompletedBox r tradeId now =
     (if tradeId = [] then r
      else if tradeId \<notin> set (established_trade_ids r) then r
      else if tradeId \<in> set (completed_trade_ids r) then r
      else r\<lparr>completed_trade_ids := completed_trade_ids r @ [tradeId], updated_at := now\<rparr>)"

definition recordAbortedAttempt :: "BoxSessionRecord \<Rightarrow> int \<Rightarrow> BoxSessionRecord" where
  "recordAbortedAttempt r now = r\<lparr>aborted_attempts := aborted_attempts r + 1, updated_at := now\<rparr>"

definition recordEntryAttemptStarted :: "BoxSessionRecord \<Rightarrow> int \<Rightarrow> BoxSessionRecord" where
  "recordEntryAttemptStarted r now = r\<lparr>entry_attempts := entry_attempts r + 1, updated_at := now\<rparr>"

definition normaliseSessionRecord :: "BoxSessionRecord \<Rightarrow> BoxSessionRecord" where
  "normaliseSessionRecord r =
     r\<lparr>entry_attempts := max 0 (entry_attempts r), max_entry_attempts := max 0 (max_entry_attempts r)\<rparr>"

definition reconcileCompletions :: "BoxSessionRecord \<Rightarrow> string list \<Rightarrow> int \<Rightarrow> BoxSessionRecord" where
  "reconcileCompletions r flatTradeIds now = fold (\<lambda>i r. recordCompletedBox r i now) flatTradeIds r"

definition inFlightCycleIds :: "BoxSessionRecord \<Rightarrow> string list" where
  "inFlightCycleIds r = filter (\<lambda>i. i \<notin> set (completed_trade_ids r)) (established_trade_ids r)"

record session_status =
  ss_state :: BoxSessionState
  ss_session_id :: "string option"
  ss_armed :: bool
  ss_completed_trades :: int
  ss_consumed_cycles :: int
  ss_remaining_trades :: "int option"
  ss_current_trade_id :: "string option"
  ss_in_flight_trade_ids :: "string list"
  ss_remaining_entry_attempts :: "int option"

text \<open>The derived fields of \<^verbatim>\<open>sessionStatus\<close>; the others repeat fields of the record.\<close>

definition sessionStatus :: "BoxSessionRecord \<Rightarrow> BoxSessionActivity \<Rightarrow> session_status" where
  "sessionStatus r a =
     (let inFlight = inFlightCycleIds r in
      \<lparr>ss_state = deriveSessionState r a,
       ss_session_id = (if session_id r = [] then None else Some (session_id r)),
       ss_armed = isArmed r, ss_completed_trades = completedCycles r, ss_consumed_cycles = consumedCycles r,
       ss_remaining_trades = remainingCycles r,
       ss_current_trade_id = (case inFlight of [i] \<Rightarrow> Some i | _ \<Rightarrow> None),
       ss_in_flight_trade_ids = inFlight, ss_remaining_entry_attempts = remainingEntryAttempts r\<rparr>)"

section \<open>The manager\<close>

record session_deps =
  configuredMaxCompletedTrades :: jsnum
  configuredMaxEntryAttempts :: "jsnum option"
  persistenceAvailable :: bool

text \<open>A commit whose save has not settled: what it writes, what it restores, and whether it may.\<close>

record commit_in_flight =
  cm_next :: BoxSessionRecord
  cm_previous :: BoxSessionRecord
  cm_rollback :: bool

record manager_state =
  current :: BoxSessionRecord
  loaded :: bool
  loadError :: "string option"
  writeFailed :: bool
  in_flight :: "commit_in_flight list"
  disk :: "BoxSessionRecord option"

definition new_session_manager :: "int \<Rightarrow> BoxSessionRecord option \<Rightarrow> manager_state" where
  "new_session_manager now row =
     \<lparr>current = idleSessionRecord now, loaded = False, loadError = None, writeFailed = False, in_flight = [],
      disk = row\<rparr>"

text \<open>\<^verbatim>\<open>commit\<close> up to its await, and the two ways it resumes.\<close>

definition begin_commit :: "BoxSessionRecord \<Rightarrow> bool \<Rightarrow> manager_state \<Rightarrow> manager_state" where
  "begin_commit next rollback m =
     m\<lparr>current := next,
       in_flight := in_flight m @ [\<lparr>cm_next = next, cm_previous = current m, cm_rollback = rollback\<rparr>]\<rparr>"

definition saved_row :: "BoxSessionRecord \<Rightarrow> BoxSessionRecord" where
  "saved_row r = r\<lparr>entry_attempts := max 0 (entry_attempts r), max_entry_attempts := max 0 (max_entry_attempts r)\<rparr>"

datatype save_outcome = saved | failed | failed_after_write

definition settle :: "nat \<Rightarrow> save_outcome \<Rightarrow> manager_state \<Rightarrow> manager_state" where
  "settle i outcome m =
     (if i < length (in_flight m) then
        let c = in_flight m ! i;
            m1 = m\<lparr>in_flight := take i (in_flight m) @ drop (Suc i) (in_flight m)\<rparr>;
            m2 = (if outcome = failed then m1 else m1\<lparr>disk := Some (saved_row (cm_next c))\<rparr>)
        in if outcome = saved then m2\<lparr>writeFailed := False\<rparr>
           else if cm_rollback c then m2\<lparr>current := cm_previous c\<rparr>
           else m2\<lparr>writeFailed := True\<rparr>
      else m)"

definition enforcing :: "session_deps \<Rightarrow> manager_state \<Rightarrow> bool" where
  "enforcing deps m =
     (js_lt (Fin 0) (configuredMaxCompletedTrades deps) \<or>
      (case configuredMaxEntryAttempts deps of None \<Rightarrow> False | Some x \<Rightarrow> js_lt (Fin 0) x) \<or>
      (isArmed (current m) \<and> (0 < max_completed_trades (current m) \<or> 0 < max_entry_attempts (current m))))"

datatype SessionEntryRefusal = session_state_unreadable | session_refuses BoxSessionBlockReason

definition evaluateEntry :: "session_deps \<Rightarrow> bool \<Rightarrow> manager_state \<Rightarrow> SessionEntryRefusal option" where
  "evaluateEntry deps recoveryActive m =
     (if \<not> enforcing deps m then None
      else if \<not> persistenceAvailable deps then None
      else if \<not> loaded m then Some session_state_unreadable
      else if writeFailed m then Some session_state_unreadable
      else map_option session_refuses (evaluateSessionEntry (current m) recoveryActive))"

text \<open>\<^verbatim>\<open>initialise\<close> with the answers of \<^verbatim>\<open>load\<close> and \<^verbatim>\<open>flatTradeIds\<close>.  It runs alone, at boot.\<close>

definition s_initialise :: "session_deps \<Rightarrow> string option \<Rightarrow> (string list \<Rightarrow> string list) \<Rightarrow> int \<Rightarrow> manager_state \<Rightarrow> manager_state" where
  "s_initialise deps readError flatTradeIds now m =
     (if \<not> persistenceAvailable deps then m\<lparr>loaded := False, loadError := None\<rparr>
      else case readError of
        Some e \<Rightarrow> m\<lparr>loaded := False, loadError := Some e\<rparr>
      | None \<Rightarrow>
          let r = normaliseSessionRecord (case disk m of None \<Rightarrow> idleSessionRecord now | Some row \<Rightarrow> row);
              m1 = m\<lparr>loaded := True, loadError := None, current := r\<rparr>;
              outstanding = inFlightCycleIds r
          in if outstanding = [] then m1
             else let flat = flatTradeIds outstanding in
                  if flat = [] then m1 else begin_commit (reconcileCompletions r flat now) True m1)"

record arm_args =
  aa_maxCompletedTrades :: "jsnum option"
  aa_maxEntryAttempts :: "jsnum option"
  aa_armedBy :: "string option"
  aa_openBoxes :: int
  aa_residualLegs :: int
  aa_recoveryActive :: bool

definition s_arm :: "session_deps \<Rightarrow> arm_args \<Rightarrow> string \<Rightarrow> int \<Rightarrow> manager_state \<Rightarrow> manager_state" where
  "s_arm deps args sid now m =
     (if \<not> loaded m then m
      else case canArm (current m) (aa_openBoxes args) (aa_residualLegs args) (aa_recoveryActive args) of
        Some refusal \<Rightarrow> m
      | None \<Rightarrow>
          begin_commit
            (armSession sid
               (case aa_maxCompletedTrades args of None \<Rightarrow> configuredMaxCompletedTrades deps | Some x \<Rightarrow> x)
               (case aa_maxEntryAttempts args of None \<Rightarrow> configuredMaxEntryAttempts deps | Some x \<Rightarrow> Some x)
               (aa_armedBy args) (current m) now) True m)"

definition s_disarm :: "int \<Rightarrow> manager_state \<Rightarrow> manager_state" where
  "s_disarm now m = (if \<not> loaded m then m else begin_commit (disarmSession (current m) now) True m)"

definition s_recordEstablished :: "session_deps \<Rightarrow> string \<Rightarrow> int \<Rightarrow> manager_state \<Rightarrow> manager_state" where
  "s_recordEstablished deps tradeId now m =
     (if \<not> persistenceAvailable deps \<or> \<not> loaded m \<or> \<not> isArmed (current m) then m
      else let next = recordEstablishedBox (current m) tradeId now
           in if next = current m \<and> \<not> writeFailed m then m else begin_commit next False m)"

definition s_retryPendingWrite :: "session_deps \<Rightarrow> manager_state \<Rightarrow> manager_state" where
  "s_retryPendingWrite deps m =
     (if \<not> writeFailed m \<or> \<not> persistenceAvailable deps then m else begin_commit (current m) False m)"

definition s_recordCompleted :: "session_deps \<Rightarrow> string \<Rightarrow> int \<Rightarrow> manager_state \<Rightarrow> manager_state" where
  "s_recordCompleted deps tradeId now m =
     (if \<not> persistenceAvailable deps \<or> \<not> loaded m then m
      else let next = recordCompletedBox (current m) tradeId now
           in if next = current m then m else begin_commit next True m)"

datatype attempt_start = attempt_inert | attempt_refused | attempt_committing

definition s_recordAttemptStarted :: "session_deps \<Rightarrow> int \<Rightarrow> manager_state \<Rightarrow> attempt_start \<times> manager_state" where
  "s_recordAttemptStarted deps now m =
     (if \<not> enforcing deps m \<or> \<not> persistenceAvailable deps then (attempt_inert, m)
      else if \<not> loaded m \<or> \<not> isArmed (current m) then (attempt_refused, m)
      else (attempt_committing, begin_commit (recordEntryAttemptStarted (current m) now) True m))"

definition s_recordAborted :: "session_deps \<Rightarrow> int \<Rightarrow> manager_state \<Rightarrow> manager_state" where
  "s_recordAborted deps now m =
     (if \<not> persistenceAvailable deps \<or> \<not> loaded m \<or> \<not> isArmed (current m) then m
      else begin_commit (recordAbortedAttempt (current m) now) True m)"

text \<open>A call, and a run in which every call's save settles before the next call.  A crash loses the
  memory of the process and keeps the row.\<close>

datatype session_call =
    X_initialise "string option" "string list \<Rightarrow> string list" int
  | X_arm arm_args string int
  | X_disarm int
  | X_established string int
  | X_completed string int
  | X_attempt int
  | X_aborted int
  | X_retry
  | X_crash int

fun call :: "session_deps \<Rightarrow> session_call \<Rightarrow> manager_state \<Rightarrow> manager_state" where
  "call deps (X_initialise e flat now) m = s_initialise deps e flat now m"
| "call deps (X_arm args sid now) m = s_arm deps args sid now m"
| "call deps (X_disarm now) m = s_disarm now m"
| "call deps (X_established i now) m = s_recordEstablished deps i now m"
| "call deps (X_completed i now) m = s_recordCompleted deps i now m"
| "call deps (X_attempt now) m = snd (s_recordAttemptStarted deps now m)"
| "call deps (X_aborted now) m = s_recordAborted deps now m"
| "call deps X_retry m = s_retryPendingWrite deps m"
| "call deps (X_crash now) m = new_session_manager now (disk m)"

definition settled_call :: "session_deps \<Rightarrow> session_call \<times> save_outcome \<Rightarrow> manager_state \<Rightarrow> manager_state" where
  "settled_call deps e m = settle 0 (snd e) (call deps (fst e) m)"

section \<open>What a run has used up\<close>

text \<open>The trade ids established while armed and the attempts durably started, since the last arming that
  reached the database.\<close>

record budget_use =
  bu_spent :: "string set"
  bu_attempts :: nat

definition arms :: "session_deps \<Rightarrow> session_call \<times> save_outcome \<Rightarrow> manager_state \<Rightarrow> bool" where
  "arms deps e m =
     (case fst e of
        X_arm args sid now \<Rightarrow>
          loaded m \<and> snd e \<noteq> failed \<and>
          canArm (current m) (aa_openBoxes args) (aa_residualLegs args) (aa_recoveryActive args) = None
      | _ \<Rightarrow> False)"

definition use_step :: "session_deps \<Rightarrow> session_call \<times> save_outcome \<Rightarrow> manager_state \<Rightarrow> budget_use \<Rightarrow> budget_use" where
  "use_step deps e m u =
     (if arms deps e m then \<lparr>bu_spent = {}, bu_attempts = 0\<rparr>
      else case fst e of
        X_established i now \<Rightarrow>
          if loaded m \<and> isArmed (current m) \<and> i \<noteq> [] \<and> i \<notin> set (established_trade_ids (current m)) then u\<lparr>bu_spent := insert i (bu_spent u)\<rparr> else u
      | X_attempt now \<Rightarrow>
          if fst (s_recordAttemptStarted deps now m) = attempt_committing \<and> snd e = saved
          then u\<lparr>bu_attempts := bu_attempts u + 1\<rparr> else u
      | _ \<Rightarrow> u)"

fun session_run ::
    "session_deps \<Rightarrow> (session_call \<times> save_outcome) list \<Rightarrow> manager_state \<times> budget_use \<Rightarrow> manager_state \<times> budget_use" where
  "session_run deps [] s = s"
| "session_run deps (e # es) (m, u) = session_run deps es (settled_call deps e m, use_step deps e m u)"

text \<open>The process does not restart, nor read the row again, while a spent cycle is not on it.\<close>

fun orderly :: "session_deps \<Rightarrow> (session_call \<times> save_outcome) list \<Rightarrow> manager_state \<Rightarrow> bool" where
  "orderly deps [] m = True"
| "orderly deps (e # es) m =
     ((case fst e of X_crash _ \<Rightarrow> \<not> writeFailed m | X_initialise _ _ _ \<Rightarrow> \<not> writeFailed m | _ \<Rightarrow> True) \<and>
      orderly deps es (settled_call deps e m))"

definition covers :: "BoxSessionRecord \<Rightarrow> budget_use \<Rightarrow> bool" where
  "covers r u \<longleftrightarrow> bu_spent u \<subseteq> set (established_trade_ids r) \<and> int (bu_attempts u) \<le> entry_attempts r"

definition row_covers :: "BoxSessionRecord option \<Rightarrow> budget_use \<Rightarrow> bool" where
  "row_covers d u = (case d of None \<Rightarrow> bu_spent u = {} \<and> bu_attempts u = 0 | Some r \<Rightarrow> covers r u)"

definition budget_inv :: "manager_state \<Rightarrow> budget_use \<Rightarrow> bool" where
  "budget_inv m u \<longleftrightarrow> in_flight m = [] \<and> (writeFailed m \<longrightarrow> loaded m) \<and> (loaded m \<longrightarrow> covers (current m) u) \<and>
     (\<not> writeFailed m \<longrightarrow> row_covers (disk m) u)"

lemma covers_mono:
  "covers r u \<Longrightarrow> set (established_trade_ids r) \<subseteq> set (established_trade_ids r') \<Longrightarrow> entry_attempts r \<le> entry_attempts r' \<Longrightarrow>
     covers r' u"
  by (auto simp: covers_def)

lemma covers_saved_row [simp]: "covers r u \<Longrightarrow> covers (saved_row r) u"
  by (auto simp: covers_def saved_row_def)

lemma covers_normalise [simp]: "covers r u \<Longrightarrow> covers (normaliseSessionRecord r) u"
  by (auto simp: covers_def normaliseSessionRecord_def)

lemma covers_idle [simp]: "covers (idleSessionRecord now) u = (bu_spent u = {} \<and> bu_attempts u = 0)"
  by (auto simp: covers_def idleSessionRecord_def)

lemma completed_frame [simp]:
  "established_trade_ids (recordCompletedBox r i now) = established_trade_ids r"
  "entry_attempts (recordCompletedBox r i now) = entry_attempts r"
  by (auto simp: recordCompletedBox_def)

lemma established_ids:
  "established_trade_ids (recordEstablishedBox r i now) =
     (if i = [] \<or> i \<in> set (established_trade_ids r) then established_trade_ids r
      else established_trade_ids r @ [i])"
  by (simp add: recordEstablishedBox_def)

lemma reconcile_frame [simp]:
  "established_trade_ids (reconcileCompletions r ids now) = established_trade_ids r"
  "entry_attempts (reconcileCompletions r ids now) = entry_attempts r"
  unfolding reconcileCompletions_def by (induction ids arbitrary: r) auto

lemma covers_frame [simp]:
  "covers (recordCompletedBox r i now) u = covers r u" "covers (disarmSession r now) u = covers r u"
  "covers (recordAbortedAttempt r now) u = covers r u"
  by (simp_all add: covers_def disarmSession_def recordAbortedAttempt_def)

text \<open>One commit, settled at once.\<close>

lemma settle_begin [simp]:
  assumes "in_flight m = []"
  shows "settle 0 o1 (begin_commit next rollback m) =
    (if o1 = saved then m\<lparr>current := next, disk := Some (saved_row next), writeFailed := False\<rparr>
     else if rollback then (if o1 = failed then m else m\<lparr>disk := Some (saved_row next)\<rparr>)
     else (if o1 = failed then m\<lparr>current := next, writeFailed := True\<rparr>
           else m\<lparr>current := next, disk := Some (saved_row next), writeFailed := True\<rparr>))"
  using assms by (cases o1) (simp_all add: settle_def begin_commit_def Let_def)

lemma settle_none [simp]: "in_flight m = [] \<Longrightarrow> settle 0 o1 m = m"
  by (simp add: settle_def)

text \<open>A commit whose record covers the use keeps the invariant.\<close>

lemma commit_inv:
  assumes "budget_inv m u0" "loaded m" "covers next u"
    and "rollback \<Longrightarrow> o1 \<noteq> saved \<Longrightarrow> covers (current m) u" and "rollback \<Longrightarrow> o1 = failed \<Longrightarrow> \<not> writeFailed m \<Longrightarrow> row_covers (disk m) u"
  shows "budget_inv (settle 0 o1 (begin_commit next rollback m)) u"
  using assms by (cases o1) (auto simp: budget_inv_def row_covers_def)

lemma settled_call_inv:
  assumes "budget_inv m u" "persistenceAvailable deps"
    and "case fst e of X_crash _ \<Rightarrow> \<not> writeFailed m | X_initialise _ _ _ \<Rightarrow> \<not> writeFailed m | _ \<Rightarrow> True"
  shows "budget_inv (settled_call deps e m) (use_step deps e m u)"
proof -
  have f: "in_flight m = []" and c: "loaded m \<Longrightarrow> covers (current m) u"
    and d: "\<not> writeFailed m \<Longrightarrow> row_covers (disk m) u"
    using assms(1) by (auto simp: budget_inv_def)
  show ?thesis
  proof (cases "fst e")
    case (X_initialise err flat now)
    let ?r = "normaliseSessionRecord (case disk m of None \<Rightarrow> idleSessionRecord now | Some row \<Rightarrow> row)"
    let ?m = "m\<lparr>loaded := True, loadError := None, current := ?r\<rparr>"
    have r: "covers ?r u" using d assms(3) X_initialise by (auto simp: row_covers_def split: option.split)
    have i: "budget_inv ?m u" using assms(1) r by (simp add: budget_inv_def)
    have k: "budget_inv (settle 0 (snd e) (begin_commit (reconcileCompletions ?r fl now) True ?m)) u" for fl
      using i r d assms(3) X_initialise covers_mono [OF r] by (intro commit_inv [OF i]) auto
    show ?thesis
      using X_initialise assms i k f
      by (auto simp: settled_call_def use_step_def arms_def s_initialise_def Let_def budget_inv_def split: option.split)
  next
    case (X_arm args sid now)
    show ?thesis
    proof (cases "loaded m \<and> canArm (current m) (aa_openBoxes args) (aa_residualLegs args) (aa_recoveryActive args) = None")
      case True
      define fresh where "fresh = armSession sid
          (case aa_maxCompletedTrades args of None \<Rightarrow> configuredMaxCompletedTrades deps | Some x \<Rightarrow> x)
          (case aa_maxEntryAttempts args of None \<Rightarrow> configuredMaxEntryAttempts deps | Some x \<Rightarrow> Some x)
          (aa_armedBy args) (current m) now"
      have call: "settled_call deps e m = settle 0 (snd e) (begin_commit fresh True m)"
        using X_arm True by (simp add: settled_call_def s_arm_def fresh_def)
      show ?thesis
      proof (cases "snd e = failed")
        case True
        then show ?thesis using assms(1) f X_arm by (simp add: call use_step_def arms_def)
      next
        case False
        then have "use_step deps e m u = \<lparr>bu_spent = {}, bu_attempts = 0\<rparr>"
          using X_arm True by (simp add: use_step_def arms_def)
        moreover have "covers fresh \<lparr>bu_spent = {}, bu_attempts = 0\<rparr>"
          by (simp add: covers_def fresh_def armSession_def)
        moreover have "covers (current m) \<lparr>bu_spent = {}, bu_attempts = 0\<rparr>"
          using c True by (auto simp: covers_def)
        ultimately show ?thesis using False True assms(1) unfolding call by (intro commit_inv) auto
      qed
    next
      case False
      then show ?thesis using assms(1) f X_arm
        by (auto simp: settled_call_def s_arm_def use_step_def arms_def split: option.split)
    qed
  next
    case (X_disarm now)
    show ?thesis using X_disarm assms(1) f c d
      by (cases "loaded m")
        (auto simp: settled_call_def s_disarm_def use_step_def arms_def intro!: commit_inv [OF assms(1)]
          elim: covers_mono simp del: settle_begin)
  next
    case (X_established i now)
    let ?u = "use_step deps e m u" and ?next = "recordEstablishedBox (current m) i now"
    show ?thesis
    proof (cases "loaded m \<and> isArmed (current m)")
      case True
      have u: "?u = (if i = [] \<or> i \<in> set (established_trade_ids (current m)) then u
          else u\<lparr>bu_spent := insert i (bu_spent u)\<rparr>)"
        using X_established True by (simp add: use_step_def arms_def)
      have n: "covers ?next ?u" using c True by (auto simp: u covers_def recordEstablishedBox_def)
      show ?thesis
      proof (cases "?next = current m \<and> \<not> writeFailed m")
        case True
        then have "i = [] \<or> i \<in> set (established_trade_ids (current m))"
          using established_ids [of "current m" i now] by (auto split: if_splits)
        then show ?thesis using True X_established assms(1) f
          by (auto simp: u settled_call_def s_recordEstablished_def Let_def)
      next
        case False
        then have "settled_call deps e m = settle 0 (snd e) (begin_commit ?next False m)"
          using X_established True assms(2) by (auto simp: settled_call_def s_recordEstablished_def Let_def)
        then show ?thesis using True n by (auto intro!: commit_inv [OF assms(1)] simp del: settle_begin)
      qed
    next
      case False
      then show ?thesis using X_established assms(1) f
        by (auto simp: settled_call_def s_recordEstablished_def use_step_def arms_def)
    qed
  next
    case (X_completed i now)
    show ?thesis using X_completed assms(1,2) f c d
      by (auto simp: settled_call_def s_recordCompleted_def use_step_def arms_def Let_def
          intro!: commit_inv [OF assms(1)] elim: covers_mono simp del: settle_begin)
  next
    case (X_attempt now)
    let ?next = "recordEntryAttemptStarted (current m) now"
    show ?thesis
    proof (cases "fst (s_recordAttemptStarted deps now m) = attempt_committing")
      case True
      then have call: "settled_call deps e m = settle 0 (snd e) (begin_commit ?next True m)" and l: "loaded m"
        using X_attempt by (auto simp: settled_call_def s_recordAttemptStarted_def split: if_splits)
      have u: "use_step deps e m u = (if snd e = saved then u\<lparr>bu_attempts := bu_attempts u + 1\<rparr> else u)"
        using X_attempt True by (simp add: use_step_def arms_def)
      have "covers ?next (use_step deps e m u)"
        using c l by (auto simp: u covers_def recordEntryAttemptStarted_def)
      then show ?thesis unfolding call using l c d by (intro commit_inv [OF assms(1)]) (auto simp: u)
    next
      case False
      then show ?thesis using X_attempt assms(1) f
        by (auto simp: settled_call_def s_recordAttemptStarted_def use_step_def arms_def split: if_splits)
    qed
  next
    case (X_aborted now)
    show ?thesis using X_aborted assms(1,2) f c d
      by (auto simp: settled_call_def s_recordAborted_def use_step_def arms_def
          intro!: commit_inv [OF assms(1)] elim: covers_mono simp del: settle_begin)
  next
    case X_retry
    have "writeFailed m \<Longrightarrow> loaded m" using assms(1) by (simp add: budget_inv_def)
    then show ?thesis using X_retry assms(1,2) f c d
      by (auto simp: settled_call_def s_retryPendingWrite_def use_step_def arms_def
          intro!: commit_inv [OF assms(1)] simp del: settle_begin)
  next
    case (X_crash now)
    then show ?thesis using d assms(3)
      by (auto simp: settled_call_def use_step_def arms_def new_session_manager_def budget_inv_def)
  qed
qed

lemma session_run_inv:
  assumes "budget_inv m u" "persistenceAvailable deps" "orderly deps es m"
  shows "budget_inv (fst (session_run deps es (m, u))) (snd (session_run deps es (m, u)))"
  using assms
proof (induction es arbitrary: m u)
  case (Cons e es)
  show ?case
    unfolding session_run.simps
    using Cons.prems by (intro Cons.IH settled_call_inv) auto
qed simp

lemma allowed_covers:
  assumes "budget_inv m u" "persistenceAvailable deps" "evaluateEntry deps rec m = None" "isArmed (current m)"
  shows "(0 < max_completed_trades (current m) \<longrightarrow> int (card (bu_spent u)) < max_completed_trades (current m)) \<and>
     (0 < max_entry_attempts (current m) \<longrightarrow> int (bu_attempts u) < max_entry_attempts (current m))"
proof (cases "enforcing deps m")
  case True
  then have l: "loaded m" and e: "evaluateSessionEntry (current m) rec = None"
    using assms(2,3) by (auto simp: evaluateEntry_def split: if_splits)
  then have c: "covers (current m) u" using assms(1) by (simp add: budget_inv_def)
  have "card (bu_spent u) \<le> length (established_trade_ids (current m))"
    using c by (meson card_length card_mono finite_set covers_def le_trans)
  then show ?thesis using e c
    by (auto simp: evaluateSessionEntry_def isBudgetExhausted_def isAttemptBudgetExhausted_def consumedCycles_def
        covers_def split: if_splits)
next
  case False
  then show ?thesis using assms(4) by (auto simp: enforcing_def)
qed

section \<open>Properties\<close>


text \<open>A session armed for one cycle, and two calls whose saves overlap.\<close>

definition one_shot_deps :: session_deps where
  "one_shot_deps = \<lparr>configuredMaxCompletedTrades = Fin 1, configuredMaxEntryAttempts = None, persistenceAvailable = True\<rparr>"

definition one_shot :: manager_state where
  "one_shot =
     (let r = armSession ''s1'' (Fin 1) None None (idleSessionRecord 0) 0
      in \<lparr>current = r, loaded = True, loadError = None, writeFailed = False, in_flight = [], disk = Some r\<rparr>)"

definition overlapping :: manager_state where
  "overlapping =
     settle 0 failed (settle 1 saved
       (s_recordEstablished one_shot_deps ''box1'' 2 (s_recordAborted one_shot_deps 1 one_shot)))"


text \<open>The reported session state agrees with the entry verdict, but for the attempt budget.  A state
  of COMPLETED means the cycle budget is spent and every consumed cycle is flat; ARMED means that
  nothing is going on and entry is allowed, or refused only because the attempts are used up.\<close>

theorem session_state_matches_entry:
  "(deriveSessionState r a = ARMED \<longleftrightarrow>
      \<not> act_recoveryActive a \<and> \<not> exitInProgress a \<and> openBoxes a \<le> 0 \<and> \<not> entryInProgress a \<and>
      \<not> entryBlockedExternally a \<and>
      evaluateSessionEntry r False \<in> {None, Some session_attempt_budget_exhausted})
   \<and> (deriveSessionState r a = COMPLETED \<longleftrightarrow>
      \<not> act_recoveryActive a \<and> isArmed r \<and> \<not> exitInProgress a \<and> openBoxes a \<le> 0 \<and> \<not> entryInProgress a \<and>
      remainingCycles r = Some 0 \<and> consumedCycles r \<le> completedCycles r)"
  by (auto simp: deriveSessionState_def evaluateSessionEntry_def remainingCycles_def isBudgetExhausted_def)

text \<open>Disarming a session that was armed under an explicit limit lifts the limit when the deployment
  configures none: entry was refused, and is allowed once disarmed.\<close>

lemma disarm_lifts_explicit_limit:
  "evaluateEntry (one_shot_deps\<lparr>configuredMaxCompletedTrades := Fin 0\<rparr>) False
     (settle 0 saved (s_recordEstablished one_shot_deps ''box1'' 2 one_shot)) =
       Some (session_refuses session_budget_exhausted)
   \<and> evaluateEntry (one_shot_deps\<lparr>configuredMaxCompletedTrades := Fin 0\<rparr>) False
     (settle 0 saved (s_disarm 3 (settle 0 saved (s_recordEstablished one_shot_deps ''box1'' 2 one_shot)))) = None"
  by code_simp

definition sample_session_run :: "(session_call \<times> save_outcome) list" where
  "sample_session_run =
     [(X_initialise None (\<lambda>_. []) 1, saved),
      (X_arm \<lparr>aa_maxCompletedTrades = Some (Fin 2), aa_maxEntryAttempts = None, aa_armedBy = None, aa_openBoxes = 0,
              aa_residualLegs = 0, aa_recoveryActive = False\<rparr> ''s1'' 2, saved),
      (X_attempt 3, failed), (X_attempt 4, saved), (X_established ''box1'' 5, failed), (X_retry, saved),
      (X_crash 6, saved), (X_initialise None (\<lambda>_. []) 7, saved)]"


end
