(* ===== verification/Underlying_Lock.thy ===== *)
theory Underlying_Lock
  imports Instrument_Key "HOL-Library.AList"
begin

text \<open>
  One active box per underlying, \<^verbatim>\<open>src/box/underlyingLock.ts\<close>: the reservation key of an underlying, the
  set of underlyings that durable state proves active, and the admission of a new entry.

  JavaScript maps are association lists in insertion order.  The refusal texts leave out the fixed
  explanation.  The lemmas show that admission refuses exactly when something on the underlying is, or
  may be, live, with every reason named once and in order, and that underlying keys and contract keys
  cannot be confused.
\<close>

section \<open>Keys\<close>

definition UNDERLYING_KEY_CLASS :: string where
  "UNDERLYING_KEY_CLASS = ''UNDERLYING''"

definition ul_normalise :: "string \<Rightarrow> string" where
  "ul_normalise u = js_upper (js_trim u)"

definition underlyingReservationKey :: "string \<Rightarrow> string \<Rightarrow> string" where
  "underlyingReservationKey broker u =
     js_upper (js_trim broker) @ '':'' @ UNDERLYING_KEY_CLASS @ '':'' @ js_upper (js_trim u)"

definition parseUnderlyingReservationKey :: "string \<Rightarrow> string option" where
  "parseUnderlyingReservationKey key =
     (case js_split (CHR '':'') key of
        [a, b, c] \<Rightarrow>
          if b \<noteq> UNDERLYING_KEY_CLASS then None
          else if js_trim c = [] then None else Some (js_trim c)
      | _ \<Rightarrow> None)"

definition isUnderlyingReservationKey :: "string \<Rightarrow> bool" where
  "isUnderlyingReservationKey key = (parseUnderlyingReservationKey key \<noteq> None)"

definition underlyingLegRef :: "string \<Rightarrow> string \<Rightarrow> BoxLegRole \<Rightarrow> InstrumentLegRef" where
  "underlyingLegRef broker u role =
     \<lparr>ref_key = underlyingReservationKey broker u, ref_role = role, ref_side = BUY,
      ref_inst = \<lparr>in_token = 0, in_tradingsymbol = Some (js_upper (js_trim u)), in_exchange = UNDERLYING_KEY_CLASS\<rparr>\<rparr>"

text \<open>The first exchange the guard would throw on.\<close>

definition assertNoKeyClassCollision :: "string list \<Rightarrow> string option" where
  "assertNoKeyClassCollision exchanges = find (\<lambda>e. js_upper (js_trim e) = UNDERLYING_KEY_CLASS) exchanges"

section \<open>Activity\<close>

datatype UnderlyingActivityKind =
  open_box | partially_exited | k_recovery | residual_exposure | working_entry_order | uncertain_intent
| entry_in_flight

fun kind_name :: "UnderlyingActivityKind \<Rightarrow> string" where
  "kind_name open_box = ''open_box''"
| "kind_name partially_exited = ''partially_exited''"
| "kind_name k_recovery = ''recovery''"
| "kind_name residual_exposure = ''residual_exposure''"
| "kind_name working_entry_order = ''working_entry_order''"
| "kind_name uncertain_intent = ''uncertain_intent''"
| "kind_name entry_in_flight = ''entry_in_flight''"

lemma kind_name_inj: "kind_name a = kind_name b \<Longrightarrow> a = b"
  by (cases a; cases b) simp_all

text \<open>The source sorts the names, so kinds are ordered as their names are.\<close>

instantiation UnderlyingActivityKind :: linorder
begin

definition less_eq_UnderlyingActivityKind :: "UnderlyingActivityKind \<Rightarrow> UnderlyingActivityKind \<Rightarrow> bool" where
  "less_eq_UnderlyingActivityKind a b \<longleftrightarrow> kind_name a \<le> kind_name b"

definition less_UnderlyingActivityKind :: "UnderlyingActivityKind \<Rightarrow> UnderlyingActivityKind \<Rightarrow> bool" where
  "less_UnderlyingActivityKind a b \<longleftrightarrow> kind_name a < kind_name b"

instance
  by standard (auto simp: less_eq_UnderlyingActivityKind_def less_UnderlyingActivityKind_def kind_name_inj)

end

record UnderlyingActivity =
  ua_underlying :: string
  ua_kinds :: "UnderlyingActivityKind list"
  ua_detail :: string

record UnderlyingPositionInput =
  up_underlying :: string
  up_position_state :: "BoxPositionState option"
  up_remaining :: "(BoxLegRole \<times> jsnum) list option"

record UnderlyingActivityInput =
  ai_positions :: "UnderlyingPositionInput list"
  ai_residuals :: "(string \<times> int) list"
  ai_intents :: "(string \<times> BoxOrderIntentState) list"
  ai_pipelines :: "string list"

definition UNRESOLVED_INTENT_STATES :: "BoxOrderIntentState list" where
  "UNRESOLVED_INTENT_STATES =
     [I_CREATED, I_SUBMITTING, I_ACKNOWLEDGED, I_OPEN, I_PARTIALLY_FILLED, I_CANCEL_REQUESTED]"

definition UNCERTAIN_INTENT_STATES :: "BoxOrderIntentState list" where
  "UNCERTAIN_INTENT_STATES = [I_UNKNOWN, I_RECONCILIATION_REQUIRED]"

definition positionIsFlat :: "(BoxLegRole \<times> jsnum) list option \<Rightarrow> bool" where
  "positionIsFlat rem =
     (case rem of None \<Rightarrow> False | Some vs \<Rightarrow> vs \<noteq> [] \<and> list_all (\<lambda>(r, v). js_eq v (Fin 0)) vs)"

type_synonym kind_table = "(string \<times> UnderlyingActivityKind list) list"

definition add_kind :: "string \<Rightarrow> UnderlyingActivityKind \<Rightarrow> kind_table \<Rightarrow> kind_table" where
  "add_kind u k m =
     (let key = ul_normalise u in
      if key = [] then m
      else case map_of m key of
        Some ks \<Rightarrow> AList.update key (if k \<in> set ks then ks else ks @ [k]) m
      | None \<Rightarrow> AList.update key [k] m)"

definition add_position :: "UnderlyingPositionInput \<Rightarrow> kind_table \<Rightarrow> kind_table" where
  "add_position p m =
     (let state = (case up_position_state p of None \<Rightarrow> P_BOX | Some s \<Rightarrow> s) in
      if state = P_RECOVERY then add_kind (up_underlying p) k_recovery m
      else if state = P_FLAT \<or> positionIsFlat (up_remaining p) then m
      else add_kind (up_underlying p) (if state = P_PARTIALLY_EXITED then partially_exited else open_box) m)"

definition add_residual :: "string \<times> int \<Rightarrow> kind_table \<Rightarrow> kind_table" where
  "add_residual r m = (if 0 < snd r then add_kind (fst r) residual_exposure m else m)"

definition add_intent :: "string \<times> BoxOrderIntentState \<Rightarrow> kind_table \<Rightarrow> kind_table" where
  "add_intent i m =
     (if snd i \<in> set UNCERTAIN_INTENT_STATES then add_kind (fst i) uncertain_intent m
      else if snd i \<in> set UNRESOLVED_INTENT_STATES then add_kind (fst i) working_entry_order m
      else m)"

definition collect_kinds :: "UnderlyingActivityInput \<Rightarrow> kind_table" where
  "collect_kinds inp =
     fold (\<lambda>u. add_kind u entry_in_flight) (ai_pipelines inp)
       (fold add_intent (ai_intents inp)
         (fold add_residual (ai_residuals inp)
           (fold add_position (ai_positions inp) [])))"

fun join_names :: "string list \<Rightarrow> string" where
  "join_names [] = []"
| "join_names [x] = x"
| "join_names (x # xs) = x @ '', '' @ join_names xs"

definition activeUnderlyings :: "UnderlyingActivityInput \<Rightarrow> (string \<times> UnderlyingActivity) list" where
  "activeUnderlyings inp =
     map (\<lambda>(u, ks). (u, \<lparr>ua_underlying = u, ua_kinds = sort ks,
            ua_detail = u @ '' is already active ('' @ join_names (map kind_name (sort ks)) @ '')''\<rparr>))
       (collect_kinds inp)"

datatype UnderlyingAdmission =
    Admitted (ad_enabled: bool)
  | Already_active (ad_underlying: string) (ad_activity: UnderlyingActivity)

definition evaluateUnderlyingAdmission ::
    "bool \<Rightarrow> string \<Rightarrow> (string \<times> UnderlyingActivity) list \<Rightarrow> UnderlyingAdmission" where
  "evaluateUnderlyingAdmission enabled u active =
     (if \<not> enabled then Admitted False
      else case map_of active (ul_normalise u) of
        None \<Rightarrow> Admitted True
      | Some a \<Rightarrow> Already_active (ul_normalise u) a)"

definition mayReleaseUnderlyingLease :: "bool \<Rightarrow> bool" where
  "mayReleaseUnderlyingLease clean = clean"

section \<open>What is active\<close>

text \<open>The specification: why an input makes an underlying active.\<close>

fun position_kind :: "UnderlyingPositionInput \<Rightarrow> UnderlyingActivityKind option" where
  "position_kind p =
     (case up_position_state p of
        Some P_RECOVERY \<Rightarrow> Some k_recovery
      | Some P_FLAT \<Rightarrow> None
      | Some P_PARTIALLY_EXITED \<Rightarrow> if positionIsFlat (up_remaining p) then None else Some partially_exited
      | _ \<Rightarrow> if positionIsFlat (up_remaining p) then None else Some open_box)"

fun intent_kind :: "BoxOrderIntentState \<Rightarrow> UnderlyingActivityKind option" where
  "intent_kind s =
     (if isBrokerOrderTerminal s then None
      else Some (if s \<in> {I_UNKNOWN, I_RECONCILIATION_REQUIRED} then uncertain_intent else working_entry_order))"

definition active_kinds :: "string \<Rightarrow> UnderlyingActivityInput \<Rightarrow> UnderlyingActivityKind set" where
  "active_kinds u inp =
     {k. list_ex (\<lambda>p. ul_normalise (up_underlying p) = ul_normalise u \<and> position_kind p = Some k) (ai_positions inp) \<or>
         (k = residual_exposure \<and> list_ex (\<lambda>r. ul_normalise (fst r) = ul_normalise u \<and> 0 < snd r) (ai_residuals inp)) \<or>
         list_ex (\<lambda>i. ul_normalise (fst i) = ul_normalise u \<and> intent_kind (snd i) = Some k) (ai_intents inp) \<or>
         (k = entry_in_flight \<and> list_ex (\<lambda>v. ul_normalise v = ul_normalise u) (ai_pipelines inp))}"

text \<open>Every step of the derivation adds at most one kind.\<close>

definition add_opt :: "string \<Rightarrow> UnderlyingActivityKind option \<Rightarrow> kind_table \<Rightarrow> kind_table" where
  "add_opt u ko m = (case ko of None \<Rightarrow> m | Some k \<Rightarrow> add_kind u k m)"

lemma add_position_opt: "add_position p = add_opt (up_underlying p) (position_kind p)"
  by (rule ext) (auto simp: add_position_def add_opt_def Let_def split: option.split BoxPositionState.split)

lemma add_residual_opt: "add_residual r = add_opt (fst r) (if 0 < snd r then Some residual_exposure else None)"
  by (rule ext) (simp add: add_residual_def add_opt_def)

lemma add_intent_opt: "add_intent i = add_opt (fst i) (intent_kind (snd i))"
  by (rule ext, cases "snd i")
    (simp_all add: add_intent_def add_opt_def UNCERTAIN_INTENT_STATES_def UNRESOLVED_INTENT_STATES_def
      isBrokerOrderTerminal_def)

definition kinds_at :: "kind_table \<Rightarrow> string \<Rightarrow> UnderlyingActivityKind set" where
  "kinds_at m key = (case map_of m key of None \<Rightarrow> {} | Some ks \<Rightarrow> set ks)"

definition table_ok :: "kind_table \<Rightarrow> bool" where
  "table_ok m \<longleftrightarrow> (\<forall>key ks. map_of m key = Some ks \<longrightarrow> ks \<noteq> [] \<and> distinct ks \<and> key \<noteq> [])"

lemma add_opt_at:
  "kinds_at (add_opt u ko m) key = kinds_at m key \<union> {k. key \<noteq> [] \<and> ul_normalise u = key \<and> ko = Some k}"
  by (auto simp: kinds_at_def add_opt_def add_kind_def Let_def update_conv' split: option.splits if_splits)

lemma add_opt_ok: "table_ok m \<Longrightarrow> table_ok (add_opt u ko m)"
  by (auto simp: table_ok_def add_opt_def add_kind_def Let_def update_conv' split: option.splits if_splits)

lemma fold_add_at:
  "kinds_at (fold (\<lambda>x. add_opt (f x) (g x)) xs m) key =
     kinds_at m key \<union> {k. key \<noteq> [] \<and> list_ex (\<lambda>x. ul_normalise (f x) = key \<and> g x = Some k) xs}"
  by (induction xs arbitrary: m) (auto simp: add_opt_at)

lemma fold_add_ok: "table_ok m \<Longrightarrow> table_ok (fold (\<lambda>x. add_opt (f x) (g x)) xs m)"
  by (induction xs arbitrary: m) (auto simp: add_opt_ok)

lemma add_pipeline_opt: "add_kind u entry_in_flight = add_opt u (Some entry_in_flight)"
  by (rule ext) (simp add: add_opt_def)

declare position_kind.simps [simp del] intent_kind.simps [simp del]

lemmas add_opts = add_position_opt [abs_def] add_residual_opt [abs_def] add_intent_opt [abs_def] add_pipeline_opt

lemma collect_kinds_at:
  assumes "ul_normalise u \<noteq> []"
  shows "kinds_at (collect_kinds inp) (ul_normalise u) = active_kinds u inp"
  using assms unfolding collect_kinds_def add_opts fold_add_at active_kinds_def
  by (auto simp: kinds_at_def list_ex_iff split: if_splits)

lemma collect_kinds_ok: "table_ok (collect_kinds inp)"
  unfolding collect_kinds_def add_opts by (intro fold_add_ok) (simp add: table_ok_def)

lemma active_lookup:
  "map_of (activeUnderlyings inp) key =
     map_option (\<lambda>ks. \<lparr>ua_underlying = key, ua_kinds = sort ks,
            ua_detail = key @ '' is already active ('' @ join_names (map kind_name (sort ks)) @ '')''\<rparr>)
       (map_of (collect_kinds inp) key)"
proof -
  have "map_of (map (\<lambda>(u, ks). (u, h u ks)) m) key = map_option (h key) (map_of m key)" for h and m :: kind_table
    by (induction m) auto
  then show ?thesis by (simp add: activeUnderlyings_def)
qed

section \<open>Keys do not alias\<close>

text \<open>An underlying key reads back as the underlying, and no contract of an exchange that passes the guard
  has an underlying key.\<close>

lemma underlying_key_roundtrip:
  assumes "CHR '':'' \<notin> set (js_upper (js_trim broker))" "CHR '':'' \<notin> set (ul_normalise u)"
  shows "parseUnderlyingReservationKey (underlyingReservationKey broker u) =
    (if js_trim (ul_normalise u) = [] then None else Some (js_trim (ul_normalise u)))"
proof -
  have "js_split (CHR '':'') (''UNDERLYING:'' @ ul_normalise u) = [''UNDERLYING'', ul_normalise u]"
    using js_split_append_sep [of "CHR '':''" "''UNDERLYING''" "ul_normalise u"] js_split_no_sep [OF assms(2)] by simp
  then show ?thesis
    using js_split_append_sep [OF assms(1), of "''UNDERLYING:'' @ ul_normalise u"]
    by (simp add: parseUnderlyingReservationKey_def underlyingReservationKey_def UNDERLYING_KEY_CLASS_def
        ul_normalise_def)
qed

lemma contract_key_not_underlying:
  assumes "assertNoKeyClassCollision [if in_exchange i = [] then ''NFO'' else in_exchange i] = None"
    and "CHR '':'' \<notin> set (js_upper (js_trim (if in_exchange i = [] then ''NFO'' else in_exchange i)))"
    and "CHR '':'' \<notin> set (js_upper (js_trim b))" "CHR '':'' \<notin> set (js_upper (js_trim b'))"
  shows "instrumentKey b i \<noteq> underlyingReservationKey b' u"
proof
  let ?e = "js_upper (js_trim (if in_exchange i = [] then ''NFO'' else in_exchange i))"
  assume eq: "instrumentKey b i = underlyingReservationKey b' u"
  obtain m t where key: "instrumentKey b i = js_upper (js_trim b) @ CHR '':'' # m @ CHR '':'' # t"
    and m: "CHR '':'' \<notin> set m" "m \<noteq> ''UNDERLYING''"
  proof (cases "in_tradingsymbol i \<noteq> None \<and> js_trim (the (in_tradingsymbol i)) \<noteq> []")
    case True
    then show ?thesis
      using that [of ?e] assms(1,2)
      by (auto simp: instrumentKey_def Let_def normaliseBroker_def assertNoKeyClassCollision_def UNDERLYING_KEY_CLASS_def
          split: if_splits)
  next
    case False
    then show ?thesis
      using that [of "''TOKEN''" "js_string_of_nat (in_token i)"]
      by (cases "in_tradingsymbol i") (auto simp: instrumentKey_def Let_def normaliseBroker_def)
  qed
  have "m @ CHR '':'' # t = ''UNDERLYING'' @ CHR '':'' # js_upper (js_trim u)"
    using append_sep_inj [OF assms(3,4)] eq key by (simp add: underlyingReservationKey_def UNDERLYING_KEY_CLASS_def)
  then have "m = ''UNDERLYING''" using append_sep_inj [OF m(1), of "''UNDERLYING''"] by simp
  then show False using m(2) by simp
qed

section \<open>Properties\<close>

text \<open>C34. Admission refuses a new box exactly when something on its underlying is or may be live.  With
  the restriction on, a candidate with a non-empty underlying is refused if and only if, up to case
  and surrounding blanks, a position that is not flat, a residual leg, an intent that is not terminal
  or an entry pipeline is on that underlying; the refusal names every such reason, each once, in
  order.  A flat position does not block, a position in recovery always does; with the restriction
  off nothing is refused.\<close>

theorem underlying_admission_exact:
  "case evaluateUnderlyingAdmission enabled u (activeUnderlyings inp) of
     Admitted e \<Rightarrow> e = enabled \<and> \<not> (enabled \<and> ul_normalise u \<noteq> [] \<and> active_kinds u inp \<noteq> {})
   | Already_active key a \<Rightarrow>
       enabled \<and> key = ul_normalise u \<and> ua_underlying a = key \<and> key \<noteq> [] \<and>
       active_kinds u inp \<noteq> {} \<and> set (ua_kinds a) = active_kinds u inp \<and>
       sorted (ua_kinds a) \<and> distinct (ua_kinds a)"
proof (cases "map_of (collect_kinds inp) (ul_normalise u)")
  case None
  then have "ul_normalise u \<noteq> [] \<Longrightarrow> active_kinds u inp = {}"
    using collect_kinds_at [of u inp] by (simp add: kinds_at_def)
  then show ?thesis using None by (auto simp: evaluateUnderlyingAdmission_def active_lookup)
next
  case (Some ks)
  then have "ks \<noteq> []" "distinct ks" "ul_normalise u \<noteq> []" using collect_kinds_ok by (auto simp: table_ok_def)
  moreover from this have "active_kinds u inp = set ks"
    using Some collect_kinds_at [of u inp] by (simp add: kinds_at_def)
  ultimately show ?thesis using Some by (simp add: evaluateUnderlyingAdmission_def active_lookup)
qed

end
