(* ===== verification/Mode_Transition.thy ===== *)
theory Mode_Transition
  imports Box_Types
begin

text \<open>
  Execution-mode transitions, \<^verbatim>\<open>src/box/liveModeTransition.ts\<close>: which mode changes may be applied at run
  time, which need a restart and which are refused, and what arming each live permission requires.
  A blocker is its code with the count its text shows; the fixed texts are left out.

  The lemmas show that no sequence of run-time requests crosses the paper/live boundary, and that the
  permissions to reduce exposure ask for less than the permission to open it.
\<close>

datatype BoxPaperProfile = standard_profile | live_parity

datatype ExecutionModeSelection =
  sel_paper_latency | sel_paper_legging | sel_paper_legging_live_parity | sel_live

definition currentSelection :: "ExecutionMode \<Rightarrow> BoxPaperProfile \<Rightarrow> ExecutionModeSelection" where
  "currentSelection mode profile =
     (if mode = live then sel_live
      else if mode = paper_legging then (if profile = live_parity then sel_paper_legging_live_parity else sel_paper_legging)
      else sel_paper_latency)"

definition selectionIsLive :: "ExecutionModeSelection \<Rightarrow> bool" where
  "selectionIsLive s = (s = sel_live)"

record ModeTransitionSnapshot =
  deploymentLiveCapable :: bool
  mt_openBoxes :: int
  partiallyExitedBoxes :: int
  recoveryBoxes :: int
  mt_residualLegs :: int
  mt_recoveryActive :: bool
  workingBrokerOrders :: int
  queuedExecutions :: int
  inFlightExecutions :: int
  unresolvedIntents :: int
  unknownOrders :: int
  reconciliationHealthy :: bool
  reconciliationIncidentActive :: bool
  scannerRunning :: bool
  paperSimulationsInFlight :: int

datatype ModeTransitionBlocker =
    mb_open_box int | mb_partial_box int | mb_recovery_box int | mb_residual_exposure int | mb_recovery_active
  | mb_working_broker_order int | mb_queued_execution int | mb_in_flight_execution int | mb_unresolved_intent int
  | mb_unknown_order int | mb_reconciliation_unhealthy | mb_reconciliation_incident | mb_scanner_running
  | mb_paper_simulation_in_flight int | mb_deployment_gate_disabled | mb_broker_unauthenticated
  | mb_reconciliation_incomplete | mb_feed_unhealthy | mb_feed_warming | mb_circuit_open
  | mb_durable_reservations_unavailable

definition transitionBlockers :: "ModeTransitionSnapshot \<Rightarrow> ModeTransitionBlocker list" where
  "transitionBlockers s =
     (if 0 < mt_openBoxes s then [mb_open_box (mt_openBoxes s)] else []) @
     (if 0 < partiallyExitedBoxes s then [mb_partial_box (partiallyExitedBoxes s)] else []) @
     (if 0 < recoveryBoxes s then [mb_recovery_box (recoveryBoxes s)] else []) @
     (if 0 < mt_residualLegs s then [mb_residual_exposure (mt_residualLegs s)] else []) @
     (if mt_recoveryActive s then [mb_recovery_active] else []) @
     (if 0 < workingBrokerOrders s then [mb_working_broker_order (workingBrokerOrders s)] else []) @
     (if 0 < queuedExecutions s then [mb_queued_execution (queuedExecutions s)] else []) @
     (if 0 < inFlightExecutions s then [mb_in_flight_execution (inFlightExecutions s)] else []) @
     (if 0 < unresolvedIntents s then [mb_unresolved_intent (unresolvedIntents s)] else []) @
     (if 0 < unknownOrders s then [mb_unknown_order (unknownOrders s)] else []) @
     (if \<not> reconciliationHealthy s then [mb_reconciliation_unhealthy] else []) @
     (if reconciliationIncidentActive s then [mb_reconciliation_incident] else []) @
     (if scannerRunning s then [mb_scanner_running] else [])"

datatype ModeTransitionVerdict =
    mt_allowed ExecutionModeSelection ExecutionModeSelection
  | mt_restart_required ExecutionModeSelection ExecutionModeSelection "string list" "ModeTransitionBlocker list"
  | mt_refused ExecutionModeSelection ExecutionModeSelection "ModeTransitionBlocker list"

definition evaluateModeTransition ::
    "ExecutionModeSelection \<Rightarrow> ExecutionModeSelection \<Rightarrow> ModeTransitionSnapshot \<Rightarrow> ModeTransitionVerdict" where
  "evaluateModeTransition f t snap =
     (if f = t then mt_allowed f t
      else
        let blockers = transitionBlockers snap in
        if selectionIsLive f = selectionIsLive t then
          let paperBlockers = blockers @ (if 0 < paperSimulationsInFlight snap
                                          then [mb_paper_simulation_in_flight (paperSimulationsInFlight snap)] else [])
          in if paperBlockers \<noteq> [] then mt_refused f t paperBlockers else mt_allowed f t
        else if selectionIsLive t \<and> \<not> deploymentLiveCapable snap
          then mt_refused f t (mb_deployment_gate_disabled # blockers)
        else mt_restart_required f t
               (if selectionIsLive t then [''BOX_EXECUTION_MODE=live'', ''BOX_LIVE_TRADING_ENABLED=true'']
                else [''BOX_EXECUTION_MODE=paper_legging (or paper_latency)'']) blockers)"

record LiveArmPreconditions =
  pre_deploymentLiveCapable :: bool
  brokerAuthenticated :: bool
  pre_reconciliationHealthy :: bool
  reconciliationComplete :: bool
  feedHealthy :: bool
  feedWarmedUp :: bool
  circuitClosed :: bool
  pre_recoveryActive :: bool
  pre_unknownOrders :: int
  durableReservationsAvailable :: bool

datatype LiveArmPermission = perm_entryEnabled | perm_liveOrderEnabled | perm_emergencyFlatten

text \<open>The blockers of a permission; the source answers ok when there are none.\<close>

definition evaluateLiveArm :: "LiveArmPermission \<Rightarrow> LiveArmPreconditions \<Rightarrow> ModeTransitionBlocker list" where
  "evaluateLiveArm permission p =
     (if \<not> pre_deploymentLiveCapable p then [mb_deployment_gate_disabled]
      else case permission of
        perm_emergencyFlatten \<Rightarrow> (if \<not> brokerAuthenticated p then [mb_broker_unauthenticated] else [])
      | perm_liveOrderEnabled \<Rightarrow>
          (if \<not> brokerAuthenticated p then [mb_broker_unauthenticated] else []) @
          (if \<not> reconciliationComplete p then [mb_reconciliation_incomplete] else [])
      | perm_entryEnabled \<Rightarrow>
          (if \<not> brokerAuthenticated p then [mb_broker_unauthenticated] else []) @
          (if \<not> pre_reconciliationHealthy p then [mb_reconciliation_unhealthy] else []) @
          (if \<not> reconciliationComplete p then [mb_reconciliation_incomplete] else []) @
          (if \<not> feedHealthy p then [mb_feed_unhealthy] else []) @
          (if \<not> feedWarmedUp p then [mb_feed_warming] else []) @
          (if \<not> circuitClosed p then [mb_circuit_open] else []) @
          (if pre_recoveryActive p then [mb_recovery_active] else []) @
          (if 0 < pre_unknownOrders p then [mb_unknown_order (pre_unknownOrders p)] else []) @
          (if \<not> durableReservationsAvailable p then [mb_durable_reservations_unavailable] else []))"

section \<open>Run-time requests\<close>

text \<open>What a run-time request does: only an allowed one is applied.\<close>

definition apply_request ::
    "ExecutionModeSelection \<times> ModeTransitionSnapshot \<Rightarrow> ExecutionModeSelection \<Rightarrow> ExecutionModeSelection" where
  "apply_request r f = (case evaluateModeTransition f (fst r) (snd r) of mt_allowed _ t \<Rightarrow> t | _ \<Rightarrow> f)"

lemma apply_request_live: "selectionIsLive (apply_request r f) = selectionIsLive f"
  by (simp add: apply_request_def evaluateModeTransition_def Let_def)

lemma apply_requests_live: "selectionIsLive (fold apply_request rs f) = selectionIsLive f"
  by (induction rs arbitrary: f) (simp_all add: apply_request_live)

text \<open>Blockers accumulate: arming entry asks for everything the other permissions ask for.\<close>

lemma arm_blockers_subset:
  "set (evaluateLiveArm perm_emergencyFlatten p) \<subseteq> set (evaluateLiveArm perm_liveOrderEnabled p)"
  "set (evaluateLiveArm perm_liveOrderEnabled p) \<subseteq> set (evaluateLiveArm perm_entryEnabled p)"
  by (auto simp: evaluateLiveArm_def)

section \<open>Properties\<close>

text \<open>C35. No run-time request creates live capability.  A verdict of allowed keeps the selection or
  changes one paper selection for another with nothing in flight; a restart is offered only across the
  boundary, and towards live only to a deployment built for it; every other request is refused with a
  reason.  So no sequence of requests moves a process between paper and live.\<close>

theorem runtime_never_crosses_live_boundary:
  "selectionIsLive (fold apply_request rs s) = selectionIsLive s \<and>
   (case evaluateModeTransition f t snap of
      mt_allowed f' t' \<Rightarrow>
        f' = f \<and> t' = t \<and>
        (if f = t then True
         else \<not> selectionIsLive f \<and> \<not> selectionIsLive t \<and> transitionBlockers snap = [] \<and> paperSimulationsInFlight snap \<le> 0)
    | mt_restart_required f' t' env bs \<Rightarrow>
        f' = f \<and> t' = t \<and> selectionIsLive f \<noteq> selectionIsLive t \<and> bs = transitionBlockers snap \<and>
        (if selectionIsLive t then deploymentLiveCapable snap else True)
    | mt_refused f' t' bs \<Rightarrow>
        f' = f \<and> t' = t \<and> f \<noteq> t \<and> bs \<noteq> [] \<and>
        (mb_deployment_gate_disabled \<in> set bs) = (selectionIsLive t \<and> \<not> deploymentLiveCapable snap))"
proof -
  have gate: "mb_deployment_gate_disabled \<notin> set (transitionBlockers snap)" by (auto simp: transitionBlockers_def)
  have b: "f \<noteq> t \<Longrightarrow> selectionIsLive f = selectionIsLive t \<Longrightarrow> \<not> selectionIsLive f"
    by (auto simp: selectionIsLive_def)
  show ?thesis
    using gate b by (auto simp: apply_requests_live evaluateModeTransition_def Let_def split: if_splits)
qed

end
