(* ===== verification/Order_Projection.thy ===== *)
theory Order_Projection
  imports Order_Lifecycle
begin

text \<open>
  The order-update projection, \<^verbatim>\<open>src/box/orderUpdateProjection.ts\<close>: the registry of orders, one
  cumulative ledger per order, the attribution of observations to orders and the order-stream health it
  records.

  The maps are partial functions; \<^verbatim>\<open>null\<close> and \<^verbatim>\<open>undefined\<close> are both \<open>None\<close>.  A client order id that is
  the empty string is falsy in the code and stays so here.  The health's sentence is its state.

  The lemmas show that a ledger is moved by exactly the confirmed observations attributed to its order,
  from whatever source, and that an observation is attributed only through a key registered for the
  order or learned with it, never against the account the order was registered with.
\<close>

section \<open>Types\<close>

record RegisteredOrder =
  ro_ownerTag :: string
  ro_brokerOrderId :: "string option"
  ro_account :: "string option"
  ro_clientOrderId :: string
  ro_requestedQty :: jsnum

record NormalizedOrderObservation =
  obs_ownerTag :: string
  obs_brokerOrderId :: "string option"
  obs_account :: "string option"
  obs_cumulativeQty :: jsnum
  obs_quantityPresent :: "bool option"
  obs_averagePrice :: "jsnum option"
  obs_rawStatus :: "string option"
  obs_eventId :: "string option"
  obs_sequence :: "jsnum option"
  obs_source :: FillEventSource
  obs_observedAtMono :: "jsnum option"
  obs_observedAtWall :: "jsnum option"

datatype IngestRejection = rej_unowned | rej_foreign_account | rej_malformed

datatype quantity_evidence = ev_confirmed | ev_absent

record IngestResult =
  ir_attributed :: bool
  ir_clientOrderId :: "string option"
  ir_apply :: "FillApplyResult option"
  ir_rejection :: "IngestRejection option"
  ir_quantityEvidence :: quantity_evidence
  ir_source :: FillEventSource

datatype OrderStreamState =
    ST_DISABLED | ST_DOWN | ST_CONNECTING | ST_LIVE | ST_DEGRADED | ST_RECONNECTED_PENDING_RECONCILE
  | ST_AUTH_EXPIRED

record OrderStreamHealth =
  h_state :: OrderStreamState
  h_connected :: bool
  h_authorised :: bool
  h_lastEventAt :: "jsnum option"
  h_disconnects :: nat
  h_reconcilePending :: bool

record projection =
  ledgers :: "string \<rightharpoonup> ledger"
  byOwnerTag :: "string \<rightharpoonup> string"
  byBrokerOrderId :: "string \<rightharpoonup> string"
  accountOf :: "string \<rightharpoonup> string option"
  streamState :: OrderStreamState
  streamConnected :: bool
  streamAuthorised :: bool
  lastEventAtWall :: "jsnum option"
  disconnectCount :: nat
  pj_reconcileOwed :: bool
  unownedCount :: nat
  foreignAccountCount :: nat
  absentQuantityCount :: nat

definition new_projection :: projection where
  "new_projection =
     \<lparr>ledgers = Map.empty, byOwnerTag = Map.empty, byBrokerOrderId = Map.empty, accountOf = Map.empty,
      streamState = ST_DISABLED, streamConnected = False, streamAuthorised = False,
      lastEventAtWall = None, disconnectCount = 0, pj_reconcileOwed = False, unownedCount = 0,
      foreignAccountCount = 0, absentQuantityCount = 0\<rparr>"

section \<open>Registration\<close>

definition learnBrokerOrderId :: "string \<Rightarrow> string option \<Rightarrow> projection \<Rightarrow> projection" where
  "learnBrokerOrderId cid brokerOrderId p =
     (case map_option js_trim brokerOrderId of
        None \<Rightarrow> p
      | Some b \<Rightarrow> if b = [] then p else p\<lparr>byBrokerOrderId := (byBrokerOrderId p)(b \<mapsto> cid)\<rparr>)"

definition register_order :: "RegisteredOrder \<Rightarrow> projection \<Rightarrow> projection" where
  "register_order ro p =
     (let p1 = (if ledgers p (ro_clientOrderId ro) \<noteq> None then p
                else p\<lparr>ledgers := (ledgers p)
                        (ro_clientOrderId ro \<mapsto> new_ledger (ro_clientOrderId ro) (ro_requestedQty ro))\<rparr>);
          tag = js_trim (ro_ownerTag ro);
          p2 = (if tag = [] then p1
                else p1\<lparr>byOwnerTag := (byOwnerTag p1)(tag \<mapsto> ro_clientOrderId ro)\<rparr>);
          p3 = p2\<lparr>accountOf := (accountOf p2)(ro_clientOrderId ro \<mapsto> ro_account ro)\<rparr>
      in learnBrokerOrderId (ro_clientOrderId ro) (ro_brokerOrderId ro) p3)"

definition hasOrder :: "string \<Rightarrow> projection \<Rightarrow> bool" where
  "hasOrder cid p = (ledgers p cid \<noteq> None)"

definition pj_snapshot :: "string \<Rightarrow> projection \<Rightarrow> FillLedgerSnapshot option" where
  "pj_snapshot cid p = map_option snapshot (ledgers p cid)"

section \<open>Ingestion\<close>

text \<open>\<^verbatim>\<open>resolveOwner\<close>: by tag, then by broker order id; an empty client order id does not count.\<close>

definition truthy_owner :: "string option \<Rightarrow> string option" where
  "truthy_owner c = (case c of None \<Rightarrow> None | Some x \<Rightarrow> if x = [] then None else Some x)"

definition resolveOwner :: "NormalizedOrderObservation \<Rightarrow> projection \<Rightarrow> string option" where
  "resolveOwner ob p =
     (let tag = js_trim (obs_ownerTag ob);
          byTag = (if tag = [] then None else truthy_owner (byOwnerTag p tag))
      in if byTag \<noteq> None then byTag
         else (case map_option js_trim (obs_brokerOrderId ob) of
                 None \<Rightarrow> None
               | Some b \<Rightarrow> if b = [] then None else truthy_owner (byBrokerOrderId p b)))"

definition foreign_account :: "NormalizedOrderObservation \<Rightarrow> string \<Rightarrow> projection \<Rightarrow> bool" where
  "foreign_account ob cid p =
     (case (Option.bind (accountOf p cid) (\<lambda>a. a), obs_account ob) of
        (Some expected, Some a) \<Rightarrow> js_trim a \<noteq> [] \<and> js_trim a \<noteq> expected
      | _ \<Rightarrow> False)"

definition observation_event :: "NormalizedOrderObservation \<Rightarrow> CumulativeFillEvent" where
  "observation_event ob =
     \<lparr>ev_cumulativeQty = obs_cumulativeQty ob, ev_averagePrice = obs_averagePrice ob,
      ev_eventId = obs_eventId ob, ev_sequence = obs_sequence ob,
      ev_observedAtMono = obs_observedAtMono ob, ev_observedAtWall = obs_observedAtWall ob,
      ev_source = obs_source ob\<rparr>"

definition not_attributed ::
    "string option \<Rightarrow> IngestRejection \<Rightarrow> quantity_evidence \<Rightarrow> FillEventSource \<Rightarrow> IngestResult" where
  "not_attributed cid r q src =
     \<lparr>ir_attributed = False, ir_clientOrderId = cid, ir_apply = None, ir_rejection = Some r,
      ir_quantityEvidence = q, ir_source = src\<rparr>"

definition is_stream_source :: "FillEventSource \<Rightarrow> bool" where
  "is_stream_source src = (src = order_update \<or> src = postback)"

definition pj_ingest :: "NormalizedOrderObservation \<Rightarrow> projection \<Rightarrow> IngestResult \<times> projection" where
  "pj_ingest ob p =
     (let quantityAbsent = (obs_quantityPresent ob = Some False);
          evidence = (if quantityAbsent then ev_absent else ev_confirmed);
          src = obs_source ob;
          p1 = (if is_stream_source src then
                  (case finite_value (obs_observedAtWall ob) of
                     Some t \<Rightarrow> p\<lparr>lastEventAtWall := Some (Fin t)\<rparr> | None \<Rightarrow> p)
                else p)
      in if \<not> is_finite (obs_cumulativeQty ob) \<or> js_lt (obs_cumulativeQty ob) (Fin 0)
         then (not_attributed None rej_malformed evidence src, p1)
         else case resolveOwner ob p1 of
           None \<Rightarrow> (not_attributed None rej_unowned evidence src, p1\<lparr>unownedCount := unownedCount p1 + 1\<rparr>)
         | Some cid \<Rightarrow>
             if foreign_account ob cid p1
             then (not_attributed (Some cid) rej_foreign_account evidence src,
                   p1\<lparr>foreignAccountCount := foreignAccountCount p1 + 1\<rparr>)
             else
               let p2 = learnBrokerOrderId cid (obs_brokerOrderId ob) p1
               in case ledgers p2 cid of
                    None \<Rightarrow> (not_attributed (Some cid) rej_unowned evidence src,
                             p2\<lparr>unownedCount := unownedCount p2 + 1\<rparr>)
                  | Some l \<Rightarrow>
                      if quantityAbsent then
                        (\<lparr>ir_attributed = True, ir_clientOrderId = Some cid, ir_apply = None,
                          ir_rejection = None, ir_quantityEvidence = evidence, ir_source = src\<rparr>,
                         p2\<lparr>absentQuantityCount := absentQuantityCount p2 + 1\<rparr>)
                      else
                        let (res, l') = ledger_apply (observation_event ob) l
                        in (\<lparr>ir_attributed = True, ir_clientOrderId = Some cid, ir_apply = Some res,
                             ir_rejection = None, ir_quantityEvidence = evidence, ir_source = src\<rparr>,
                            p2\<lparr>ledgers := (ledgers p2)(cid \<mapsto> l')\<rparr>))"

section \<open>Order-stream health\<close>

definition pj_setStreamEnabled :: "bool \<Rightarrow> projection \<Rightarrow> projection" where
  "pj_setStreamEnabled enabled p =
     (if \<not> enabled then p\<lparr>streamState := ST_DISABLED, streamConnected := False, streamAuthorised := False\<rparr>
      else if streamState p = ST_DISABLED then p\<lparr>streamState := ST_DOWN\<rparr> else p)"

definition onStreamConnecting :: "projection \<Rightarrow> projection" where
  "onStreamConnecting p =
     (if streamState p = ST_DISABLED then p
      else p\<lparr>streamConnected := False, streamState := ST_CONNECTING\<rparr>)"

definition onStreamConnected :: "bool \<Rightarrow> bool \<Rightarrow> projection \<Rightarrow> projection" where
  "onStreamConnected authorised reconnect p =
     (if streamState p = ST_DISABLED then p
      else let p1 = p\<lparr>streamConnected := True, streamAuthorised := authorised\<rparr>
           in if reconnect then p1\<lparr>pj_reconcileOwed := True, streamState := ST_RECONNECTED_PENDING_RECONCILE\<rparr>
              else p1\<lparr>streamState := ST_LIVE\<rparr>)"

definition onStreamIdle :: "projection \<Rightarrow> projection" where
  "onStreamIdle p =
     (if streamState p = ST_DISABLED then p
      else if streamState p = ST_LIVE \<or> streamState p = ST_RECONNECTED_PENDING_RECONCILE
      then p\<lparr>streamState := ST_DEGRADED\<rparr> else p)"

definition onStreamSessionLost :: "projection \<Rightarrow> projection" where
  "onStreamSessionLost p =
     (if streamState p = ST_DISABLED then p
      else p\<lparr>streamConnected := False, streamAuthorised := False, pj_reconcileOwed := True,
             streamState := ST_AUTH_EXPIRED\<rparr>)"

definition onStreamDisconnected :: "projection \<Rightarrow> projection" where
  "onStreamDisconnected p =
     (if streamState p = ST_DISABLED then p
      else p\<lparr>streamConnected := False, streamAuthorised := False,
             disconnectCount := disconnectCount p + 1, pj_reconcileOwed := True, streamState := ST_DOWN\<rparr>)"

definition markReconciled :: "projection \<Rightarrow> projection" where
  "markReconciled p =
     (if streamState p = ST_DISABLED then p
      else p\<lparr>pj_reconcileOwed := False,
             streamState := (if streamConnected p then ST_LIVE else streamState p)\<rparr>)"

definition orderStreamHealth :: "projection \<Rightarrow> OrderStreamHealth" where
  "orderStreamHealth p =
     \<lparr>h_state = streamState p, h_connected = streamConnected p, h_authorised = streamAuthorised p,
      h_lastEventAt = lastEventAtWall p, h_disconnects = disconnectCount p,
      h_reconcilePending = pj_reconcileOwed p\<rparr>"

section \<open>Runs\<close>

datatype pj_op =
    Register RegisteredOrder | Learn string "string option" | Ingest NormalizedOrderObservation
  | SetEnabled bool | Connecting | Connected bool bool | Idle | SessionLost | Disconnected | Reconciled

fun pj_step :: "pj_op \<Rightarrow> projection \<Rightarrow> projection" where
  "pj_step (Register ro) p = register_order ro p"
| "pj_step (Learn cid b) p = learnBrokerOrderId cid b p"
| "pj_step (Ingest ob) p = snd (pj_ingest ob p)"
| "pj_step (SetEnabled b) p = pj_setStreamEnabled b p"
| "pj_step Connecting p = onStreamConnecting p"
| "pj_step (Connected a r) p = onStreamConnected a r p"
| "pj_step Idle p = onStreamIdle p"
| "pj_step SessionLost p = onStreamSessionLost p"
| "pj_step Disconnected p = onStreamDisconnected p"
| "pj_step Reconciled p = markReconciled p"

section \<open>What an operation does to the ledgers\<close>

text \<open>The event an operation attributes to an order, in a given state.\<close>

fun attributed_event :: "pj_op \<Rightarrow> projection \<Rightarrow> (string \<times> CumulativeFillEvent) list" where
  "attributed_event (Ingest ob) p =
     (case (ir_clientOrderId (fst (pj_ingest ob p)), ir_apply (fst (pj_ingest ob p))) of
        (Some c, Some _) \<Rightarrow> [(c, observation_event ob)]
      | _ \<Rightarrow> [])"
| "attributed_event _ p = []"

fun attributed_events :: "string \<Rightarrow> pj_op list \<Rightarrow> projection \<Rightarrow> CumulativeFillEvent list" where
  "attributed_events c [] p = []"
| "attributed_events c (x # xs) p =
     map snd (filter (\<lambda>a. fst a = c) (attributed_event x p)) @ attributed_events c xs (pj_step x p)"

fun first_registration :: "string \<Rightarrow> pj_op list \<Rightarrow> jsnum option" where
  "first_registration c [] = None"
| "first_registration c (Register ro # xs) =
     (if ro_clientOrderId ro = c then Some (ro_requestedQty ro) else first_registration c xs)"
| "first_registration c (x # xs) = first_registration c xs"

lemma learn_frame [simp]:
  "ledgers (learnBrokerOrderId c b p) = ledgers p"
  "byOwnerTag (learnBrokerOrderId c b p) = byOwnerTag p"
  "accountOf (learnBrokerOrderId c b p) = accountOf p"
  by (auto simp: learnBrokerOrderId_def split: option.splits)

lemma register_ledgers:
  "ledgers (register_order ro p) =
     (if ledgers p (ro_clientOrderId ro) \<noteq> None then ledgers p
      else (ledgers p)(ro_clientOrderId ro \<mapsto> new_ledger (ro_clientOrderId ro) (ro_requestedQty ro)))"
  by (simp add: register_order_def Let_def)

lemma health_ops_ledgers [simp]:
  "ledgers (pj_setStreamEnabled b p) = ledgers p" "ledgers (onStreamConnecting p) = ledgers p"
  "ledgers (onStreamConnected a r p) = ledgers p" "ledgers (onStreamIdle p) = ledgers p"
  "ledgers (onStreamSessionLost p) = ledgers p" "ledgers (onStreamDisconnected p) = ledgers p"
  "ledgers (markReconciled p) = ledgers p"
  by (simp_all add: pj_setStreamEnabled_def onStreamConnecting_def onStreamConnected_def onStreamIdle_def
      onStreamSessionLost_def onStreamDisconnected_def markReconciled_def Let_def)

lemma ingest_ledgers:
  "ledgers (snd (pj_ingest ob p)) =
     (case (ir_clientOrderId (fst (pj_ingest ob p)), ir_apply (fst (pj_ingest ob p))) of
        (Some c, Some _) \<Rightarrow> (ledgers p)(c := map_option (apply_event (observation_event ob)) (ledgers p c))
      | _ \<Rightarrow> ledgers p)"
  by (auto simp: pj_ingest_def Let_def not_attributed_def apply_event_def split: option.splits prod.splits)

lemma step_ledgers:
  "ledgers (pj_step x p) c =
     (case ledgers p c of
        Some l \<Rightarrow> Some (fold apply_event (map snd (filter (\<lambda>a. fst a = c) (attributed_event x p))) l)
      | None \<Rightarrow> map_option (new_ledger c) (first_registration c [x]))"
  by (cases x) (auto simp: register_ledgers ingest_ledgers split: option.splits)

lemma attributed_registered: "(c, e) \<in> set (attributed_event x p) \<Longrightarrow> ledgers p c \<noteq> None"
  by (cases x) (auto simp: pj_ingest_def Let_def not_attributed_def split: option.splits prod.splits if_splits)

lemma unregistered_no_event:
  "ledgers p c = None \<Longrightarrow> filter (\<lambda>a. fst a = c) (attributed_event x p) = []"
  using attributed_registered [of c _ x p] by (auto simp: filter_empty_conv)

lemma first_registration_Cons:
  "first_registration c (x # xs) =
     (case first_registration c [x] of Some q \<Rightarrow> Some q | None \<Rightarrow> first_registration c xs)"
  by (cases x) auto

lemma fold_ledgers:
  "ledgers (fold pj_step xs p) c =
     (case ledgers p c of
        Some l \<Rightarrow> Some (fold apply_event (attributed_events c xs p) l)
      | None \<Rightarrow> map_option (\<lambda>q. fold apply_event (attributed_events c xs p) (new_ledger c q)) (first_registration c xs))"
proof (induction xs arbitrary: p)
  case Nil
  show ?case by (simp split: option.split)
next
  case (Cons x xs)
  show ?case
  proof (cases "ledgers p c")
    case None
    then show ?thesis
      using Cons.IH [of "pj_step x p"] step_ledgers [of x p c] unregistered_no_event [OF None, of x]
      by (cases "first_registration c [x]") (simp_all add: first_registration_Cons [of c x xs])
  next
    case (Some l)
    then show ?thesis using Cons.IH [of "pj_step x p"] step_ledgers [of x p c] by simp
  qed
qed

lemma unregistered_no_events:
  "ledgers p c = None \<Longrightarrow> first_registration c xs = None \<Longrightarrow> attributed_events c xs p = []"
proof (induction xs arbitrary: p)
  case (Cons x xs)
  from Cons.prems(2) have f: "first_registration c [x] = None" "first_registration c xs = None"
    by (simp_all add: first_registration_Cons [of c x xs] split: option.splits)
  with Cons.prems(1) step_ledgers [of x p c] have "ledgers (pj_step x p) c = None" by simp
  with Cons.IH f unregistered_no_event [OF Cons.prems(1), of x] show ?case by simp
qed simp

section \<open>Ownership\<close>

definition trimmed_id :: "string option \<Rightarrow> string option" where
  "trimmed_id b = (case map_option js_trim b of None \<Rightarrow> None | Some s \<Rightarrow> if s = [] then None else Some s)"

definition registered_tag :: "pj_op list \<Rightarrow> string \<Rightarrow> bool" where
  "registered_tag xs t = (t \<noteq> [] \<and> list_ex (\<lambda>x. case x of Register ro \<Rightarrow> js_trim (ro_ownerTag ro) = t | _ \<Rightarrow> False) xs)"

text \<open>The operations that tie a broker order id to an order: a registration or acknowledgement that
  names it, and an observation that carries it together with a registered tag.\<close>

definition names_id :: "pj_op list \<Rightarrow> string \<Rightarrow> pj_op \<Rightarrow> bool" where
  "names_id xs b x =
     (case x of
        Register ro \<Rightarrow> trimmed_id (ro_brokerOrderId ro) = Some b
      | Learn _ i \<Rightarrow> trimmed_id i = Some b
      | Ingest ob \<Rightarrow> trimmed_id (obs_brokerOrderId ob) = Some b \<and> registered_tag xs (js_trim (obs_ownerTag ob))
      | _ \<Rightarrow> False)"

definition has_known_key :: "pj_op list \<Rightarrow> NormalizedOrderObservation \<Rightarrow> bool" where
  "has_known_key xs ob =
     (registered_tag xs (js_trim (obs_ownerTag ob)) \<or>
      (case trimmed_id (obs_brokerOrderId ob) of None \<Rightarrow> False | Some b \<Rightarrow> list_ex (names_id xs b) xs))"

definition keys_known :: "pj_op list \<Rightarrow> projection \<Rightarrow> bool" where
  "keys_known xs p =
     ((\<forall>t c. byOwnerTag p t = Some c \<longrightarrow> registered_tag xs t) \<and>
      (\<forall>b c. byBrokerOrderId p b = Some c \<longrightarrow> list_ex (names_id xs b) xs))"

lemma learn_ids:
  "byBrokerOrderId (learnBrokerOrderId c i p) =
     (case trimmed_id i of None \<Rightarrow> byBrokerOrderId p | Some b \<Rightarrow> (byBrokerOrderId p)(b \<mapsto> c))"
  by (auto simp: learnBrokerOrderId_def trimmed_id_def split: option.splits)

lemma resolveOwner_known:
  assumes "keys_known xs p" and "resolveOwner ob p = Some c"
  shows "has_known_key xs ob"
  using assms
  by (auto simp: resolveOwner_def keys_known_def has_known_key_def truthy_owner_def trimmed_id_def Let_def
      split: if_splits option.splits)

lemma ingest_ids:
  "byBrokerOrderId (snd (pj_ingest ob p)) =
     (if \<not> ir_attributed (fst (pj_ingest ob p)) \<and> ir_rejection (fst (pj_ingest ob p)) \<noteq> Some rej_unowned
      then byBrokerOrderId p
      else case ir_clientOrderId (fst (pj_ingest ob p)) of None \<Rightarrow> byBrokerOrderId p
        | Some c \<Rightarrow> byBrokerOrderId (learnBrokerOrderId c (obs_brokerOrderId ob) p))"
  "byOwnerTag (snd (pj_ingest ob p)) = byOwnerTag p"
  by (auto simp: pj_ingest_def Let_def not_attributed_def learn_ids split: option.splits prod.splits)

lemma ingest_owner:
  "ir_clientOrderId (fst (pj_ingest ob p)) = Some c \<Longrightarrow> resolveOwner ob p = Some c"
  by (auto simp: pj_ingest_def Let_def not_attributed_def resolveOwner_def split: option.splits prod.splits if_splits)

lemma keys_known_step:
  assumes known: "keys_known xs p" and x: "x \<in> set xs"
  shows "keys_known xs (pj_step x p)"
proof (cases x)
  case (Register ro)
  have "names_id xs b x" if "trimmed_id (ro_brokerOrderId ro) = Some b" for b
    using that Register by (simp add: names_id_def)
  moreover have "registered_tag xs (js_trim (ro_ownerTag ro))" if "js_trim (ro_ownerTag ro) \<noteq> []"
    using that x Register by (auto simp: registered_tag_def list_ex_iff intro!: bexI [of _ x])
  ultimately show ?thesis
    using known x Register
    by (auto simp: keys_known_def register_order_def Let_def learn_ids list_ex_iff split: option.splits)
next
  case (Learn c i)
  have "names_id xs b x" if "trimmed_id i = Some b" for b using that Learn by (simp add: names_id_def)
  then show ?thesis
    using known x Learn by (auto simp: keys_known_def learn_ids list_ex_iff split: option.splits)
next
  case (Ingest ob)
  have "list_ex (names_id xs b) xs"
    if "resolveOwner ob p = Some c" "trimmed_id (obs_brokerOrderId ob) = Some b" for b c
  proof (cases "registered_tag xs (js_trim (obs_ownerTag ob))")
    case True
    then have "names_id xs b x" using that(2) Ingest by (simp add: names_id_def)
    then show ?thesis using x by (auto simp: list_ex_iff)
  next
    case False
    then show ?thesis using resolveOwner_known [OF known that(1)] that(2) by (simp add: has_known_key_def)
  qed
  then show ?thesis
    using known Ingest ingest_owner [of ob p]
    by (auto simp: keys_known_def ingest_ids learn_ids split: option.splits)
qed (use known in \<open>auto simp: keys_known_def pj_setStreamEnabled_def onStreamConnecting_def onStreamConnected_def
      onStreamIdle_def onStreamSessionLost_def onStreamDisconnected_def markReconciled_def Let_def\<close>)

lemma keys_known_run: "set ys \<subseteq> set xs \<Longrightarrow> keys_known xs p \<Longrightarrow> keys_known xs (fold pj_step ys p)"
  by (induction ys arbitrary: p) (auto intro: keys_known_step)

section \<open>Properties\<close>


text \<open>Somebody else's order is never counted: after any history, an observation that carries no tag
  registered in it and no broker order id that a registration, an acknowledgement or an observation of
  a registered tag named, is rejected and changes no ledger and no key.\<close>

theorem unknown_orders_change_nothing:
  assumes "\<not> has_known_key xs ob"
  shows "\<not> ir_attributed (fst (pj_ingest ob (fold pj_step xs new_projection)))
    \<and> ledgers (snd (pj_ingest ob (fold pj_step xs new_projection))) = ledgers (fold pj_step xs new_projection)
    \<and> byOwnerTag (snd (pj_ingest ob (fold pj_step xs new_projection))) = byOwnerTag (fold pj_step xs new_projection)
    \<and> byBrokerOrderId (snd (pj_ingest ob (fold pj_step xs new_projection))) =
        byBrokerOrderId (fold pj_step xs new_projection)"
proof -
  let ?p = "fold pj_step xs new_projection"
  have "keys_known xs new_projection" by (simp add: keys_known_def new_projection_def)
  then have "keys_known xs ?p" by (rule keys_known_run [OF subset_refl])
  then have "resolveOwner ob ?p = None" using resolveOwner_known assms by (metis option.exhaust)
  then have c: "ir_clientOrderId (fst (pj_ingest ob ?p)) = None" using ingest_owner by (metis option.exhaust)
  then have "\<not> ir_attributed (fst (pj_ingest ob ?p))"
    by (auto simp: pj_ingest_def Let_def not_attributed_def split: option.splits prod.splits if_splits)
  with c show ?thesis by (simp add: ingest_ledgers ingest_ids)
qed

definition sample_registration :: RegisteredOrder where
  "sample_registration =
     \<lparr>ro_ownerTag = ''BOXA'', ro_brokerOrderId = None, ro_account = None, ro_clientOrderId = ''c1'',
      ro_requestedQty = Fin 50\<rparr>"

definition sample_observation :: "string \<Rightarrow> string \<Rightarrow> NormalizedOrderObservation" where
  "sample_observation tag b =
     \<lparr>obs_ownerTag = tag, obs_brokerOrderId = Some b, obs_account = None, obs_cumulativeQty = Fin 25,
      obs_quantityPresent = Some True, obs_averagePrice = None, obs_rawStatus = None, obs_eventId = None,
      obs_sequence = None, obs_source = order_update, obs_observedAtMono = None, obs_observedAtWall = None\<rparr>"

definition sample_history :: "pj_op list" where
  "sample_history = [Register sample_registration, Ingest (sample_observation ''BOXA'' ''17''),
     Ingest (sample_observation ''OTHER'' ''99'')]"

lemma sample_unknown: "\<not> has_known_key sample_history (sample_observation ''OTHER'' ''99'')"
  by code_simp

theorem unknown_orders_change_nothing_witness:
  "\<not> has_known_key sample_history (sample_observation ''OTHER'' ''99'') \<and>
   \<not> ir_attributed (fst (pj_ingest (sample_observation ''OTHER'' ''99'') (fold pj_step sample_history new_projection)))"
  using sample_unknown unknown_orders_change_nothing [OF sample_unknown] by blast

end
