(* ===== verification/Stream_Health.thy ===== *)
theory Stream_Health
  imports Box_Prelude
begin

text \<open>
  Health of the two broker transports, \<^verbatim>\<open>src/box/streamHealthPolicy.ts\<close>: the permission tables, the
  order-stream machine and the market-data machine.

  The clock is an argument of every operation that reads it, in whole milliseconds; instrument tokens
  are JavaScript numbers; a \<^verbatim>\<open>Set\<close> of tokens is a duplicate-free list in insertion order where the code
  iterates over it.  The reason of a blocked operation is the transport and its state.

  The lemmas show that each machine is ready only on evidence of its current connection: the order
  stream through a sweep that was completed since the session was authorised, the market data through
  a usable book of a desired instrument received since then.
\<close>

section \<open>States, evidence and permissions\<close>

datatype MarketDataState =
    MD_DISABLED | MD_CONNECTING | MD_AUTHENTICATING | MD_SYNCHRONIZING | MD_READY | MD_DEGRADED
  | MD_DISCONNECTED | MD_AUTH_EXPIRED

datatype OrderStreamLifecycleState =
    OS_DISABLED | OS_CONNECTING | OS_AUTHENTICATING | OS_RECONCILING | OS_READY | OS_DEGRADED
  | OS_DISCONNECTED | OS_AUTH_EXPIRED

datatype OrderStreamAuthEvidence = no_evidence | login_submitted | broker_acknowledged | rest_verified

fun AUTH_EVIDENCE_RANK :: "OrderStreamAuthEvidence \<Rightarrow> nat" where
  "AUTH_EVIDENCE_RANK no_evidence = 0"
| "AUTH_EVIDENCE_RANK login_submitted = 1"
| "AUTH_EVIDENCE_RANK broker_acknowledged = 2"
| "AUTH_EVIDENCE_RANK rest_verified = 3"

definition strongerAuthEvidence ::
    "OrderStreamAuthEvidence \<Rightarrow> OrderStreamAuthEvidence \<Rightarrow> OrderStreamAuthEvidence" where
  "strongerAuthEvidence a b = (if AUTH_EVIDENCE_RANK a < AUTH_EVIDENCE_RANK b then b else a)"

definition authEvidenceEstablishesSession :: "OrderStreamAuthEvidence \<Rightarrow> bool" where
  "authEvidenceEstablishesSession e = (e = broker_acknowledged \<or> e = rest_verified)"

record OperationPermissions =
  newEntry :: bool
  manageWorkingOrders :: bool
  protectiveCancel :: bool
  exitAndReduce :: bool

definition NO_PERMISSIONS :: OperationPermissions where
  "NO_PERMISSIONS = \<lparr>newEntry = False, manageWorkingOrders = False, protectiveCancel = False, exitAndReduce = False\<rparr>"

fun marketDataPermissions :: "MarketDataState \<Rightarrow> OperationPermissions" where
  "marketDataPermissions MD_DISABLED = NO_PERMISSIONS"
| "marketDataPermissions MD_CONNECTING =
     \<lparr>newEntry = False, manageWorkingOrders = True, protectiveCancel = True, exitAndReduce = False\<rparr>"
| "marketDataPermissions MD_AUTHENTICATING =
     \<lparr>newEntry = False, manageWorkingOrders = True, protectiveCancel = True, exitAndReduce = False\<rparr>"
| "marketDataPermissions MD_SYNCHRONIZING =
     \<lparr>newEntry = False, manageWorkingOrders = True, protectiveCancel = True, exitAndReduce = False\<rparr>"
| "marketDataPermissions MD_READY =
     \<lparr>newEntry = True, manageWorkingOrders = True, protectiveCancel = True, exitAndReduce = True\<rparr>"
| "marketDataPermissions MD_DEGRADED =
     \<lparr>newEntry = False, manageWorkingOrders = True, protectiveCancel = True, exitAndReduce = True\<rparr>"
| "marketDataPermissions MD_DISCONNECTED =
     \<lparr>newEntry = False, manageWorkingOrders = True, protectiveCancel = True, exitAndReduce = False\<rparr>"
| "marketDataPermissions MD_AUTH_EXPIRED = NO_PERMISSIONS"

fun orderStreamPermissions :: "OrderStreamLifecycleState \<Rightarrow> OperationPermissions" where
  "orderStreamPermissions OS_DISABLED =
     \<lparr>newEntry = True, manageWorkingOrders = True, protectiveCancel = True, exitAndReduce = True\<rparr>"
| "orderStreamPermissions OS_CONNECTING =
     \<lparr>newEntry = False, manageWorkingOrders = True, protectiveCancel = True, exitAndReduce = True\<rparr>"
| "orderStreamPermissions OS_AUTHENTICATING =
     \<lparr>newEntry = False, manageWorkingOrders = True, protectiveCancel = True, exitAndReduce = True\<rparr>"
| "orderStreamPermissions OS_RECONCILING =
     \<lparr>newEntry = False, manageWorkingOrders = True, protectiveCancel = True, exitAndReduce = True\<rparr>"
| "orderStreamPermissions OS_READY =
     \<lparr>newEntry = True, manageWorkingOrders = True, protectiveCancel = True, exitAndReduce = True\<rparr>"
| "orderStreamPermissions OS_DEGRADED =
     \<lparr>newEntry = False, manageWorkingOrders = True, protectiveCancel = True, exitAndReduce = True\<rparr>"
| "orderStreamPermissions OS_DISCONNECTED =
     \<lparr>newEntry = False, manageWorkingOrders = True, protectiveCancel = True, exitAndReduce = True\<rparr>"
| "orderStreamPermissions OS_AUTH_EXPIRED =
     \<lparr>newEntry = False, manageWorkingOrders = False, protectiveCancel = True, exitAndReduce = False\<rparr>"

definition combinedPermissions ::
    "MarketDataState \<Rightarrow> OrderStreamLifecycleState \<Rightarrow> OperationPermissions" where
  "combinedPermissions marketData orderStream =
     (let md = marketDataPermissions marketData; os = orderStreamPermissions orderStream
      in \<lparr>newEntry = (newEntry md \<and> newEntry os),
          manageWorkingOrders = (manageWorkingOrders md \<and> manageWorkingOrders os),
          protectiveCancel = (protectiveCancel md \<and> protectiveCancel os),
          exitAndReduce = (exitAndReduce md \<and> exitAndReduce os)\<rparr>)"

definition entryPermittedFromStreams ::
    "MarketDataState \<Rightarrow> OrderStreamLifecycleState \<Rightarrow> bool \<times> MarketDataState \<times> OrderStreamLifecycleState" where
  "entryPermittedFromStreams marketData orderStream =
     (newEntry (combinedPermissions marketData orderStream), marketData, orderStream)"

datatype operation_class = op_newEntry | op_manageWorkingOrders | op_protectiveCancel | op_exitAndReduce

datatype block_reason = market_data_is MarketDataState | order_stream_is OrderStreamLifecycleState

fun permission_of :: "operation_class \<Rightarrow> OperationPermissions \<Rightarrow> bool" where
  "permission_of op_newEntry p = newEntry p"
| "permission_of op_manageWorkingOrders p = manageWorkingOrders p"
| "permission_of op_protectiveCancel p = protectiveCancel p"
| "permission_of op_exitAndReduce p = exitAndReduce p"

definition permissionBlocks ::
    "MarketDataState \<Rightarrow> OrderStreamLifecycleState \<Rightarrow> (operation_class \<times> block_reason) list" where
  "permissionBlocks marketData orderStream =
     concat (map (\<lambda>c.
        (if \<not> permission_of c (marketDataPermissions marketData) then [(c, market_data_is marketData)] else []) @
        (if \<not> permission_of c (orderStreamPermissions orderStream) then [(c, order_stream_is orderStream)] else []))
       [op_newEntry, op_manageWorkingOrders, op_protectiveCancel, op_exitAndReduce])"

datatype permission_rule = entry_but_not_exit | entry_but_not_cancel | exit_but_not_cancel | must_not_enter

definition table_problems :: "OperationPermissions \<Rightarrow> bool \<Rightarrow> 'r \<Rightarrow> ('r \<times> permission_rule) list" where
  "table_problems p ready r =
     (if newEntry p \<and> \<not> exitAndReduce p then [(r, entry_but_not_exit)] else []) @
     (if newEntry p \<and> \<not> protectiveCancel p then [(r, entry_but_not_cancel)] else []) @
     (if exitAndReduce p \<and> \<not> protectiveCancel p then [(r, exit_but_not_cancel)] else []) @
     (if newEntry p \<and> \<not> ready then [(r, must_not_enter)] else [])"

definition permissionInvariantViolations :: "(block_reason \<times> permission_rule) list" where
  "permissionInvariantViolations =
     concat (map (\<lambda>s. table_problems (marketDataPermissions s) (s = MD_READY) (market_data_is s))
       [MD_DISABLED, MD_CONNECTING, MD_AUTHENTICATING, MD_SYNCHRONIZING, MD_READY, MD_DEGRADED,
        MD_DISCONNECTED, MD_AUTH_EXPIRED]) @
     concat (map (\<lambda>s. table_problems (orderStreamPermissions s) (s = OS_READY \<or> s = OS_DISABLED) (order_stream_is s))
       [OS_DISABLED, OS_CONNECTING, OS_AUTHENTICATING, OS_RECONCILING, OS_READY, OS_DEGRADED,
        OS_DISCONNECTED, OS_AUTH_EXPIRED])"

section \<open>The order-stream machine\<close>

record OrderStreamStateMachine =
  os_current :: OrderStreamLifecycleState
  everConnected :: bool
  os_reconcileOwed :: bool
  os_gen :: nat
  authEvidence :: OrderStreamAuthEvidence

definition new_order_stream :: "bool \<Rightarrow> OrderStreamStateMachine" where
  "new_order_stream enabled =
     \<lparr>os_current = (if enabled then OS_DISCONNECTED else OS_DISABLED), everConnected = False,
      os_reconcileOwed = False, os_gen = 0, authEvidence = no_evidence\<rparr>"

definition os_setEnabled :: "bool \<Rightarrow> OrderStreamStateMachine \<Rightarrow> OrderStreamStateMachine" where
  "os_setEnabled enabled m =
     (if \<not> enabled then
        m\<lparr>os_gen := os_gen m + 1, os_current := OS_DISABLED, os_reconcileOwed := False,
          authEvidence := no_evidence\<rparr>
      else if os_current m = OS_DISABLED then m\<lparr>os_current := OS_DISCONNECTED\<rparr> else m)"

definition isEstablished :: "OrderStreamStateMachine \<Rightarrow> bool" where
  "isEstablished m =
     (os_current m = OS_RECONCILING \<or> os_current m = OS_READY \<or> os_current m = OS_DEGRADED)"

definition os_onConnecting :: "OrderStreamStateMachine \<Rightarrow> OrderStreamStateMachine" where
  "os_onConnecting m =
     (if os_current m = OS_DISABLED then m else if isEstablished m then m
      else m\<lparr>os_current := OS_CONNECTING\<rparr>)"

definition os_onSocketOpen :: "OrderStreamStateMachine \<Rightarrow> OrderStreamStateMachine" where
  "os_onSocketOpen m =
     (if os_current m = OS_DISABLED then m else if isEstablished m then m
      else m\<lparr>os_current := OS_AUTHENTICATING\<rparr>)"

definition os_onAuthenticated ::
    "OrderStreamAuthEvidence \<Rightarrow> OrderStreamStateMachine \<Rightarrow> OrderStreamStateMachine" where
  "os_onAuthenticated evidence m =
     (if os_current m = OS_DISABLED then m
      else if isEstablished m then m\<lparr>authEvidence := strongerAuthEvidence (authEvidence m) evidence\<rparr>
      else m\<lparr>everConnected := True, os_reconcileOwed := True, authEvidence := evidence,
             os_gen := os_gen m + 1, os_current := OS_RECONCILING\<rparr>)"

definition os_noteRestVerifiedSession :: "OrderStreamStateMachine \<Rightarrow> OrderStreamStateMachine" where
  "os_noteRestVerifiedSession m =
     (if os_current m = OS_DISABLED then m
      else m\<lparr>authEvidence := strongerAuthEvidence (authEvidence m) rest_verified\<rparr>)"

definition os_markSynchronized ::
    "nat option \<Rightarrow> OrderStreamStateMachine \<Rightarrow> bool \<times> OrderStreamStateMachine" where
  "os_markSynchronized atGeneration m =
     (if os_current m = OS_DISABLED then (False, m)
      else if atGeneration \<noteq> None \<and> atGeneration \<noteq> Some (os_gen m) then (False, m)
      else (True, m\<lparr>os_reconcileOwed := False,
                    authEvidence := strongerAuthEvidence (authEvidence m) rest_verified,
                    os_current := (if os_current m = OS_RECONCILING \<or> os_current m = OS_DEGRADED
                                   then OS_READY else os_current m)\<rparr>))"

definition os_onIdle :: "OrderStreamStateMachine \<Rightarrow> OrderStreamStateMachine" where
  "os_onIdle m =
     (if os_current m = OS_READY \<or> os_current m = OS_RECONCILING then m\<lparr>os_current := OS_DEGRADED\<rparr> else m)"

definition os_onDisconnected :: "OrderStreamStateMachine \<Rightarrow> OrderStreamStateMachine" where
  "os_onDisconnected m =
     (if os_current m = OS_DISABLED \<or> os_current m = OS_AUTH_EXPIRED then m
      else m\<lparr>os_gen := os_gen m + 1, os_reconcileOwed := True, authEvidence := no_evidence,
             os_current := OS_DISCONNECTED\<rparr>)"

definition os_onSessionLost :: "OrderStreamStateMachine \<Rightarrow> OrderStreamStateMachine" where
  "os_onSessionLost m =
     (if os_current m = OS_DISABLED then m
      else m\<lparr>os_gen := os_gen m + 1, os_reconcileOwed := True, authEvidence := no_evidence,
             os_current := OS_AUTH_EXPIRED\<rparr>)"

text \<open>The events a caller may feed the machine, in any order.\<close>

datatype os_event =
    OS_setEnabled bool | OS_connecting | OS_socketOpen | OS_authenticated OrderStreamAuthEvidence
  | OS_restVerified | OS_synchronized "nat option" | OS_idle | OS_disconnected | OS_sessionLost

fun os_step :: "os_event \<Rightarrow> OrderStreamStateMachine \<Rightarrow> OrderStreamStateMachine" where
  "os_step (OS_setEnabled b) m = os_setEnabled b m"
| "os_step OS_connecting m = os_onConnecting m"
| "os_step OS_socketOpen m = os_onSocketOpen m"
| "os_step (OS_authenticated ev) m = os_onAuthenticated ev m"
| "os_step OS_restVerified m = os_noteRestVerifiedSession m"
| "os_step (OS_synchronized g) m = snd (os_markSynchronized g m)"
| "os_step OS_idle m = os_onIdle m"
| "os_step OS_disconnected m = os_onDisconnected m"
| "os_step OS_sessionLost m = os_onSessionLost m"

section \<open>The market-data machine\<close>

record MarketDataStateMachine =
  md_current :: MarketDataState
  heartbeatMaxAgeMs :: int
  bookMaxAgeMs :: int
  md_gen :: nat
  desired :: "jsnum list"
  depthAt :: "jsnum \<rightharpoonup> int \<times> nat"
  confirmed_subs :: "jsnum set"
  lastHeartbeatAt :: "int option"
  lastFrameAt :: "int option"
  lastDepthAt :: "int option"
  md_backlog :: bool

definition new_market_data :: "bool \<Rightarrow> int option \<Rightarrow> int option \<Rightarrow> MarketDataStateMachine" where
  "new_market_data enabled heartbeatMax bookMax =
     \<lparr>md_current = (if enabled then MD_DISCONNECTED else MD_DISABLED),
      heartbeatMaxAgeMs = max 0 (case heartbeatMax of None \<Rightarrow> 5000 | Some x \<Rightarrow> x),
      bookMaxAgeMs = max 0 (case bookMax of None \<Rightarrow> 10000 | Some x \<Rightarrow> x),
      md_gen = 0, desired = [], depthAt = Map.empty, confirmed_subs = {}, lastHeartbeatAt = None,
      lastFrameAt = None, lastDepthAt = None, md_backlog = False\<rparr>"

definition isInstrumentFresh :: "jsnum \<Rightarrow> int \<Rightarrow> MarketDataStateMachine \<Rightarrow> bool" where
  "isInstrumentFresh token now m =
     (case depthAt m token of None \<Rightarrow> False
      | Some (seen, g) \<Rightarrow> if g \<noteq> md_gen m then False else now - seen \<le> bookMaxAgeMs m)"

definition readyInstruments :: "int \<Rightarrow> MarketDataStateMachine \<Rightarrow> jsnum list" where
  "readyInstruments now m = filter (\<lambda>t. isInstrumentFresh t now m) (desired m)"

definition isTransportLive :: "int \<Rightarrow> MarketDataStateMachine \<Rightarrow> bool" where
  "isTransportLive now m =
     (case lastFrameAt m of None \<Rightarrow> False | Some frame \<Rightarrow> now - frame \<le> heartbeatMaxAgeMs m)"

definition anyDesiredFresh :: "int \<Rightarrow> MarketDataStateMachine \<Rightarrow> bool" where
  "anyDesiredFresh now m =
     (if desired m = [] then False else list_ex (\<lambda>t. isInstrumentFresh t now m) (desired m))"

definition reevaluate :: "int \<Rightarrow> MarketDataStateMachine \<Rightarrow> MarketDataStateMachine" where
  "reevaluate now m =
     (if md_current m = MD_DISABLED \<or> md_current m = MD_AUTH_EXPIRED then m
      else if md_current m = MD_CONNECTING \<or> md_current m = MD_AUTHENTICATING then m
      else if md_current m = MD_DISCONNECTED then m
      else if \<not> isTransportLive now m \<or> md_backlog m \<or> \<not> anyDesiredFresh now m then
        (if md_current m = MD_READY then m\<lparr>md_current := MD_DEGRADED\<rparr>
         else if md_current m = MD_DEGRADED then m
         else m\<lparr>md_current := MD_SYNCHRONIZING\<rparr>)
      else m\<lparr>md_current := MD_READY\<rparr>)"

fun usable_token :: "jsnum \<Rightarrow> bool" where
  "usable_token (Fin t) = (0 < t)"
| "usable_token _ = False"

definition setDesiredInstruments :: "jsnum list \<Rightarrow> int \<Rightarrow> MarketDataStateMachine \<Rightarrow> MarketDataStateMachine" where
  "setDesiredInstruments tokens now m =
     reevaluate now (m\<lparr>desired := dedupe_from {} (filter usable_token tokens)\<rparr>)"

definition onSubscriptionsConfirmed ::
    "jsnum list \<Rightarrow> int \<Rightarrow> MarketDataStateMachine \<Rightarrow> MarketDataStateMachine" where
  "onSubscriptionsConfirmed tokens now m =
     (if md_current m = MD_DISABLED \<or> md_current m = MD_AUTH_EXPIRED then m
      else reevaluate now (m\<lparr>confirmed_subs := confirmed_subs m \<union> set tokens\<rparr>))"

definition md_onConnecting :: "MarketDataStateMachine \<Rightarrow> MarketDataStateMachine" where
  "md_onConnecting m = (if md_current m = MD_DISABLED then m else m\<lparr>md_current := MD_CONNECTING\<rparr>)"

definition md_onSocketOpen :: "MarketDataStateMachine \<Rightarrow> MarketDataStateMachine" where
  "md_onSocketOpen m =
     (if md_current m = MD_DISABLED \<or> md_current m = MD_AUTH_EXPIRED then m
      else m\<lparr>md_current := MD_AUTHENTICATING\<rparr>)"

definition md_onAuthenticated :: "MarketDataStateMachine \<Rightarrow> MarketDataStateMachine" where
  "md_onAuthenticated m =
     (if md_current m = MD_DISABLED \<or> md_current m = MD_AUTH_EXPIRED then m
      else m\<lparr>md_gen := md_gen m + 1, confirmed_subs := {}, lastDepthAt := None, md_backlog := False,
             md_current := MD_SYNCHRONIZING\<rparr>)"

definition or_now :: "int option \<Rightarrow> int \<Rightarrow> int" where
  "or_now a now = (case a of None \<Rightarrow> now | Some t \<Rightarrow> t)"

definition onHeartbeat :: "int option \<Rightarrow> int \<Rightarrow> MarketDataStateMachine \<Rightarrow> MarketDataStateMachine" where
  "onHeartbeat seen now m =
     reevaluate now (m\<lparr>lastHeartbeatAt := Some (or_now seen now), lastFrameAt := Some (or_now seen now)\<rparr>)"

definition onFrame :: "int option \<Rightarrow> int \<Rightarrow> MarketDataStateMachine \<Rightarrow> MarketDataStateMachine" where
  "onFrame seen now m = reevaluate now (m\<lparr>lastFrameAt := Some (or_now seen now)\<rparr>)"

definition onUsableDepth :: "jsnum \<Rightarrow> int option \<Rightarrow> int \<Rightarrow> MarketDataStateMachine \<Rightarrow> MarketDataStateMachine" where
  "onUsableDepth token seen now m =
     (if md_current m = MD_DISABLED \<or> md_current m = MD_AUTH_EXPIRED then m
      else reevaluate now
        (m\<lparr>depthAt := (depthAt m)(token \<mapsto> (or_now seen now, md_gen m)),
           confirmed_subs := insert token (confirmed_subs m),
           lastDepthAt := Some (or_now seen now), lastFrameAt := Some (or_now seen now)\<rparr>))"

definition onProcessingBacklog :: "bool \<Rightarrow> int \<Rightarrow> MarketDataStateMachine \<Rightarrow> MarketDataStateMachine" where
  "onProcessingBacklog active now m = reevaluate now (m\<lparr>md_backlog := active\<rparr>)"

definition md_onDisconnected :: "MarketDataStateMachine \<Rightarrow> MarketDataStateMachine" where
  "md_onDisconnected m =
     (if md_current m = MD_DISABLED \<or> md_current m = MD_AUTH_EXPIRED then m
      else m\<lparr>md_current := MD_DISCONNECTED\<rparr>)"

definition md_onSessionLost :: "MarketDataStateMachine \<Rightarrow> MarketDataStateMachine" where
  "md_onSessionLost m = (if md_current m = MD_DISABLED then m else m\<lparr>md_current := MD_AUTH_EXPIRED\<rparr>)"

definition md_setEnabled :: "bool \<Rightarrow> MarketDataStateMachine \<Rightarrow> MarketDataStateMachine" where
  "md_setEnabled enabled m =
     (if \<not> enabled then m\<lparr>md_current := MD_DISABLED\<rparr>
      else if md_current m = MD_DISABLED then m\<lparr>md_current := MD_DISCONNECTED\<rparr> else m)"

definition md_evaluate :: "int \<Rightarrow> MarketDataStateMachine \<Rightarrow> MarketDataState \<times> MarketDataStateMachine" where
  "md_evaluate now m = (let m' = reevaluate now m in (md_current m', m'))"

text \<open>The coverage report; its loop keeps a count and a sample of at most the given size.\<close>

record coverage_report =
  cov_desired :: nat
  cov_fresh :: nat
  cov_missing :: nat
  cov_missingSample :: "jsnum list"

fun coverage_loop ::
    "int \<Rightarrow> MarketDataStateMachine \<Rightarrow> int \<Rightarrow> jsnum list \<Rightarrow> nat \<times> jsnum list \<Rightarrow> nat \<times> jsnum list" where
  "coverage_loop now m sampleLimit [] acc = acc"
| "coverage_loop now m sampleLimit (t # ts) (fresh, sample) =
     coverage_loop now m sampleLimit ts
       (if isInstrumentFresh t now m then (fresh + 1, sample)
        else if int (length sample) < max 0 sampleLimit then (fresh, sample @ [t])
        else (fresh, sample))"

definition coverage :: "int \<Rightarrow> int \<Rightarrow> MarketDataStateMachine \<Rightarrow> coverage_report" where
  "coverage sampleLimit now m =
     (let (fresh, sample) = coverage_loop now m sampleLimit (desired m) (0, [])
      in \<lparr>cov_desired = length (desired m), cov_fresh = fresh,
          cov_missing = length (desired m) - fresh, cov_missingSample = sample\<rparr>)"

definition isSubscribed :: "jsnum \<Rightarrow> MarketDataStateMachine \<Rightarrow> bool" where
  "isSubscribed token m = (token \<in> set (desired m))"

datatype md_event =
    MD_setEnabled bool | MD_connecting | MD_socketOpen | MD_authenticated | MD_disconnected | MD_sessionLost
  | MD_desired "jsnum list" int | MD_confirmed "jsnum list" int | MD_heartbeat "int option" int
  | MD_frame "int option" int | MD_usableDepth jsnum "int option" int | MD_backlog bool int | MD_evaluate int

fun md_step :: "md_event \<Rightarrow> MarketDataStateMachine \<Rightarrow> MarketDataStateMachine" where
  "md_step (MD_setEnabled b) m = md_setEnabled b m"
| "md_step MD_connecting m = md_onConnecting m"
| "md_step MD_socketOpen m = md_onSocketOpen m"
| "md_step MD_authenticated m = md_onAuthenticated m"
| "md_step MD_disconnected m = md_onDisconnected m"
| "md_step MD_sessionLost m = md_onSessionLost m"
| "md_step (MD_desired ts now) m = setDesiredInstruments ts now m"
| "md_step (MD_confirmed ts now) m = onSubscriptionsConfirmed ts now m"
| "md_step (MD_heartbeat a now) m = onHeartbeat a now m"
| "md_step (MD_frame a now) m = onFrame a now m"
| "md_step (MD_usableDepth t a now) m = onUsableDepth t a now m"
| "md_step (MD_backlog b now) m = onProcessingBacklog b now m"
| "md_step (MD_evaluate now) m = snd (md_evaluate now m)"

section \<open>The permission tables\<close>

lemma table_invariants: "permissionInvariantViolations = []"
  by (simp add: permissionInvariantViolations_def table_problems_def NO_PERMISSIONS_def)

lemma newEntry_combined:
  "newEntry (combinedPermissions md os) = (md = MD_READY \<and> (os = OS_READY \<or> os = OS_DISABLED))"
  by (cases md; cases os) (simp_all add: combinedPermissions_def Let_def NO_PERMISSIONS_def)

lemma protectiveCancel_combined:
  "protectiveCancel (combinedPermissions md os) = (md \<noteq> MD_DISABLED \<and> md \<noteq> MD_AUTH_EXPIRED)"
  by (cases md; cases os) (simp_all add: combinedPermissions_def Let_def NO_PERMISSIONS_def)

lemma exitAndReduce_combined:
  "exitAndReduce (combinedPermissions md os) =
     ((md = MD_READY \<or> md = MD_DEGRADED) \<and> os \<noteq> OS_AUTH_EXPIRED)"
  by (cases md; cases os) (simp_all add: combinedPermissions_def Let_def NO_PERMISSIONS_def)

lemma permission_of_combined:
  "permission_of c (combinedPermissions md os) =
     (permission_of c (marketDataPermissions md) \<and> permission_of c (orderStreamPermissions os))"
  by (cases c) (simp_all add: combinedPermissions_def Let_def)

lemma blocks_complete:
  "permission_of c (combinedPermissions md os) = (c \<notin> fst ` set (permissionBlocks md os))"
  by (cases c; cases md; cases os)
     (simp_all add: permissionBlocks_def combinedPermissions_def Let_def NO_PERMISSIONS_def)

section \<open>Evidence of the current connection\<close>

text \<open>
  A machine whose \<open>conn\<close> states can only be entered by an opening event and are left by every event
  that does not stay: whenever it is in such a state, the last opening event splits the history, every
  later event stays, and whatever \<open>since\<close> records of the events after the opening holds.
\<close>

locale connection_trace =
  fixes op :: "'e \<Rightarrow> 's \<Rightarrow> 's"
    and conn :: "'s \<Rightarrow> bool"
    and opens :: "'e \<Rightarrow> 's \<Rightarrow> bool"
    and stays :: "'e \<Rightarrow> bool"
    and inv :: "'s \<Rightarrow> bool"
    and since :: "'s \<Rightarrow> 'e list \<Rightarrow> bool"
  assumes inv_op: "inv s \<Longrightarrow> inv (op e s)"
    and conn_op: "conn (op e s) \<Longrightarrow> \<not> opens e s \<Longrightarrow> conn s \<and> stays e"
    and since_open: "inv s \<Longrightarrow> opens e s \<Longrightarrow> since (op e s) []"
    and since_stay: "inv s \<Longrightarrow> since s post \<Longrightarrow> conn s \<Longrightarrow> conn (op e s) \<Longrightarrow> \<not> opens e s
      \<Longrightarrow> since (op e s) (post @ [e])"
begin

lemma fold_inv: "inv s \<Longrightarrow> inv (fold op es s)"
  by (induction es arbitrary: s) (auto intro: inv_op)

lemma last_opening:
  assumes "inv s0" and "\<not> conn s0" and "conn (fold op es s0)"
  shows "\<exists>pre e post. es = pre @ e # post \<and> opens e (fold op pre s0) \<and> list_all stays post
           \<and> since (fold op es s0) post"
  using assms(3)
proof (induction es rule: rev_induct)
  case Nil
  with assms(2) show ?case by simp
next
  case (snoc e es)
  let ?s = "fold op es s0"
  have inv: "inv ?s" by (rule fold_inv [OF assms(1)])
  have op: "fold op (es @ [e]) s0 = op e ?s" by simp
  show ?case
  proof (cases "opens e ?s")
    case True
    with since_open [OF inv] op show ?thesis by (metis list.pred_inject(1))
  next
    case False
    with snoc.prems conn_op have c: "conn ?s" "stays e" by auto
    from snoc.IH [OF c(1)] obtain pre e0 post where *:
      "es = pre @ e0 # post" "opens e0 (fold op pre s0)" "list_all stays post" "since ?s post" by blast
    have "since (op e ?s) (post @ [e])"
      using since_stay [OF inv *(4) c(1) _ False] snoc.prems by simp
    with * c(2) op have "es @ [e] = pre @ e0 # (post @ [e]) \<and> opens e0 (fold op pre s0)
        \<and> list_all stays (post @ [e]) \<and> since (fold op (es @ [e]) s0) (post @ [e])" by simp
    then show ?thesis by blast
  qed
qed

end

subsection \<open>The order stream\<close>

definition os_opens :: "os_event \<Rightarrow> OrderStreamStateMachine \<Rightarrow> bool" where
  "os_opens e m = ((\<exists>ev. e = OS_authenticated ev) \<and> os_current m \<noteq> OS_DISABLED \<and> \<not> isEstablished m)"

definition os_stays :: "os_event \<Rightarrow> bool" where
  "os_stays e = (e \<noteq> OS_disconnected \<and> e \<noteq> OS_sessionLost \<and> e \<noteq> OS_setEnabled False)"

definition synced_since :: "OrderStreamStateMachine \<Rightarrow> os_event list \<Rightarrow> bool" where
  "synced_since m post =
     (os_current m = OS_READY \<longrightarrow>
        (\<exists>mid g rest. post = mid @ OS_synchronized g # rest \<and> (g = None \<or> g = Some (os_gen m))))"

lemmas os_defs = os_setEnabled_def os_onConnecting_def os_onSocketOpen_def os_onAuthenticated_def
  os_noteRestVerifiedSession_def os_markSynchronized_def os_onIdle_def os_onDisconnected_def
  os_onSessionLost_def isEstablished_def

lemma synced_since_snoc: "synced_since m post \<Longrightarrow> os_current m = OS_READY \<Longrightarrow> os_gen m' = os_gen m
    \<Longrightarrow> synced_since m' (post @ [e])"
  by (fastforce simp: synced_since_def)

lemma os_step_established:
  assumes "isEstablished m" and "isEstablished (os_step e m)"
  shows "os_gen (os_step e m) = os_gen m"
    and "os_current (os_step e m) = OS_READY \<Longrightarrow>
           os_current m = OS_READY \<or> (\<exists>g. e = OS_synchronized g \<and> (g = None \<or> g = Some (os_gen m)))"
  using assms by (cases e; auto simp: os_defs split: if_splits)+

interpretation order_stream: connection_trace os_step isEstablished os_opens os_stays "\<lambda>_. True" synced_since
proof unfold_locales
  show "isEstablished m \<and> os_stays e" if "isEstablished (os_step e m)" "\<not> os_opens e m" for e m
    using that by (cases e) (auto simp: os_defs os_opens_def os_stays_def split: if_splits)
  show "synced_since (os_step e m) []" if "os_opens e m" for e m
    using that by (auto simp: os_opens_def synced_since_def os_defs)
  show "synced_since (os_step e m) (post @ [e])"
    if "synced_since m post" "isEstablished m" "isEstablished (os_step e m)" for e m post
  proof (cases "os_current (os_step e m) = OS_READY \<and> os_current m \<noteq> OS_READY")
    case True
    then show ?thesis using os_step_established [OF that(2,3)] by (fastforce simp: synced_since_def)
  next
    case False
    show ?thesis
    proof (cases "os_current m = OS_READY")
      case True
      from that(1) this os_step_established(1) [OF that(2,3)] show ?thesis by (rule synced_since_snoc)
    next
      case False2: False
      with False show ?thesis by (simp add: synced_since_def)
    qed
  qed
qed simp

text \<open>What the evidence and the owed reconciliation are in each state.\<close>

definition os_inv :: "OrderStreamStateMachine \<Rightarrow> bool" where
  "os_inv m =
     ((os_current m = OS_READY \<longrightarrow> \<not> os_reconcileOwed m \<and> authEvidence m = rest_verified) \<and>
      (os_current m = OS_RECONCILING \<longrightarrow> os_reconcileOwed m) \<and>
      (os_current m = OS_DISABLED \<longrightarrow> authEvidence m = no_evidence \<and> \<not> os_reconcileOwed m) \<and>
      (isEstablished m \<longrightarrow> everConnected m))"

lemma stronger_rest_verified [simp]:
  "strongerAuthEvidence a rest_verified = rest_verified" "strongerAuthEvidence rest_verified a = rest_verified"
  by (cases a; simp add: strongerAuthEvidence_def)+

lemma os_inv_step: "os_inv m \<Longrightarrow> os_inv (os_step e m)"
  by (cases e) (auto simp: os_inv_def os_defs split: if_splits)

interpretation order_stream_inv: invariant_fold os_step os_inv
  by unfold_locales (rule os_inv_step)

lemma os_inv_new: "os_inv (new_order_stream b)"
  by (simp add: os_inv_def new_order_stream_def isEstablished_def)

interpretation order_stream_gen: monotone_fold os_step os_gen
proof
  show "os_gen s \<le> os_gen (os_step e s)" for s e
    by (cases e) (auto simp: os_defs)
qed

subsection \<open>Market data\<close>

definition md_connected :: "MarketDataStateMachine \<Rightarrow> bool" where
  "md_connected m =
     (md_current m = MD_SYNCHRONIZING \<or> md_current m = MD_READY \<or> md_current m = MD_DEGRADED)"

definition md_opens :: "md_event \<Rightarrow> MarketDataStateMachine \<Rightarrow> bool" where
  "md_opens e m = (e = MD_authenticated \<and> md_current m \<noteq> MD_DISABLED \<and> md_current m \<noteq> MD_AUTH_EXPIRED)"

definition md_stays :: "md_event \<Rightarrow> bool" where
  "md_stays e = (e \<noteq> MD_authenticated \<and> e \<noteq> MD_connecting \<and> e \<noteq> MD_socketOpen \<and> e \<noteq> MD_disconnected
     \<and> e \<noteq> MD_sessionLost \<and> e \<noteq> MD_setEnabled False)"

definition depth_inv :: "MarketDataStateMachine \<Rightarrow> bool" where
  "depth_inv m = (\<forall>token t g. depthAt m token = Some (t, g) \<longrightarrow> g \<le> md_gen m)"

definition depth_since :: "MarketDataStateMachine \<Rightarrow> md_event list \<Rightarrow> bool" where
  "depth_since m post =
     (\<forall>token t. depthAt m token = Some (t, md_gen m) \<longrightarrow>
        (\<exists>a now. MD_usableDepth token a now \<in> set post \<and> t = or_now a now))"

lemmas md_defs = md_setEnabled_def md_onConnecting_def md_onSocketOpen_def md_onAuthenticated_def
  md_onDisconnected_def md_onSessionLost_def setDesiredInstruments_def onSubscriptionsConfirmed_def
  onHeartbeat_def onFrame_def onUsableDepth_def onProcessingBacklog_def md_evaluate_def

lemma reevaluate_frame [simp]:
  "md_gen (reevaluate now m) = md_gen m" "depthAt (reevaluate now m) = depthAt m"
  "desired (reevaluate now m) = desired m" "bookMaxAgeMs (reevaluate now m) = bookMaxAgeMs m"
  by (simp_all add: reevaluate_def)

lemma reevaluate_connected [simp]: "md_connected (reevaluate now m) = md_connected m"
  by (cases "md_current m") (simp_all add: reevaluate_def md_connected_def)

lemma md_connected_current [simp]:
  "md_connected (m\<lparr>md_current := c\<rparr>) = (c = MD_SYNCHRONIZING \<or> c = MD_READY \<or> c = MD_DEGRADED)"
  by (simp add: md_connected_def)

lemma not_md_connected:
  "md_current m = MD_DISABLED \<Longrightarrow> \<not> md_connected m" "md_current m = MD_AUTH_EXPIRED \<Longrightarrow> \<not> md_connected m"
  by (simp_all add: md_connected_def)

lemma md_connected_update [simp]:
  "md_connected (m\<lparr>desired := d\<rparr>) = md_connected m"
  "md_connected (m\<lparr>confirmed_subs := c\<rparr>) = md_connected m"
  "md_connected (m\<lparr>lastFrameAt := f\<rparr>) = md_connected m"
  "md_connected (m\<lparr>lastHeartbeatAt := f\<rparr>) = md_connected m"
  "md_connected (m\<lparr>depthAt := d'\<rparr>) = md_connected m"
  "md_connected (m\<lparr>lastDepthAt := f\<rparr>) = md_connected m"
  "md_connected (m\<lparr>md_backlog := b\<rparr>) = md_connected m"
  by (simp_all add: md_connected_def)

lemma depth_inv_step: "depth_inv m \<Longrightarrow> depth_inv (md_step e m)"
  by (cases e) (auto simp: depth_inv_def md_defs Let_def split: if_splits dest: le_SucI)

lemma md_step_depth:
  assumes "\<not> md_opens e m"
  shows "md_gen (md_step e m) = md_gen m"
    and "depthAt (md_step e m) =
          (case e of MD_usableDepth t a now \<Rightarrow>
             if md_current m = MD_DISABLED \<or> md_current m = MD_AUTH_EXPIRED then depthAt m
             else (depthAt m)(t \<mapsto> (or_now a now, md_gen m))
           | _ \<Rightarrow> depthAt m)"
  using assms by (cases e; auto simp: md_defs md_opens_def Let_def)+

interpretation market_data: connection_trace md_step md_connected md_opens md_stays depth_inv depth_since
proof unfold_locales
  show "depth_inv (md_step e m)" if "depth_inv m" for e m using that by (rule depth_inv_step)
  show "md_connected m \<and> md_stays e" if "md_connected (md_step e m)" "\<not> md_opens e m" for e m
    using that by (cases e) (auto simp: md_defs md_opens_def md_stays_def Let_def not_md_connected split: if_splits)
  show "depth_since (md_step e m) []" if "depth_inv m" "md_opens e m" for e m
    using that by (auto simp: md_opens_def depth_since_def depth_inv_def md_onAuthenticated_def)
      (metis Suc_n_not_le_n)
  show "depth_since (md_step e m) (post @ [e])"
    if "depth_since m post" "\<not> md_opens e m" for e m post
    using that(1) unfolding depth_since_def md_step_depth [OF that(2)]
    by (fastforce split: md_event.splits if_splits)
qed

lemma evaluate_ready:
  assumes "fst (md_evaluate now m) = MD_READY"
  shows "md_connected m" and "isTransportLive now m" and "\<not> md_backlog m" and "anyDesiredFresh now m"
  using assms by (auto simp: md_evaluate_def Let_def reevaluate_def md_connected_def split: if_splits;
      cases "md_current m"; simp)+

lemma anyDesiredFreshE:
  assumes "anyDesiredFresh now m"
  obtains token seen where "token \<in> set (desired m)" "depthAt m token = Some (seen, md_gen m)"
    "now - seen \<le> bookMaxAgeMs m"
  using assms
  by (auto simp: anyDesiredFresh_def isInstrumentFresh_def list_ex_iff split: if_splits option.splits prod.splits)

lemma market_data_evidence:
  assumes "fst (md_evaluate now (fold md_step es (new_market_data b hb bk))) = MD_READY"
  defines "m \<equiv> fold md_step es (new_market_data b hb bk)"
  shows "\<exists>pre post token a t. es = pre @ MD_authenticated # post \<and> list_all md_stays post
    \<and> MD_usableDepth token a t \<in> set post \<and> token \<in> set (desired m)
    \<and> now - or_now a t \<le> bookMaxAgeMs m \<and> isTransportLive now m \<and> \<not> md_backlog m"
proof -
  note ready = evaluate_ready [OF assms(1), folded m_def]
  have "depth_inv (new_market_data b hb bk)" "\<not> md_connected (new_market_data b hb bk)"
    by (simp_all add: depth_inv_def new_market_data_def md_connected_def)
  from market_data.last_opening [OF this, of es] ready(1) obtain pre post where
    split: "es = pre @ MD_authenticated # post" "list_all md_stays post" and since: "depth_since m post"
    unfolding m_def md_opens_def by blast
  from ready(4) obtain token seen where d: "token \<in> set (desired m)"
    "depthAt m token = Some (seen, md_gen m)" "now - seen \<le> bookMaxAgeMs m" by (rule anyDesiredFreshE)
  from since d(2) obtain a t where "MD_usableDepth token a t \<in> set post" "seen = or_now a t"
    unfolding depth_since_def by blast
  with split d ready show ?thesis by blast
qed

lemma order_stream_evidence:
  assumes "os_current (fold os_step es (new_order_stream b)) = OS_READY"
  shows "\<exists>pre ev mid g rest. es = pre @ OS_authenticated ev # mid @ OS_synchronized g # rest
    \<and> list_all os_stays (mid @ rest)
    \<and> (g = None \<or> g = Some (os_gen (fold os_step es (new_order_stream b))))"
proof -
  have "\<not> isEstablished (new_order_stream b)" by (simp add: isEstablished_def new_order_stream_def)
  moreover have "isEstablished (fold os_step es (new_order_stream b))" using assms by (simp add: isEstablished_def)
  ultimately obtain pre e post where *: "es = pre @ e # post" "os_opens e (fold os_step pre (new_order_stream b))"
    "list_all os_stays post" "synced_since (fold os_step es (new_order_stream b)) post"
    using order_stream.last_opening by blast
  from *(4) assms obtain mid g rest where p: "post = mid @ OS_synchronized g # rest"
    and g: "g = None \<or> g = Some (os_gen (fold os_step es (new_order_stream b)))"
    unfolding synced_since_def by blast
  from *(2) obtain ev where "e = OS_authenticated ev" unfolding os_opens_def by blast
  moreover have "list_all os_stays (mid @ rest)" using *(3) p by simp
  ultimately show ?thesis using *(1) p g by blast
qed

lemma coverage_loop_sum:
  "fst (coverage_loop now m k ts acc) = fst acc + length (filter (\<lambda>t. isInstrumentFresh t now m) ts)"
  by (induction ts arbitrary: acc) (auto split: prod.splits)

lemma coverage_counts:
  "cov_fresh (coverage k now m) = length (readyInstruments now m)"
  "cov_fresh (coverage k now m) + cov_missing (coverage k now m) = cov_desired (coverage k now m)"
  using coverage_loop_sum [of now m k "desired m" "(0, [])"]
  by (auto simp: coverage_def readyInstruments_def Let_def split: prod.splits)

lemma coverage_loop_sample:
  "int (length sample) \<le> max 0 k \<Longrightarrow> int (length (snd (coverage_loop now m k ts (n, sample)))) \<le> max 0 k"
  by (induction ts arbitrary: n sample) auto

lemma coverage_sample_bounded: "int (length (cov_missingSample (coverage k now m))) \<le> max 0 k"
  using coverage_loop_sample [of "[]" k now m "desired m" 0]
  by (auto simp: coverage_def split: prod.splits)

section \<open>The entry gate\<close>

text \<open>C36. The entry gate of the two streams: whatever sequence of events the two machines have seen,
  a new entry is permitted only if the market data was authenticated with no drop, loss, disable or
  reconnect since, a usable book of a desired instrument was received after that authentication and is
  no older than the book bound, the transport is live and ingestion is not backed up; and only if the
  order stream is disabled, or it was authorised, not dropped since, and after the authorisation a
  reconciliation sweep for its current generation completed.\<close>

theorem entry_needs_current_evidence:
  assumes "fst (entryPermittedFromStreams (fst (md_evaluate now (fold md_step mds (new_market_data b hb bk))))
                  (os_current (fold os_step oss (new_order_stream b'))))"
  shows "(\<exists>pre post token a t. mds = pre @ MD_authenticated # post \<and> list_all md_stays post
            \<and> MD_usableDepth token a t \<in> set post
            \<and> token \<in> set (desired (fold md_step mds (new_market_data b hb bk)))
            \<and> now - or_now a t \<le> bookMaxAgeMs (fold md_step mds (new_market_data b hb bk))
            \<and> isTransportLive now (fold md_step mds (new_market_data b hb bk))
            \<and> \<not> md_backlog (fold md_step mds (new_market_data b hb bk))) \<and>
         (os_current (fold os_step oss (new_order_stream b')) = OS_DISABLED \<or>
          (\<exists>pre ev mid g rest. oss = pre @ OS_authenticated ev # mid @ OS_synchronized g # rest
            \<and> list_all os_stays (mid @ rest)
            \<and> (g = None \<or> g = Some (os_gen (fold os_step oss (new_order_stream b'))))))"
proof -
  let ?md = "fst (md_evaluate now (fold md_step mds (new_market_data b hb bk)))"
    and ?os = "os_current (fold os_step oss (new_order_stream b'))"
  from assms have "?md = MD_READY" and os: "?os = OS_READY \<or> ?os = OS_DISABLED"
    by (simp_all add: entryPermittedFromStreams_def newEntry_combined)
  from market_data_evidence [OF this(1)] os order_stream_evidence [of oss b'] show ?thesis by blast
qed

definition sample_md_events :: "md_event list" where
  "sample_md_events =
     [MD_desired [Fin 11, Fin 12] 0, MD_connecting, MD_socketOpen, MD_authenticated, MD_usableDepth (Fin 11) None 100]"

definition sample_os_events :: "os_event list" where
  "sample_os_events =
     [OS_connecting, OS_socketOpen, OS_authenticated login_submitted, OS_idle, OS_synchronized (Some 1)]"

lemma sample_entry_permitted:
  "fst (entryPermittedFromStreams
          (fst (md_evaluate 200 (fold md_step sample_md_events (new_market_data True None None))))
          (os_current (fold os_step sample_os_events (new_order_stream True))))"
  by code_simp

theorem entry_needs_current_evidence_witness:
  "fst (entryPermittedFromStreams
          (fst (md_evaluate 200 (fold md_step sample_md_events (new_market_data True None None))))
          (os_current (fold os_step sample_os_events (new_order_stream True)))) \<and>
   (\<exists>pre post token a t. sample_md_events = pre @ MD_authenticated # post \<and> list_all md_stays post
      \<and> MD_usableDepth token a t \<in> set post)"
  using sample_entry_permitted entry_needs_current_evidence [OF sample_entry_permitted] by blast

end
