(* ===== verification/Order_Stream_Consumer.thy ===== *)
theory Order_Stream_Consumer
  imports Order_Projection Stream_Health
begin

text \<open>
  The order-stream consumer, \<^verbatim>\<open>src/box/orderStreamConsumer.ts\<close>, with the Dhan handlers of
  \<^verbatim>\<open>src/box/dhanOrderStreamWiring.ts\<close> and the poll of \<^verbatim>\<open>src/box/engine.ts\<close>: one projection and one
  order-stream machine, the calls into the live adapter, and the reconciliation sweeps.

  The adapter and the sweep are code the consumer is given: a call of the adapter is an entry of
  \<open>adapter_calls\<close> and its reply an argument of the ingesting event; a sweep is an entry of \<open>sweeps\<close> with
  the connection generation it captured, and settles by an event of its own with the verdict or the
  error, at any later time.  A barrier promise is the number of its sweep.  Times are JavaScript
  numbers.  The sentences of the health object are left out.

  The lemmas show which sweep can make the stream ready, that at most one sweep runs per connection
  generation, that no status transition of an order is withheld from the adapter, and when new entry
  stays closed.
\<close>

section \<open>Options, updates and verdicts\<close>

record RegisterIntentArgs =
  ri_clientOrderId :: string
  ri_ownerTag :: string
  ri_account :: "string option"
  ri_requestedQty :: jsnum
  ri_brokerOrderId :: "string option"

record OrderStreamConsumerOptions =
  oo_hasAdapter :: bool
  oo_streamEnabled :: bool
  oo_hasRestReconcile :: bool
  oo_hasSweep :: bool
  reconcileRetryBaseMs :: "jsnum option"
  reconcileRetryMaxMs :: "jsnum option"
  oo_expectedIdleMs :: "jsnum option"

record ExternalOrderUpdate =
  eu_clientOrderId :: string
  eu_brokerOrderId :: "string option"
  eu_cumulativeQty :: "jsnum option"
  eu_averagePrice :: "jsnum option"
  eu_rawStatus :: "string option"
  eu_observedAtWall :: jsnum

datatype adapter_reply = adapter_threw | no_order | merged_state string

record ReconcileSweepOutcome =
  so_synchronized :: bool
  so_reason :: "string option"
  so_unresolvedOrders :: "int option"
  so_discrepancies :: "int option"

datatype sweep_settlement = sweep_threw string | sweep_resolved "ReconcileSweepOutcome option"

datatype sweep_failure = no_sweep_wired | sweep_failed string | stale_result | inconsistent "string option"

record forward_memo =
  mm_status :: "string option"
  mm_price :: "rat option"
  mm_terminal :: bool

record OrderStreamConsumer =
  cs_proj :: projection
  cs_machine :: OrderStreamStateMachine
  pendingReconciliations :: "string set"
  streamEventsApplied :: nat
  streamEventsWokeAdapter :: nat
  absentEvidenceEvents :: nat
  workingOrders :: "string set"
  requestedQtyOf :: "string \<rightharpoonup> jsnum"
  lastStreamEventAtWall :: "jsnum option"
  expectedIdleMs :: jsnum
  sweepInFlight :: "nat option"
  sweepInFlightGeneration :: "nat option"
  sweepAttempts :: nat
  nextSweepNotBeforeWall :: "jsnum option"
  lastSweepFailure :: "sweep_failure option"
  lastSweepUnresolvedOrders :: int
  lastSweepDiscrepancies :: int
  sweepsStarted :: nat
  sweepsSynchronized :: nat
  sweepsDiscardedStaleEpoch :: nat
  lastForwarded :: "string \<rightharpoonup> forward_memo"
  statusOnlyForwards :: nat
  priceOnlyForwards :: nat
  terminalSettlements :: nat
  invalidQuantityObservations :: nat
  overfillObservations :: nat
  contradictoryTerminalObservations :: nat
  adapter_calls :: "ExternalOrderUpdate list"
  rest_calls :: "string list"
  sweeps :: "(nat \<times> nat) list"
  settled_sweeps :: "nat set"

fun publishedStateForLifecycle :: "OrderStreamLifecycleState \<Rightarrow> OrderStreamState" where
  "publishedStateForLifecycle OS_DISABLED = ST_DISABLED"
| "publishedStateForLifecycle OS_CONNECTING = ST_CONNECTING"
| "publishedStateForLifecycle OS_AUTHENTICATING = ST_CONNECTING"
| "publishedStateForLifecycle OS_RECONCILING = ST_RECONNECTED_PENDING_RECONCILE"
| "publishedStateForLifecycle OS_READY = ST_LIVE"
| "publishedStateForLifecycle OS_DEGRADED = ST_DEGRADED"
| "publishedStateForLifecycle OS_DISCONNECTED = ST_DOWN"
| "publishedStateForLifecycle OS_AUTH_EXPIRED = ST_AUTH_EXPIRED"

definition TERMINAL_ORDER_STATES :: "string list" where
  "TERMINAL_ORDER_STATES = [''COMPLETE'', ''CANCELLED'', ''REJECTED'']"

definition normaliseStatusLabel :: "string option \<Rightarrow> string option" where
  "normaliseStatusLabel raw =
     (case raw of None \<Rightarrow> None
      | Some r \<Rightarrow> (let trimmed = js_upper (js_trim r) in if trimmed = [] then None else Some trimmed))"

definition new_consumer :: "OrderStreamConsumerOptions \<Rightarrow> OrderStreamConsumer" where
  "new_consumer opts =
     \<lparr>cs_proj = pj_setStreamEnabled (oo_streamEnabled opts) new_projection,
      cs_machine = new_order_stream (oo_streamEnabled opts), pendingReconciliations = {},
      streamEventsApplied = 0, streamEventsWokeAdapter = 0, absentEvidenceEvents = 0,
      workingOrders = {}, requestedQtyOf = Map.empty, lastStreamEventAtWall = None,
      expectedIdleMs = js_max (Fin 0) (case oo_expectedIdleMs opts of None \<Rightarrow> Fin 15000 | Some x \<Rightarrow> x),
      sweepInFlight = None, sweepInFlightGeneration = None, sweepAttempts = 0,
      nextSweepNotBeforeWall = None, lastSweepFailure = None, lastSweepUnresolvedOrders = 0,
      lastSweepDiscrepancies = 0, sweepsStarted = 0, sweepsSynchronized = 0,
      sweepsDiscardedStaleEpoch = 0, lastForwarded = Map.empty, statusOnlyForwards = 0,
      priceOnlyForwards = 0, terminalSettlements = 0, invalidQuantityObservations = 0,
      overfillObservations = 0, contradictoryTerminalObservations = 0, adapter_calls = [],
      rest_calls = [], sweeps = [], settled_sweeps = {}\<rparr>"

section \<open>Registration\<close>

definition registerIntent :: "RegisterIntentArgs \<Rightarrow> string option \<Rightarrow> OrderStreamConsumer \<Rightarrow> OrderStreamConsumer" where
  "registerIntent args account c =
     (let ro = \<lparr>ro_ownerTag = ri_ownerTag args, ro_brokerOrderId = ri_brokerOrderId args,
                ro_account = (case ri_account args of None \<Rightarrow> account | Some a \<Rightarrow> Some a),
                ro_clientOrderId = ri_clientOrderId args, ro_requestedQty = ri_requestedQty args\<rparr>
      in c\<lparr>cs_proj := register_order ro (cs_proj c),
           requestedQtyOf := (requestedQtyOf c)(ri_clientOrderId args \<mapsto> ri_requestedQty args),
           workingOrders := (if js_lt (Fin 0) (ri_requestedQty args)
                             then insert (ri_clientOrderId args) (workingOrders c) else workingOrders c)\<rparr>)"

definition markOrderSettled :: "string \<Rightarrow> OrderStreamConsumer \<Rightarrow> OrderStreamConsumer" where
  "markOrderSettled cid c = c\<lparr>workingOrders := workingOrders c - {cid}\<rparr>"

definition oc_learnBrokerOrderId :: "string \<Rightarrow> string option \<Rightarrow> OrderStreamConsumer \<Rightarrow> OrderStreamConsumer" where
  "oc_learnBrokerOrderId cid b c = c\<lparr>cs_proj := learnBrokerOrderId cid b (cs_proj c)\<rparr>"

section \<open>Ingestion\<close>

record non_quantity_change =
  nc_statusChanged :: bool
  nc_priceChanged :: bool
  nc_contradictsTerminal :: bool

definition classifyNonQuantityChange ::
    "string \<Rightarrow> NormalizedOrderObservation \<Rightarrow> OrderStreamConsumer \<Rightarrow> non_quantity_change" where
  "classifyNonQuantityChange cid ob c =
     (let status = normaliseStatusLabel (obs_rawStatus ob); price = finite_value (obs_averagePrice ob)
      in case lastForwarded c cid of
           None \<Rightarrow> \<lparr>nc_statusChanged = (status \<noteq> None), nc_priceChanged = (price \<noteq> None),
                    nc_contradictsTerminal = False\<rparr>
         | Some prior \<Rightarrow>
             \<lparr>nc_statusChanged = (status \<noteq> None \<and> status \<noteq> mm_status prior),
              nc_priceChanged = (price \<noteq> None \<and> price \<noteq> mm_price prior),
              nc_contradictsTerminal = (mm_terminal prior \<and> status \<noteq> None \<and> status \<noteq> mm_status prior)\<rparr>)"

definition noteForwarded ::
    "string \<Rightarrow> NormalizedOrderObservation \<Rightarrow> OrderStreamConsumer \<Rightarrow> OrderStreamConsumer" where
  "noteForwarded cid ob c =
     (let status = normaliseStatusLabel (obs_rawStatus ob); price = finite_value (obs_averagePrice ob);
          prior = lastForwarded c cid
      in c\<lparr>lastForwarded := (lastForwarded c)(cid \<mapsto>
            \<lparr>mm_status = (if status \<noteq> None then status else Option.bind prior mm_status),
             mm_price = (if price \<noteq> None then price else Option.bind prior mm_price),
             mm_terminal = (case prior of None \<Rightarrow> False | Some m \<Rightarrow> mm_terminal m)\<rparr>)\<rparr>)"

definition settleIfTerminal ::
    "string \<Rightarrow> string option \<Rightarrow> IngestResult \<Rightarrow> OrderStreamConsumer \<Rightarrow> OrderStreamConsumer" where
  "settleIfTerminal cid state result c =
     (if (case state of None \<Rightarrow> False | Some s \<Rightarrow> s \<in> set TERMINAL_ORDER_STATES) then
        c\<lparr>lastForwarded := (case lastForwarded c cid of
                              Some memo \<Rightarrow> (lastForwarded c)(cid \<mapsto> memo\<lparr>mm_terminal := True\<rparr>)
                            | None \<Rightarrow> lastForwarded c),
          workingOrders := workingOrders c - {cid},
          terminalSettlements := terminalSettlements c + 1\<rparr>
      else (case ir_apply result of
              Some r \<Rightarrow> if res_remaining r \<le> 0 then c\<lparr>workingOrders := workingOrders c - {cid}\<rparr> else c
            | None \<Rightarrow> c))"

text \<open>The call of the adapter: the update is logged, a fault is swallowed, and the merged order's state
  is returned.\<close>

definition applyToAdapter ::
    "OrderStreamConsumerOptions \<Rightarrow> string \<Rightarrow> NormalizedOrderObservation \<Rightarrow> bool \<Rightarrow> jsnum
     \<Rightarrow> (ExternalOrderUpdate \<Rightarrow> adapter_reply) \<Rightarrow> OrderStreamConsumer \<Rightarrow> string option \<times> OrderStreamConsumer" where
  "applyToAdapter opts cid ob quantityAbsent now reply c =
     (if \<not> oo_hasAdapter opts then (None, c)
      else
        let update = \<lparr>eu_clientOrderId = cid, eu_brokerOrderId = obs_brokerOrderId ob,
                      eu_cumulativeQty = (if quantityAbsent then None else Some (obs_cumulativeQty ob)),
                      eu_averagePrice = obs_averagePrice ob, eu_rawStatus = obs_rawStatus ob,
                      eu_observedAtWall = (case obs_observedAtWall ob of None \<Rightarrow> now | Some w \<Rightarrow> w)\<rparr>;
            c1 = c\<lparr>adapter_calls := adapter_calls c @ [update]\<rparr>
        in case reply update of
             adapter_threw \<Rightarrow> (None, c1)
           | no_order \<Rightarrow> (None, c1\<lparr>streamEventsApplied := streamEventsApplied c1 + 1\<rparr>)
           | merged_state s \<Rightarrow>
               (Some s, c1\<lparr>streamEventsApplied := streamEventsApplied c1 + 1,
                           streamEventsWokeAdapter := streamEventsWokeAdapter c1 + 1\<rparr>))"

definition scheduleReconciliation ::
    "OrderStreamConsumerOptions \<Rightarrow> string \<Rightarrow> OrderStreamConsumer \<Rightarrow> OrderStreamConsumer" where
  "scheduleReconciliation opts cid c =
     (if \<not> oo_hasRestReconcile opts then c
      else if cid \<in> pendingReconciliations c then c
      else c\<lparr>pendingReconciliations := insert cid (pendingReconciliations c),
             rest_calls := rest_calls c @ [cid]\<rparr>)"

definition stamp_observation ::
    "NormalizedOrderObservation \<Rightarrow> FillEventSource \<Rightarrow> jsnum \<Rightarrow> NormalizedOrderObservation" where
  "stamp_observation ob src now =
     ob\<lparr>obs_source := src,
        obs_observedAtWall := Some (case obs_observedAtWall ob of None \<Rightarrow> now | Some w \<Rightarrow> w)\<rparr>"

text \<open>The three tracks of an attributed observation with a quantity: quantity, status and price.\<close>

definition ingest_tracks ::
    "OrderStreamConsumerOptions \<Rightarrow> string \<Rightarrow> NormalizedOrderObservation \<Rightarrow> IngestResult \<Rightarrow> jsnum
     \<Rightarrow> (ExternalOrderUpdate \<Rightarrow> adapter_reply) \<Rightarrow> OrderStreamConsumer \<Rightarrow> OrderStreamConsumer" where
  "ingest_tracks opts cid stamped result now reply c =
     (let out = map_option res_outcome (ir_apply result);
          quantityAdvanced = (out = Some applied \<or> out = Some applied_overfill);
          sameEventRedelivered = (out = Some duplicate_event);
          change = classifyNonQuantityChange cid stamped c
      in if out = Some invalid then
           scheduleReconciliation opts cid
             (c\<lparr>invalidQuantityObservations := invalidQuantityObservations c + 1\<rparr>)
         else
           let c1 = (if out = Some applied_overfill then
                       scheduleReconciliation opts cid (c\<lparr>overfillObservations := overfillObservations c + 1\<rparr>)
                     else c);
               c2 = (if nc_contradictsTerminal change then
                       scheduleReconciliation opts cid
                         (c1\<lparr>contradictoryTerminalObservations := contradictoryTerminalObservations c1 + 1\<rparr>)
                     else c1)
           in if \<not> sameEventRedelivered \<and> (quantityAdvanced \<or> nc_statusChanged change \<or> nc_priceChanged change)
              then
                let (merged, c3) = applyToAdapter opts cid stamped False now reply c2;
                    c4 = (if nc_statusChanged change
                          then c3\<lparr>statusOnlyForwards := statusOnlyForwards c3 + (if quantityAdvanced then 0 else 1)\<rparr>
                          else c3);
                    c5 = (if nc_priceChanged change \<and> \<not> nc_statusChanged change \<and> \<not> quantityAdvanced
                          then c4\<lparr>priceOnlyForwards := priceOnlyForwards c4 + 1\<rparr> else c4)
                in settleIfTerminal cid merged result (noteForwarded cid stamped c5)
              else settleIfTerminal cid None result c2)"

definition oc_ingest ::
    "OrderStreamConsumerOptions \<Rightarrow> NormalizedOrderObservation \<Rightarrow> FillEventSource \<Rightarrow> jsnum
     \<Rightarrow> (ExternalOrderUpdate \<Rightarrow> adapter_reply) \<Rightarrow> OrderStreamConsumer \<Rightarrow> IngestResult \<times> OrderStreamConsumer" where
  "oc_ingest opts ob src now reply c =
     (let stamped = stamp_observation ob src now;
          (result, p) = pj_ingest stamped (cs_proj c);
          c0 = c\<lparr>cs_proj := p\<rparr>;
          c1 = (if is_stream_source src \<and> ir_attributed result
                then c0\<lparr>lastStreamEventAtWall := obs_observedAtWall stamped\<rparr> else c0)
      in if ir_rejection result = Some rej_malformed then
           (result, c1\<lparr>invalidQuantityObservations := invalidQuantityObservations c1 + 1\<rparr>)
         else if \<not> ir_attributed result then (result, c1)
         else case ir_clientOrderId result of
           None \<Rightarrow> (result, c1)
         | Some cid \<Rightarrow>
             if ir_quantityEvidence result = ev_absent then
               let c2 = c1\<lparr>absentEvidenceEvents := absentEvidenceEvents c1 + 1\<rparr>;
                   (merged, c3) = applyToAdapter opts cid stamped True now reply c2;
                   c4 = settleIfTerminal cid merged result (noteForwarded cid stamped c3)
               in (result, scheduleReconciliation opts cid c4)
             else (result, ingest_tracks opts cid stamped result now reply c1))"

definition ingestStreamObservation ::
    "OrderStreamConsumerOptions \<Rightarrow> NormalizedOrderObservation \<Rightarrow> jsnum
     \<Rightarrow> (ExternalOrderUpdate \<Rightarrow> adapter_reply) \<Rightarrow> OrderStreamConsumer \<Rightarrow> IngestResult \<times> OrderStreamConsumer" where
  "ingestStreamObservation opts ob now reply c = oc_ingest opts ob order_update now reply c"

definition ingestRestObservation ::
    "OrderStreamConsumerOptions \<Rightarrow> NormalizedOrderObservation \<Rightarrow> FillEventSource \<Rightarrow> jsnum
     \<Rightarrow> (ExternalOrderUpdate \<Rightarrow> adapter_reply) \<Rightarrow> OrderStreamConsumer \<Rightarrow> IngestResult \<times> OrderStreamConsumer" where
  "ingestRestObservation opts ob src now reply c =
     (let (result, c1) = oc_ingest opts ob src now reply c
      in (result,
          case ir_clientOrderId result of
            Some cid \<Rightarrow> if cid \<noteq> [] \<and> ir_quantityEvidence result = ev_confirmed
                        then c1\<lparr>pendingReconciliations := pendingReconciliations c1 - {cid}\<rparr> else c1
          | None \<Rightarrow> c1))"

section \<open>Lifecycle\<close>

definition oc_reconcilePending :: "OrderStreamConsumer \<Rightarrow> bool" where
  "oc_reconcilePending c = (os_reconcileOwed (cs_machine c) \<or> pj_reconcileOwed (cs_proj c))"

definition lifecycleState :: "OrderStreamConsumer \<Rightarrow> OrderStreamLifecycleState" where
  "lifecycleState c = os_current (cs_machine c)"

definition oc_onConnecting :: "OrderStreamConsumer \<Rightarrow> OrderStreamConsumer" where
  "oc_onConnecting c =
     c\<lparr>cs_machine := os_onConnecting (cs_machine c), cs_proj := onStreamConnecting (cs_proj c)\<rparr>"

definition oc_onSocketOpen :: "OrderStreamConsumer \<Rightarrow> OrderStreamConsumer" where
  "oc_onSocketOpen c = c\<lparr>cs_machine := os_onSocketOpen (cs_machine c)\<rparr>"

definition oc_onAuthenticated ::
    "OrderStreamAuthEvidence \<Rightarrow> jsnum \<Rightarrow> OrderStreamConsumer \<Rightarrow> OrderStreamConsumer" where
  "oc_onAuthenticated evidence now c =
     (let reconnect = everConnected (cs_machine c);
          priorGeneration = os_gen (cs_machine c);
          c1 = c\<lparr>cs_machine := os_onAuthenticated evidence (cs_machine c)\<rparr>
      in if os_gen (cs_machine c1) = priorGeneration then c1
         else c1\<lparr>cs_proj := onStreamConnected True reconnect (cs_proj c1), sweepAttempts := 0,
                 nextSweepNotBeforeWall := None, lastStreamEventAtWall := Some now\<rparr>)"

definition oc_markSynchronized :: "nat option \<Rightarrow> OrderStreamConsumer \<Rightarrow> bool \<times> OrderStreamConsumer" where
  "oc_markSynchronized atGeneration c =
     (let (wasApplied, m) = os_markSynchronized atGeneration (cs_machine c); c1 = c\<lparr>cs_machine := m\<rparr>
      in (wasApplied, if wasApplied then c1\<lparr>cs_proj := markReconciled (cs_proj c1)\<rparr> else c1))"

definition oc_noteRestVerifiedSession :: "OrderStreamConsumer \<Rightarrow> OrderStreamConsumer" where
  "oc_noteRestVerifiedSession c = c\<lparr>cs_machine := os_noteRestVerifiedSession (cs_machine c)\<rparr>"

definition oc_onIdle :: "OrderStreamConsumer \<Rightarrow> OrderStreamConsumer" where
  "oc_onIdle c = c\<lparr>cs_machine := os_onIdle (cs_machine c), cs_proj := onStreamIdle (cs_proj c)\<rparr>"

definition evaluateIdle :: "jsnum \<Rightarrow> OrderStreamConsumer \<Rightarrow> OrderStreamConsumer" where
  "evaluateIdle now c =
     (if workingOrders c = {} then c
      else if lifecycleState c \<noteq> OS_READY \<and> lifecycleState c \<noteq> OS_RECONCILING then c
      else case lastStreamEventAtWall c of
             None \<Rightarrow> c
           | Some seen \<Rightarrow> if js_lt (expectedIdleMs c) (js_sub now seen) then oc_onIdle c else c)"

definition oc_onDisconnected :: "OrderStreamConsumer \<Rightarrow> OrderStreamConsumer" where
  "oc_onDisconnected c =
     c\<lparr>cs_machine := os_onDisconnected (cs_machine c), cs_proj := onStreamDisconnected (cs_proj c)\<rparr>"

definition oc_onSessionLost :: "OrderStreamConsumer \<Rightarrow> OrderStreamConsumer" where
  "oc_onSessionLost c =
     c\<lparr>cs_machine := os_onSessionLost (cs_machine c), cs_proj := onStreamSessionLost (cs_proj c)\<rparr>"

definition oc_setStreamEnabled :: "bool \<Rightarrow> OrderStreamConsumer \<Rightarrow> OrderStreamConsumer" where
  "oc_setStreamEnabled enabled c =
     c\<lparr>cs_machine := os_setEnabled enabled (cs_machine c), cs_proj := pj_setStreamEnabled enabled (cs_proj c)\<rparr>"

section \<open>Reconciliation sweeps\<close>

text \<open>The synchronous part of \<^verbatim>\<open>runReconnectReconciliation\<close>: join, refuse, or start a sweep.\<close>

definition runReconnectReconciliation ::
    "OrderStreamConsumerOptions \<Rightarrow> OrderStreamConsumer \<Rightarrow> OrderStreamConsumer" where
  "runReconnectReconciliation opts c =
     (if sweepInFlight c \<noteq> None \<and> sweepInFlightGeneration c = Some (os_gen (cs_machine c)) then c
      else if \<not> oc_reconcilePending c then c
      else if \<not> oo_hasSweep opts then c\<lparr>lastSweepFailure := Some no_sweep_wired\<rparr>
      else
        let startedAtGeneration = os_gen (cs_machine c); barrier = sweepsStarted c
        in c\<lparr>sweepInFlight := Some barrier, sweepInFlightGeneration := Some startedAtGeneration,
             sweepsStarted := sweepsStarted c + 1, sweeps := sweeps c @ [(barrier, startedAtGeneration)]\<rparr>)"

fun js_times_pow2 :: "jsnum \<Rightarrow> nat \<Rightarrow> jsnum" where
  "js_times_pow2 (Fin a) k = Fin (a * 2 ^ k)"
| "js_times_pow2 x k = x"

definition noteSweepFailure ::
    "OrderStreamConsumerOptions \<Rightarrow> nat \<Rightarrow> sweep_failure \<Rightarrow> ReconcileSweepOutcome option \<Rightarrow> jsnum
     \<Rightarrow> OrderStreamConsumer \<Rightarrow> OrderStreamConsumer" where
  "noteSweepFailure opts atGeneration reason verdict now c =
     (let c1 = c\<lparr>lastSweepFailure := Some reason\<rparr>;
          c2 = (case verdict of None \<Rightarrow> c1
                | Some v \<Rightarrow> c1\<lparr>lastSweepUnresolvedOrders := (case so_unresolvedOrders v of None \<Rightarrow> 0 | Some n \<Rightarrow> n),
                               lastSweepDiscrepancies := (case so_discrepancies v of None \<Rightarrow> 0 | Some n \<Rightarrow> n)\<rparr>)
      in if atGeneration \<noteq> os_gen (cs_machine c2) then c2
         else
           let attempts = sweepAttempts c2 + 1;
               base = js_max (Fin 250) (case reconcileRetryBaseMs opts of None \<Rightarrow> Fin 2000 | Some x \<Rightarrow> x);
               cap = js_max base (case reconcileRetryMaxMs opts of None \<Rightarrow> Fin 60000 | Some x \<Rightarrow> x);
               delay = js_min cap (js_times_pow2 base (min 8 (attempts - 1)))
           in c2\<lparr>sweepAttempts := attempts, nextSweepNotBeforeWall := Some (js_add now delay)\<rparr>)"

text \<open>\<^verbatim>\<open>executeSweep\<close> after its await, for the sweep that captured the given generation.\<close>

definition executeSweep_settled ::
    "OrderStreamConsumerOptions \<Rightarrow> nat \<Rightarrow> sweep_settlement \<Rightarrow> jsnum \<Rightarrow> OrderStreamConsumer \<Rightarrow> OrderStreamConsumer" where
  "executeSweep_settled opts startedAtGeneration settlement now c =
     (case settlement of
        sweep_threw err \<Rightarrow> noteSweepFailure opts startedAtGeneration (sweep_failed err) None now c
      | sweep_resolved verdict \<Rightarrow>
          if startedAtGeneration \<noteq> os_gen (cs_machine c) then
            c\<lparr>sweepsDiscardedStaleEpoch := sweepsDiscardedStaleEpoch c + 1, lastSweepFailure := Some stale_result\<rparr>
          else if (case verdict of None \<Rightarrow> False | Some v \<Rightarrow> \<not> so_synchronized v) then
            noteSweepFailure opts startedAtGeneration (inconsistent (Option.bind verdict so_reason)) verdict now c
          else
            let (wasApplied, m) = os_markSynchronized (Some startedAtGeneration) (cs_machine c);
                c1 = c\<lparr>cs_machine := m\<rparr>
            in if \<not> wasApplied then c1\<lparr>sweepsDiscardedStaleEpoch := sweepsDiscardedStaleEpoch c1 + 1\<rparr>
               else c1\<lparr>cs_proj := markReconciled (cs_proj c1), sweepsSynchronized := sweepsSynchronized c1 + 1,
                       sweepAttempts := 0, nextSweepNotBeforeWall := None, lastSweepFailure := None,
                       lastSweepUnresolvedOrders :=
                         (case Option.bind verdict so_unresolvedOrders of None \<Rightarrow> 0 | Some n \<Rightarrow> n),
                       lastSweepDiscrepancies :=
                         (case Option.bind verdict so_discrepancies of None \<Rightarrow> 0 | Some n \<Rightarrow> n)\<rparr>)"

definition running_sweeps :: "OrderStreamConsumer \<Rightarrow> (nat \<times> nat) list" where
  "running_sweeps c = filter (\<lambda>s. fst s \<notin> settled_sweeps c) (sweeps c)"

text \<open>A running sweep settles, then the \<^verbatim>\<open>finally\<close> block clears the barrier if it is still this sweep's.\<close>

definition sweep_settles ::
    "OrderStreamConsumerOptions \<Rightarrow> nat \<Rightarrow> sweep_settlement \<Rightarrow> jsnum \<Rightarrow> OrderStreamConsumer \<Rightarrow> OrderStreamConsumer" where
  "sweep_settles opts i settlement now c =
     (case map_of (running_sweeps c) i of
        None \<Rightarrow> c
      | Some g \<Rightarrow>
          let c1 = executeSweep_settled opts g settlement now c;
              c2 = (if sweepInFlight c1 = Some i
                    then c1\<lparr>sweepInFlight := None, sweepInFlightGeneration := None\<rparr> else c1)
          in c2\<lparr>settled_sweeps := insert i (settled_sweeps c2)\<rparr>)"

definition ensureReconciled ::
    "OrderStreamConsumerOptions \<Rightarrow> jsnum \<Rightarrow> OrderStreamConsumer \<Rightarrow> OrderStreamConsumer" where
  "ensureReconciled opts now c =
     (if \<not> oc_reconcilePending c then c
      else if sweepInFlight c \<noteq> None \<and> sweepInFlightGeneration c = Some (os_gen (cs_machine c)) then c
      else if \<not> oo_hasSweep opts then c
      else if lifecycleState c \<noteq> OS_RECONCILING \<and> lifecycleState c \<noteq> OS_DEGRADED \<and> lifecycleState c \<noteq> OS_READY
      then c
      else if (case nextSweepNotBeforeWall c of None \<Rightarrow> False | Some notBefore \<Rightarrow> js_lt now notBefore) then c
      else runReconnectReconciliation opts c)"

definition driveQuoteSocketLifecycle ::
    "OrderStreamConsumerOptions \<Rightarrow> bool \<Rightarrow> jsnum \<Rightarrow> OrderStreamConsumer \<Rightarrow> OrderStreamConsumer" where
  "driveQuoteSocketLifecycle opts isConnected now c =
     (if lifecycleState c = OS_DISABLED then c
      else if isConnected then
        runReconnectReconciliation opts
          (oc_onAuthenticated broker_acknowledged now (oc_onSocketOpen (oc_onConnecting c)))
      else oc_onDisconnected c)"

text \<open>The \<^verbatim>\<open>onConnected\<close> handler of the Dhan feed, and the poll of the engine.\<close>

definition dhan_onConnected ::
    "OrderStreamConsumerOptions \<Rightarrow> bool \<Rightarrow> jsnum \<Rightarrow> OrderStreamConsumer \<Rightarrow> OrderStreamConsumer" where
  "dhan_onConnected opts authorised now c =
     (let c1 = oc_onSocketOpen c
      in if \<not> authorised then c1
         else runReconnectReconciliation opts (oc_onAuthenticated login_submitted now c1))"

definition engine_orderStreamState ::
    "OrderStreamConsumerOptions \<Rightarrow> jsnum \<Rightarrow> OrderStreamConsumer \<Rightarrow> OrderStreamLifecycleState \<times> OrderStreamConsumer" where
  "engine_orderStreamState opts nowWall c =
     (let c1 = ensureReconciled opts nowWall (evaluateIdle nowWall c) in (lifecycleState c1, c1))"

section \<open>Published health\<close>

definition oc_health :: "OrderStreamConsumer \<Rightarrow> OrderStreamHealth \<times> OrderStreamLifecycleState" where
  "oc_health c =
     ((orderStreamHealth (cs_proj c))
        \<lparr>h_state := publishedStateForLifecycle (lifecycleState c), h_reconcilePending := oc_reconcilePending c\<rparr>,
      lifecycleState c)"

section \<open>Runs\<close>

datatype oc_event =
    OC_register RegisterIntentArgs "string option" | OC_settled string | OC_learn string "string option"
  | OC_stream NormalizedOrderObservation jsnum "ExternalOrderUpdate \<Rightarrow> adapter_reply"
  | OC_rest NormalizedOrderObservation FillEventSource jsnum "ExternalOrderUpdate \<Rightarrow> adapter_reply"
  | OC_connecting | OC_socketOpen | OC_authenticated OrderStreamAuthEvidence jsnum | OC_restVerified
  | OC_idle | OC_evaluateIdle jsnum | OC_disconnected | OC_sessionLost | OC_setEnabled bool
  | OC_run | OC_ensure jsnum | OC_sweepSettles nat sweep_settlement jsnum
  | OC_quoteSocket bool jsnum | OC_dhanConnected bool jsnum | OC_poll jsnum

fun oc_step :: "OrderStreamConsumerOptions \<Rightarrow> oc_event \<Rightarrow> OrderStreamConsumer \<Rightarrow> OrderStreamConsumer" where
  "oc_step opts (OC_register args a) c = registerIntent args a c"
| "oc_step opts (OC_settled i) c = markOrderSettled i c"
| "oc_step opts (OC_learn i b) c = oc_learnBrokerOrderId i b c"
| "oc_step opts (OC_stream ob now reply) c = snd (ingestStreamObservation opts ob now reply c)"
| "oc_step opts (OC_rest ob src now reply) c = snd (ingestRestObservation opts ob src now reply c)"
| "oc_step opts OC_connecting c = oc_onConnecting c"
| "oc_step opts OC_socketOpen c = oc_onSocketOpen c"
| "oc_step opts (OC_authenticated ev now) c = oc_onAuthenticated ev now c"
| "oc_step opts OC_restVerified c = oc_noteRestVerifiedSession c"
| "oc_step opts OC_idle c = oc_onIdle c"
| "oc_step opts (OC_evaluateIdle now) c = evaluateIdle now c"
| "oc_step opts OC_disconnected c = oc_onDisconnected c"
| "oc_step opts OC_sessionLost c = oc_onSessionLost c"
| "oc_step opts (OC_setEnabled b) c = oc_setStreamEnabled b c"
| "oc_step opts OC_run c = runReconnectReconciliation opts c"
| "oc_step opts (OC_ensure now) c = ensureReconciled opts now c"
| "oc_step opts (OC_sweepSettles i s now) c = sweep_settles opts i s now c"
| "oc_step opts (OC_quoteSocket b now) c = driveQuoteSocketLifecycle opts b now c"
| "oc_step opts (OC_dhanConnected a now) c = dhan_onConnected opts a now c"
| "oc_step opts (OC_poll now) c = snd (engine_orderStreamState opts now c)"

section \<open>What ingestion leaves alone\<close>

definition stream_core where
  "stream_core c = (cs_machine c, pj_reconcileOwed (cs_proj c), sweepInFlight c, sweepInFlightGeneration c,
     sweepsStarted c, sweeps c, settled_sweeps c)"

lemma pj_ingest_owed [simp]: "pj_reconcileOwed (snd (pj_ingest ob p)) = pj_reconcileOwed p"
  by (auto simp: pj_ingest_def Let_def learnBrokerOrderId_def split: option.splits prod.splits)

lemma register_owed [simp]: "pj_reconcileOwed (register_order ro p) = pj_reconcileOwed p"
  by (auto simp: register_order_def Let_def learnBrokerOrderId_def split: option.splits)

lemma learn_owed [simp]: "pj_reconcileOwed (learnBrokerOrderId i b p) = pj_reconcileOwed p"
  by (auto simp: learnBrokerOrderId_def split: option.splits)

lemma schedule_frame [simp]:
  "stream_core (scheduleReconciliation opts i c) = stream_core c"
  "cs_proj (scheduleReconciliation opts i c) = cs_proj c"
  "lastForwarded (scheduleReconciliation opts i c) = lastForwarded c"
  "adapter_calls (scheduleReconciliation opts i c) = adapter_calls c"
  by (simp_all add: scheduleReconciliation_def stream_core_def)

lemma note_frame [simp]:
  "stream_core (noteForwarded i ob c) = stream_core c"
  "adapter_calls (noteForwarded i ob c) = adapter_calls c"
  by (simp_all add: noteForwarded_def stream_core_def Let_def)

lemma settle_frame [simp]:
  "stream_core (settleIfTerminal i s r c) = stream_core c"
  "adapter_calls (settleIfTerminal i s r c) = adapter_calls c"
  by (auto simp: settleIfTerminal_def stream_core_def split: option.splits)

lemma apply_frame [simp]:
  "stream_core (snd (applyToAdapter opts i ob a now reply c)) = stream_core c"
  "lastForwarded (snd (applyToAdapter opts i ob a now reply c)) = lastForwarded c"
  by (auto simp: applyToAdapter_def stream_core_def Let_def split: adapter_reply.splits)

lemma core_update [simp]:
  "stream_core (c\<lparr>invalidQuantityObservations := n\<rparr>) = stream_core c"
  "stream_core (c\<lparr>overfillObservations := n\<rparr>) = stream_core c"
  "stream_core (c\<lparr>contradictoryTerminalObservations := n\<rparr>) = stream_core c"
  "stream_core (c\<lparr>statusOnlyForwards := n\<rparr>) = stream_core c"
  "stream_core (c\<lparr>priceOnlyForwards := n\<rparr>) = stream_core c"
  "stream_core (c\<lparr>absentEvidenceEvents := n\<rparr>) = stream_core c"
  "stream_core (c\<lparr>lastStreamEventAtWall := w\<rparr>) = stream_core c"
  "stream_core (c\<lparr>pendingReconciliations := w'\<rparr>) = stream_core c"
  "pj_reconcileOwed p = pj_reconcileOwed (cs_proj c) \<Longrightarrow> stream_core (c\<lparr>cs_proj := p\<rparr>) = stream_core c"
  by (simp_all add: stream_core_def)

lemma tracks_core [simp]: "stream_core (ingest_tracks opts i ob r now reply c) = stream_core c"
  by (simp add: ingest_tracks_def Let_def case_prod_beta if_distrib [of stream_core])

lemma ingest_core [simp]: "stream_core (snd (oc_ingest opts ob src now reply c)) = stream_core c"
  by (simp add: oc_ingest_def Let_def case_prod_beta if_distrib [of stream_core] if_distrib [of snd]
      split: option.split)

lemma core_iff:
  "stream_core c' = stream_core c \<longleftrightarrow>
     cs_machine c' = cs_machine c \<and> pj_reconcileOwed (cs_proj c') = pj_reconcileOwed (cs_proj c)
     \<and> sweepInFlight c' = sweepInFlight c \<and> sweepInFlightGeneration c' = sweepInFlightGeneration c
     \<and> sweepsStarted c' = sweepsStarted c \<and> sweeps c' = sweeps c \<and> settled_sweeps c' = settled_sweeps c"
  by (auto simp: stream_core_def)

definition order_event :: "oc_event \<Rightarrow> bool" where
  "order_event e = (case e of OC_register _ _ \<Rightarrow> True | OC_settled _ \<Rightarrow> True | OC_learn _ _ \<Rightarrow> True
     | OC_stream _ _ _ \<Rightarrow> True | OC_rest _ _ _ _ \<Rightarrow> True | _ \<Rightarrow> False)"

lemma rest_core [simp]: "stream_core (snd (ingestRestObservation opts ob src now reply c)) = stream_core c"
  by (simp add: ingestRestObservation_def case_prod_beta if_distrib [of stream_core] split: option.split)

lemma order_event_core: "order_event e \<Longrightarrow> stream_core (oc_step opts e c) = stream_core c"
  by (cases e)
     (simp_all add: order_event_def ingestStreamObservation_def,
      simp_all add: registerIntent_def markOrderSettled_def oc_learnBrokerOrderId_def Let_def stream_core_def)

section \<open>Sweeps and generations\<close>

definition oc_inv :: "OrderStreamConsumer \<Rightarrow> bool" where
  "oc_inv c =
     (map fst (sweeps c) = [0..<sweepsStarted c] \<and>
      (\<forall>s\<in>set (sweeps c). snd s \<le> os_gen (cs_machine c)) \<and>
      distinct (map snd (running_sweeps c)) \<and>
      (\<forall>s\<in>set (running_sweeps c). snd s = os_gen (cs_machine c) \<longrightarrow>
         sweepInFlight c = Some (fst s) \<and> sweepInFlightGeneration c = Some (snd s)) \<and>
      settled_sweeps c \<subseteq> {..<sweepsStarted c})"

definition sweep_fields where
  "sweep_fields c = (sweepInFlight c, sweepInFlightGeneration c, sweepsStarted c, sweeps c, settled_sweeps c)"

lemma oc_inv_mono:
  assumes "oc_inv c" and "sweep_fields c' = sweep_fields c" and "os_gen (cs_machine c) \<le> os_gen (cs_machine c')"
  shows "oc_inv c'"
proof -
  have f: "sweepInFlight c' = sweepInFlight c" "sweepInFlightGeneration c' = sweepInFlightGeneration c"
    "sweepsStarted c' = sweepsStarted c" "sweeps c' = sweeps c" "settled_sweeps c' = settled_sweeps c"
    using assms(2) by (simp_all add: sweep_fields_def)
  have r: "running_sweeps c' = running_sweeps c" by (simp add: running_sweeps_def f)
  have "set (running_sweeps c) \<subseteq> set (sweeps c)" by (auto simp: running_sweeps_def)
  with assms(1,3) show ?thesis unfolding oc_inv_def f r by fastforce
qed

lemma gen_mono [simp]:
  "os_gen m \<le> os_gen (os_onConnecting m)" "os_gen m \<le> os_gen (os_onSocketOpen m)"
  "os_gen m \<le> os_gen (os_onAuthenticated ev m)" "os_gen (os_noteRestVerifiedSession m) = os_gen m"
  "os_gen (os_onIdle m) = os_gen m" "os_gen m \<le> os_gen (os_onDisconnected m)"
  "os_gen m \<le> os_gen (os_onSessionLost m)" "os_gen m \<le> os_gen (os_setEnabled b m)"
  "os_gen (snd (os_markSynchronized g m)) = os_gen m"
  by (simp_all add: os_defs)

lemma sweep_fields_ops [simp]:
  "sweep_fields (oc_onConnecting c) = sweep_fields c" "sweep_fields (oc_onSocketOpen c) = sweep_fields c"
  "sweep_fields (oc_onAuthenticated ev t c) = sweep_fields c"
  "sweep_fields (oc_noteRestVerifiedSession c) = sweep_fields c" "sweep_fields (oc_onIdle c) = sweep_fields c"
  "sweep_fields (oc_onDisconnected c) = sweep_fields c" "sweep_fields (oc_onSessionLost c) = sweep_fields c"
  "sweep_fields (oc_setStreamEnabled b c) = sweep_fields c" "sweep_fields (evaluateIdle t c) = sweep_fields c"
  "sweep_fields (noteSweepFailure opts g r v t c) = sweep_fields c"
  "sweep_fields (executeSweep_settled opts g s t c) = sweep_fields c"
  by (simp_all add: sweep_fields_def oc_onConnecting_def oc_onSocketOpen_def oc_onAuthenticated_def
      oc_noteRestVerifiedSession_def oc_onIdle_def oc_onDisconnected_def oc_onSessionLost_def
      oc_setStreamEnabled_def evaluateIdle_def noteSweepFailure_def executeSweep_settled_def Let_def
      case_prod_beta split: option.split sweep_settlement.split)

lemma noteSweepFailure_machine [simp]: "cs_machine (noteSweepFailure opts g r v t c) = cs_machine c"
  by (simp add: noteSweepFailure_def Let_def split: option.split)

lemma noteSweepFailure_owed [simp]:
  "pj_reconcileOwed (cs_proj (noteSweepFailure opts g r v t c)) = pj_reconcileOwed (cs_proj c)"
  by (simp add: noteSweepFailure_def Let_def split: option.split)

lemma machine_ops [simp]:
  "cs_machine (oc_onConnecting c) = os_onConnecting (cs_machine c)"
  "cs_machine (oc_onSocketOpen c) = os_onSocketOpen (cs_machine c)"
  "cs_machine (oc_onAuthenticated ev t c) = os_onAuthenticated ev (cs_machine c)"
  "cs_machine (oc_noteRestVerifiedSession c) = os_noteRestVerifiedSession (cs_machine c)"
  "cs_machine (oc_onIdle c) = os_onIdle (cs_machine c)"
  "cs_machine (oc_onDisconnected c) = os_onDisconnected (cs_machine c)"
  "cs_machine (oc_onSessionLost c) = os_onSessionLost (cs_machine c)"
  "cs_machine (oc_setStreamEnabled b c) = os_setEnabled b (cs_machine c)"
  "cs_machine (runReconnectReconciliation opts c) = cs_machine c"
  "cs_machine (ensureReconciled opts t c) = cs_machine c"
  by (simp_all add: oc_onConnecting_def oc_onSocketOpen_def oc_onAuthenticated_def
      oc_noteRestVerifiedSession_def oc_onIdle_def oc_onDisconnected_def oc_onSessionLost_def
      oc_setStreamEnabled_def runReconnectReconciliation_def ensureReconciled_def Let_def)

lemma settled_machine:
  "cs_machine (executeSweep_settled opts g s t c) = cs_machine c \<or>
   (g = os_gen (cs_machine c) \<and> (case s of sweep_resolved v \<Rightarrow> (case v of None \<Rightarrow> True | Some x \<Rightarrow> so_synchronized x) | _ \<Rightarrow> False)
    \<and> cs_machine (executeSweep_settled opts g s t c) = snd (os_markSynchronized (Some g) (cs_machine c)))"
  by (auto simp: executeSweep_settled_def Let_def case_prod_beta split: sweep_settlement.split option.split)

lemma settled_gen [simp]: "os_gen (cs_machine (executeSweep_settled opts g s t c)) = os_gen (cs_machine c)"
  using settled_machine [of opts g s t c] by auto

lemma oc_inv_run: "oc_inv c \<Longrightarrow> oc_inv (runReconnectReconciliation opts c)"
proof (cases "(sweepInFlight c \<noteq> None \<and> sweepInFlightGeneration c = Some (os_gen (cs_machine c)))
    \<or> \<not> oc_reconcilePending c \<or> \<not> oo_hasSweep opts")
  case True
  moreover assume "oc_inv c"
  ultimately show ?thesis by (elim oc_inv_mono) (auto simp: runReconnectReconciliation_def sweep_fields_def)
next
  case False
  assume inv: "oc_inv c"
  let ?n = "sweepsStarted c" and ?g = "os_gen (cs_machine c)"
  let ?c = "c\<lparr>sweepInFlight := Some ?n, sweepInFlightGeneration := Some ?g,
             sweepsStarted := ?n + 1, sweeps := sweeps c @ [(?n, ?g)]\<rparr>"
  have step: "runReconnectReconciliation opts c = ?c"
    using False by (auto simp: runReconnectReconciliation_def Let_def)
  have new: "?n \<notin> settled_sweeps c" using inv by (auto simp: oc_inv_def)
  have none: "(a, ?g) \<notin> set (running_sweeps c)" for a
    using inv False by (auto simp: oc_inv_def)
  have r: "running_sweeps ?c = running_sweeps c @ [(?n, ?g)]" using new by (simp add: running_sweeps_def)
  show ?thesis unfolding step using inv none unfolding oc_inv_def r by (auto simp: less_Suc_eq)
qed

lemma oc_inv_settles: "oc_inv c \<Longrightarrow> oc_inv (sweep_settles opts i s t c)"
proof (cases "map_of (running_sweeps c) i")
  case None
  moreover assume "oc_inv c"
  ultimately show ?thesis by (simp add: sweep_settles_def)
next
  case (Some g)
  assume inv: "oc_inv c"
  let ?c1 = "executeSweep_settled opts g s t c"
  let ?c2 = "if sweepInFlight ?c1 = Some i then ?c1\<lparr>sweepInFlight := None, sweepInFlightGeneration := None\<rparr> else ?c1"
  have inv1: "oc_inv ?c1" by (rule oc_inv_mono [OF inv]) simp_all
  have step: "sweep_settles opts i s t c = ?c2\<lparr>settled_sweeps := insert i (settled_sweeps ?c2)\<rparr>"
    using Some by (simp add: sweep_settles_def Let_def)
  have "(i, g) \<in> set (running_sweeps c)" using Some by (rule map_of_SomeD)
  moreover have f: "sweeps ?c1 = sweeps c" "settled_sweeps ?c1 = settled_sweeps c" "sweepsStarted ?c1 = sweepsStarted c"
    using sweep_fields_ops(11) [of opts g s t c] by (simp_all add: sweep_fields_def)
  ultimately have "i \<in> set (map fst (sweeps ?c1))" by (force simp: running_sweeps_def)
  then have i: "i < sweepsStarted ?c1" using inv1 unfolding oc_inv_def by simp
  have r: "running_sweeps (?c2\<lparr>settled_sweeps := insert i (settled_sweeps ?c2)\<rparr>) =
      filter (\<lambda>s. fst s \<noteq> i) (running_sweeps ?c1)"
    by (simp add: running_sweeps_def) (rule filter_cong, auto)
  have d: "distinct (map snd (filter P (running_sweeps ?c1)))" for P
    using inv1 by (simp add: oc_inv_def distinct_map_filter)
  show ?thesis unfolding step using inv1 i d unfolding oc_inv_def r by auto
qed

lemma oc_inv_new: "oc_inv (new_consumer opts)"
  by (simp add: oc_inv_def new_consumer_def running_sweeps_def)

lemma oc_inv_core: "oc_inv c \<Longrightarrow> stream_core c' = stream_core c \<Longrightarrow> oc_inv c'"
  by (erule oc_inv_mono) (simp_all add: stream_core_def sweep_fields_def)

lemma evaluateIdle_cases: "evaluateIdle t c = c \<or> evaluateIdle t c = oc_onIdle c"
  by (simp add: evaluateIdle_def split: option.split)

lemma ensure_cases: "ensureReconciled opts t c = c \<or> ensureReconciled opts t c = runReconnectReconciliation opts c"
  by (simp add: ensureReconciled_def)

lemma oc_inv_idle: "oc_inv c \<Longrightarrow> oc_inv (evaluateIdle t c)"
  using evaluateIdle_cases [of t c] by (auto elim: oc_inv_mono)

lemma oc_inv_ensure: "oc_inv c \<Longrightarrow> oc_inv (ensureReconciled opts t c)"
  using ensure_cases [of opts t c] by (auto intro: oc_inv_run)

lemma oc_inv_lifecycle:
  assumes "oc_inv c"
  shows "oc_inv (oc_onConnecting c)" "oc_inv (oc_onSocketOpen c)" "oc_inv (oc_onAuthenticated ev t c)"
    "oc_inv (oc_noteRestVerifiedSession c)" "oc_inv (oc_onIdle c)" "oc_inv (oc_onDisconnected c)"
    "oc_inv (oc_onSessionLost c)" "oc_inv (oc_setStreamEnabled b c)"
  by (rule oc_inv_mono [OF assms]; simp)+

lemma oc_inv_step: "oc_inv c \<Longrightarrow> oc_inv (oc_step opts e c)"
proof (cases "order_event e")
  case True
  then show "oc_inv c \<Longrightarrow> ?thesis" using order_event_core oc_inv_core by blast
next
  case False
  assume "oc_inv c"
  with False show ?thesis
    by (cases e) (auto simp: order_event_def oc_inv_lifecycle oc_inv_run oc_inv_settles oc_inv_idle oc_inv_ensure
        driveQuoteSocketLifecycle_def dhan_onConnected_def engine_orderStreamState_def Let_def)
qed

interpretation consumer_inv: invariant_fold "oc_step opts" oc_inv for opts
  by unfold_locales (rule oc_inv_step)

section \<open>What makes the stream ready\<close>

definition oc_established :: "OrderStreamConsumer \<Rightarrow> bool" where
  "oc_established c = isEstablished (cs_machine c)"

definition oc_opens :: "oc_event \<Rightarrow> OrderStreamConsumer \<Rightarrow> bool" where
  "oc_opens e c =
     ((case e of OC_authenticated _ _ \<Rightarrow> True | OC_quoteSocket b _ \<Rightarrow> b | OC_dhanConnected a _ \<Rightarrow> a | _ \<Rightarrow> False)
      \<and> lifecycleState c \<noteq> OS_DISABLED \<and> \<not> oc_established c)"

definition oc_stays :: "oc_event \<Rightarrow> bool" where
  "oc_stays e =
     (case e of OC_disconnected \<Rightarrow> False | OC_sessionLost \<Rightarrow> False | OC_setEnabled b \<Rightarrow> b
      | OC_quoteSocket b _ \<Rightarrow> b | _ \<Rightarrow> True)"

definition consistent_verdict :: "sweep_settlement \<Rightarrow> bool" where
  "consistent_verdict s =
     (case s of sweep_threw _ \<Rightarrow> False
      | sweep_resolved v \<Rightarrow> (case v of None \<Rightarrow> True | Some x \<Rightarrow> so_synchronized x))"

definition swept_since :: "OrderStreamConsumer \<Rightarrow> oc_event list \<Rightarrow> bool" where
  "swept_since c post =
     (lifecycleState c = OS_READY \<longrightarrow>
        (\<exists>i s t. OC_sweepSettles i s t \<in> set post \<and> consistent_verdict s
           \<and> (i, os_gen (cs_machine c)) \<in> set (sweeps c)))"

lemma established_noop:
  assumes "isEstablished m"
  shows "os_onConnecting m = m" "os_onSocketOpen m = m" "os_gen (os_onAuthenticated ev m) = os_gen m"
    "os_current (os_onAuthenticated ev m) = os_current m"
    "isEstablished (os_onAuthenticated ev m)" "os_current m \<noteq> OS_DISABLED" "os_setEnabled True m = m"
    "isEstablished (os_onIdle m)" "isEstablished (os_noteRestVerifiedSession m)"
    "isEstablished (snd (os_markSynchronized g m))"
  using assms by (auto simp: os_defs)

lemma established_before:
  "isEstablished (os_onConnecting m) \<Longrightarrow> isEstablished m" "isEstablished (os_onSocketOpen m) \<Longrightarrow> isEstablished m"
  "isEstablished (os_onIdle m) \<Longrightarrow> isEstablished m"
  "isEstablished (os_noteRestVerifiedSession m) \<Longrightarrow> isEstablished m"
  "isEstablished (os_setEnabled b m) \<Longrightarrow> isEstablished m"
  "isEstablished (snd (os_markSynchronized g m)) \<Longrightarrow> isEstablished m"
  by (auto simp: os_defs split: if_splits)

lemma dropped_not_established:
  "\<not> isEstablished (os_onDisconnected m)" "\<not> isEstablished (os_onSessionLost m)"
  "\<not> isEstablished (os_setEnabled False m)"
  by (auto simp: os_defs)

lemma disabled_noop:
  assumes "os_current m = OS_DISABLED"
  shows "os_onConnecting m = m" "os_onSocketOpen m = m" "os_onAuthenticated ev m = m" "\<not> isEstablished m"
  using assms by (simp_all add: os_defs)

lemma settles_machine:
  "cs_machine (sweep_settles opts i s t c) = cs_machine c \<or>
   (map_of (running_sweeps c) i = Some (os_gen (cs_machine c)) \<and> consistent_verdict s \<and>
    cs_machine (sweep_settles opts i s t c) = snd (os_markSynchronized (Some (os_gen (cs_machine c))) (cs_machine c)))"
  using settled_machine [of opts "the (map_of (running_sweeps c) i)" s t c]
  by (auto simp: sweep_settles_def consistent_verdict_def Let_def split: option.split)

lemma idle_machine:
  "cs_machine (evaluateIdle t c) = cs_machine c \<or> cs_machine (evaluateIdle t c) = os_onIdle (cs_machine c)"
  using evaluateIdle_cases [of t c] by auto

lemma core_machine: "stream_core c' = stream_core c \<Longrightarrow> cs_machine c' = cs_machine c"
  by (simp add: stream_core_def)

lemma step_conn:
  assumes conn: "isEstablished (cs_machine (oc_step opts e c))" and no: "\<not> oc_opens e c"
  shows "isEstablished (cs_machine c) \<and> oc_stays e"
proof (cases "order_event e")
  case True
  then show ?thesis using conn core_machine [OF order_event_core [OF True, of opts c]]
    by (auto simp: order_event_def oc_stays_def split: oc_event.splits)
next
  case False
  show ?thesis
  proof (cases e)
    case (OC_sweepSettles i s t)
    then show ?thesis using conn settles_machine [of opts i s t c] established_before(6)
      by (auto simp: oc_stays_def)
  next
    case (OC_evaluateIdle t)
    then show ?thesis using conn idle_machine [of t c] established_before(3) by (auto simp: oc_stays_def)
  next
    case (OC_poll t)
    then show ?thesis using conn idle_machine [of t c] established_before(3)
      by (auto simp: oc_stays_def engine_orderStreamState_def Let_def)
  next
    case (OC_setEnabled b)
    then show ?thesis using conn dropped_not_established(3) established_before(5)
      by (cases b) (auto simp: oc_stays_def)
  qed (use conn no False dropped_not_established disabled_noop [of "cs_machine c"] in
      \<open>auto simp: order_event_def oc_stays_def oc_opens_def oc_established_def lifecycleState_def
         driveQuoteSocketLifecycle_def dhan_onConnected_def Let_def
         split: if_splits dest: established_before\<close>)
qed

lemma run_sweeps: "set (sweeps c) \<subseteq> set (sweeps (runReconnectReconciliation opts c))"
  by (auto simp: runReconnectReconciliation_def Let_def)

lemma fields_sweeps: "sweep_fields c' = sweep_fields c \<Longrightarrow> sweeps c' = sweeps c"
  by (simp add: sweep_fields_def)

lemmas lifecycle_sweeps [simp] = sweep_fields_ops [THEN fields_sweeps]

lemma step_sweeps: "set (sweeps c) \<subseteq> set (sweeps (oc_step opts e c))"
proof (cases "order_event e")
  case True
  then show ?thesis using order_event_core [OF True, of opts c] by (simp add: stream_core_def)
next
  case False
  then show ?thesis
    using run_sweeps [of c opts]
      run_sweeps [of "oc_onAuthenticated broker_acknowledged t (oc_onSocketOpen (oc_onConnecting c))" opts for t]
      run_sweeps [of "oc_onAuthenticated login_submitted t (oc_onSocketOpen c)" opts for t]
      run_sweeps [of "evaluateIdle t c" opts for t]
    by (cases e) (auto simp: order_event_def driveQuoteSocketLifecycle_def dhan_onConnected_def sweep_settles_def
        engine_orderStreamState_def ensureReconciled_def Let_def split: option.splits)
qed

lemma onIdle_not_ready: "os_current (os_onIdle m) \<noteq> OS_READY"
  by (simp add: os_onIdle_def)

lemma step_stays:
  assumes "isEstablished (cs_machine c)" and "isEstablished (cs_machine (oc_step opts e c))"
  shows "os_gen (cs_machine (oc_step opts e c)) = os_gen (cs_machine c)
    \<and> (os_current (cs_machine (oc_step opts e c)) = OS_READY \<longrightarrow> os_current (cs_machine c) = OS_READY \<or>
        (\<exists>i s t. e = OC_sweepSettles i s t \<and> map_of (running_sweeps c) i = Some (os_gen (cs_machine c))
           \<and> consistent_verdict s))"
proof (cases "order_event e")
  case True
  then show ?thesis using core_machine [OF order_event_core [OF True, of opts c]] by simp
next
  case False
  show ?thesis
  proof (cases e)
    case (OC_sweepSettles i s t)
    then show ?thesis using settles_machine [of opts i s t c] by auto
  next
    case (OC_evaluateIdle t)
    then show ?thesis using idle_machine [of t c] onIdle_not_ready by fastforce
  next
    case (OC_poll t)
    then show ?thesis using idle_machine [of t c] onIdle_not_ready
      by (fastforce simp: engine_orderStreamState_def Let_def)
  next
    case (OC_setEnabled b)
    then show ?thesis using assms dropped_not_established(3) established_noop(7) by (cases b) auto
  qed (use assms False dropped_not_established established_noop [OF assms(1)] onIdle_not_ready in
      \<open>auto simp: order_event_def driveQuoteSocketLifecycle_def dhan_onConnected_def Let_def
         lifecycleState_def os_noteRestVerifiedSession_def split: if_splits\<close>)
qed

lemma opens_reconciling:
  assumes "oc_opens e c"
  shows "os_current (cs_machine (oc_step opts e c)) = OS_RECONCILING"
    and "os_gen (cs_machine (oc_step opts e c)) = os_gen (cs_machine c) + 1"
  using assms
  by (auto simp: oc_opens_def oc_established_def lifecycleState_def driveQuoteSocketLifecycle_def dhan_onConnected_def
      Let_def os_defs split: oc_event.splits)

lemma running_in_sweeps: "map_of (running_sweeps c) i = Some g \<Longrightarrow> (i, g) \<in> set (sweeps c)"
  by (drule map_of_SomeD) (simp add: running_sweeps_def)

interpretation consumer_trace: connection_trace "oc_step opts" oc_established oc_opens oc_stays oc_inv swept_since
  for opts
proof unfold_locales
  fix e c post
  show "oc_inv c \<Longrightarrow> oc_inv (oc_step opts e c)" by (rule oc_inv_step)
  show "oc_established (oc_step opts e c) \<Longrightarrow> \<not> oc_opens e c \<Longrightarrow> oc_established c \<and> oc_stays e"
    unfolding oc_established_def by (rule step_conn)
  show "oc_opens e c \<Longrightarrow> swept_since (oc_step opts e c) []"
    by (simp add: swept_since_def lifecycleState_def opens_reconciling(1))
  show "swept_since (oc_step opts e c) (post @ [e])"
    if "swept_since c post" "oc_established c" "oc_established (oc_step opts e c)"
    using step_stays [of c opts e] that step_sweeps [of c opts e] running_in_sweeps [of c]
    unfolding swept_since_def oc_established_def lifecycleState_def by fastforce
qed

lemma fold_sweeps_mono: "set (sweeps c) \<subseteq> set (sweeps (fold (oc_step opts) es c))"
proof (induction es arbitrary: c)
  case (Cons e es)
  have "set (sweeps c) \<subseteq> set (sweeps (oc_step opts e c))" by (rule step_sweeps)
  also have "\<dots> \<subseteq> set (sweeps (fold (oc_step opts) es (oc_step opts e c)))" by (rule Cons.IH)
  finally show ?case by simp
qed simp

lemma step_gen_mono: "os_gen (cs_machine c) \<le> os_gen (cs_machine (oc_step opts e c))"
proof (cases "order_event e")
  case True
  then show ?thesis using core_machine [OF order_event_core [OF True, of opts c]] by simp
next
  case False
  have two: "os_gen m \<le> os_gen (os_onAuthenticated ev (os_onSocketOpen m))" for ev m
    using gen_mono(2,3) order_trans by blast
  have three: "os_gen m \<le> os_gen (os_onAuthenticated ev (os_onSocketOpen (os_onConnecting m)))" for ev m
    using two gen_mono(1) order_trans by blast
  show ?thesis using False
  proof (cases e)
    case (OC_sweepSettles i s t)
    then show ?thesis using settles_machine [of opts i s t c] by auto
  next
    case (OC_evaluateIdle t)
    then show ?thesis using idle_machine [of t c] by auto
  next
    case (OC_poll t)
    then show ?thesis using idle_machine [of t c] by (auto simp: engine_orderStreamState_def Let_def)
  qed (simp_all add: order_event_def driveQuoteSocketLifecycle_def dhan_onConnected_def Let_def two three)
qed

interpretation consumer_gen: monotone_fold "oc_step opts" "\<lambda>c. os_gen (cs_machine c)" for opts
  by unfold_locales (rule step_gen_mono)

lemma sweep_gen_unique:
  "oc_inv c \<Longrightarrow> (i, g) \<in> set (sweeps c) \<Longrightarrow> (i, g') \<in> set (sweeps c) \<Longrightarrow> g = g'"
  unfolding oc_inv_def by (metis distinct_upt eq_key_imp_eq_value)

section \<open>A degraded stream with nothing owed\<close>

text \<open>Ready states owe nothing and have no sweep of their generation running; the projection is
  disabled exactly when the machine is.\<close>

definition none_running :: "OrderStreamConsumer \<Rightarrow> bool" where
  "none_running c = (os_gen (cs_machine c) \<notin> snd ` set (running_sweeps c))"

definition settled_inv :: "OrderStreamConsumer \<Rightarrow> bool" where
  "settled_inv c = (lifecycleState c = OS_READY \<longrightarrow> \<not> oc_reconcilePending c \<and> none_running c)"

definition quiet :: "OrderStreamConsumer \<Rightarrow> bool" where
  "quiet c = ((lifecycleState c = OS_READY \<or> lifecycleState c = OS_DEGRADED)
     \<and> \<not> oc_reconcilePending c \<and> none_running c)"

definition disabled_together :: "OrderStreamConsumer \<Rightarrow> bool" where
  "disabled_together c = ((streamState (cs_proj c) = ST_DISABLED) = (lifecycleState c = OS_DISABLED))"

lemma core_preds:
  assumes "stream_core c' = stream_core c"
  shows "none_running c' = none_running c" "oc_reconcilePending c' = oc_reconcilePending c"
    "lifecycleState c' = lifecycleState c"
  using assms by (simp_all add: stream_core_def none_running_def running_sweeps_def oc_reconcilePending_def lifecycleState_def)

lemma proj_owed_ops [simp]:
  "pj_reconcileOwed (onStreamConnecting p) = pj_reconcileOwed p"
  "pj_reconcileOwed (onStreamIdle p) = pj_reconcileOwed p"
  "pj_reconcileOwed (pj_setStreamEnabled b p) = pj_reconcileOwed p"
  by (simp_all add: onStreamConnecting_def onStreamIdle_def pj_setStreamEnabled_def)

lemma established_core:
  assumes "isEstablished (cs_machine c)"
  shows "stream_core (oc_onConnecting c) = stream_core c" "stream_core (oc_onSocketOpen c) = stream_core c"
    "stream_core (oc_onAuthenticated ev t c) =
       (os_onAuthenticated ev (cs_machine c), pj_reconcileOwed (cs_proj c), sweepInFlight c,
        sweepInFlightGeneration c, sweepsStarted c, sweeps c, settled_sweeps c)"
    "stream_core (oc_setStreamEnabled True c) = stream_core c"
  using established_noop [OF assms]
  by (simp_all add: stream_core_def oc_onConnecting_def oc_onSocketOpen_def oc_onAuthenticated_def
      oc_setStreamEnabled_def Let_def)

lemma quiet_established: "quiet c \<Longrightarrow> isEstablished (cs_machine c)"
  by (auto simp: quiet_def isEstablished_def lifecycleState_def)

lemma quiet_core: "quiet c \<Longrightarrow> stream_core c' = stream_core c \<Longrightarrow> quiet c'"
  using core_preds [of c' c] by (simp add: quiet_def)

lemma quiet_run: "quiet c \<Longrightarrow> runReconnectReconciliation opts c = c"
  by (simp add: quiet_def runReconnectReconciliation_def)

lemma quiet_ensure: "quiet c \<Longrightarrow> ensureReconciled opts t c = c"
  by (simp add: quiet_def ensureReconciled_def)

lemma quiet_lifecycle:
  assumes "quiet c"
  shows "quiet (oc_onConnecting c)" "quiet (oc_onSocketOpen c)" "quiet (oc_onAuthenticated ev t c)"
    "quiet (oc_noteRestVerifiedSession c)" "quiet (oc_onIdle c)" "quiet (oc_setStreamEnabled True c)"
proof -
  note est = quiet_established [OF assms]
  show "quiet (oc_onConnecting c)" "quiet (oc_onSocketOpen c)" "quiet (oc_setStreamEnabled True c)"
    by (rule quiet_core [OF assms]; rule established_core [OF est])+
  show "quiet (oc_onAuthenticated ev t c)"
    using assms est established_noop(4) [OF est, of ev]
    by (simp add: quiet_def none_running_def running_sweeps_def oc_reconcilePending_def
        lifecycleState_def oc_onAuthenticated_def os_onAuthenticated_def Let_def)
  show "quiet (oc_noteRestVerifiedSession c)" "quiet (oc_onIdle c)"
    using assms by (auto simp: quiet_def none_running_def running_sweeps_def oc_reconcilePending_def
        lifecycleState_def oc_noteRestVerifiedSession_def os_noteRestVerifiedSession_def oc_onIdle_def os_onIdle_def)
qed

lemma quiet_idle: "quiet c \<Longrightarrow> quiet (evaluateIdle t c)"
  using evaluateIdle_cases [of t c] quiet_lifecycle(5) [of c] by auto

lemma stale_settlement:
  assumes "g \<noteq> os_gen (cs_machine c)"
  shows "stream_core (executeSweep_settled opts g s t c) = stream_core c"
  using assms sweep_fields_ops(11) [of opts g s t c] settled_machine [of opts g s t c]
  by (auto simp: stream_core_def sweep_fields_def executeSweep_settled_def split: sweep_settlement.splits)

lemma none_running_mono:
  assumes "none_running c" and "os_gen (cs_machine c') = os_gen (cs_machine c)"
    and "sweeps c' = sweeps c" and "settled_sweeps c \<subseteq> settled_sweeps c'"
  shows "none_running c'"
  using assms by (auto simp: none_running_def running_sweeps_def)

lemma settles_fields:
  assumes "map_of (running_sweeps c) i = Some g"
  shows "cs_machine (sweep_settles opts i s t c) = cs_machine (executeSweep_settled opts g s t c)"
    "cs_proj (sweep_settles opts i s t c) = cs_proj (executeSweep_settled opts g s t c)"
    "sweeps (sweep_settles opts i s t c) = sweeps (executeSweep_settled opts g s t c)"
    "settled_sweeps (sweep_settles opts i s t c) = insert i (settled_sweeps (executeSweep_settled opts g s t c))"
  using assms by (simp_all add: sweep_settles_def Let_def)

lemma quiet_settles: "quiet c \<Longrightarrow> quiet (sweep_settles opts i s t c)"
proof (cases "map_of (running_sweeps c) i")
  case None
  then show "quiet c \<Longrightarrow> ?thesis" by (simp add: sweep_settles_def)
next
  case (Some g)
  assume st: "quiet c"
  have "g \<noteq> os_gen (cs_machine c)"
    using st map_of_SomeD [OF Some] by (force simp: quiet_def none_running_def)
  then have 1: "quiet (executeSweep_settled opts g s t c)"
    by (rule quiet_core [OF st stale_settlement])
  note f = settles_fields [OF Some, of opts s t]
  have "none_running (sweep_settles opts i s t c)"
    by (rule none_running_mono [of "executeSweep_settled opts g s t c"]) (use 1 f in \<open>simp_all add: quiet_def, blast\<close>)
  with 1 show ?thesis unfolding quiet_def oc_reconcilePending_def lifecycleState_def f by simp
qed

lemma quiet_step:
  assumes "quiet c" and "oc_stays e"
  shows "quiet (oc_step opts e c)"
proof (cases "order_event e")
  case True
  show ?thesis by (rule quiet_core [OF assms(1) order_event_core [OF True]])
next
  case False
  have "lifecycleState c \<noteq> OS_DISABLED" using assms(1) by (auto simp: quiet_def)
  then show ?thesis using assms False quiet_lifecycle quiet_settles [OF assms(1)] quiet_idle [OF assms(1)]
    by (cases e) (auto simp: order_event_def oc_stays_def quiet_run quiet_ensure
        driveQuoteSocketLifecycle_def dhan_onConnected_def engine_orderStreamState_def Let_def)
qed

text \<open>A quiet state that is not ready stays so: nothing is owed, so no sweep starts, and only a sweep
  promotes.\<close>

definition stuck :: "OrderStreamConsumer \<Rightarrow> bool" where
  "stuck c = (quiet c \<and> lifecycleState c \<noteq> OS_READY)"

lemma stuck_step:
  assumes "stuck c" and "oc_stays e"
  shows "stuck (oc_step opts e c)"
proof -
  have q: "quiet c" "quiet (oc_step opts e c)" using assms quiet_step by (simp_all add: stuck_def)
  from step_stays [OF quiet_established [OF q(1)] quiet_established [OF q(2)]]
  have "lifecycleState (oc_step opts e c) \<noteq> OS_READY"
    using assms(1) q(1) map_of_SomeD [of "running_sweeps c"]
    by (force simp: stuck_def quiet_def none_running_def lifecycleState_def)
  with q show ?thesis by (simp add: stuck_def)
qed

lemma stuck_fold: "stuck c \<Longrightarrow> list_all oc_stays es \<Longrightarrow> stuck (fold (oc_step opts) es c)"
  by (induction es arbitrary: c) (auto intro: stuck_step)

subsection \<open>Reachable ready states are quiet\<close>

lemma streamState_ops [simp]:
  "streamState (snd (pj_ingest ob p)) = streamState p" "streamState (register_order ro p) = streamState p"
  "streamState (learnBrokerOrderId i b p) = streamState p"
  by (auto simp: pj_ingest_def register_order_def learnBrokerOrderId_def Let_def split: option.splits prod.splits)

lemma proj_frames [simp]:
  "cs_proj (noteForwarded i ob c) = cs_proj c" "cs_proj (settleIfTerminal i s r c) = cs_proj c"
  "cs_proj (snd (applyToAdapter opts i ob a now reply c)) = cs_proj c"
  by (auto simp: noteForwarded_def settleIfTerminal_def applyToAdapter_def Let_def
      split: option.splits adapter_reply.splits)

lemma tracks_proj [simp]: "cs_proj (ingest_tracks opts i ob r now reply c) = cs_proj c"
  by (simp add: ingest_tracks_def Let_def case_prod_beta if_distrib [of cs_proj])

lemma ingest_proj [simp]:
  "cs_proj (snd (oc_ingest opts ob src now reply c)) = snd (pj_ingest (stamp_observation ob src now) (cs_proj c))"
  by (simp add: oc_ingest_def Let_def case_prod_beta if_distrib [of cs_proj] if_distrib [of snd] split: option.split)

lemma rest_proj [simp]:
  "cs_proj (snd (ingestRestObservation opts ob src now reply c)) = cs_proj (snd (oc_ingest opts ob src now reply c))"
  by (simp add: ingestRestObservation_def case_prod_beta if_distrib [of cs_proj] split: option.split)

lemma order_event_streamState:
  "order_event e \<Longrightarrow> streamState (cs_proj (oc_step opts e c)) = streamState (cs_proj c)"
  by (cases e)
     (simp_all add: order_event_def ingestStreamObservation_def,
      simp_all add: registerIntent_def markOrderSettled_def oc_learnBrokerOrderId_def Let_def)

lemmas stream_defs = onStreamConnecting_def onStreamConnected_def onStreamIdle_def onStreamSessionLost_def
  onStreamDisconnected_def markReconciled_def pj_setStreamEnabled_def

lemma together_lifecycle:
  assumes "disabled_together c"
  shows "disabled_together (oc_onConnecting c)" "disabled_together (oc_onSocketOpen c)"
    "disabled_together (oc_onAuthenticated ev t c)" "disabled_together (oc_noteRestVerifiedSession c)"
    "disabled_together (oc_onIdle c)" "disabled_together (oc_onDisconnected c)"
    "disabled_together (oc_onSessionLost c)" "disabled_together (oc_setStreamEnabled b c)"
  using assms
  by (auto simp: disabled_together_def lifecycleState_def oc_onConnecting_def oc_onSocketOpen_def
      oc_onAuthenticated_def oc_noteRestVerifiedSession_def oc_onIdle_def oc_onDisconnected_def
      oc_onSessionLost_def oc_setStreamEnabled_def os_defs stream_defs Let_def)

lemma together_run: "disabled_together c \<Longrightarrow> disabled_together (runReconnectReconciliation opts c)"
  by (simp add: disabled_together_def runReconnectReconciliation_def lifecycleState_def Let_def)

lemma note_proj [simp]: "cs_proj (noteSweepFailure opts g r v t c) = cs_proj c"
  by (simp add: noteSweepFailure_def Let_def split: option.split)

lemma together_settled: "disabled_together c \<Longrightarrow> disabled_together (executeSweep_settled opts g s t c)"
  by (auto simp: disabled_together_def executeSweep_settled_def lifecycleState_def os_markSynchronized_def
      markReconciled_def Let_def split: sweep_settlement.split option.split)

lemma together_settles: "disabled_together c \<Longrightarrow> disabled_together (sweep_settles opts i s t c)"
proof (cases "map_of (running_sweeps c) i")
  case None
  then show "disabled_together c \<Longrightarrow> ?thesis" by (simp add: sweep_settles_def)
next
  case (Some g)
  assume "disabled_together c"
  from together_settled [OF this, of opts g s t] show ?thesis
    unfolding disabled_together_def lifecycleState_def settles_fields [OF Some] .
qed

lemma together_step: "disabled_together c \<Longrightarrow> disabled_together (oc_step opts e c)"
proof (cases "order_event e")
  case True
  then show "disabled_together c \<Longrightarrow> ?thesis"
    using order_event_streamState [OF True] core_preds(3) [OF order_event_core [OF True]]
    by (simp add: disabled_together_def)
next
  case False
  assume d: "disabled_together c"
  then have i: "disabled_together (evaluateIdle t c)" for t
    using evaluateIdle_cases [of t c] together_lifecycle(5) by metis
  have "disabled_together (ensureReconciled opts t c')" if "disabled_together c'" for t c'
    using ensure_cases [of opts t c'] together_run that by metis
  with False d i show ?thesis
    by (cases e) (auto simp: order_event_def together_lifecycle together_run together_settles
        driveQuoteSocketLifecycle_def dhan_onConnected_def engine_orderStreamState_def Let_def)
qed

text \<open>The settlement that promotes the machine leaves nothing owed and was the only sweep of its
  generation.\<close>

lemma promotion_quiet:
  assumes inv: "oc_inv c" and d: "disabled_together c"
    and est: "isEstablished (cs_machine c)" and notready: "os_current (cs_machine c) \<noteq> OS_READY"
    and run: "map_of (running_sweeps c) i = Some (os_gen (cs_machine c))"
    and ready: "os_current (cs_machine (sweep_settles opts i s t c)) = OS_READY"
  shows "quiet (sweep_settles opts i s t c)"
proof -
  let ?g = "os_gen (cs_machine c)" and ?c1 = "executeSweep_settled opts (os_gen (cs_machine c)) s t c"
  note f = settles_fields [OF run, of opts s t]
  from ready notready f(1) have promoted: "os_current (cs_machine ?c1) \<noteq> os_current (cs_machine c)" by simp
  have "streamState (cs_proj c) \<noteq> ST_DISABLED"
    using d est by (auto simp: disabled_together_def lifecycleState_def isEstablished_def)
  with promoted have owed: "\<not> os_reconcileOwed (cs_machine ?c1)" "\<not> pj_reconcileOwed (cs_proj ?c1)"
    by (auto simp: executeSweep_settled_def os_markSynchronized_def markReconciled_def Let_def
        split: sweep_settlement.splits option.splits if_splits)
  have sf: "sweeps ?c1 = sweeps c" "settled_sweeps ?c1 = settled_sweeps c"
    using sweep_fields_ops(11) [of opts ?g s t c] by (simp_all add: sweep_fields_def)
  have "none_running (sweep_settles opts i s t c)"
  proof -
    have fl: "sweepInFlight c = Some j" if "(j, ?g) \<in> set (running_sweeps c)" for j
      using inv that unfolding oc_inv_def by fastforce
    have "j = i" if "(j, ?g) \<in> set (running_sweeps c)" for j
      using fl [OF that] fl [OF map_of_SomeD [OF run]] by simp
    then show ?thesis unfolding none_running_def running_sweeps_def f sf by auto
  qed
  with owed ready show ?thesis
    unfolding quiet_def oc_reconcilePending_def lifecycleState_def f by simp
qed

lemma ready_quiet_step:
  assumes inv: "oc_inv c" "disabled_together c"
    and q: "lifecycleState c = OS_READY \<Longrightarrow> quiet c"
    and r: "lifecycleState (oc_step opts e c) = OS_READY"
  shows "quiet (oc_step opts e c)"
proof -
  have e': "isEstablished (cs_machine (oc_step opts e c))" using r by (simp add: isEstablished_def lifecycleState_def)
  have "\<not> oc_opens e c" using r opens_reconciling(1) by (fastforce simp: lifecycleState_def)
  with step_conn [OF e'] have est: "isEstablished (cs_machine c)" and st: "oc_stays e" by auto
  show ?thesis
  proof (cases "lifecycleState c = OS_READY")
    case True
    then show ?thesis using q st quiet_step by blast
  next
    case False
    with step_stays [OF est e'] r obtain i s t where "e = OC_sweepSettles i s t"
      "map_of (running_sweeps c) i = Some (os_gen (cs_machine c))" by (auto simp: lifecycleState_def)
    with promotion_quiet [OF inv est] False r show ?thesis by (simp add: lifecycleState_def)
  qed
qed

definition quiet_inv :: "OrderStreamConsumer \<Rightarrow> bool" where
  "quiet_inv c = (oc_inv c \<and> disabled_together c \<and> (lifecycleState c = OS_READY \<longrightarrow> quiet c))"

interpretation quiet_runs: invariant_fold "oc_step opts" quiet_inv for opts
  by unfold_locales (simp add: quiet_inv_def oc_inv_step together_step ready_quiet_step)

lemma quiet_inv_new: "quiet_inv (new_consumer opts)"
  using oc_inv_new [of opts]
  by (simp add: quiet_inv_def disabled_together_def lifecycleState_def new_consumer_def new_order_stream_def
      pj_setStreamEnabled_def new_projection_def)

lemma reachable_ready_quiet:
  "lifecycleState (fold (oc_step opts) es (new_consumer opts)) = OS_READY
     \<Longrightarrow> quiet (fold (oc_step opts) es (new_consumer opts))"
  using quiet_runs.fold_inv [OF quiet_inv_new] unfolding quiet_inv_def by blast

section \<open>What the adapter is told\<close>

text \<open>The last status label in a list of updates of an order, and the last label an event of a run
  brought for it: attributed, not refused as invalid and not a redelivery of the same event.\<close>

fun or_label :: "string option \<Rightarrow> string option \<Rightarrow> string option" where
  "or_label (Some l) acc = Some l"
| "or_label None acc = acc"

definition told_label :: "string \<Rightarrow> ExternalOrderUpdate list \<Rightarrow> string option" where
  "told_label cid us =
     foldl (\<lambda>acc u. if eu_clientOrderId u = cid then or_label (normaliseStatusLabel (eu_rawStatus u)) acc else acc)
       None us"

definition label_of_observation ::
    "NormalizedOrderObservation \<Rightarrow> OrderStreamConsumer \<Rightarrow> (string \<times> string) option" where
  "label_of_observation stamped c =
     (let r = fst (pj_ingest stamped (cs_proj c));
          out = map_option res_outcome (ir_apply r)
      in case (ir_clientOrderId r, normaliseStatusLabel (obs_rawStatus stamped)) of
           (Some cid, Some l) \<Rightarrow>
             if ir_attributed r \<and> out \<noteq> Some duplicate_event \<and> out \<noteq> Some invalid then Some (cid, l) else None
         | _ \<Rightarrow> None)"

definition event_label :: "oc_event \<Rightarrow> OrderStreamConsumer \<Rightarrow> (string \<times> string) option" where
  "event_label e c =
     (case e of
        OC_stream ob now _ \<Rightarrow> label_of_observation (stamp_observation ob order_update now) c
      | OC_rest ob src now _ \<Rightarrow> label_of_observation (stamp_observation ob src now) c
      | _ \<Rightarrow> None)"

fun latest_label ::
    "OrderStreamConsumerOptions \<Rightarrow> string \<Rightarrow> oc_event list \<Rightarrow> OrderStreamConsumer \<Rightarrow> string option \<Rightarrow> string option" where
  "latest_label opts cid [] c acc = acc"
| "latest_label opts cid (e # es) c acc =
     latest_label opts cid es (oc_step opts e c)
       (case event_label e c of Some (i, l) \<Rightarrow> if i = cid then Some l else acc | None \<Rightarrow> acc)"

definition memo_label :: "string \<Rightarrow> OrderStreamConsumer \<Rightarrow> string option" where
  "memo_label cid c = Option.bind (lastForwarded c cid) mm_status"

lemma told_snoc:
  "told_label cid (us @ [u]) =
     (if eu_clientOrderId u = cid then or_label (normaliseStatusLabel (eu_rawStatus u)) (told_label cid us)
      else told_label cid us)"
  by (simp add: told_label_def)

lemma memo_frames [simp]:
  "memo_label cid (settleIfTerminal i s r c) = memo_label cid c"
  "memo_label cid (snd (applyToAdapter opts i ob a now reply c)) = memo_label cid c"
  "memo_label cid (scheduleReconciliation opts i c) = memo_label cid c"
  by (auto simp: memo_label_def settleIfTerminal_def split: option.splits)

lemma memo_updates [simp]:
  "memo_label cid (c\<lparr>invalidQuantityObservations := n\<rparr>) = memo_label cid c"
  "memo_label cid (c\<lparr>overfillObservations := n\<rparr>) = memo_label cid c"
  "memo_label cid (c\<lparr>contradictoryTerminalObservations := n\<rparr>) = memo_label cid c"
  "memo_label cid (c\<lparr>statusOnlyForwards := n\<rparr>) = memo_label cid c"
  "memo_label cid (c\<lparr>priceOnlyForwards := n\<rparr>) = memo_label cid c"
  "memo_label cid (c\<lparr>absentEvidenceEvents := n\<rparr>) = memo_label cid c"
  "memo_label cid (c\<lparr>lastStreamEventAtWall := w\<rparr>) = memo_label cid c"
  "memo_label cid (c\<lparr>pendingReconciliations := w'\<rparr>) = memo_label cid c"
  "memo_label cid (c\<lparr>cs_proj := p\<rparr>) = memo_label cid c"
  by (simp_all add: memo_label_def)

lemma memo_note [simp]:
  "memo_label cid (noteForwarded i ob c) =
     (if cid = i then or_label (normaliseStatusLabel (obs_rawStatus ob)) (memo_label cid c) else memo_label cid c)"
  by (cases "normaliseStatusLabel (obs_rawStatus ob)") (simp_all add: memo_label_def noteForwarded_def Let_def)

lemma calls_apply:
  "oo_hasAdapter opts \<Longrightarrow> told_label cid (adapter_calls (snd (applyToAdapter opts i ob a now reply c))) =
     (if cid = i then or_label (normaliseStatusLabel (obs_rawStatus ob)) (told_label cid (adapter_calls c))
      else told_label cid (adapter_calls c))"
  by (auto simp: applyToAdapter_def Let_def told_snoc split: adapter_reply.splits)

lemma status_unchanged:
  "\<not> nc_statusChanged (classifyNonQuantityChange i ob c) \<Longrightarrow>
     or_label (normaliseStatusLabel (obs_rawStatus ob)) (memo_label i c) = memo_label i c"
  by (cases "normaliseStatusLabel (obs_rawStatus ob)")
     (auto simp: classifyNonQuantityChange_def memo_label_def Let_def split: option.splits)

definition synced_label :: "OrderStreamConsumer \<Rightarrow> bool" where
  "synced_label c = (\<forall>cid. memo_label cid c = told_label cid (adapter_calls c))"

definition forwards :: "string \<Rightarrow> NormalizedOrderObservation \<Rightarrow> IngestResult \<Rightarrow> OrderStreamConsumer \<Rightarrow> bool" where
  "forwards i ob r c =
     (let out = map_option res_outcome (ir_apply r); change = classifyNonQuantityChange i ob c
      in out \<noteq> Some invalid \<and> out \<noteq> Some duplicate_event \<and>
         ((out = Some applied \<or> out = Some applied_overfill) \<or> nc_statusChanged change \<or> nc_priceChanged change))"

lemma tracks_memo:
  "memo_label cid (ingest_tracks opts i ob r now reply c) =
     (if cid = i \<and> forwards i ob r c then or_label (normaliseStatusLabel (obs_rawStatus ob)) (memo_label cid c)
      else memo_label cid c)"
proof -
  define out where "out = map_option res_outcome (ir_apply r)"
  define change where "change = classifyNonQuantityChange i ob c"
  show ?thesis
    unfolding ingest_tracks_def forwards_def Let_def case_prod_beta out_def [symmetric] change_def [symmetric]
    by (auto simp: if_distrib [of "memo_label cid"])
qed

lemma tracks_told:
  "oo_hasAdapter opts \<Longrightarrow> told_label cid (adapter_calls (ingest_tracks opts i ob r now reply c)) =
     (if cid = i \<and> forwards i ob r c then or_label (normaliseStatusLabel (obs_rawStatus ob)) (told_label cid (adapter_calls c))
      else told_label cid (adapter_calls c))"
proof -
  assume a: "oo_hasAdapter opts"
  define out where "out = map_option res_outcome (ir_apply r)"
  define change where "change = classifyNonQuantityChange i ob c"
  show ?thesis
    unfolding ingest_tracks_def forwards_def Let_def case_prod_beta out_def [symmetric] change_def [symmetric]
    by (auto simp: if_distrib [of adapter_calls] if_distrib [of "told_label cid"] calls_apply [OF a])
qed

lemma not_forwarded_label:
  assumes "\<not> forwards i ob r c" and "map_option res_outcome (ir_apply r) \<notin> {Some duplicate_event, Some invalid}"
  shows "or_label (normaliseStatusLabel (obs_rawStatus ob)) (memo_label i c) = memo_label i c"
  using assms by (intro status_unchanged) (auto simp: forwards_def Let_def)

lemma forwards_outcome: "forwards i ob r c \<Longrightarrow> map_option res_outcome (ir_apply r) \<notin> {Some duplicate_event, Some invalid}"
  by (auto simp: forwards_def Let_def)

lemma tracks_label:
  assumes "oo_hasAdapter opts" and "synced_label c"
  shows "synced_label (ingest_tracks opts i ob r now reply c)"
    and "memo_label cid (ingest_tracks opts i ob r now reply c) =
      (if cid = i \<and> map_option res_outcome (ir_apply r) \<notin> {Some duplicate_event, Some invalid}
       then or_label (normaliseStatusLabel (obs_rawStatus ob)) (memo_label cid c) else memo_label cid c)"
proof -
  show "synced_label (ingest_tracks opts i ob r now reply c)"
    using assms by (simp add: synced_label_def tracks_memo tracks_told)
  show "memo_label cid (ingest_tracks opts i ob r now reply c) =
      (if cid = i \<and> map_option res_outcome (ir_apply r) \<notin> {Some duplicate_event, Some invalid}
       then or_label (normaliseStatusLabel (obs_rawStatus ob)) (memo_label cid c) else memo_label cid c)"
    unfolding tracks_memo using not_forwarded_label [of i ob r c] forwards_outcome [of i ob r c]
    by (cases "forwards i ob r c") auto
qed

lemma apply_label:
  assumes "oo_hasAdapter opts" and "synced_label c"
  shows "synced_label (noteForwarded i ob (snd (applyToAdapter opts i ob a now reply c)))"
  using assms by (simp add: synced_label_def calls_apply)

lemma synced_frames [simp]:
  "synced_label (settleIfTerminal i s r c) = synced_label c"
  "synced_label (scheduleReconciliation opts i c) = synced_label c"
  by (simp_all add: synced_label_def)

lemma synced_updates [simp]:
  "synced_label (c\<lparr>invalidQuantityObservations := n\<rparr>) = synced_label c"
  "synced_label (c\<lparr>absentEvidenceEvents := n\<rparr>) = synced_label c"
  "synced_label (c\<lparr>lastStreamEventAtWall := w\<rparr>) = synced_label c"
  "synced_label (c\<lparr>cs_proj := p\<rparr>) = synced_label c"
  "synced_label (c\<lparr>pendingReconciliations := w'\<rparr>) = synced_label c"
  by (simp_all add: synced_label_def)

lemma absent_no_outcome: "ir_quantityEvidence (fst (pj_ingest ob p)) = ev_absent \<Longrightarrow> ir_apply (fst (pj_ingest ob p)) = None"
  by (auto simp: pj_ingest_def Let_def not_attributed_def split: option.splits prod.splits if_splits)

lemma ingest_label:
  assumes "oo_hasAdapter opts" and "synced_label c"
  shows "synced_label (snd (oc_ingest opts ob src now reply c))"
    and "memo_label cid (snd (oc_ingest opts ob src now reply c)) =
      (case label_of_observation (stamp_observation ob src now) c of
         Some (i, l) \<Rightarrow> if i = cid then Some l else memo_label cid c | None \<Rightarrow> memo_label cid c)"
proof -
  let ?st = "stamp_observation ob src now"
  obtain r p where rp: "pj_ingest ?st (cs_proj c) = (r, p)" by (rule prod.exhaust)
  have s: "synced_label (c\<lparr>cs_proj := p\<rparr>)" "synced_label (c\<lparr>cs_proj := p, lastStreamEventAtWall := w\<rparr>)" for w
    using assms(2) by simp_all
  note apply_label [OF assms(1), simp] tracks_label [OF assms(1), simp]
  have mal: "ir_rejection r = Some rej_malformed \<Longrightarrow> \<not> ir_attributed r"
    using rp by (auto simp: pj_ingest_def Let_def not_attributed_def split: option.splits prod.splits if_splits)
  have abs: "ir_quantityEvidence r = ev_absent \<Longrightarrow> ir_apply r = None"
    using absent_no_outcome [of ?st "cs_proj c"] rp by simp
  show "synced_label (snd (oc_ingest opts ob src now reply c))"
    using assms(2) by (simp add: oc_ingest_def rp Let_def case_prod_beta split: option.split)
  show "memo_label cid (snd (oc_ingest opts ob src now reply c)) =
      (case label_of_observation ?st c of
         Some (i, l) \<Rightarrow> if i = cid then Some l else memo_label cid c | None \<Rightarrow> memo_label cid c)"
  proof (cases "ir_attributed r \<and> ir_clientOrderId r \<noteq> None")
    case False
    then show ?thesis
      by (auto simp: oc_ingest_def label_of_observation_def rp Let_def split: option.split)
  next
    case True
    then obtain i where i: "ir_attributed r" "ir_clientOrderId r = Some i" by auto
    with mal have nm: "ir_rejection r \<noteq> Some rej_malformed" by blast
    show ?thesis
    proof (cases "ir_quantityEvidence r = ev_absent")
      case True
      with i nm abs show ?thesis
        by (cases "normaliseStatusLabel (obs_rawStatus ?st)")
           (simp_all add: oc_ingest_def label_of_observation_def rp Let_def case_prod_beta)
    next
      case False
      define c1 where "c1 = (if is_stream_source src
        then c\<lparr>cs_proj := p, lastStreamEventAtWall := obs_observedAtWall ?st\<rparr> else c\<lparr>cs_proj := p\<rparr>)"
      have c1: "synced_label c1" "memo_label cid c1 = memo_label cid c"
        using assms(2) by (simp_all add: c1_def)
      have "snd (oc_ingest opts ob src now reply c) = ingest_tracks opts i ?st r now reply c1"
        using i nm False by (simp add: oc_ingest_def rp Let_def c1_def)
      with tracks_label(2) [OF assms(1) c1(1), of cid i ?st r now reply] c1(2) i show ?thesis
        by (cases "normaliseStatusLabel (obs_rawStatus ?st)")
           (auto simp: label_of_observation_def rp Let_def)
    qed
  qed
qed

lemma order_other_label:
  assumes "order_event e" and "\<And>ob now rep. e \<noteq> OC_stream ob now rep" and "\<And>ob src now rep. e \<noteq> OC_rest ob src now rep"
  shows "lastForwarded (oc_step opts e c) = lastForwarded c \<and> adapter_calls (oc_step opts e c) = adapter_calls c"
  using assms by (cases e) (auto simp: order_event_def registerIntent_def markOrderSettled_def
      oc_learnBrokerOrderId_def Let_def)

lemma stream_ops_label [simp]:
  "lastForwarded (oc_onConnecting c) = lastForwarded c" "adapter_calls (oc_onConnecting c) = adapter_calls c"
  "lastForwarded (oc_onSocketOpen c) = lastForwarded c" "adapter_calls (oc_onSocketOpen c) = adapter_calls c"
  "lastForwarded (oc_onAuthenticated ev t c) = lastForwarded c"
  "adapter_calls (oc_onAuthenticated ev t c) = adapter_calls c"
  "lastForwarded (oc_noteRestVerifiedSession c) = lastForwarded c"
  "adapter_calls (oc_noteRestVerifiedSession c) = adapter_calls c"
  "lastForwarded (oc_onIdle c) = lastForwarded c" "adapter_calls (oc_onIdle c) = adapter_calls c"
  "lastForwarded (oc_onDisconnected c) = lastForwarded c" "adapter_calls (oc_onDisconnected c) = adapter_calls c"
  "lastForwarded (oc_onSessionLost c) = lastForwarded c" "adapter_calls (oc_onSessionLost c) = adapter_calls c"
  "lastForwarded (oc_setStreamEnabled b c) = lastForwarded c"
  "adapter_calls (oc_setStreamEnabled b c) = adapter_calls c"
  "lastForwarded (runReconnectReconciliation opts c) = lastForwarded c"
  "adapter_calls (runReconnectReconciliation opts c) = adapter_calls c"
  by (simp_all add: oc_onConnecting_def oc_onSocketOpen_def oc_onAuthenticated_def oc_noteRestVerifiedSession_def
      oc_onIdle_def oc_onDisconnected_def oc_onSessionLost_def oc_setStreamEnabled_def
      runReconnectReconciliation_def Let_def)

lemma sweep_label [simp]:
  "lastForwarded (noteSweepFailure opts g r v t c) = lastForwarded c"
  "adapter_calls (noteSweepFailure opts g r v t c) = adapter_calls c"
  "lastForwarded (executeSweep_settled opts g s t c) = lastForwarded c"
  "adapter_calls (executeSweep_settled opts g s t c) = adapter_calls c"
  "lastForwarded (sweep_settles opts i s t c) = lastForwarded c"
  "adapter_calls (sweep_settles opts i s t c) = adapter_calls c"
  by (simp_all add: noteSweepFailure_def executeSweep_settled_def sweep_settles_def Let_def case_prod_beta
      split: option.split sweep_settlement.split)

lemma poll_label [simp]:
  "lastForwarded (evaluateIdle t c) = lastForwarded c" "adapter_calls (evaluateIdle t c) = adapter_calls c"
  "lastForwarded (ensureReconciled opts t c) = lastForwarded c"
  "adapter_calls (ensureReconciled opts t c) = adapter_calls c"
  by (simp_all add: evaluateIdle_def ensureReconciled_def split: option.split)

lemma rest_label [simp]:
  "lastForwarded (snd (ingestRestObservation opts ob src now reply c)) = lastForwarded (snd (oc_ingest opts ob src now reply c))"
  "adapter_calls (snd (ingestRestObservation opts ob src now reply c)) = adapter_calls (snd (oc_ingest opts ob src now reply c))"
  by (simp_all add: ingestRestObservation_def case_prod_beta split: option.split)

lemma step_label:
  assumes "oo_hasAdapter opts" and "synced_label c"
  shows "synced_label (oc_step opts e c)"
    and "memo_label cid (oc_step opts e c) =
      (case event_label e c of Some (i, l) \<Rightarrow> if i = cid then Some l else memo_label cid c | None \<Rightarrow> memo_label cid c)"
proof -
  have same: "synced_label (oc_step opts e c) \<and> memo_label cid (oc_step opts e c) = memo_label cid c"
    if "lastForwarded (oc_step opts e c) = lastForwarded c" "adapter_calls (oc_step opts e c) = adapter_calls c"
    using that assms(2) by (simp add: synced_label_def memo_label_def)
  note ing = ingest_label [OF assms]
  have rest: "synced_label (snd (ingestRestObservation opts ob src now reply c))"
    "memo_label cid (snd (ingestRestObservation opts ob src now reply c)) =
       memo_label cid (snd (oc_ingest opts ob src now reply c))" for ob src now reply
    using ing(1) [of ob src now reply] by (simp_all add: synced_label_def memo_label_def)
  show "synced_label (oc_step opts e c)"
    by (cases e) (use same ing rest order_other_label [of e opts c] in
      \<open>auto simp: ingestStreamObservation_def order_event_def driveQuoteSocketLifecycle_def dhan_onConnected_def
         engine_orderStreamState_def Let_def\<close>)
  show "memo_label cid (oc_step opts e c) =
      (case event_label e c of Some (i, l) \<Rightarrow> if i = cid then Some l else memo_label cid c | None \<Rightarrow> memo_label cid c)"
    by (cases e) (use same ing rest order_other_label [of e opts c] in
      \<open>auto simp: event_label_def ingestStreamObservation_def order_event_def driveQuoteSocketLifecycle_def
         dhan_onConnected_def engine_orderStreamState_def Let_def\<close>)
qed

lemma fold_label:
  assumes "oo_hasAdapter opts"
  shows "synced_label c \<Longrightarrow> synced_label (fold (oc_step opts) es c) \<and>
    memo_label cid (fold (oc_step opts) es c) = latest_label opts cid es c (memo_label cid c)"
proof (induction es arbitrary: c)
  case (Cons e es)
  then show ?case using Cons.IH [OF step_label(1) [OF assms Cons.prems]] step_label(2) [OF assms Cons.prems]
    by simp
qed simp

section \<open>Properties\<close>

text \<open>C38. The stream is ready only on a reconciliation of its own connection: whatever callbacks,
  observations, polls, drops and late sweep results have happened, in the ready state the session was
  authorised by a last opening event, nothing dropped, lost or disabled it since, and a sweep that was
  started no earlier than that event settled after it with a verdict that the account is consistent.\<close>

theorem ready_only_by_current_sweep:
  assumes "lifecycleState (fold (oc_step opts) es (new_consumer opts)) = OS_READY"
  shows "\<exists>pre e post i s t. es = pre @ e # post \<and> oc_opens e (fold (oc_step opts) pre (new_consumer opts))
    \<and> list_all oc_stays post \<and> OC_sweepSettles i s t \<in> set post \<and> consistent_verdict s
    \<and> i \<in> fst ` set (sweeps (fold (oc_step opts) es (new_consumer opts)))
    \<and> i \<notin> fst ` set (sweeps (fold (oc_step opts) pre (new_consumer opts)))"
proof -
  let ?run = "\<lambda>xs. fold (oc_step opts) xs (new_consumer opts)"
  have "\<not> oc_established (new_consumer opts)"
    by (simp add: oc_established_def isEstablished_def new_consumer_def new_order_stream_def)
  moreover have "oc_established (?run es)"
    using assms by (simp add: oc_established_def isEstablished_def lifecycleState_def)
  ultimately obtain pre e post where p: "es = pre @ e # post" "oc_opens e (?run pre)" "list_all oc_stays post"
    and s: "swept_since (?run es) post" using consumer_trace.last_opening [OF oc_inv_new] by blast
  from s assms obtain i s t where i: "OC_sweepSettles i s t \<in> set post" "consistent_verdict s"
    "(i, os_gen (cs_machine (?run es))) \<in> set (sweeps (?run es))" unfolding swept_since_def by blast
  have after: "?run es = fold (oc_step opts) post (oc_step opts e (?run pre))" using p(1) by simp
  have lt: "os_gen (cs_machine (?run pre)) < os_gen (cs_machine (?run es))"
    using consumer_gen.fold_mono [where s = "oc_step opts e (?run pre)" and es = post and opts = opts]
      opens_reconciling(2) [OF p(2)] by (simp add: after)
  have "i \<notin> fst ` set (sweeps (?run pre))"
  proof
    assume "i \<in> fst ` set (sweeps (?run pre))"
    then obtain g where g: "(i, g) \<in> set (sweeps (?run pre))" by force
    have inv: "oc_inv (?run xs)" for xs by (rule consumer_inv.fold_inv [OF oc_inv_new])
    have "(i, g) \<in> set (sweeps (?run es))"
      using g fold_sweeps_mono [of "?run pre" opts "e # post"] p(1) by auto
    then have "g = os_gen (cs_machine (?run es))" using sweep_gen_unique [OF inv] i(3) by blast
    with inv [of pre] g lt show False unfolding oc_inv_def by fastforce
  qed
  with p i show ?thesis by force
qed

text \<open>Duplicate connection callbacks, polls and reconnects coalesce: at every moment at most one
  unsettled sweep belongs to each connection generation.\<close>

theorem one_sweep_per_generation:
  "distinct (map snd (running_sweeps (fold (oc_step opts) es (new_consumer opts))))"
  using consumer_inv.fold_inv [OF oc_inv_new] unfolding oc_inv_def by blast

text \<open>No status transition is withheld from order management: with an adapter wired, after any run the
  last status label the adapter was told for an order is the last label any valid, attributed
  observation brought for it, from the stream or from a poll, even when the quantity did not change; a
  redelivery of the same broker event does not count.\<close>

theorem adapter_knows_latest_status:
  assumes "oo_hasAdapter opts"
  shows "told_label cid (adapter_calls (fold (oc_step opts) es (new_consumer opts))) =
    latest_label opts cid es (new_consumer opts) None"
proof -
  have "synced_label (new_consumer opts)"
    by (simp add: synced_label_def memo_label_def told_label_def new_consumer_def)
  note fold_label [OF assms this, of es cid]
  moreover have "memo_label cid (new_consumer opts) = None" by (simp add: memo_label_def new_consumer_def)
  ultimately show ?thesis unfolding synced_label_def by metis
qed

text \<open>C39. One order after a quiet period closes entry for good: if the stream is ready and its last event
  is older than the idle bound, which is normal while nothing is working, then registering an order and
  polling the stream state in the same instant degrades the stream, and from then on no observation,
  poll, duplicate callback or sweep makes it ready again; it stays degraded, with new entry refused,
  until the connection drops, the session is lost or the stream is disabled.\<close>

theorem quiet_period_closes_entry:
  assumes "c = fold (oc_step opts) es (new_consumer opts)" and "lifecycleState c = OS_READY"
    and "lastStreamEventAtWall c = Some (Fin t0)" and "expectedIdleMs c = Fin k" and "k < t - t0"
    and "js_lt (Fin 0) (ri_requestedQty args)" and "list_all oc_stays later"
  shows "lifecycleState (fold (oc_step opts) (OC_register args a # OC_poll (Fin t) # later) c) = OS_DEGRADED
    \<and> \<not> newEntry (combinedPermissions md
          (lifecycleState (fold (oc_step opts) (OC_register args a # OC_poll (Fin t) # later) c)))"
proof -
  let ?c1 = "registerIntent args a c" and ?c2 = "oc_step opts (OC_poll (Fin t)) (registerIntent args a c)"
  have "quiet c" using reachable_ready_quiet assms(1,2) by blast
  then have q1: "quiet ?c1" using quiet_step [of c "OC_register args a" opts] by (simp add: oc_stays_def)
  have ready: "lifecycleState ?c1 = OS_READY" and fields: "workingOrders ?c1 \<noteq> {}"
    "lastStreamEventAtWall ?c1 = Some (Fin t0)" "expectedIdleMs ?c1 = Fin k"
    using assms by (simp_all add: registerIntent_def Let_def lifecycleState_def)
  have idle: "evaluateIdle (Fin t) ?c1 = oc_onIdle ?c1"
    using ready fields assms(5) by (simp add: evaluateIdle_def)
  then have "lifecycleState (evaluateIdle (Fin t) ?c1) = OS_DEGRADED"
    using ready by (simp add: oc_onIdle_def os_onIdle_def lifecycleState_def)
  with quiet_idle [OF q1, of "Fin t"] have "stuck ?c2"
    by (simp add: stuck_def engine_orderStreamState_def Let_def quiet_ensure)
  then have "stuck (fold (oc_step opts) later ?c2)" using assms(7) by (rule stuck_fold)
  then have "lifecycleState (fold (oc_step opts) (OC_register args a # OC_poll (Fin t) # later) c) = OS_DEGRADED"
    by (auto simp: stuck_def quiet_def)
  then show ?thesis by (simp add: newEntry_combined)
qed

section \<open>Witnesses\<close>

definition sample_opts :: OrderStreamConsumerOptions where
  "sample_opts =
     \<lparr>oo_hasAdapter = True, oo_streamEnabled = True, oo_hasRestReconcile = True, oo_hasSweep = True,
      reconcileRetryBaseMs = None, reconcileRetryMaxMs = None, oo_expectedIdleMs = None\<rparr>"

definition sample_ready :: "oc_event list" where
  "sample_ready = [OC_connecting, OC_dhanConnected True (Fin 0),
     OC_sweepSettles 0 (sweep_resolved (Some \<lparr>so_synchronized = True, so_reason = None,
        so_unresolvedOrders = None, so_discrepancies = None\<rparr>)) (Fin 5)]"

definition sample_args :: RegisterIntentArgs where
  "sample_args = \<lparr>ri_clientOrderId = ''c1'', ri_ownerTag = ''BOXA'', ri_account = None,
     ri_requestedQty = Fin 50, ri_brokerOrderId = None\<rparr>"

definition sample_status :: "string \<Rightarrow> NormalizedOrderObservation" where
  "sample_status st =
     \<lparr>obs_ownerTag = ''BOXA'', obs_brokerOrderId = None, obs_account = None, obs_cumulativeQty = Fin 0,
      obs_quantityPresent = Some True, obs_averagePrice = None, obs_rawStatus = Some st, obs_eventId = None,
      obs_sequence = None, obs_source = order_update, obs_observedAtMono = None, obs_observedAtWall = None\<rparr>"

lemma sample_ready_state:
  "lifecycleState (fold (oc_step sample_opts) sample_ready (new_consumer sample_opts)) = OS_READY"
  by code_simp

theorem ready_only_by_current_sweep_witness:
  "lifecycleState (fold (oc_step sample_opts) sample_ready (new_consumer sample_opts)) = OS_READY \<and>
   (\<exists>pre e post i s t. sample_ready = pre @ e # post \<and> list_all oc_stays post
      \<and> OC_sweepSettles i s t \<in> set post \<and> consistent_verdict s)"
  using sample_ready_state ready_only_by_current_sweep [OF sample_ready_state] by blast

definition sample_cancelled :: "oc_event list" where
  "sample_cancelled = [OC_register sample_args None, OC_stream (sample_status ''open'') (Fin 1) (\<lambda>_. no_order),
     OC_stream (sample_status ''Cancelled'') (Fin 2) (\<lambda>_. no_order)]"

theorem adapter_knows_latest_status_witness:
  "oo_hasAdapter sample_opts \<and>
   told_label ''c1'' (adapter_calls (fold (oc_step sample_opts) sample_cancelled (new_consumer sample_opts))) =
     Some ''CANCELLED''"
proof -
  have a: "oo_hasAdapter sample_opts" by (simp add: sample_opts_def)
  have "latest_label sample_opts ''c1'' sample_cancelled (new_consumer sample_opts) None = Some ''CANCELLED''"
    by code_simp
  with adapter_knows_latest_status [OF a, of "''c1''" sample_cancelled] a show ?thesis by simp
qed

theorem quiet_period_closes_entry_witness:
  "lifecycleState (fold (oc_step sample_opts)
     (OC_register sample_args None # OC_poll (Fin 20000) #
        [OC_stream (sample_status ''COMPLETE'') (Fin 20001) (\<lambda>_. merged_state ''COMPLETE''), OC_poll (Fin 20002)])
     (fold (oc_step sample_opts) sample_ready (new_consumer sample_opts))) = OS_DEGRADED"
proof -
  let ?c = "fold (oc_step sample_opts) sample_ready (new_consumer sample_opts)"
  have 1: "lastStreamEventAtWall ?c = Some (Fin 0)" by code_simp
  have 2: "expectedIdleMs ?c = Fin 15000" by code_simp
  show ?thesis
    by (rule conjunct1, rule quiet_period_closes_entry [OF refl sample_ready_state 1 2, where md = MD_READY])
       (simp_all add: sample_args_def oc_stays_def)
qed

end
