(* ===== verification/Broker_Pacing.thy ===== *)
theory Broker_Pacing
  imports Intent_Journal
begin

text \<open>
  Broker transport pacing and order budgets, \<^verbatim>\<open>src/box/brokerPacing.ts\<close>, with the guards through which the
  Kite and Dhan adapters use them (\<^verbatim>\<open>src/box/kiteBrokerAdapter.ts\<close>, \<^verbatim>\<open>src/box/dhanBrokerAdapter.ts\<close>).

  Intervals and counts are integers, clock readings rationals; a watermark that is still
  \<^verbatim>\<open>Number.NEGATIVE_INFINITY\<close> is \<open>None\<close>.  Rationales, sources and other display texts are left out.  The
  pacer's promise chain runs one call at a time, so a call is one function of the clock read before its
  wait and the clock read after it.  \<^verbatim>\<open>Date.parse\<close> is a parameter.

  The lemmas show the spacing the pacer enforces, that the published per-second limit holds for every
  override, that guarded use of the ledger never exceeds a published window on a monotone clock, and
  what cooldowns, retry hints and the reserve promise.
\<close>

section \<open>Pacing profiles\<close>

datatype BrokerPacingClass = order_mutation | general_class

datatype pacing_source = broker_default | operator_override | clamped_to_floor | clamped_to_general

record BrokerPacingProfile =
  bp_broker :: BrokerId
  defaultOrderMutationMs :: int
  bp_floorMs :: int

definition zerodha_profile :: BrokerPacingProfile where
  "zerodha_profile = \<lparr>bp_broker = zerodha, defaultOrderMutationMs = 110, bp_floorMs = 100\<rparr>"

definition dhan_profile :: BrokerPacingProfile where
  "dhan_profile = \<lparr>bp_broker = dhan, defaultOrderMutationMs = 120, bp_floorMs = 120\<rparr>"

definition strictestProfile :: BrokerPacingProfile where
  "strictestProfile =
     \<lparr>bp_broker = zerodha,
      defaultOrderMutationMs = max (defaultOrderMutationMs zerodha_profile) (defaultOrderMutationMs dhan_profile),
      bp_floorMs = max (bp_floorMs zerodha_profile) (bp_floorMs dhan_profile)\<rparr>"

definition broker_key :: "string \<Rightarrow> string" where
  "broker_key brokerName = js_lower (js_trim brokerName)"

definition brokerPacingProfile :: "string \<Rightarrow> BrokerPacingProfile" where
  "brokerPacingProfile brokerName =
     (if broker_key brokerName = ''zerodha'' then zerodha_profile
      else if broker_key brokerName = ''dhan'' then dhan_profile else strictestProfile)"

record EffectiveBrokerPacing =
  ep_broker :: BrokerId
  orderMutationMinIntervalMs :: int
  generalMinIntervalMs :: int
  ep_source :: pacing_source
  ep_floorMs :: int

definition resolveBrokerPacing :: "string \<Rightarrow> jsnum \<Rightarrow> jsnum \<Rightarrow> EffectiveBrokerPacing" where
  "resolveBrokerPacing brokerName generalMs orderOverrideMs =
     (let profile = brokerPacingProfile brokerName;
          generalInterval = (if is_finite generalMs then nonneg_floor generalMs else 250);
          (order, source) =
            (case orderOverrideMs of
               Fin x \<Rightarrow>
                 if 0 < \<lfloor>x\<rfloor> then
                   (if \<lfloor>x\<rfloor> < bp_floorMs profile then (bp_floorMs profile, clamped_to_floor)
                    else (\<lfloor>x\<rfloor>, operator_override))
                 else (defaultOrderMutationMs profile, broker_default)
             | _ \<Rightarrow> (defaultOrderMutationMs profile, broker_default));
          (order2, source2) =
            (if order < bp_floorMs profile then (bp_floorMs profile, clamped_to_floor) else (order, source))
      in \<lparr>ep_broker = bp_broker profile, orderMutationMinIntervalMs = order2,
          generalMinIntervalMs = generalInterval, ep_source = source2, ep_floorMs = bp_floorMs profile\<rparr>)"

definition required_interval :: "EffectiveBrokerPacing \<Rightarrow> BrokerPacingClass \<Rightarrow> int" where
  "required_interval p klass =
     (if klass = order_mutation then orderMutationMinIntervalMs p else generalMinIntervalMs p)"

definition pacingWaitMs :: "EffectiveBrokerPacing \<Rightarrow> BrokerPacingClass \<Rightarrow> rat option \<Rightarrow> rat \<Rightarrow> rat" where
  "pacingWaitMs p klass lastCallAt now =
     (let required = of_int (required_interval p klass)
      in case lastCallAt of
           None \<Rightarrow> 0
         | Some t \<Rightarrow> (let elapsed = now - t in if elapsed < 0 then required else max 0 (required - elapsed)))"

definition burstPacingBudgetMs :: "EffectiveBrokerPacing \<Rightarrow> jsnum \<Rightarrow> int" where
  "burstPacingBudgetMs p legCount =
     (let legs = nonneg_floor legCount
      in if legs \<le> 1 then 0 else (legs - 1) * orderMutationMinIntervalMs p)"

section \<open>The transport pacer\<close>

record TransportPacer =
  tp_pacing :: EffectiveBrokerPacing
  lastOrderMutationAt :: "rat option"
  lastGeneralAt :: "rat option"
  lastAnyCallAt :: "rat option"
  orderMutations :: nat
  generalCalls :: nat
  totalWaitMs :: rat
  orderMutationWaitMs :: rat
  generalWaitMs :: rat
  absoluteFloorBinds :: nat
  maxObservedWaitMs :: rat

definition new_pacer :: "EffectiveBrokerPacing \<Rightarrow> TransportPacer" where
  "new_pacer p =
     \<lparr>tp_pacing = p, lastOrderMutationAt = None, lastGeneralAt = None, lastAnyCallAt = None,
      orderMutations = 0, generalCalls = 0, totalWaitMs = 0, orderMutationWaitMs = 0, generalWaitMs = 0,
      absoluteFloorBinds = 0, maxObservedWaitMs = 0\<rparr>"

definition repoint :: "EffectiveBrokerPacing \<Rightarrow> TransportPacer \<Rightarrow> TransportPacer" where
  "repoint p tp = tp\<lparr>tp_pacing := p\<rparr>"

text \<open>The wait of a call, from the clock read when its turn comes.\<close>

definition class_wait :: "BrokerPacingClass \<Rightarrow> rat \<Rightarrow> TransportPacer \<Rightarrow> rat" where
  "class_wait klass now tp =
     pacingWaitMs (tp_pacing tp) klass
       (if klass = order_mutation then lastOrderMutationAt tp else lastGeneralAt tp) now"

definition absolute_wait :: "rat \<Rightarrow> TransportPacer \<Rightarrow> rat" where
  "absolute_wait now tp = pacingWaitMs (tp_pacing tp) order_mutation (lastAnyCallAt tp) now"

definition call_wait :: "BrokerPacingClass \<Rightarrow> rat \<Rightarrow> TransportPacer \<Rightarrow> rat" where
  "call_wait klass now tp = max (class_wait klass now tp) (absolute_wait now tp)"

text \<open>One call of \<^verbatim>\<open>run\<close>: \<open>now\<close> is read before the wait and \<open>start\<close> after it, when the operation starts.\<close>

definition pacer_run :: "BrokerPacingClass \<Rightarrow> rat \<Rightarrow> rat \<Rightarrow> TransportPacer \<Rightarrow> TransportPacer" where
  "pacer_run klass now start tp =
     (let wait = call_wait klass now tp;
          t1 = (if class_wait klass now tp < absolute_wait now tp
                then tp\<lparr>absoluteFloorBinds := absoluteFloorBinds tp + 1\<rparr> else tp);
          t2 = t1\<lparr>lastAnyCallAt := Some start\<rparr>;
          t3 = (if klass = order_mutation
                then t2\<lparr>lastOrderMutationAt := Some start, orderMutations := orderMutations t2 + 1,
                        orderMutationWaitMs := orderMutationWaitMs t2 + wait\<rparr>
                else t2\<lparr>lastGeneralAt := Some start, generalCalls := generalCalls t2 + 1,
                        generalWaitMs := generalWaitMs t2 + wait\<rparr>);
          t4 = t3\<lparr>totalWaitMs := totalWaitMs t3 + wait\<rparr>
      in if maxObservedWaitMs t4 < wait then t4\<lparr>maxObservedWaitMs := wait\<rparr> else t4)"

section \<open>Published limits\<close>

datatype BrokerEndpointClass = order_place | order_modify | order_cancel | data_read

definition isOrderEndpoint :: "BrokerEndpointClass \<Rightarrow> bool" where
  "isOrderEndpoint k = (k = order_place \<or> k = order_modify \<or> k = order_cancel)"

definition pacingClassFor :: "BrokerEndpointClass \<Rightarrow> BrokerPacingClass" where
  "pacingClassFor k = (if k = data_read then general_class else order_mutation)"

record RateWindow =
  spanMs :: int
  limit :: "int option"

record BrokerRateLimits =
  rl_broker :: BrokerId
  perSecond :: RateWindow
  perMinute :: RateWindow
  perHour :: RateWindow
  perDay :: RateWindow
  maxModificationsPerOrder :: int
  confirmed_limits :: bool

definition SECOND :: int where "SECOND = 1000"
definition MINUTE :: int where "MINUTE = 60 * SECOND"
definition HOUR :: int where "HOUR = 60 * MINUTE"
definition DAY :: int where "DAY = 24 * HOUR"

definition zerodha_limits :: BrokerRateLimits where
  "zerodha_limits =
     \<lparr>rl_broker = zerodha, perSecond = \<lparr>spanMs = SECOND, limit = Some 10\<rparr>,
      perMinute = \<lparr>spanMs = MINUTE, limit = Some 400\<rparr>, perHour = \<lparr>spanMs = HOUR, limit = None\<rparr>,
      perDay = \<lparr>spanMs = DAY, limit = Some 5000\<rparr>, maxModificationsPerOrder = 25, confirmed_limits = True\<rparr>"

definition dhan_limits :: BrokerRateLimits where
  "dhan_limits =
     \<lparr>rl_broker = dhan, perSecond = \<lparr>spanMs = SECOND, limit = Some 10\<rparr>,
      perMinute = \<lparr>spanMs = MINUTE, limit = Some 250\<rparr>, perHour = \<lparr>spanMs = HOUR, limit = Some 1000\<rparr>,
      perDay = \<lparr>spanMs = DAY, limit = Some 7000\<rparr>, maxModificationsPerOrder = 25, confirmed_limits = True\<rparr>"

definition strictest_window :: "(BrokerRateLimits \<Rightarrow> RateWindow) \<Rightarrow> RateWindow" where
  "strictest_window pick =
     \<lparr>spanMs = spanMs (pick zerodha_limits),
      limit = (case (limit (pick zerodha_limits), limit (pick dhan_limits)) of
                 (Some a, Some b) \<Rightarrow> Some (min a b) | (Some a, None) \<Rightarrow> Some a | (None, b) \<Rightarrow> b)\<rparr>"

definition strictestRateLimits :: BrokerRateLimits where
  "strictestRateLimits =
     \<lparr>rl_broker = zerodha, perSecond = strictest_window perSecond, perMinute = strictest_window perMinute,
      perHour = strictest_window perHour, perDay = strictest_window perDay,
      maxModificationsPerOrder = min (maxModificationsPerOrder zerodha_limits) (maxModificationsPerOrder dhan_limits),
      confirmed_limits = False\<rparr>"

definition brokerRateLimits :: "string \<Rightarrow> BrokerRateLimits" where
  "brokerRateLimits brokerName =
     (if broker_key brokerName = ''zerodha'' then zerodha_limits
      else if broker_key brokerName = ''dhan'' then dhan_limits else strictestRateLimits)"

record OrderBudgetPolicy =
  workerCount :: int
  recoveryReserveFraction :: rat

definition DEFAULT_ORDER_BUDGET_POLICY :: OrderBudgetPolicy where
  "DEFAULT_ORDER_BUDGET_POLICY = \<lparr>workerCount = 1, recoveryReserveFraction = 1 / 5\<rparr>"

definition resolveOrderBudgetPolicy :: "jsnum \<Rightarrow> jsnum \<Rightarrow> OrderBudgetPolicy" where
  "resolveOrderBudgetPolicy workers reserve =
     \<lparr>workerCount = (case workers of Fin w \<Rightarrow> if 1 \<le> w then \<lfloor>w\<rfloor> else 1 | _ \<Rightarrow> 1),
      recoveryReserveFraction =
        (case reserve of Fin r \<Rightarrow> if 0 \<le> r \<and> r \<le> 1 / 2 then r
                                  else recoveryReserveFraction DEFAULT_ORDER_BUDGET_POLICY
         | _ \<Rightarrow> recoveryReserveFraction DEFAULT_ORDER_BUDGET_POLICY)\<rparr>"

datatype window_name = w_perSecond | w_perMinute | w_perHour | w_perDay

record PlacementBudget =
  pb_window :: window_name
  pb_spanMs :: int
  accountLimit :: "int option"
  perWorkerLimit :: "int option"
  placementLimit :: "int option"
  recoveryReserve :: int

definition window_budget :: "OrderBudgetPolicy \<Rightarrow> window_name \<times> RateWindow \<Rightarrow> PlacementBudget" where
  "window_budget policy kw =
     (case kw of (key, win) \<Rightarrow>
        (case limit win of
           None \<Rightarrow> \<lparr>pb_window = key, pb_spanMs = spanMs win, accountLimit = None, perWorkerLimit = None,
                    placementLimit = None, recoveryReserve = 0\<rparr>
         | Some l \<Rightarrow>
             (let perWorker = max 0 (l div max 1 (workerCount policy));
                  reserve = \<lceil>of_int perWorker * recoveryReserveFraction policy\<rceil>
              in \<lparr>pb_window = key, pb_spanMs = spanMs win, accountLimit = Some l,
                  perWorkerLimit = Some perWorker, placementLimit = Some (max 0 (perWorker - reserve)),
                  recoveryReserve = reserve\<rparr>)))"

definition rate_windows :: "BrokerRateLimits \<Rightarrow> (window_name \<times> RateWindow) list" where
  "rate_windows limits =
     [(w_perSecond, perSecond limits), (w_perMinute, perMinute limits), (w_perHour, perHour limits),
      (w_perDay, perDay limits)]"

definition placementBudgets :: "BrokerRateLimits \<Rightarrow> OrderBudgetPolicy \<Rightarrow> PlacementBudget list" where
  "placementBudgets limits policy = map (window_budget policy) (rate_windows limits)"

section \<open>The budget ledger\<close>

datatype decision_reason =
    not_metered | cooldown_active rat | window_exhausted window_name int int | within_windows

record BudgetDecision =
  bd_allowed :: bool
  bindingWindow :: "window_name option"
  bd_reason :: decision_reason
  retryAtMs :: "rat option"

record RateBudgetLedger =
  placementTimes :: "rat list"
  recoveryTimes :: "rat list"
  cooldownUntil :: "rat option"
  penalties :: nat
  placementRefusals :: nat
  recoveryRefusals :: nat
  lb_limits :: BrokerRateLimits
  lb_policy :: OrderBudgetPolicy

definition new_budget_ledger :: "BrokerRateLimits \<Rightarrow> OrderBudgetPolicy \<Rightarrow> RateBudgetLedger" where
  "new_budget_ledger limits policy =
     \<lparr>placementTimes = [], recoveryTimes = [], cooldownUntil = None, penalties = 0,
      placementRefusals = 0, recoveryRefusals = 0, lb_limits = limits, lb_policy = policy\<rparr>"

definition horizonMs :: "RateBudgetLedger \<Rightarrow> int" where
  "horizonMs l =
     (let spans = map spanMs (filter (\<lambda>w. limit w \<noteq> None) (map snd (rate_windows (lb_limits l))))
      in if spans = [] then DAY else Max (set spans))"

definition prune :: "rat \<Rightarrow> RateBudgetLedger \<Rightarrow> RateBudgetLedger" where
  "prune now l =
     (let cutoff = now - of_int (horizonMs l)
      in l\<lparr>placementTimes := dropWhile (\<lambda>t. t \<le> cutoff) (placementTimes l),
           recoveryTimes := dropWhile (\<lambda>t. t \<le> cutoff) (recoveryTimes l)\<rparr>)"

definition countWithin :: "int \<Rightarrow> rat \<Rightarrow> RateBudgetLedger \<Rightarrow> int" where
  "countWithin sp now l =
     (let cutoff = now - of_int sp
      in int (length (filter (\<lambda>t. cutoff < t) (placementTimes l)))
         + int (length (filter (\<lambda>t. cutoff < t) (recoveryTimes l))))"

definition oldestInWindow :: "int \<Rightarrow> rat \<Rightarrow> RateBudgetLedger \<Rightarrow> rat" where
  "oldestInWindow sp now l =
     (let cutoff = now - of_int sp
      in foldl (\<lambda>oldest t. if cutoff < t \<and> t < oldest then t else oldest) now
           (placementTimes l @ recoveryTimes l))"

definition isRecovery :: "BrokerEndpointClass \<Rightarrow> bool" where
  "isRecovery k = (k = order_cancel \<or> k = order_modify)"

definition ceiling_of :: "BrokerEndpointClass \<Rightarrow> PlacementBudget \<Rightarrow> int option" where
  "ceiling_of k b = (if isRecovery k then perWorkerLimit b else placementLimit b)"

fun check_windows ::
    "BrokerEndpointClass \<Rightarrow> rat \<Rightarrow> RateBudgetLedger \<Rightarrow> PlacementBudget list \<Rightarrow> BudgetDecision" where
  "check_windows k now l [] =
     \<lparr>bd_allowed = True, bindingWindow = None, bd_reason = within_windows, retryAtMs = None\<rparr>"
| "check_windows k now l (b # bs) =
     (if accountLimit b = None then check_windows k now l bs
      else case ceiling_of k b of
        None \<Rightarrow> check_windows k now l bs
      | Some c \<Rightarrow>
          if c \<le> countWithin (pb_spanMs b) now l then
            \<lparr>bd_allowed = False, bindingWindow = Some (pb_window b),
             bd_reason = window_exhausted (pb_window b) (countWithin (pb_spanMs b) now l) c,
             retryAtMs = Some (oldestInWindow (pb_spanMs b) now l + of_int (pb_spanMs b))\<rparr>
          else check_windows k now l bs)"

definition in_cooldown :: "rat \<Rightarrow> RateBudgetLedger \<Rightarrow> bool" where
  "in_cooldown now l = (case cooldownUntil l of None \<Rightarrow> False | Some u \<Rightarrow> now < u)"

definition check_budget :: "BrokerEndpointClass \<Rightarrow> rat \<Rightarrow> RateBudgetLedger \<Rightarrow> BudgetDecision \<times> RateBudgetLedger" where
  "check_budget k now l =
     (if \<not> isOrderEndpoint k then
        (\<lparr>bd_allowed = True, bindingWindow = None, bd_reason = not_metered, retryAtMs = None\<rparr>, l)
      else if in_cooldown now l then
        (\<lparr>bd_allowed = False, bindingWindow = None, bd_reason = cooldown_active (the (cooldownUntil l)),
          retryAtMs = cooldownUntil l\<rparr>, l)
      else let l1 = prune now l
           in (check_windows k now l1 (placementBudgets (lb_limits l1) (lb_policy l1)), l1))"

definition record_request :: "BrokerEndpointClass \<Rightarrow> rat \<Rightarrow> RateBudgetLedger \<Rightarrow> RateBudgetLedger" where
  "record_request k now l =
     (if \<not> isOrderEndpoint k then l
      else prune now (if isRecovery k then l\<lparr>recoveryTimes := recoveryTimes l @ [now]\<rparr>
                      else l\<lparr>placementTimes := placementTimes l @ [now]\<rparr>))"

definition penalize :: "rat \<Rightarrow> jsnum option \<Rightarrow> RateBudgetLedger \<Rightarrow> RateBudgetLedger" where
  "penalize now retryAfterMs l =
     (let cooldown = (case retryAfterMs of
                        Some (Fin r) \<Rightarrow> if 0 < r then r else of_int (spanMs (perSecond (lb_limits l)))
                      | _ \<Rightarrow> of_int (spanMs (perSecond (lb_limits l))));
          until = now + cooldown
      in l\<lparr>cooldownUntil := (case cooldownUntil l of None \<Rightarrow> Some until
                             | Some u \<Rightarrow> if u < until then Some until else Some u),
           penalties := penalties l + 1\<rparr>)"

definition noteRefusal :: "BrokerEndpointClass \<Rightarrow> RateBudgetLedger \<Rightarrow> RateBudgetLedger" where
  "noteRefusal k l =
     (if isRecovery k then l\<lparr>recoveryRefusals := recoveryRefusals l + 1\<rparr>
      else l\<lparr>placementRefusals := placementRefusals l + 1\<rparr>)"

section \<open>Throttle signals\<close>

definition is_digit :: "char \<Rightarrow> bool" where
  "is_digit c = (48 \<le> (of_char c :: nat) \<and> (of_char c :: nat) \<le> 57)"

definition digits_value :: "string \<Rightarrow> int" where
  "digits_value s = foldl (\<lambda>n c. 10 * n + (int (of_char c) - 48)) 0 s"

text \<open>Decimal numbers from \<open>2 ^ 1024 - 2 ^ 970\<close> on read as infinity.\<close>

definition parseRetryAfterMs :: "(string \<Rightarrow> jsnum) \<Rightarrow> string option \<Rightarrow> rat \<Rightarrow> rat option" where
  "parseRetryAfterMs dateParse headerValue now =
     (case headerValue of
        None \<Rightarrow> None
      | Some h \<Rightarrow>
          (let raw = js_trim h
           in if raw = [] then None
              else if list_all is_digit raw then
                (if digits_value raw < 2 ^ 1024 - 2 ^ 970 then Some (of_int (digits_value raw) * 1000) else None)
              else case dateParse raw of
                     Fin when \<Rightarrow> (let delta = when - now in if 0 < delta then Some delta else Some 0)
                   | _ \<Rightarrow> None))"

definition isRateLimited :: "int option \<Rightarrow> bool" where
  "isRateLimited status = (status = Some 429)"

section \<open>Guarded use by the adapters\<close>

text \<open>
  \<open>refusePlacementIfBudgetExhausted\<close> only checks; \<open>placementBudgetGuard\<close>, at the send boundary, and
  \<open>reserveRecoveryBudgetOrThrow\<close> check and record; a refusal is noted and thrown (\<open>False\<close>).
\<close>

definition refusePlacementIfBudgetExhausted :: "rat \<Rightarrow> RateBudgetLedger \<Rightarrow> bool \<times> RateBudgetLedger" where
  "refusePlacementIfBudgetExhausted now l =
     (let (decision, l1) = check_budget order_place now l
      in if \<not> bd_allowed decision then (False, noteRefusal order_place l1) else (True, l1))"

definition placementBudgetGuard :: "rat \<Rightarrow> RateBudgetLedger \<Rightarrow> bool \<times> RateBudgetLedger" where
  "placementBudgetGuard now l =
     (let (decision, l1) = check_budget order_place now l
      in if \<not> bd_allowed decision then (False, noteRefusal order_place l1)
         else (True, record_request order_place now l1))"

definition reserveRecoveryBudgetOrThrow :: "BrokerEndpointClass \<Rightarrow> rat \<Rightarrow> RateBudgetLedger \<Rightarrow> bool \<times> RateBudgetLedger" where
  "reserveRecoveryBudgetOrThrow k now l =
     (let (decision, l1) = check_budget k now l
      in if \<not> bd_allowed decision then (False, noteRefusal k l1) else (True, record_request k now l1))"

definition penalizeIfRateLimited :: "int option \<Rightarrow> jsnum option \<Rightarrow> rat \<Rightarrow> RateBudgetLedger \<Rightarrow> RateBudgetLedger" where
  "penalizeIfRateLimited status retryAfterMs now l =
     (if \<not> isRateLimited status then l else penalize now retryAfterMs l)"

section \<open>Spacing\<close>

lemma spaced_last:
  "sorted_wrt (\<lambda>x y. x + d \<le> y) xs \<Longrightarrow> list_all (\<lambda>x. a \<le> x) xs \<Longrightarrow> xs \<noteq> [] \<Longrightarrow>
     a + rat_of_nat (length xs - 1) * d \<le> last xs"
proof (induction xs arbitrary: a)
  case (Cons x xs)
  show ?case
  proof (cases xs)
    case (Cons y ys)
    have "list_all (\<lambda>z. x + d \<le> z) xs" using Cons.prems(1) by (simp add: list_all_iff)
    then have "x + d + rat_of_nat (length xs - 1) * d \<le> last xs"
      using Cons.IH [of "x + d"] Cons.prems(1) Cons by simp
    moreover have "a \<le> x" using Cons.prems(2) by simp
    ultimately show ?thesis using Cons by (simp add: algebra_simps)
  qed (use Cons.prems in simp)
qed simp

lemma spaced_window:
  assumes "sorted_wrt (\<lambda>x y. x + d \<le> y) xs" and "0 \<le> d"
  shows "length (filter (\<lambda>x. a \<le> x \<and> x < a + rat_of_nat n * d) xs) \<le> n"
proof -
  let ?ys = "filter (\<lambda>x. a \<le> x \<and> x < a + rat_of_nat n * d) xs"
  show ?thesis
  proof (cases "?ys = []")
    case False
    have "sorted_wrt (\<lambda>x y. x + d \<le> y) ?ys" by (rule sorted_wrt_filter [OF assms(1)])
    then have "a + rat_of_nat (length ?ys - 1) * d \<le> last ?ys"
      by (rule spaced_last) (use False in \<open>auto simp: list_all_iff\<close>)
    also have "last ?ys < a + rat_of_nat n * d" using last_in_set [OF False] by simp
    finally have "rat_of_nat (length ?ys - 1) * d < rat_of_nat n * d" by simp
    then have "rat_of_nat (length ?ys - 1) < rat_of_nat n" using assms(2) by (rule mult_right_less_imp_less)
    then show ?thesis by simp
  qed simp
qed

type_synonym paced_call = "BrokerPacingClass \<times> rat \<times> rat"

definition call_start :: "paced_call \<Rightarrow> rat" where
  "call_start c = snd (snd c)"

definition run_call :: "paced_call \<Rightarrow> TransportPacer \<Rightarrow> TransportPacer" where
  "run_call c tp = pacer_run (fst c) (fst (snd c)) (snd (snd c)) tp"

text \<open>What the clock and its \<^verbatim>\<open>wait\<close> do for a sequence of calls: a call's turn comes no earlier than
  its predecessor started, and the wait lasts at least as long as asked.\<close>

fun served :: "TransportPacer \<Rightarrow> paced_call list \<Rightarrow> bool" where
  "served tp [] = True"
| "served tp (c # cs) =
     ((case lastAnyCallAt tp of None \<Rightarrow> True | Some t \<Rightarrow> t \<le> fst (snd c))
      \<and> fst (snd c) + call_wait (fst c) (fst (snd c)) tp \<le> call_start c
      \<and> served (run_call c tp) cs)"

definition pacer_ok :: "TransportPacer \<Rightarrow> bool" where
  "pacer_ok tp =
     ((\<forall>t. lastGeneralAt tp = Some t \<longrightarrow> (\<exists>u. lastAnyCallAt tp = Some u \<and> t \<le> u)) \<and>
      0 \<le> orderMutationMinIntervalMs (tp_pacing tp) \<and> 0 \<le> generalMinIntervalMs (tp_pacing tp))"

lemma run_call_fields:
  "tp_pacing (run_call c tp) = tp_pacing tp"
  "lastAnyCallAt (run_call c tp) = Some (call_start c)"
  "lastGeneralAt (run_call c tp) = (if fst c = order_mutation then lastGeneralAt tp else Some (call_start c))"
  by (simp_all add: run_call_def pacer_run_def call_start_def Let_def)

lemma wait_covers:
  "t \<le> now \<Longrightarrow> t + of_int (required_interval p k) \<le> now + pacingWaitMs p k (Some t) now"
  by (simp add: pacingWaitMs_def Let_def)

lemma wait_nonneg: "pacer_ok tp \<Longrightarrow> 0 \<le> call_wait k now tp"
  by (auto simp: call_wait_def class_wait_def absolute_wait_def pacingWaitMs_def required_interval_def pacer_ok_def
      Let_def max_def split: option.split)

lemma served_call:
  assumes ok: "pacer_ok tp" and s: "served tp (c # cs)"
  shows "\<And>t. lastAnyCallAt tp = Some t \<Longrightarrow> t + of_int (orderMutationMinIntervalMs (tp_pacing tp)) \<le> call_start c"
    and "\<And>t. lastGeneralAt tp = Some t \<Longrightarrow> fst c \<noteq> order_mutation \<Longrightarrow>
           t + of_int (generalMinIntervalMs (tp_pacing tp)) \<le> call_start c"
    and "pacer_ok (run_call c tp)"
proof -
  let ?now = "fst (snd c)" and ?p = "tp_pacing tp"
  have start: "?now + call_wait (fst c) ?now tp \<le> call_start c" using s by simp
  show any: "t + of_int (orderMutationMinIntervalMs ?p) \<le> call_start c" if "lastAnyCallAt tp = Some t" for t
  proof -
    have "t \<le> ?now" using s that by simp
    from wait_covers [OF this, of ?p order_mutation] start that show ?thesis
      by (simp add: call_wait_def absolute_wait_def required_interval_def)
  qed
  show "t + of_int (generalMinIntervalMs ?p) \<le> call_start c"
    if "lastGeneralAt tp = Some t" "fst c \<noteq> order_mutation" for t
  proof -
    have "t \<le> ?now" using s ok that by (force simp: pacer_ok_def)
    from wait_covers [OF this, of ?p "fst c"] start that show ?thesis
      by (simp add: call_wait_def class_wait_def required_interval_def)
  qed
  have "t \<le> call_start c" if h: "lastGeneralAt tp = Some t" for t
  proof -
    obtain u where u: "lastAnyCallAt tp = Some u" "t \<le> u" using ok h unfolding pacer_ok_def by blast
    have "0 \<le> rat_of_int (orderMutationMinIntervalMs ?p)" using ok by (simp add: pacer_ok_def)
    with any [OF u(1)] u(2) show ?thesis by linarith
  qed
  with ok show "pacer_ok (run_call c tp)" by (simp add: pacer_ok_def run_call_fields)
qed

lemma served_spaced:
  assumes "pacer_ok tp" and "served tp cs"
  shows "sorted_wrt (\<lambda>x y. x + of_int (orderMutationMinIntervalMs (tp_pacing tp)) \<le> y) (map call_start cs)
    \<and> (\<forall>t. lastAnyCallAt tp = Some t \<longrightarrow>
         list_all (\<lambda>y. t + of_int (orderMutationMinIntervalMs (tp_pacing tp)) \<le> y) (map call_start cs))
    \<and> sorted_wrt (\<lambda>x y. x + of_int (generalMinIntervalMs (tp_pacing tp)) \<le> y)
        (map call_start (filter (\<lambda>c. fst c \<noteq> order_mutation) cs))
    \<and> (\<forall>t. lastGeneralAt tp = Some t \<longrightarrow>
         list_all (\<lambda>y. t + of_int (generalMinIntervalMs (tp_pacing tp)) \<le> y)
           (map call_start (filter (\<lambda>c. fst c \<noteq> order_mutation) cs)))"
  using assms
proof (induction cs arbitrary: tp)
  case Nil
  show ?case by simp
next
  case (Cons c cs)
  note call = served_call [OF Cons.prems]
  from Cons.prems(2) have "served (run_call c tp) cs" by simp
  note IH = Cons.IH [OF call(3) this, unfolded run_call_fields]
  have d: "0 \<le> rat_of_int (orderMutationMinIntervalMs (tp_pacing tp))"
    using Cons.prems(1) by (simp add: pacer_ok_def)
  have after: "list_all (\<lambda>y. call_start c + of_int (orderMutationMinIntervalMs (tp_pacing tp)) \<le> y) (map call_start cs)"
    using IH by blast
  then have later: "list_all (\<lambda>y. t + of_int (orderMutationMinIntervalMs (tp_pacing tp)) \<le> y) (map call_start cs)"
    if "lastAnyCallAt tp = Some t" for t
    using call(1) [OF that] d by (fastforce simp: list_all_iff)
  show ?case
  proof (cases "fst c = order_mutation")
    case True
    with IH after later call(1) show ?thesis by (simp add: list_all_iff)
  next
    case False
    have g: "0 \<le> rat_of_int (generalMinIntervalMs (tp_pacing tp))" using Cons.prems(1) by (simp add: pacer_ok_def)
    have gen: "list_all (\<lambda>y. call_start c + of_int (generalMinIntervalMs (tp_pacing tp)) \<le> y)
        (map call_start (filter (\<lambda>c. fst c \<noteq> order_mutation) cs))"
      using IH False by simp
    have "list_all (\<lambda>y. t + of_int (generalMinIntervalMs (tp_pacing tp)) \<le> y)
        (map call_start (filter (\<lambda>c. fst c \<noteq> order_mutation) cs))" if "lastGeneralAt tp = Some t" for t
      using call(2) [OF that False] g gen by (fastforce simp: list_all_iff)
    with IH after later call gen False show ?thesis by (simp add: list_all_iff)
  qed
qed

lemma resolved_interval:
  "100 \<le> orderMutationMinIntervalMs (resolveBrokerPacing b g ov)"
  "0 \<le> generalMinIntervalMs (resolveBrokerPacing b g ov)"
  by (auto simp: resolveBrokerPacing_def brokerPacingProfile_def strictestProfile_def zerodha_profile_def
      dhan_profile_def Let_def split: jsnum.split)

lemma pacer_ok_new: "pacer_ok (new_pacer (resolveBrokerPacing b g ov))"
  using resolved_interval [of b g ov] by (simp add: pacer_ok_def new_pacer_def)

lemma perSecond_limit: "limit (perSecond (brokerRateLimits b)) = Some 10"
  by (simp add: brokerRateLimits_def zerodha_limits_def dhan_limits_def strictestRateLimits_def strictest_window_def)

text \<open>The published per-second order limit holds for every broker name and every override: on a
  clock that does not run backwards, with waits that last as long as asked, any two calls of the
  pacer start at least the order interval apart and any two general calls the general interval, so at
  most the published number of calls, of either class, starts within any second.\<close>

theorem pacer_keeps_published_rate:
  assumes "served (new_pacer (resolveBrokerPacing brokerName generalMs override)) cs"
  shows "sorted_wrt (\<lambda>c c'. call_start c
            + of_int (orderMutationMinIntervalMs (resolveBrokerPacing brokerName generalMs override)) \<le> call_start c') cs
    \<and> sorted_wrt (\<lambda>c c'. call_start c
            + of_int (generalMinIntervalMs (resolveBrokerPacing brokerName generalMs override)) \<le> call_start c')
        (filter (\<lambda>c. fst c \<noteq> order_mutation) cs)
    \<and> (case limit (perSecond (brokerRateLimits brokerName)) of
         None \<Rightarrow> False
       | Some l \<Rightarrow> int (length (filter (\<lambda>c. a \<le> call_start c \<and> call_start c < a + of_int SECOND) cs)) \<le> l)"
proof -
  let ?p = "resolveBrokerPacing brokerName generalMs override"
  let ?d = "rat_of_int (orderMutationMinIntervalMs ?p)"
  have p: "tp_pacing (new_pacer ?p) = ?p" by (simp add: new_pacer_def)
  note sp = served_spaced [OF pacer_ok_new assms, unfolded p]
  have d: "100 \<le> ?d" using resolved_interval(1) [of brokerName generalMs override] by linarith
  have s: "sorted_wrt (\<lambda>x y. x + 100 \<le> y) (map call_start cs)"
    using sp d by (auto intro: sorted_wrt_mono_rel [of _ "\<lambda>x y. x + ?d \<le> y"])
  have "length (filter (\<lambda>x. a \<le> x \<and> x < a + rat_of_nat 10 * 100) (map call_start cs)) \<le> 10"
    by (rule spaced_window [OF s]) simp
  then have "length (filter (\<lambda>c. a \<le> call_start c \<and> call_start c < a + of_int SECOND) cs) \<le> 10"
    by (simp add: filter_map comp_def SECOND_def)
  with sp show ?thesis by (simp add: perSecond_limit sorted_wrt_map)
qed

section \<open>Guarded runs of the ledger\<close>

datatype lb_event =
    LB_precheck rat | LB_place rat | LB_recover BrokerEndpointClass rat
  | LB_throttle "int option" "jsnum option" rat

fun lb_time :: "lb_event \<Rightarrow> rat" where
  "lb_time (LB_precheck t) = t"
| "lb_time (LB_place t) = t"
| "lb_time (LB_recover k t) = t"
| "lb_time (LB_throttle st r t) = t"

type_synonym sent_requests = "(BrokerEndpointClass \<times> rat) list"

text \<open>The state of a run is the ledger and every request that was let through, with its time.\<close>

fun lb_step :: "lb_event \<Rightarrow> RateBudgetLedger \<times> sent_requests \<Rightarrow> RateBudgetLedger \<times> sent_requests" where
  "lb_step (LB_precheck t) (l, h) = (snd (refusePlacementIfBudgetExhausted t l), h)"
| "lb_step (LB_place t) (l, h) =
     (let (ok, l') = placementBudgetGuard t l in (l', if ok then h @ [(order_place, t)] else h))"
| "lb_step (LB_recover k t) (l, h) =
     (if \<not> isRecovery k then (l, h)
      else let (ok, l') = reserveRecoveryBudgetOrThrow k t l in (l', if ok then h @ [(k, t)] else h))"
| "lb_step (LB_throttle st r t) (l, h) = (penalizeIfRateLimited st r t l, h)"

definition sent_times :: "bool \<Rightarrow> sent_requests \<Rightarrow> rat list" where
  "sent_times recovery h = map snd (filter (\<lambda>s. isRecovery (fst s) = recovery) h)"

definition sent_within :: "int \<Rightarrow> rat \<Rightarrow> sent_requests \<Rightarrow> sent_requests" where
  "sent_within sp t h = filter (\<lambda>s. t - of_int sp < snd s \<and> snd s \<le> t) h"

text \<open>The ledger forgets only what no window can still see.\<close>

definition remembers :: "rat \<Rightarrow> RateBudgetLedger \<Rightarrow> sent_requests \<Rightarrow> bool" where
  "remembers T l h =
     ((\<forall>c. T - of_int (horizonMs l) \<le> c \<longrightarrow>
        filter (\<lambda>t. c < t) (placementTimes l) = filter (\<lambda>t. c < t) (sent_times False h) \<and>
        filter (\<lambda>t. c < t) (recoveryTimes l) = filter (\<lambda>t. c < t) (sent_times True h)) \<and>
      list_all (\<lambda>s. snd s \<le> T) h)"

lemma filter_dropWhile_le: "c \<le> d \<Longrightarrow> filter (\<lambda>t. d < t) (dropWhile (\<lambda>t. t \<le> c) xs) = filter (\<lambda>t. d < t) xs"
  for c d :: rat
  by (induction xs) auto

lemma prune_frame [simp]:
  "horizonMs (prune t l) = horizonMs l" "lb_limits (prune t l) = lb_limits l" "lb_policy (prune t l) = lb_policy l"
  "cooldownUntil (prune t l) = cooldownUntil l"
  by (simp_all add: prune_def horizonMs_def Let_def)

lemma remembers_prune: "remembers T l h \<Longrightarrow> T \<le> t \<Longrightarrow> remembers t (prune t l) h"
  unfolding remembers_def by (auto simp: prune_def Let_def filter_dropWhile_le list_all_iff horizonMs_def)

lemma horizon_covers:
  assumes "(k, w) \<in> set (rate_windows (lb_limits l))" and "limit w \<noteq> None"
  shows "spanMs w \<le> horizonMs l"
proof -
  let ?spans = "map spanMs (filter (\<lambda>w. limit w \<noteq> None) (map snd (rate_windows (lb_limits l))))"
  have m: "spanMs w \<in> set ?spans" using assms by force
  then have "?spans \<noteq> []" by (metis empty_iff empty_set)
  then have "horizonMs l = Max (set ?spans)" unfolding horizonMs_def Let_def by simp
  moreover have "spanMs w \<le> Max (set ?spans)" using m by (intro Max_ge) simp_all
  ultimately show ?thesis by simp
qed

lemma length_filter_split:
  "length (filter (\<lambda>t. c < t) (sent_times False h)) + length (filter (\<lambda>t. c < t) (sent_times True h)) =
     length (filter (\<lambda>s. c < snd s) h)"
  by (induction h) (auto simp: sent_times_def)

lemma countWithin_sent:
  assumes "remembers T l h" and "T \<le> t" and "sp \<le> horizonMs l"
  shows "countWithin sp t l = int (length (filter (\<lambda>s. t - of_int sp < snd s) h))"
proof -
  have "T - of_int (horizonMs l) \<le> t - of_int sp" using assms(2,3) by (simp add: diff_mono)
  with assms(1) have "filter (\<lambda>u. t - of_int sp < u) (placementTimes l) = filter (\<lambda>u. t - of_int sp < u) (sent_times False h)"
    "filter (\<lambda>u. t - of_int sp < u) (recoveryTimes l) = filter (\<lambda>u. t - of_int sp < u) (sent_times True h)"
    unfolding remembers_def by blast+
  then show ?thesis
    using length_filter_split [of "t - of_int sp" h] by (simp add: countWithin_def Let_def)
qed

lemma check_windows_allowed:
  "bd_allowed (check_windows k t l bs) =
     list_all (\<lambda>b. accountLimit b = None \<or>
        (case ceiling_of k b of None \<Rightarrow> True | Some c \<Rightarrow> countWithin (pb_spanMs b) t l < c)) bs"
  by (induction bs) (auto split: option.split)

lemma check_frame:
  "snd (check_budget k t l) = l \<or> snd (check_budget k t l) = prune t l"
  by (simp add: check_budget_def Let_def)

lemma check_allowed:
  assumes "bd_allowed (fst (check_budget k t l))" and "isOrderEndpoint k"
    and "(n, w) \<in> set (rate_windows (lb_limits l))" and "limit w = Some L"
  shows "case ceiling_of k (window_budget (lb_policy l) (n, w)) of
           None \<Rightarrow> False | Some c \<Rightarrow> countWithin (spanMs w) t (prune t l) < c"
    and "snd (check_budget k t l) = prune t l" and "\<not> in_cooldown t l"
proof -
  from assms(1,2) show cd: "\<not> in_cooldown t l" by (auto simp: check_budget_def)
  then show "snd (check_budget k t l) = prune t l" using assms(2) by (simp add: check_budget_def Let_def)
  from assms(1,2) cd have "bd_allowed (check_windows k t (prune t l) (placementBudgets (lb_limits l) (lb_policy l)))"
    by (simp add: check_budget_def Let_def)
  then have "list_all (\<lambda>b. accountLimit b = None \<or> (case ceiling_of k b of None \<Rightarrow> True
      | Some c \<Rightarrow> countWithin (pb_spanMs b) t (prune t l) < c)) (placementBudgets (lb_limits l) (lb_policy l))"
    unfolding check_windows_allowed .
  moreover have "window_budget (lb_policy l) (n, w) \<in> set (placementBudgets (lb_limits l) (lb_policy l))"
    using assms(3) unfolding placementBudgets_def set_map by (rule imageI)
  ultimately show "case ceiling_of k (window_budget (lb_policy l) (n, w)) of
           None \<Rightarrow> False | Some c \<Rightarrow> countWithin (spanMs w) t (prune t l) < c"
    using assms(4) by (auto simp: list_all_iff window_budget_def ceiling_of_def Let_def split: option.splits)
qed

text \<open>The bound of a window, for all requests and for placements.\<close>

definition window_kept :: "RateBudgetLedger \<Rightarrow> sent_requests \<Rightarrow> bool" where
  "window_kept l h =
     (\<forall>n w L t. (n, w) \<in> set (rate_windows (lb_limits l)) \<and> limit w = Some L \<longrightarrow>
        int (length (sent_within (spanMs w) t h)) \<le> the (perWorkerLimit (window_budget (lb_policy l) (n, w))) \<and>
        int (length (filter (\<lambda>s. \<not> isRecovery (fst s)) (sent_within (spanMs w) t h)))
          \<le> the (placementLimit (window_budget (lb_policy l) (n, w))))"

definition lb_ok :: "rat \<Rightarrow> RateBudgetLedger \<times> sent_requests \<Rightarrow> bool" where
  "lb_ok T s = (remembers T (fst s) (snd s) \<and> window_kept (fst s) (snd s))"

lemma sent_within_snoc:
  assumes "list_all (\<lambda>s. snd s \<le> T) h" and "T \<le> now"
  shows "sent_within sp t (h @ [(k, now)]) = sent_within sp t h \<or>
    (length (sent_within sp t (h @ [(k, now)])) \<le> length (filter (\<lambda>s. now - of_int sp < snd s) h) + 1 \<and>
     length (filter P (sent_within sp t (h @ [(k, now)]))) \<le> length (filter (\<lambda>s. now - of_int sp < snd s) h) + 1)"
proof (cases "t - of_int sp < now \<and> now \<le> t")
  case True
  have "length (sent_within sp t h) \<le> length (filter (\<lambda>s. now - of_int sp < snd s) h)"
  proof -
    have "sent_within sp t h = filter (\<lambda>s. t - of_int sp < snd s \<and> snd s \<le> t) (filter (\<lambda>s. now - of_int sp < snd s) h)"
      unfolding sent_within_def filter_filter using True by (intro filter_cong) auto
    then show ?thesis using length_filter_le [of _ "filter (\<lambda>s. now - of_int sp < snd s) h"] by metis
  qed
  moreover have "length (filter P xs) \<le> length xs" for xs by simp
  moreover have "sent_within sp t (h @ [(k, now)]) = sent_within sp t h @ [(k, now)]"
    using True by (simp add: sent_within_def)
  ultimately show ?thesis by (metis (no_types, lifting) add_le_mono1 length_append_singleton Suc_eq_plus1 order_trans)
next
  case False
  then show ?thesis by (auto simp: sent_within_def)
qed

lemma window_budget_Some:
  "limit w = Some L \<Longrightarrow> perWorkerLimit (window_budget p (n, w)) = Some (max 0 (L div max 1 (workerCount p)))"
  "limit w = Some L \<Longrightarrow> placementLimit (window_budget p (n, w)) =
     Some (max 0 (max 0 (L div max 1 (workerCount p))
        - \<lceil>of_int (max 0 (L div max 1 (workerCount p))) * recoveryReserveFraction p\<rceil>))"
  by (simp_all add: window_budget_def Let_def)

lemma placement_le_worker:
  assumes "limit w = Some L" and "0 \<le> recoveryReserveFraction p"
  shows "the (placementLimit (window_budget p (n, w))) \<le> the (perWorkerLimit (window_budget p (n, w)))"
proof -
  let ?m = "max 0 (L div max 1 (workerCount p))"
  have "0 \<le> rat_of_int ?m * recoveryReserveFraction p" using assms(2) by simp
  then have "0 \<le> \<lceil>rat_of_int ?m * recoveryReserveFraction p\<rceil>" by simp
  then show ?thesis unfolding window_budget_Some [OF assms(1)] option.sel by linarith
qed

lemma lb_send:
  assumes ok: "lb_ok T (l, h)" and t: "T \<le> now" and k: "isOrderEndpoint k"
    and allowed: "bd_allowed (fst (check_budget k now l))" and frac: "0 \<le> recoveryReserveFraction (lb_policy l)"
  shows "lb_ok now (record_request k now (prune now l), h @ [(k, now)])"
proof -
  have rem: "remembers T l h" and kept: "window_kept l h" using ok by (simp_all add: lb_ok_def)
  have remp: "remembers now (prune now l) h" by (rule remembers_prune [OF rem t])
  have hT: "list_all (\<lambda>s. snd s \<le> T) h" using rem by (simp add: remembers_def)
  let ?l1 = "if isRecovery k then (prune now l)\<lparr>recoveryTimes := recoveryTimes (prune now l) @ [now]\<rparr>
             else (prune now l)\<lparr>placementTimes := placementTimes (prune now l) @ [now]\<rparr>"
  have hor: "horizonMs ?l1 = horizonMs l" using prune_frame(1) [of now l] by (simp add: horizonMs_def)
  have "remembers now ?l1 (h @ [(k, now)])"
    using remp unfolding remembers_def hor by (auto simp: sent_times_def)
  from remembers_prune [OF this order_refl] have r: "remembers now (prune now ?l1) (h @ [(k, now)])" .
  have rec: "record_request k now (prune now l) = prune now ?l1" using k by (simp add: record_request_def)
  have fr: "lb_limits (prune now ?l1) = lb_limits l" "lb_policy (prune now ?l1) = lb_policy l" by simp_all
  have "window_kept (prune now ?l1) (h @ [(k, now)])"
    unfolding window_kept_def fr
  proof (intro allI impI)
    fix n w L t' assume w: "(n, w) \<in> set (rate_windows (lb_limits l)) \<and> limit w = Some L"
    let ?b = "window_budget (lb_policy l) (n, w)" and ?cnt = "length (filter (\<lambda>s. now - of_int (spanMs w) < snd s) h)"
    have sp: "spanMs w \<le> horizonMs (prune now l)" using horizon_covers [of n w l] w by simp
    have cnt: "countWithin (spanMs w) now (prune now l) = int ?cnt"
      by (rule countWithin_sent [OF remp order_refl sp])
    have lim: "case ceiling_of k ?b of None \<Rightarrow> False | Some c \<Rightarrow> int ?cnt < c"
      using check_allowed(1) [OF allowed k conjunct1 [OF w] conjunct2 [OF w]] unfolding cnt .
    have pw: "int ?cnt < the (perWorkerLimit ?b)" and pl: "\<not> isRecovery k \<Longrightarrow> int ?cnt < the (placementLimit ?b)"
      using lim placement_le_worker [OF conjunct2 [OF w] frac, of n]
      by (auto simp: ceiling_of_def split: option.splits if_splits)
    have old: "int (length (sent_within (spanMs w) t' h)) \<le> the (perWorkerLimit ?b)"
      "int (length (filter (\<lambda>s. \<not> isRecovery (fst s)) (sent_within (spanMs w) t' h))) \<le> the (placementLimit ?b)"
      using kept w unfolding window_kept_def by blast+
    have rec_only: "isRecovery k \<Longrightarrow> filter (\<lambda>s. \<not> isRecovery (fst s)) (sent_within (spanMs w) t' (h @ [(k, now)])) =
        filter (\<lambda>s. \<not> isRecovery (fst s)) (sent_within (spanMs w) t' h)"
      by (simp add: sent_within_def)
    from sent_within_snoc [OF hT t, of "spanMs w" t' k "\<lambda>s. \<not> isRecovery (fst s)"]
    show "int (length (sent_within (spanMs w) t' (h @ [(k, now)]))) \<le> the (perWorkerLimit ?b) \<and>
        int (length (filter (\<lambda>s. \<not> isRecovery (fst s)) (sent_within (spanMs w) t' (h @ [(k, now)]))))
          \<le> the (placementLimit ?b)"
    proof
      assume "sent_within (spanMs w) t' (h @ [(k, now)]) = sent_within (spanMs w) t' h"
      with old show ?thesis by simp
    next
      assume "length (sent_within (spanMs w) t' (h @ [(k, now)])) \<le> ?cnt + 1 \<and>
        length (filter (\<lambda>s. \<not> isRecovery (fst s)) (sent_within (spanMs w) t' (h @ [(k, now)]))) \<le> ?cnt + 1"
      then show ?thesis using pw pl old(2) rec_only by (cases "isRecovery k") auto
    qed
  qed
  with r rec show ?thesis by (simp add: lb_ok_def)
qed

lemma lb_ok_same:
  assumes "lb_ok T (l, h)" and "T \<le> t"
    and "placementTimes l' = placementTimes l" "recoveryTimes l' = recoveryTimes l"
    "lb_limits l' = lb_limits l" "lb_policy l' = lb_policy l"
  shows "lb_ok t (l', h)"
proof -
  have hor: "horizonMs l' = horizonMs l" by (simp add: horizonMs_def assms)
  have c: "t - of_int (horizonMs l) \<le> c \<Longrightarrow> T - of_int (horizonMs l) \<le> c" for c using assms(2) by linarith
  have "list_all (\<lambda>s. snd s \<le> t) h" using assms(1,2) by (auto simp: lb_ok_def remembers_def list_all_iff)
  with assms(1) c show ?thesis
    unfolding lb_ok_def remembers_def window_kept_def fst_conv snd_conv hor assms(3-6) by blast
qed

lemma lb_ok_prune: "lb_ok T (l, h) \<Longrightarrow> T \<le> t \<Longrightarrow> lb_ok t (prune t l, h)"
  by (auto simp: lb_ok_def window_kept_def intro: remembers_prune)

lemma lb_ok_check: "lb_ok T (l, h) \<Longrightarrow> T \<le> t \<Longrightarrow> lb_ok t (snd (check_budget k t l), h)"
  using check_frame [of k t l] by (auto intro: lb_ok_prune lb_ok_same)

lemma noteRefusal_fields [simp]:
  "placementTimes (noteRefusal k l) = placementTimes l" "recoveryTimes (noteRefusal k l) = recoveryTimes l"
  "lb_limits (noteRefusal k l) = lb_limits l" "lb_policy (noteRefusal k l) = lb_policy l"
  "cooldownUntil (noteRefusal k l) = cooldownUntil l"
  by (simp_all add: noteRefusal_def)

lemma penalize_fields [simp]:
  "placementTimes (penalize t r l) = placementTimes l" "recoveryTimes (penalize t r l) = recoveryTimes l"
  "lb_limits (penalize t r l) = lb_limits l" "lb_policy (penalize t r l) = lb_policy l"
  by (simp_all add: penalize_def Let_def)

lemma check_fields [simp]:
  "lb_limits (snd (check_budget k t l)) = lb_limits l" "lb_policy (snd (check_budget k t l)) = lb_policy l"
  "cooldownUntil (snd (check_budget k t l)) = cooldownUntil l"
  using check_frame [of k t l] by auto

lemma record_fields [simp]:
  "lb_limits (record_request k t l) = lb_limits l" "lb_policy (record_request k t l) = lb_policy l"
  "cooldownUntil (record_request k t l) = cooldownUntil l"
  by (simp_all add: record_request_def)

lemma isRecovery_order: "isRecovery k \<Longrightarrow> isOrderEndpoint k"
  by (auto simp: isRecovery_def isOrderEndpoint_def)

lemma order_place_simps [simp]: "isOrderEndpoint order_place" "\<not> isRecovery order_place"
  by (simp_all add: isOrderEndpoint_def isRecovery_def)

text \<open>The three guards in one form: check, then record and let through, or note the refusal.\<close>

definition guarded :: "BrokerEndpointClass \<Rightarrow> rat \<Rightarrow> RateBudgetLedger \<times> sent_requests \<Rightarrow> RateBudgetLedger \<times> sent_requests" where
  "guarded k t s =
     (if bd_allowed (fst (check_budget k t (fst s)))
      then (record_request k t (snd (check_budget k t (fst s))), snd s @ [(k, t)])
      else (noteRefusal k (snd (check_budget k t (fst s))), snd s))"

lemma lb_step_guarded:
  "lb_step (LB_place t) s = guarded order_place t s"
  "lb_step (LB_recover k t) s = (if isRecovery k then guarded k t s else s)"
  by (cases s; simp add: guarded_def placementBudgetGuard_def reserveRecoveryBudgetOrThrow_def case_prod_beta Let_def)+

lemma guarded_ok:
  assumes "lb_ok T s" "T \<le> t" "isOrderEndpoint k" "0 \<le> recoveryReserveFraction (lb_policy (fst s))"
  shows "lb_ok t (guarded k t s)"
proof (cases "bd_allowed (fst (check_budget k t (fst s)))")
  case True
  obtain l h where s: "s = (l, h)" by (rule prod.exhaust)
  have "snd (check_budget k t l) = prune t l"
    using True assms(3) s by (auto simp: check_budget_def Let_def)
  with lb_send [of T l h t k] assms True s show ?thesis by (simp add: guarded_def)
next
  case False
  obtain l h where s: "s = (l, h)" by (rule prod.exhaust)
  have "lb_ok t (noteRefusal k (snd (check_budget k t l)), h)"
    by (rule lb_ok_same [OF lb_ok_check [OF assms(1) [unfolded s] assms(2)] order_refl]) simp_all
  with False s show ?thesis by (simp add: guarded_def)
qed

lemma guarded_fields [simp]:
  "lb_limits (fst (guarded k t s)) = lb_limits (fst s)" "lb_policy (fst (guarded k t s)) = lb_policy (fst s)"
  "cooldownUntil (fst (guarded k t s)) = cooldownUntil (fst s)"
  by (simp_all add: guarded_def)

lemma lb_step_fields:
  "lb_limits (fst (lb_step e s)) = lb_limits (fst s)" "lb_policy (fst (lb_step e s)) = lb_policy (fst s)"
proof -
  obtain l h where s: "s = (l, h)" by (rule prod.exhaust)
  show "lb_limits (fst (lb_step e s)) = lb_limits (fst s)" "lb_policy (fst (lb_step e s)) = lb_policy (fst s)"
    by (cases e; simp add: lb_step_guarded; simp add: s refusePlacementIfBudgetExhausted_def
        penalizeIfRateLimited_def case_prod_beta)+
qed

lemma lb_ok_step:
  assumes "lb_ok T s" "T \<le> lb_time e" "0 \<le> recoveryReserveFraction (lb_policy (fst s))"
  shows "lb_ok (lb_time e) (lb_step e s)"
proof -
  obtain l h where s: "s = (l, h)" by (rule prod.exhaust)
  note ok = assms(1) [unfolded s]
  show ?thesis
  proof (cases e)
    case (LB_precheck t)
    have 1: "lb_ok t (snd (check_budget order_place t l), h)" by (rule lb_ok_check [OF ok]) (use assms LB_precheck in simp)
    have "lb_ok t (noteRefusal order_place (snd (check_budget order_place t l)), h)"
      by (rule lb_ok_same [OF 1 order_refl]) simp_all
    with 1 LB_precheck s show ?thesis by (simp add: refusePlacementIfBudgetExhausted_def case_prod_beta)
  next
    case (LB_place t)
    then show ?thesis using guarded_ok [OF assms(1), of t order_place] assms by (simp add: lb_step_guarded)
  next
    case (LB_recover k t)
    have "lb_ok t s" unfolding s by (rule lb_ok_same [OF ok]) (use assms LB_recover in simp_all)
    then show ?thesis using LB_recover guarded_ok [OF assms(1), of t k] assms isRecovery_order by (simp add: lb_step_guarded)
  next
    case (LB_throttle st r t)
    have "lb_ok t (penalizeIfRateLimited st r t l, h)"
      by (rule lb_ok_same [OF ok]) (use assms LB_throttle in \<open>simp_all add: penalizeIfRateLimited_def\<close>)
    with LB_throttle s show ?thesis by simp
  qed
qed

lemma lb_ok_run:
  assumes "lb_ok T s" "sorted (T # map lb_time es)" "0 \<le> recoveryReserveFraction (lb_policy (fst s))"
  shows "\<exists>T'. lb_ok T' (fold lb_step es s)"
  using assms
proof (induction es arbitrary: T s)
  case (Cons e es)
  have "lb_ok (lb_time e) (lb_step e s)" using Cons.prems by (intro lb_ok_step) auto
  then show ?case
    using Cons.IH [of "lb_time e" "lb_step e s"] Cons.prems by (simp add: lb_step_fields)
qed auto

lemma lb_run_fields:
  "lb_limits (fst (fold lb_step es s)) = lb_limits (fst s)" "lb_policy (fst (fold lb_step es s)) = lb_policy (fst s)"
  by (induction es arbitrary: s) (simp_all add: lb_step_fields)

lemma resolved_policy:
  "1 \<le> workerCount (resolveOrderBudgetPolicy w r)" "0 \<le> recoveryReserveFraction (resolveOrderBudgetPolicy w r)"
  by (auto simp: resolveOrderBudgetPolicy_def DEFAULT_ORDER_BUDGET_POLICY_def split: jsnum.splits)

lemma lb_ok_new: "lb_ok T (new_budget_ledger lms pol, [])"
  by (simp add: lb_ok_def remembers_def window_kept_def sent_times_def sent_within_def new_budget_ledger_def
      window_budget_Some)

lemma published_nonneg: "(n, w) \<in> set (rate_windows (brokerRateLimits b)) \<Longrightarrow> limit w = Some L \<Longrightarrow> 0 \<le> L"
  by (auto simp: rate_windows_def brokerRateLimits_def zerodha_limits_def dhan_limits_def strictestRateLimits_def
      strictest_window_def split: if_splits)

text \<open>C40. No published window is ever exceeded: for every broker name, every worker count and reserve an
  operator can set, and every sequence of placements, cancels, modifies, pre-checks and throttle signals
  on a clock that does not run backwards, the requests one worker lets through in any span ending at any
  time stay within its share, so the workers together stay within the published limit, and the
  placements among them leave the recovery reserve untouched.\<close>

theorem published_windows_never_exceeded:
  fixes workers reserve :: jsnum and es :: "lb_event list" and brokerName :: string
  assumes "sorted (map lb_time es)"
    and "(n, w) \<in> set (rate_windows (brokerRateLimits brokerName))" and "limit w = Some L"
  defines "policy \<equiv> resolveOrderBudgetPolicy workers reserve"
  defines "h \<equiv> snd (fold lb_step es (new_budget_ledger (brokerRateLimits brokerName) policy, []))"
  shows "workerCount policy * int (length (sent_within (spanMs w) t h)) \<le> L
    \<and> int (length (filter (\<lambda>s. \<not> isRecovery (fst s)) (sent_within (spanMs w) t h)))
        \<le> max 0 (L div workerCount policy
                   - \<lceil>of_int (L div workerCount policy) * recoveryReserveFraction policy\<rceil>)"
proof -
  let ?init = "(new_budget_ledger (brokerRateLimits brokerName) policy, []) :: RateBudgetLedger \<times> sent_requests"
  let ?s = "fold lb_step es ?init"
  have pol: "1 \<le> workerCount policy" "0 \<le> recoveryReserveFraction policy"
    unfolding policy_def by (rule resolved_policy)+
  have f0: "lb_limits (fst ?init) = brokerRateLimits brokerName" "lb_policy (fst ?init) = policy"
    by (simp_all add: new_budget_ledger_def)
  obtain T where "sorted (T # map lb_time es)"
  proof (cases es)
    case (Cons e es')
    then show ?thesis using assms(1) that [of "lb_time e"] by simp
  qed (use that in simp)
  from lb_ok_run [OF lb_ok_new this, of "brokerRateLimits brokerName" policy] pol f0 obtain T' where
    "lb_ok T' ?s" by (auto simp: new_budget_ledger_def)
  then have k: "int (length (sent_within (spanMs w) t h)) \<le> the (perWorkerLimit (window_budget policy (n, w)))"
    "int (length (filter (\<lambda>s. \<not> isRecovery (fst s)) (sent_within (spanMs w) t h)))
       \<le> the (placementLimit (window_budget policy (n, w)))"
    using assms(2,3) unfolding lb_ok_def window_kept_def lb_run_fields f0 h_def by blast+
  have m: "max 1 (workerCount policy) = workerCount policy" using pol by simp
  have L: "0 \<le> L" by (rule published_nonneg [OF assms(2,3)])
  then have "0 \<le> L div workerCount policy" using pol by (simp add: pos_imp_zdiv_nonneg_iff)
  with k have b: "int (length (sent_within (spanMs w) t h)) \<le> L div workerCount policy"
    "int (length (filter (\<lambda>s. \<not> isRecovery (fst s)) (sent_within (spanMs w) t h)))
       \<le> max 0 (L div workerCount policy - \<lceil>of_int (L div workerCount policy) * recoveryReserveFraction policy\<rceil>)"
    unfolding window_budget_Some [OF assms(3)] option.sel m by simp_all
  have "workerCount policy * int (length (sent_within (spanMs w) t h)) \<le> workerCount policy * (L div workerCount policy)"
    using b(1) pol by (simp add: mult_left_mono)
  also have "\<dots> \<le> L" using mult_div_mod_eq [of "workerCount policy" L] pos_mod_sign [of "workerCount policy" L] pol
    by linarith
  finally show ?thesis using b(2) by blast
qed

section \<open>Cooldowns and retry hints\<close>

definition cools_until :: "rat \<Rightarrow> RateBudgetLedger \<Rightarrow> bool" where
  "cools_until u l = (case cooldownUntil l of None \<Rightarrow> False | Some v \<Rightarrow> u \<le> v)"

lemma cools_penalize: "cools_until u l \<Longrightarrow> cools_until u (penalize t r l)"
  by (auto simp: cools_until_def penalize_def Let_def split: option.splits jsnum.splits)

lemma cools_step: "cools_until u (fst s) \<Longrightarrow> cools_until u (fst (lb_step e s))"
  by (cases s; cases e)
     (auto simp: lb_step_guarded refusePlacementIfBudgetExhausted_def penalizeIfRateLimited_def case_prod_beta
        cools_until_def intro: cools_penalize [unfolded cools_until_def])

lemma cooldown_refuses: "cools_until u l \<Longrightarrow> isOrderEndpoint k \<Longrightarrow> t < u \<Longrightarrow> \<not> bd_allowed (fst (check_budget k t l))"
  by (auto simp: check_budget_def cools_until_def in_cooldown_def split: option.splits)

lemma cooled_step:
  assumes "cools_until u (fst s)"
  shows "\<exists>h'. snd (lb_step e s) = snd s @ h' \<and> list_all (\<lambda>x. u \<le> snd x) h'"
proof -
  obtain l h where s: "s = (l, h)" by (rule prod.exhaust)
  have g: "\<exists>h'. snd (guarded k t s) = snd s @ h' \<and> list_all (\<lambda>x. u \<le> snd x) h'" if "isOrderEndpoint k" for k t
    using cooldown_refuses [OF assms that, of t] by (cases "u \<le> t") (auto simp: guarded_def not_le)
  show ?thesis
  proof (cases e)
    case (LB_place t)
    then show ?thesis using g [of order_place t] by (simp add: lb_step_guarded)
  next
    case (LB_recover k t)
    then show ?thesis using g [of k t] isRecovery_order [of k] by (auto simp: lb_step_guarded)
  qed (simp_all add: s)
qed

lemma cooled_run:
  "cools_until u (fst s) \<Longrightarrow> \<exists>h'. snd (fold lb_step es s) = snd s @ h' \<and> list_all (\<lambda>x. u \<le> snd x) h'"
proof (induction es arbitrary: s)
  case (Cons e es)
  obtain h1 where h1: "snd (lb_step e s) = snd s @ h1" "list_all (\<lambda>x. u \<le> snd x) h1"
    using cooled_step [OF Cons.prems] by blast
  obtain h2 where "snd (fold lb_step es (lb_step e s)) = snd (lb_step e s) @ h2" "list_all (\<lambda>x. u \<le> snd x) h2"
    using Cons.IH [OF cools_step [OF Cons.prems]] by blast
  with h1 show ?case by simp
qed simp

text \<open>A throttled account goes quiet: after a 429, whatever requests, further throttle signals with
  shorter or missing hints and pre-checks follow, no order request of any class is let through before
  the announced cooldown ends, or one per-second window when no usable hint came.\<close>

theorem throttle_silences_the_account:
  "list_all (\<lambda>x. t + (case r of Some (Fin c) \<Rightarrow> if 0 < c then c else of_int (spanMs (perSecond (lb_limits (fst s))))
                      | _ \<Rightarrow> of_int (spanMs (perSecond (lb_limits (fst s))))) \<le> snd x)
     (drop (length (snd s)) (snd (fold lb_step es (lb_step (LB_throttle (Some 429) r t) s))))"
proof -
  let ?c = "case r of Some (Fin c) \<Rightarrow> if 0 < c then c else of_int (spanMs (perSecond (lb_limits (fst s))))
                      | _ \<Rightarrow> of_int (spanMs (perSecond (lb_limits (fst s))))"
  obtain l h where s: "s = (l, h)" by (rule prod.exhaust)
  have step: "lb_step (LB_throttle (Some 429) r t) s = (penalize t r l, h)"
    by (simp add: s penalizeIfRateLimited_def isRateLimited_def)
  have "cools_until (t + ?c) (penalize t r l)"
    unfolding s fst_conv by (simp add: cools_until_def penalize_def Let_def split: option.split)
  from cooled_run [of "t + ?c" "(penalize t r l, h)" es] this obtain h' where
    "snd (fold lb_step es (penalize t r l, h)) = h @ h'" "list_all (\<lambda>x. t + ?c \<le> snd x) h'" by auto
  then show ?thesis unfolding step by (simp add: s)
qed

lemma oldest_le:
  assumes "u \<in> set (placementTimes l) \<union> set (recoveryTimes l)" and "now - of_int sp < u"
  shows "oldestInWindow sp now l \<le> u"
proof -
  have mono: "foldl (\<lambda>oldest t. if c < t \<and> t < oldest then t else oldest) a xs \<le> a" for c a :: rat and xs
    by (induction xs arbitrary: a) (auto, meson less_imp_le order_trans)
  have "foldl (\<lambda>oldest t. if c < t \<and> t < oldest then t else oldest) a xs \<le> u"
    if "u \<in> set xs" "c < u" for c a :: rat and xs
    using that
  proof (induction xs arbitrary: a)
    case (Cons x xs)
    show ?case
    proof (cases "u = x")
      case True
      have "foldl (\<lambda>oldest t. if c < t \<and> t < oldest then t else oldest) (if c < x \<and> x < a then x else a) xs
          \<le> (if c < x \<and> x < a then x else a)" by (rule mono)
      also have "\<dots> \<le> u" using True Cons.prems by auto
      finally show ?thesis by simp
    next
      case False
      then show ?thesis using Cons by simp
    qed
  qed simp
  from this [of "placementTimes l @ recoveryTimes l" "now - of_int sp" now] assms show ?thesis
    unfolding oldestInWindow_def Let_def by simp
qed

lemma count_until_hint:
  assumes "now \<le> now'" and "now' < oldestInWindow sp now l + of_int sp"
  shows "countWithin sp now' l = countWithin sp now l"
proof -
  have eq: "(now' - of_int sp < u) = (now - of_int sp < u)"
    if "u \<in> set (placementTimes l) \<union> set (recoveryTimes l)" for u
    using assms oldest_le [OF that, of now sp] by fastforce
  have "filter (\<lambda>u. now' - of_int sp < u) xs = filter (\<lambda>u. now - of_int sp < u) xs"
    if "set xs \<subseteq> set (placementTimes l) \<union> set (recoveryTimes l)" for xs
    using eq that by (intro filter_cong) auto
  then show ?thesis by (simp add: countWithin_def Let_def)
qed

lemma count_prune:
  assumes "sp \<le> horizonMs l"
  shows "countWithin sp t (prune t l) = countWithin sp t l"
proof -
  have "t - of_int (horizonMs l) \<le> t - of_int sp" using assms by simp
  then show ?thesis unfolding countWithin_def prune_def Let_def by (simp add: filter_dropWhile_le)
qed

lemma check_windows_refused:
  assumes "\<not> bd_allowed (check_windows k t l bs)"
  shows "\<exists>b\<in>set bs. \<exists>c. accountLimit b \<noteq> None \<and> ceiling_of k b = Some c \<and> c \<le> countWithin (pb_spanMs b) t l
    \<and> retryAtMs (check_windows k t l bs) = Some (oldestInWindow (pb_spanMs b) t l + of_int (pb_spanMs b))"
  using assms by (induction bs) (auto split: option.splits if_splits)

lemma allowed_unbound: "bd_allowed (check_windows k t l bs) \<Longrightarrow> bindingWindow (check_windows k t l bs) = None"
  by (induction bs) (auto split: option.splits if_splits)

text \<open>A retry before the hint is pointless: when a check is refused by a window, every check of the
  same class before the retry time it announced is refused again.\<close>

theorem retry_hint_is_never_early:
  assumes "bindingWindow (fst (check_budget k now l)) \<noteq> None" and "retryAtMs (fst (check_budget k now l)) = Some r"
    and "now \<le> now'" and "now' < r"
  shows "\<not> bd_allowed (fst (check_budget k now' (snd (check_budget k now l))))"
proof -
  have k: "isOrderEndpoint k" and cd: "\<not> in_cooldown now l"
    using assms(1) by (auto simp: check_budget_def split: if_splits)
  let ?l = "prune now l" and ?bs = "placementBudgets (lb_limits l) (lb_policy l)"
  have eq: "check_budget k now l = (check_windows k now ?l ?bs, ?l)"
    using k cd by (simp add: check_budget_def Let_def)
  have "\<not> bd_allowed (check_windows k now ?l ?bs)"
    using assms(1) allowed_unbound [of k now ?l ?bs] eq by auto
  from check_windows_refused [OF this] assms(2) eq obtain b c where b: "b \<in> set ?bs" "accountLimit b \<noteq> None"
    "ceiling_of k b = Some c" "c \<le> countWithin (pb_spanMs b) now ?l"
    "r = oldestInWindow (pb_spanMs b) now ?l + of_int (pb_spanMs b)" by auto
  have "countWithin (pb_spanMs b) now' ?l = countWithin (pb_spanMs b) now ?l"
    by (rule count_until_hint [OF assms(3)]) (use assms(4) b(5) in simp)
  moreover have "pb_spanMs b \<le> horizonMs ?l"
  proof -
    from b(1,2) obtain n w where "(n, w) \<in> set (rate_windows (lb_limits l))" "limit w \<noteq> None" "pb_spanMs b = spanMs w"
      by (auto simp: placementBudgets_def window_budget_def Let_def split: option.splits)
    with horizon_covers [of n w l] show ?thesis by simp
  qed
  ultimately have "c \<le> countWithin (pb_spanMs b) now' (prune now' ?l)" using b(4) by (simp add: count_prune)
  with b(1,2,3) have "\<not> bd_allowed (check_windows k now' (prune now' ?l) ?bs)"
    unfolding check_windows_allowed by (auto simp: list_all_iff intro!: bexI [of _ b])
  then show ?thesis using k unfolding eq snd_conv by (simp add: check_budget_def Let_def)
qed

section \<open>Many workers\<close>

text \<open>From six workers on, the default reserve forbids entry: a worker's share of the published ten
  requests a second is then at most one, the reserve rounds up to all of it, and every placement is
  refused at every time, even if nothing was ever sent; from eleven workers on every cancel and every
  modification is refused too.\<close>

theorem many_workers_starve:
  assumes "6 \<le> w" and "lb_limits l = brokerRateLimits brokerName"
    and "lb_policy l = resolveOrderBudgetPolicy (js_int w) NaN"
  shows "\<not> bd_allowed (fst (check_budget order_place now l))
    \<and> (if 11 \<le> w \<and> isRecovery k then \<not> bd_allowed (fst (check_budget k now l)) else True)"
proof -
  have pol: "lb_policy l = \<lparr>workerCount = w, recoveryReserveFraction = 1 / 5\<rparr>"
    using assms(1) unfolding assms(3) by (simp add: resolveOrderBudgetPolicy_def DEFAULT_ORDER_BUDGET_POLICY_def)
  let ?b = "window_budget (lb_policy l) (w_perSecond, perSecond (brokerRateLimits brokerName))"
  have mem: "?b \<in> set (placementBudgets (lb_limits l) (lb_policy l))"
    by (simp add: placementBudgets_def rate_windows_def assms(2))
  have acc: "accountLimit ?b = Some 10" by (simp add: window_budget_def Let_def perSecond_limit)
  have share: "10 div w = 0 \<or> 10 div w = 1"
  proof -
    have "10 div w \<le> 10 div 6" using assms(1) by (intro zdiv_mono2) simp_all
    moreover have "0 \<le> 10 div w" using assms(1) by (simp add: pos_imp_zdiv_nonneg_iff)
    ultimately show ?thesis by linarith
  qed
  have place: "ceiling_of order_place ?b = Some 0"
    using share assms(1) by (auto simp: ceiling_of_def window_budget_Some [OF perSecond_limit] pol)
  have recover: "ceiling_of k ?b = Some 0" if "11 \<le> w" "isRecovery k"
    using that by (simp add: ceiling_of_def window_budget_Some [OF perSecond_limit] pol)
  have "\<not> bd_allowed (fst (check_budget k' now l))" if "ceiling_of k' ?b = Some 0" "isOrderEndpoint k'" for k'
  proof -
    have "0 \<le> countWithin (pb_spanMs ?b) now (prune now l)" by (simp add: countWithin_def Let_def)
    with that(1) acc mem have "\<not> bd_allowed (check_windows k' now (prune now l) (placementBudgets (lb_limits l) (lb_policy l)))"
      unfolding check_windows_allowed list_all_iff by fastforce
    with that(2) show ?thesis by (simp add: check_budget_def Let_def)
  qed
  with place recover isRecovery_order show ?thesis by simp
qed

section \<open>Witnesses\<close>

definition sample_calls :: "paced_call list" where
  "sample_calls = [(order_mutation, 0, 0), (general_class, 10, 110), (order_mutation, 120, 220)]"

lemma sample_served_zerodha: "served (new_pacer (resolveBrokerPacing '' Zerodha'' (Fin 50) (Fin 20))) sample_calls"
  by code_simp

theorem pacer_keeps_published_rate_witness:
  "served (new_pacer (resolveBrokerPacing '' Zerodha'' (Fin 50) (Fin 20))) sample_calls \<and>
   (case limit (perSecond (brokerRateLimits '' Zerodha'')) of
      None \<Rightarrow> False
    | Some l \<Rightarrow> int (length (filter (\<lambda>c. 0 \<le> call_start c \<and> call_start c < 0 + of_int SECOND) sample_calls)) \<le> l)"
  using sample_served_zerodha pacer_keeps_published_rate [OF sample_served_zerodha, of 0] by blast

definition sample_budget_events :: "lb_event list" where
  "sample_budget_events = [LB_place 0, LB_place 1, LB_recover order_cancel 2, LB_throttle (Some 429) None 3, LB_place 4]"

theorem published_windows_never_exceeded_witness:
  "sorted (map lb_time sample_budget_events) \<and>
   1 * int (length (sent_within (spanMs (perSecond (brokerRateLimits ''dhan''))) 5
        (snd (fold lb_step sample_budget_events
          (new_budget_ledger (brokerRateLimits ''dhan'') (resolveOrderBudgetPolicy NaN NaN), []))))) \<le> 10"
proof -
  have s: "sorted (map lb_time sample_budget_events)" by (simp add: sample_budget_events_def)
  have "(w_perSecond, perSecond (brokerRateLimits ''dhan'')) \<in> set (rate_windows (brokerRateLimits ''dhan''))"
    by (simp add: rate_windows_def)
  from published_windows_never_exceeded [OF s this perSecond_limit, of NaN NaN 5] s show ?thesis
    by (simp add: resolveOrderBudgetPolicy_def)
qed

definition sample_full_ledger :: RateBudgetLedger where
  "sample_full_ledger =
     (new_budget_ledger (brokerRateLimits ''dhan'') (resolveOrderBudgetPolicy NaN NaN))
       \<lparr>placementTimes := [0, 1, 2, 3, 4, 5, 6, 7]\<rparr>"

theorem retry_hint_is_never_early_witness:
  "retryAtMs (fst (check_budget order_place 500 sample_full_ledger)) = Some 1000 \<and>
   \<not> bd_allowed (fst (check_budget order_place 999 (snd (check_budget order_place 500 sample_full_ledger))))"
proof -
  have 1: "bindingWindow (fst (check_budget order_place 500 sample_full_ledger)) \<noteq> None" by code_simp
  have 2: "retryAtMs (fst (check_budget order_place 500 sample_full_ledger)) = Some 1000" by code_simp
  from retry_hint_is_never_early [OF 1 2] 2 show ?thesis by simp
qed

theorem many_workers_starve_witness:
  "\<not> bd_allowed (fst (check_budget order_cancel 0
       (new_budget_ledger (brokerRateLimits ''dhan'') (resolveOrderBudgetPolicy (js_int 11) NaN))))"
  using many_workers_starve [of 11 "new_budget_ledger (brokerRateLimits ''dhan'') (resolveOrderBudgetPolicy (js_int 11) NaN)"
      "''dhan''" 0 order_cancel]
  by (simp add: new_budget_ledger_def isRecovery_def)

end
