(* ===== verification/Process_Identity.thy ===== *)
theory Process_Identity
  imports Box_Prelude
begin

text \<open>
  Owner identity of a process, \<^verbatim>\<open>src/box/reservations/identity.ts\<close>.  The environment variables, the host
  name, the process id and the random UUIDs are arguments; strings are ASCII.

  The lemmas show that sanitised labels contain no separator, so that an owner id can be read back
  into the parts it was minted from, and that the ownership test recognises exactly its own process.
\<close>

section \<open>Labels\<close>

definition label_safe :: "char \<Rightarrow> bool" where
  "label_safe c =
     (let n = (of_char c :: nat)
      in 65 \<le> n \<and> n \<le> 90 \<or> 97 \<le> n \<and> n \<le> 122 \<or> 48 \<le> n \<and> n \<le> 57 \<or> c = CHR ''.'' \<or> c = CHR ''_'' \<or> c = CHR ''-'')"

function replace_unsafe :: "string \<Rightarrow> string" where
  "replace_unsafe [] = []"
| "replace_unsafe (c # cs) =
     (if label_safe c then c # replace_unsafe cs
      else CHR ''-'' # replace_unsafe (dropWhile (\<lambda>d. \<not> label_safe d) cs))"
  by pat_completeness auto
termination by (relation "measure length") (auto simp: le_imp_less_Suc length_dropWhile_le)

definition strip_dashes :: "string \<Rightarrow> string" where
  "strip_dashes s =
     rev (dropWhile (\<lambda>c. c = CHR ''-'') (rev (dropWhile (\<lambda>c. c = CHR ''-'') s)))"

definition sanitiseLabel :: "string \<Rightarrow> string \<Rightarrow> nat \<Rightarrow> string" where
  "sanitiseLabel raw fallback maxLength =
     (let cleaned = strip_dashes (replace_unsafe (js_trim raw))
      in if cleaned = [] then fallback else take maxLength cleaned)"

text \<open>An environment variable after \<^verbatim>\<open>?.trim()\<close>, absent when it is empty.\<close>

definition env_value :: "string option \<Rightarrow> string option" where
  "env_value v = (case v of None \<Rightarrow> None | Some s \<Rightarrow> if js_trim s = [] then None else Some (js_trim s))"

record process_env =
  CALSPREAD_DEPLOYMENT_ID :: "string option"
  CALSPREAD_INSTANCE_ID :: "string option"
  NODE_ENV :: "string option"
  NODE_APP_INSTANCE :: "string option"

definition resolveDeploymentId :: "process_env \<Rightarrow> string" where
  "resolveDeploymentId env =
     (case env_value (CALSPREAD_DEPLOYMENT_ID env) of
        Some explicit \<Rightarrow> sanitiseLabel explicit ''development'' 64
      | None \<Rightarrow>
          case env_value (NODE_ENV env) of
            Some nodeEnv \<Rightarrow> sanitiseLabel nodeEnv ''development'' 64
          | None \<Rightarrow> ''development'')"

definition isDeploymentIdExplicit :: "process_env \<Rightarrow> bool" where
  "isDeploymentIdExplicit env = (env_value (CALSPREAD_DEPLOYMENT_ID env) \<noteq> None)"

section \<open>Identities\<close>

record ProcessIdentity =
  pi_deployment :: string
  pi_instance :: string
  pi_pid :: nat
  pi_boot :: string
  pi_processTag :: string

definition createProcessIdentity :: "process_env \<Rightarrow> string \<Rightarrow> nat \<Rightarrow> string \<Rightarrow> ProcessIdentity" where
  "createProcessIdentity env host pid uuid =
     (let instanceName =
            sanitiseLabel
              (case env_value (CALSPREAD_INSTANCE_ID env) of
                 Some i \<Rightarrow> i | None \<Rightarrow> if host = [] then ''unknown-host'' else host)
              ''unknown-host'' 40;
          label = (case env_value (NODE_APP_INSTANCE env) of
                     Some worker \<Rightarrow> sanitiseLabel (instanceName @ ''-w'' @ worker) instanceName 48
                   | None \<Rightarrow> instanceName);
          boot = take 8 (filter (\<lambda>c. c \<noteq> CHR ''-'') uuid)
      in \<lparr>pi_deployment = resolveDeploymentId env, pi_instance = label, pi_pid = pid, pi_boot = boot,
          pi_processTag = label @ '':p'' @ js_string_of_nat pid @ '':'' @ boot\<rparr>)"

text \<open>\<^verbatim>\<open>n.toString(36)\<close>.\<close>

definition digit36 :: "nat \<Rightarrow> char" where
  "digit36 d = (if d < 10 then char_of (48 + d) else char_of (87 + d))"

fun to_string36 :: "nat \<Rightarrow> string" where
  "to_string36 n = (if n < 36 then [digit36 n] else to_string36 (n div 36) @ [digit36 (n mod 36)])"

declare to_string36.simps [simp del]

definition mintOwnerId :: "string \<Rightarrow> string \<Rightarrow> string \<Rightarrow> nat \<Rightarrow> string \<Rightarrow> string" where
  "mintOwnerId deployment processTag kind seq uuid =
     deployment @ '':'' @ processTag @ '':'' @ sanitiseLabel kind ''exec'' 16 @ ''-'' @ to_string36 seq
       @ '':'' @ uuid"

definition processOwnerPrefix :: "ProcessIdentity \<Rightarrow> string" where
  "processOwnerPrefix i = pi_deployment i @ '':'' @ pi_processTag i @ '':''"

definition isOwnedByProcess :: "string \<Rightarrow> ProcessIdentity \<Rightarrow> bool" where
  "isOwnedByProcess owner i = (take (length (processOwnerPrefix i)) owner = processOwnerPrefix i)"

section \<open>Labels contain no separator\<close>

lemma colon_unsafe: "label_safe c \<Longrightarrow> c \<noteq> CHR '':''"
  by (auto simp: label_safe_def Let_def)

lemma replace_unsafe_safe: "list_all label_safe (replace_unsafe s)"
  by (induction s rule: replace_unsafe.induct) (auto simp: label_safe_def)

lemma list_all_sub: "set t \<subseteq> set s \<Longrightarrow> list_all P s \<Longrightarrow> list_all P t"
  by (auto simp: list_all_iff)

lemma set_strip_dashes: "set (strip_dashes s) \<subseteq> set s"
  unfolding strip_dashes_def by (auto dest!: set_dropWhileD)

lemma sanitise_safe: "list_all label_safe fallback \<Longrightarrow> list_all label_safe (sanitiseLabel raw fallback n)"
  unfolding sanitiseLabel_def Let_def
  by (auto intro!: list_all_sub [OF _ replace_unsafe_safe] dest!: in_set_takeD subsetD [OF set_strip_dashes])

lemma sanitise_bounded: "length fallback \<le> n \<Longrightarrow> length (sanitiseLabel raw fallback n) \<le> n"
  by (simp add: sanitiseLabel_def Let_def)

lemma safe_no_colon: "list_all label_safe s \<Longrightarrow> CHR '':'' \<notin> set s"
  using colon_unsafe by (auto simp: list_all_iff)

lemma digit36_no_colon: "d < 36 \<Longrightarrow> digit36 d \<noteq> CHR '':''"
proof
  assume "d < 36" and "digit36 d = CHR '':''"
  then have "(of_char (digit36 d) :: nat) = of_char CHR '':''" by simp
  with \<open>d < 36\<close> show False by (auto simp: digit36_def of_char_of split: if_splits)
qed

lemma to_string36_no_colon: "CHR '':'' \<notin> set (to_string36 n)"
proof (induction n rule: to_string36.induct)
  case (1 n)
  then show ?case using digit36_no_colon [of n] digit36_no_colon [of "n mod 36"]
    by (subst to_string36.simps) (auto split: if_splits)
qed

lemma decimal_no_colon:
  assumes "d < 10" shows "CHR '':'' \<noteq> (char_of (48 + d :: nat) :: char)"
proof
  assume "CHR '':'' = (char_of (48 + d) :: char)"
  then have "(of_char (char_of (48 + d) :: char) :: nat) = of_char CHR '':''" by (simp only:)
  with assms show False by (simp add: of_char_of)
qed

lemma js_string_no_colon: "CHR '':'' \<notin> set (js_string_of_nat n)"
proof (induction n rule: js_string_of_nat.induct)
  case (1 n)
  show ?case
  proof (cases "n < 10")
    case True
    have "CHR '':'' \<notin> {char_of (48 + n)}" using decimal_no_colon [OF True] by blast
    with True show ?thesis by (subst js_string_of_nat.simps) (simp only: if_True list.set simp_thms)
  next
    case False
    have "n mod 10 < 10" by simp
    from decimal_no_colon [OF this] have "CHR '':'' \<notin> {char_of (48 + n mod 10)}" by blast
    with False 1 show ?thesis
      by (subst js_string_of_nat.simps) (simp only: if_False list.set set_append Un_iff simp_thms)
  qed
qed

lemma deployment_safe: "list_all label_safe (resolveDeploymentId env)"
proof -
  have "list_all label_safe ''development''" by code_simp
  then show ?thesis
    by (auto simp: resolveDeploymentId_def intro: sanitise_safe split: option.split)
qed

lemma instance_safe: "list_all label_safe (pi_instance (createProcessIdentity env host pid uuid))"
proof -
  have u: "list_all label_safe ''unknown-host''" by code_simp
  show ?thesis
    by (auto simp: createProcessIdentity_def Let_def intro!: sanitise_safe u split: option.split)
qed

lemma kind_no_colon: "CHR '':'' \<notin> set (sanitiseLabel kind ''exec'' 16)"
proof -
  have "list_all label_safe ''exec''" by code_simp
  then show ?thesis by (intro safe_no_colon sanitise_safe)
qed

section \<open>Reading an owner id back\<close>

lemma split_owner:
  assumes "CHR '':'' \<notin> set u" and "i = createProcessIdentity env host pid boot" and "CHR '':'' \<notin> set boot"
  shows "js_split (CHR '':'') (mintOwnerId (pi_deployment i) (pi_processTag i) kind n u) =
    [pi_deployment i, pi_instance i, ''p'' @ js_string_of_nat (pi_pid i), pi_boot i,
     sanitiseLabel kind ''exec'' 16 @ ''-'' @ to_string36 n, u]"
proof -
  have d: "CHR '':'' \<notin> set (pi_deployment i)"
    using safe_no_colon [OF deployment_safe] by (simp add: assms(2) createProcessIdentity_def Let_def)
  have l: "CHR '':'' \<notin> set (pi_instance i)"
    using safe_no_colon [OF instance_safe] by (simp add: assms(2))
  have b: "CHR '':'' \<notin> set (pi_boot i)"
    using assms(3) by (auto simp: assms(2) createProcessIdentity_def Let_def dest!: in_set_takeD)
  have tag: "pi_processTag i = pi_instance i @ CHR '':'' # (''p'' @ js_string_of_nat (pi_pid i)) @ CHR '':'' # pi_boot i"
    by (simp add: assms(2) createProcessIdentity_def Let_def)
  have p: "CHR '':'' \<notin> set (''p'' @ js_string_of_nat (pi_pid i))"
    using js_string_no_colon by simp
  have k: "CHR '':'' \<notin> set (sanitiseLabel kind ''exec'' 16 @ ''-'' @ to_string36 n)"
    using kind_no_colon to_string36_no_colon by simp
  have "mintOwnerId (pi_deployment i) (pi_processTag i) kind n u =
      pi_deployment i @ CHR '':'' # pi_instance i @ CHR '':'' # (''p'' @ js_string_of_nat (pi_pid i)) @ CHR '':''
        # pi_boot i @ CHR '':'' # (sanitiseLabel kind ''exec'' 16 @ ''-'' @ to_string36 n) @ CHR '':'' # u"
    by (simp add: mintOwnerId_def tag)
  then show ?thesis
    by (simp only: js_split_append_sep [OF d] js_split_append_sep [OF l] js_split_append_sep [OF p]
        js_split_append_sep [OF b] js_split_append_sep [OF k] js_split_no_sep [OF assms(1)])
qed

lemma prefix_split:
  assumes "isOwnedByProcess owner j" and "j = createProcessIdentity env host pid boot" and "CHR '':'' \<notin> set boot"
  shows "take 4 (js_split (CHR '':'') owner) =
    [pi_deployment j, pi_instance j, ''p'' @ js_string_of_nat (pi_pid j), pi_boot j]"
proof -
  have d: "CHR '':'' \<notin> set (pi_deployment j)"
    using safe_no_colon [OF deployment_safe] by (simp add: assms(2) createProcessIdentity_def Let_def)
  have l: "CHR '':'' \<notin> set (pi_instance j)"
    using safe_no_colon [OF instance_safe] by (simp add: assms(2))
  have b: "CHR '':'' \<notin> set (pi_boot j)"
    using assms(3) by (auto simp: assms(2) createProcessIdentity_def Let_def dest!: in_set_takeD)
  have p: "CHR '':'' \<notin> set (''p'' @ js_string_of_nat (pi_pid j))"
    using js_string_no_colon by simp
  have tag: "pi_processTag j = pi_instance j @ CHR '':'' # (''p'' @ js_string_of_nat (pi_pid j)) @ CHR '':'' # pi_boot j"
    by (simp add: assms(2) createProcessIdentity_def Let_def)
  obtain rest where "owner = processOwnerPrefix j @ rest"
    using assms(1) unfolding isOwnedByProcess_def by (metis append_take_drop_id)
  then have "owner = pi_deployment j @ CHR '':'' # pi_instance j @ CHR '':'' #
      (''p'' @ js_string_of_nat (pi_pid j)) @ CHR '':'' # pi_boot j @ CHR '':'' # rest"
    by (simp add: processOwnerPrefix_def tag)
  then show ?thesis
    by (simp only: js_split_append_sep [OF d] js_split_append_sep [OF l] js_split_append_sep [OF p]
        js_split_append_sep [OF b]) simp
qed

lemma minted_prefix: "isOwnedByProcess (mintOwnerId (pi_deployment i) (pi_processTag i) kind n u) i"
  by (simp add: isOwnedByProcess_def processOwnerPrefix_def mintOwnerId_def)

text \<open>Owner ids tell processes apart: whatever the environment of two processes, an id minted by one
  is recognised as its own by the other exactly if deployment, instance, process id and boot token all
  agree, and two minted ids are equal only if they come from the same process and the same UUID.\<close>

theorem owner_ids_tell_processes_apart:
  fixes boot boot' u u' host host' :: string and env env' :: process_env and pid pid' :: nat
  assumes "CHR '':'' \<notin> set boot" and "CHR '':'' \<notin> set boot'" and "CHR '':'' \<notin> set u" and "CHR '':'' \<notin> set u'"
  defines "i \<equiv> createProcessIdentity env host pid boot" and "j \<equiv> createProcessIdentity env' host' pid' boot'"
  shows "(isOwnedByProcess (mintOwnerId (pi_deployment i) (pi_processTag i) kind n u) j \<longleftrightarrow>
      pi_deployment i = pi_deployment j \<and> pi_instance i = pi_instance j \<and> pi_pid i = pi_pid j \<and> pi_boot i = pi_boot j)
    \<and> (mintOwnerId (pi_deployment i) (pi_processTag i) kind n u = mintOwnerId (pi_deployment j) (pi_processTag j) kind' n' u'
        \<longrightarrow> pi_deployment i = pi_deployment j \<and> pi_processTag i = pi_processTag j \<and> u = u')"
proof -
  note si = split_owner [OF assms(3) i_def [THEN meta_eq_to_obj_eq] assms(1)]
    and sj = split_owner [OF assms(4) j_def [THEN meta_eq_to_obj_eq] assms(2)]
  have tags: "pi_processTag k = pi_instance k @ '':p'' @ js_string_of_nat (pi_pid k) @ '':'' @ pi_boot k"
    if "k = i \<or> k = j" for k
    using that by (auto simp: i_def j_def createProcessIdentity_def Let_def)
  have same: "isOwnedByProcess (mintOwnerId (pi_deployment i) (pi_processTag i) kind n u) j"
    if "pi_deployment i = pi_deployment j" "pi_instance i = pi_instance j" "pi_pid i = pi_pid j" "pi_boot i = pi_boot j"
  proof -
    have "pi_processTag i = pi_processTag j" by (simp only: tags [of i] tags [of j] that simp_thms)
    with minted_prefix [of j kind n u] show ?thesis by (simp only: that(1))
  qed
  have other: "pi_deployment i = pi_deployment j \<and> pi_instance i = pi_instance j \<and> pi_pid i = pi_pid j \<and> pi_boot i = pi_boot j"
    if "isOwnedByProcess (mintOwnerId (pi_deployment i) (pi_processTag i) kind n u) j"
    using prefix_split [OF that j_def [THEN meta_eq_to_obj_eq] assms(2)] js_string_of_nat_inj
    by (auto simp: si)
  have "pi_deployment i = pi_deployment j \<and> pi_processTag i = pi_processTag j \<and> u = u'"
    if "mintOwnerId (pi_deployment i) (pi_processTag i) kind n u = mintOwnerId (pi_deployment j) (pi_processTag j) kind' n' u'"
  proof -
    have parts: "pi_deployment i = pi_deployment j" "pi_instance i = pi_instance j"
      "''p'' @ js_string_of_nat (pi_pid i) = ''p'' @ js_string_of_nat (pi_pid j)" "pi_boot i = pi_boot j" "u = u'"
      using arg_cong [OF that, of "js_split (CHR '':'')", unfolded si sj] by simp_all
    have "js_string_of_nat (pi_pid i) = js_string_of_nat (pi_pid j)" using parts(3) by simp
    then have "pi_processTag i = pi_processTag j"
      by (simp only: tags [of i] tags [of j] parts(2,4) simp_thms)
    with parts show ?thesis by blast
  qed
  with same other show ?thesis by blast
qed

definition sample_env :: process_env where
  "sample_env = \<lparr>CALSPREAD_DEPLOYMENT_ID = Some '' prod:mumbai '', CALSPREAD_INSTANCE_ID = None,
     NODE_ENV = None, NODE_APP_INSTANCE = Some ''1''\<rparr>"

definition sample_identity :: "nat \<Rightarrow> ProcessIdentity" where
  "sample_identity pid = createProcessIdentity sample_env ''ip-10-0-0-1'' pid ''9f2c1e00-aa''"

theorem owner_ids_tell_processes_apart_witness:
  "mintOwnerId (pi_deployment (sample_identity 7)) (pi_processTag (sample_identity 7)) ''entry'' 40 ''u''
       = ''prod-mumbai:ip-10-0-0-1-w1:p7:9f2c1e00:entry-14:u''
    \<and> \<not> isOwnedByProcess (mintOwnerId (pi_deployment (sample_identity 7)) (pi_processTag (sample_identity 7))
           ''entry'' 40 ''u'') (sample_identity 8)"
proof -
  have pid: "pi_pid (sample_identity k) = k" for k
    by (simp add: sample_identity_def createProcessIdentity_def Let_def)
  have "CHR '':'' \<notin> set ''9f2c1e00-aa''" "CHR '':'' \<notin> set ''u''" by simp_all
  from owner_ids_tell_processes_apart [OF this(1) this(1) this(2) this(2), of sample_env "''ip-10-0-0-1''" 7
      "''entry''" 40 sample_env "''ip-10-0-0-1''" 8]
  have "\<not> isOwnedByProcess (mintOwnerId (pi_deployment (sample_identity 7)) (pi_processTag (sample_identity 7))
           ''entry'' 40 ''u'') (sample_identity 8)"
    using pid [of 7] pid [of 8] unfolding sample_identity_def by auto
  moreover have "mintOwnerId (pi_deployment (sample_identity 7)) (pi_processTag (sample_identity 7)) ''entry'' 40 ''u''
       = ''prod-mumbai:ip-10-0-0-1-w1:p7:9f2c1e00:entry-14:u''"
    by code_simp
  ultimately show ?thesis by simp
qed

end
