(* ===== verification/Execution_Coordinator.thy ===== *)
theory Execution_Coordinator
  imports Instrument_Key Reservation_Types Underlying_Lock Process_Identity "HOL-Library.AList" "HOL-Library.Word"
begin

text \<open>
  The execution coordinator, \<^verbatim>\<open>src/box/executionCoordinator.ts\<close>: the gateway that takes the contract
  reservation and the underlying lock before an entry or an exit reaches the order path, renews what
  it holds and decides what is released.

  Its methods are asynchronous.  A call in flight is a \<open>phase\<close>: the point at which it awaits, with the
  local variables it still needs.  One event resumes one call and runs the code up to its next await;
  everything the code reads from outside at that moment (clock, broker, generation, activity table,
  session verdict, current quotes) is the event's \<open>environment\<close>, and the answer it awaited an argument.
  The reservation stores, the inner gateway and the attempt counter are code the coordinator is given:
  their calls are entries of \<open>co_calls\<close>.  Their \<^verbatim>\<open>release\<close> and \<^verbatim>\<open>clear\<close> do not reject.  A call is
  named by the sequence number \<^verbatim>\<open>mintId\<close> gives it.  Log lines, wait samples, metrics and texts are left out.

  The lemmas show under which reservation an entry reaches the order path, that one process never runs
  two entries on one underlying, how long the lock of an open or ambiguous Box lasts, that every lease
  held is being renewed, and what stops an entry whose lease is lost.
\<close>

unbundle bit_operations_syntax

section \<open>Configuration, environment and results\<close>

record coord_config =
  executionCoordinatorEnabled :: bool
  reservationRequireDurable :: bool
  oneActiveBoxPerUnderlying :: bool
  maxConcurrentPerUnderlying :: int
  conflictWaitMaxMs :: int
  instrumentLockTtlMs :: jsnum
  conflictRevalidateMinEdgeRatio :: rat
  reservationOwnershipMarginMs :: int
  reservationUncertainHoldMaxMs :: int
  cc_mode :: string
  cc_storeDurable :: bool
  cc_hasLocal :: bool
  cc_localIsStore :: bool
  cc_hasSessionGate :: bool
  cc_hasConsumeAttempt :: bool
  cc_deployment :: string
  cc_processTag :: string
  cc_uuid :: "nat \<Rightarrow> string"

record environment =
  en_now :: int
  en_broker :: string
  en_generation :: int
  en_active :: "(string \<times> UnderlyingActivity) list"
  en_sessionAllowed :: bool
  en_tradable :: bool
  en_edge :: "rat option"

definition live_mode :: "coord_config \<Rightarrow> bool" where
  "live_mode cfg = (cc_mode cfg = ''live'')"

datatype BoxExecutionFailureReason =
    FR_price_moved | FR_insufficient_quantity | FR_missing_book | FR_feed_unhealthy | FR_market_closed
  | FR_edge_disappeared | FR_below_expected_net_profit | FR_discovery_stopped | FR_duplicate
  | FR_legging_incomplete | FR_unwind_failed | FR_cross_leg_time_skew | FR_abort_after_fill
  | FR_box_capital_limit | FR_underlying_already_active | FR_session_limit_reached

text \<open>What the inner gateway returns, as far as the coordinator reads it; a residual is its length.\<close>

record inner_result =
  xr_ok :: bool
  xr_reason :: "BoxExecutionFailureReason option"
  xr_leggingResidual :: "nat option"
  xr_recordResidual :: "nat option"
  xr_tradeId :: "string option"

definition uncertaintyOf :: "inner_result \<Rightarrow> bool" where
  "uncertaintyOf r =
     (let residual = (case xr_leggingResidual r of Some n \<Rightarrow> Some n | None \<Rightarrow> xr_recordResidual r)
      in if (case residual of Some n \<Rightarrow> 0 < n | None \<Rightarrow> False) then True
         else if xr_ok r then False
         else xr_reason r = Some FR_legging_incomplete \<or> xr_reason r = Some FR_unwind_failed)"

datatype revalidation_failure = not_tradable | edge_unpriced | edge_gone | edge_deteriorated

datatype coord_refusal =
    Not_durable | Identical_running nat | Session_refused | Attempt_uncounted
  | Underlying_active | Underlying_locked | Budget_reached | Authority_unavailable
  | Waited_out | Revalidation_failed revalidation_failure | No_reservation
  | Stale_generation | Ownership_lost | Exit_conflict nat | Exit_unavailable

fun refusal_reason :: "coord_refusal \<Rightarrow> BoxExecutionFailureReason" where
  "refusal_reason Not_durable = FR_feed_unhealthy"
| "refusal_reason (Identical_running n) = FR_duplicate"
| "refusal_reason Session_refused = FR_session_limit_reached"
| "refusal_reason Attempt_uncounted = FR_session_limit_reached"
| "refusal_reason Underlying_active = FR_underlying_already_active"
| "refusal_reason Underlying_locked = FR_underlying_already_active"
| "refusal_reason Budget_reached = FR_duplicate"
| "refusal_reason Authority_unavailable = FR_feed_unhealthy"
| "refusal_reason Waited_out = FR_price_moved"
| "refusal_reason (Revalidation_failed f) = FR_edge_disappeared"
| "refusal_reason No_reservation = FR_feed_unhealthy"
| "refusal_reason Stale_generation = FR_feed_unhealthy"
| "refusal_reason Ownership_lost = FR_feed_unhealthy"
| "refusal_reason (Exit_conflict n) = FR_insufficient_quantity"
| "refusal_reason Exit_unavailable = FR_insufficient_quantity"

datatype call_outcome = Refused coord_refusal | Threw | Completed inner_result

datatype AcquireResult =
    Acquired ReservationLease
  | Conflicting "InstrumentConflict list"
  | No_authority string

section \<open>State\<close>

record ActiveExecution =
  ae_keys :: "string list"
  ae_underlying :: string
  ae_lease :: "ReservationLease option"
  ae_context :: ReservationContext
  ae_ownershipLost :: bool
  ae_ownershipLossReason :: "RenewFailure option"
  ae_opportunityId :: "string option"

datatype hold_reason = entry_threw | exit_threw | uncertain_terminal_state

record UncertainHold =
  uh_lease :: ReservationLease
  uh_context :: ReservationContext
  uh_keys :: "string list"
  uh_heldSince :: int
  uh_reason :: hold_reason

datatype holder = pipeline_holder nat | trade_holder string | residual_holder string

record PositionUnderlyingClaim =
  pc_owner :: nat
  pc_lease :: ReservationLease
  pc_context :: ReservationContext
  pc_keys :: "string list"
  pc_underlying :: string
  pc_holders :: "holder set"
  pc_claimedAt :: int
  pc_ownershipLost :: bool

datatype coord_stat =
    st_reservationConflicts | st_duplicateSuppressed | st_expiredWhileWaiting | st_revalidationRejected
  | st_revalidationPassed | st_reservationsHeldOnUncertainty | st_failedClosed
  | st_durableUnavailableRefusals | st_localOnlyFallbacks | st_staleGenerationAborts | st_ownershipLost
  | st_renewSuccess | st_renewFailure | st_uncertainHoldsAbandoned | st_underlyingAlreadyActive
  | st_sessionLimitRefusals | st_positionClaimsHeld | st_positionClaimsReleased | st_positionClaimFailures

text \<open>The request and the local variables of a running entry, and of an exit.\<close>

record entry_frame =
  ef_legging :: bool
  ef_candidateKey :: string
  ef_underlying :: string
  ef_legs :: "BoxLegRole \<Rightarrow> InstrumentRef"
  ef_direction :: "BoxDirection option"
  ef_detectedEdge :: "rat option"
  ef_opportunityId :: string
  ef_context :: ReservationContext
  ef_refs :: "InstrumentLegRef list"
  ef_waitStarted :: int

record exit_frame =
  xf_legging :: bool
  xf_underlying :: string
  xf_refs :: "InstrumentLegRef list"

datatype phase =
    Consuming entry_frame
  | Locking entry_frame
  | Locked entry_frame bool
  | Acquiring entry_frame
  | Acquiring_local entry_frame bool
  | Sleeping entry_frame
  | Retrying entry_frame
  | Verifying entry_frame ReservationLease
  | Admitted_entry entry_frame
  | Entering entry_frame
  | Relocking entry_frame inner_result
  | Relocked entry_frame inner_result
  | Unlocking entry_frame inner_result
  | Unlocked entry_frame inner_result
  | Releasing call_outcome
  | Exit_acquiring exit_frame
  | Exit_acquiring_local exit_frame
  | Exiting exit_frame
  | Done call_outcome

text \<open>A call of \<^verbatim>\<open>holdUnderlying\<close> that awaits its store, and a release of a claim in flight, with the call
  that awaits it.\<close>

datatype awaiting = Nobody | Pipeline nat | Settlement nat

record hold_call =
  hc_claimKey :: string
  hc_underlying :: string
  hc_holder :: holder
  hc_context :: ReservationContext
  hc_refs :: "InstrumentLegRef list"
  hc_for :: awaiting

text \<open>The heartbeat tick: renewals of executions in flight, then one renewal of a hold, then one of a claim.\<close>

datatype tick_stage =
    Tick_active "nat set"
  | Tick_hold "nat \<times> UncertainHold" "(nat \<times> UncertainHold) list"
  | Tick_claim "string \<times> PositionUnderlyingClaim" "(string \<times> PositionUnderlyingClaim) list"

record tick =
  tk_now :: int
  tk_context :: ReservationContext
  tk_stage :: tick_stage

datatype store_tier = Chain | Local_tier

datatype coord_call =
    Call_acquire store_tier nat AcquireArgs
  | Call_release store_tier nat ReleaseArgs
  | Call_renew store_tier nat RenewArgs
  | Call_verify nat VerifyArgs
  | Call_clear store_tier
  | Call_consumeAttempt nat
  | Call_sleep nat int
  | Call_innerEntry nat
  | Call_innerExit nat
  | Call_invariantViolation nat RenewFailure

record coordinator =
  co_seq :: nat
  co_names :: "nat \<Rightarrow> string"
  co_active :: "(nat \<times> ActiveExecution) list"
  co_holds :: "(nat \<times> UncertainHold) list"
  co_claims :: "(string \<times> PositionUnderlyingClaim) list"
  co_opportunities :: "string \<rightharpoonup> nat"
  co_waiting :: int
  co_heartbeat :: bool
  co_tick :: "tick option"
  co_disposed :: bool
  co_stats :: "coord_stat \<Rightarrow> nat"
  co_jitterSeq :: "32 word"
  co_phases :: "nat \<rightharpoonup> phase"
  co_holdCalls :: "nat \<rightharpoonup> hold_call"
  co_drops :: "nat \<rightharpoonup> awaiting"
  co_resets :: nat
  co_calls :: "coord_call list"

definition new_coordinator :: coordinator where
  "new_coordinator =
     \<lparr>co_seq = 0, co_names = (\<lambda>i. []), co_active = [], co_holds = [], co_claims = [], co_opportunities = Map.empty,
      co_waiting = 0, co_heartbeat = False, co_tick = None, co_disposed = False,
      co_stats = (\<lambda>s. 0), co_jitterSeq = 0, co_phases = Map.empty, co_holdCalls = Map.empty,
      co_drops = Map.empty, co_resets = 0, co_calls = []\<rparr>"

section \<open>Small steps\<close>

definition bump :: "coord_stat \<Rightarrow> coordinator \<Rightarrow> coordinator" where
  "bump st c = c\<lparr>co_stats := (co_stats c)(st := co_stats c st + 1)\<rparr>"

definition log_call :: "coord_call \<Rightarrow> coordinator \<Rightarrow> coordinator" where
  "log_call k c = c\<lparr>co_calls := co_calls c @ [k]\<rparr>"

definition set_phase :: "nat \<Rightarrow> phase \<Rightarrow> coordinator \<Rightarrow> coordinator" where
  "set_phase i ph c = c\<lparr>co_phases := (co_phases c)(i \<mapsto> ph)\<rparr>"

definition co_finish :: "nat \<Rightarrow> call_outcome \<Rightarrow> coordinator \<Rightarrow> coordinator" where
  "co_finish i out c = set_phase i (Done out) c"

definition mintId :: "coord_config \<Rightarrow> string \<Rightarrow> coordinator \<Rightarrow> nat \<times> coordinator" where
  "mintId cfg kind c =
     (let i = co_seq c + 1
      in (i, c\<lparr>co_seq := i,
               co_names := (co_names c)(i := mintOwnerId (cc_deployment cfg) (cc_processTag cfg) kind i (cc_uuid cfg i))\<rparr>))"

definition coord_context :: "coord_config \<Rightarrow> environment \<Rightarrow> ReservationContext" where
  "coord_context cfg env =
     \<lparr>ctx_deployment = cc_deployment cfg, ctx_broker = en_broker env, ctx_generation = en_generation env,
      ctx_mode = cc_mode cfg\<rparr>"

section \<open>Acquiring\<close>

definition refsForEntry :: "environment \<Rightarrow> (BoxLegRole \<Rightarrow> InstrumentRef) \<Rightarrow> BoxDirection option \<Rightarrow> InstrumentLegRef list"
where
  "refsForEntry env legs direction =
     (let d = (case direction of None \<Rightarrow> LONG_BOX | Some d \<Rightarrow> d)
      in boxInstrumentRefs (en_broker env) legs (BOX_ENTRY_SIDES_BY_DIRECTION d) BOX_LEG_ROLES)"

definition refsForExit :: "environment \<Rightarrow> (BoxLegRole \<Rightarrow> InstrumentRef) \<Rightarrow> BoxDirection option \<Rightarrow> InstrumentLegRef list"
where
  "refsForExit env legs direction =
     (let d = (case direction of None \<Rightarrow> LONG_BOX | Some d \<Rightarrow> d)
      in boxInstrumentRefs (en_broker env) legs (\<lambda>r. reverseSide (BOX_ENTRY_SIDES_BY_DIRECTION d r)) BOX_LEG_ROLES)"

fun side_name :: "OrderSide \<Rightarrow> string" where
  "side_name BUY = ''BUY''"
| "side_name SELL = ''SELL''"

definition side_of_name :: "string \<Rightarrow> OrderSide option" where
  "side_of_name s = (if s = ''BUY'' then Some BUY else if s = ''SELL'' then Some SELL else None)"

definition acquire_args ::
    "coord_config \<Rightarrow> environment \<Rightarrow> string \<Rightarrow> InstrumentLegRef list \<Rightarrow> ReservationContext \<Rightarrow> AcquireArgs" where
  "acquire_args cfg env owner refs ctx =
     \<lparr>aq_owner = owner, aq_keys = keysOf refs, aq_ttlMs = instrumentLockTtlMs cfg,
      aq_now = en_now env,
      aq_sideByKey = Some (fold (\<lambda>r m. AList.update (ref_key r) (side_name (ref_side r)) m) refs []),
      aq_context = Some ctx\<rparr>"

definition co_acquire ::
    "store_tier \<Rightarrow> coord_config \<Rightarrow> environment \<Rightarrow> nat \<Rightarrow> InstrumentLegRef list \<Rightarrow> ReservationContext
     \<Rightarrow> coordinator \<Rightarrow> coordinator" where
  "co_acquire tier cfg env i refs ctx c =
     log_call (Call_acquire tier i (acquire_args cfg env (co_names c i) refs ctx)) c"

text \<open>\<^verbatim>\<open>acquireWith\<close> after its await.\<close>

definition acquire_result :: "InstrumentLegRef list \<Rightarrow> ReservationOutcome \<Rightarrow> AcquireResult" where
  "acquire_result refs out =
     (case out of
        Granted lease \<Rightarrow> Acquired lease
      | Unavailable tier detail \<Rightarrow> No_authority tier
      | Conflict cs \<Rightarrow>
          Conflicting (map (\<lambda>c. classifyConflict (cd_key c) (cd_heldBy c)
                                  (Option.bind (cd_heldSide c) side_of_name)
                                  (case map_of (rev (map (\<lambda>r. (ref_key r, ref_side r)) refs)) (cd_key c) of
                                     None \<Rightarrow> BUY | Some s \<Rightarrow> s)) cs))"

section \<open>Heartbeat timer\<close>

definition nothing_held :: "coordinator \<Rightarrow> bool" where
  "nothing_held c = (co_active c = [] \<and> co_holds c = [] \<and> co_claims c = [])"

definition holdsReservations :: "coordinator \<Rightarrow> bool" where
  "holdsReservations c = (co_active c \<noteq> [] \<or> co_holds c \<noteq> [] \<or> co_claims c \<noteq> [])"

definition ensureHeartbeat :: "coordinator \<Rightarrow> coordinator" where
  "ensureHeartbeat c =
     (if co_disposed c then c else if co_heartbeat c then c else if nothing_held c then c
      else c\<lparr>co_heartbeat := True\<rparr>)"

definition stopHeartbeatIfIdle :: "coordinator \<Rightarrow> coordinator" where
  "stopHeartbeatIfIdle c =
     (if \<not> co_heartbeat c then c else if \<not> nothing_held c then c else c\<lparr>co_heartbeat := False\<rparr>)"

section \<open>Claims of executions\<close>

definition claim ::
    "nat \<Rightarrow> string option \<Rightarrow> string \<Rightarrow> string list \<Rightarrow> ReservationContext \<Rightarrow> coordinator \<Rightarrow> coordinator" where
  "claim i opportunity u keys ctx c =
     (let c1 = c\<lparr>co_active := AList.update i
                   \<lparr>ae_keys = keys, ae_underlying = u, ae_lease = None, ae_context = ctx,
                    ae_ownershipLost = False, ae_ownershipLossReason = None, ae_opportunityId = opportunity\<rparr>
                   (co_active c)\<rparr>
      in case opportunity of None \<Rightarrow> c1 | Some o' \<Rightarrow> c1\<lparr>co_opportunities := (co_opportunities c1)(o' \<mapsto> i)\<rparr>)"

definition co_grant :: "coord_config \<Rightarrow> environment \<Rightarrow> nat \<Rightarrow> string list \<Rightarrow> ReservationLease \<Rightarrow> coordinator \<Rightarrow> coordinator"
where
  "co_grant cfg env i keys lease c =
     (case map_of (co_active c) i of
        None \<Rightarrow> c
      | Some e \<Rightarrow> ensureHeartbeat (c\<lparr>co_active := AList.update i
                    (e\<lparr>ae_keys := keys, ae_lease := Some lease, ae_context := coord_context cfg env\<rparr>)
                    (co_active c)\<rparr>))"

definition registerActive ::
    "coord_config \<Rightarrow> environment \<Rightarrow> nat \<Rightarrow> string list \<Rightarrow> string \<Rightarrow> ReservationLease \<Rightarrow> coordinator \<Rightarrow> coordinator" where
  "registerActive cfg env i keys u lease c =
     ensureHeartbeat
       (c\<lparr>co_active := AList.update i
          \<lparr>ae_keys = keys, ae_underlying = u, ae_lease = Some lease, ae_context = coord_context cfg env,
           ae_ownershipLost = False, ae_ownershipLossReason = None, ae_opportunityId = None\<rparr> (co_active c)\<rparr>)"

definition abandon :: "nat \<Rightarrow> coordinator \<Rightarrow> coordinator" where
  "abandon i c =
     (case map_of (co_active c) i of
        None \<Rightarrow> c
      | Some e \<Rightarrow>
          let c1 = c\<lparr>co_active := AList.delete i (co_active c)\<rparr>;
              c2 = (case ae_opportunityId e of
                      None \<Rightarrow> c1
                    | Some o' \<Rightarrow> if co_opportunities c1 o' = Some i
                                then c1\<lparr>co_opportunities := (co_opportunities c1)(o' := None)\<rparr> else c1)
          in stopHeartbeatIfIdle c2)"

definition ownershipGuard :: "coord_config \<Rightarrow> int \<Rightarrow> bool \<Rightarrow> nat \<Rightarrow> coordinator \<Rightarrow> bool" where
  "ownershipGuard cfg now inner i c =
     (if \<not> inner then False
      else case map_of (co_active c) i of
        None \<Rightarrow> False
      | Some e \<Rightarrow>
          (case ae_lease e of
             None \<Rightarrow> True
           | Some lease \<Rightarrow>
               if ae_ownershipLost e then False
               else now < lease_expiresAt lease - reservationOwnershipMarginMs cfg))"

section \<open>Leases\<close>

definition release_args :: "environment \<Rightarrow> string \<Rightarrow> ReservationLease option \<Rightarrow> ReleaseArgs" where
  "release_args env owner lease =
     \<lparr>rl_owner = owner, rl_keys = map_option lease_keys lease, rl_now = en_now env,
      rl_fence = map_option lease_fence lease\<rparr>"

text \<open>\<^verbatim>\<open>releaseLease\<close> up to its await, and the release of the local tier after it.\<close>

definition releaseLease_start :: "environment \<Rightarrow> nat \<Rightarrow> ReservationLease option \<Rightarrow> coordinator \<Rightarrow> coordinator" where
  "releaseLease_start env i lease c = log_call (Call_release Chain i (release_args env (co_names c i) lease)) c"

definition releaseLease_rest :: "coord_config \<Rightarrow> environment \<Rightarrow> nat \<Rightarrow> coordinator \<Rightarrow> coordinator" where
  "releaseLease_rest cfg env i c =
     (if cc_hasLocal cfg \<and> \<not> cc_localIsStore cfg
      then log_call (Call_release Local_tier i (release_args env (co_names c i) None)) c else c)"

definition renewLease ::
    "coord_config \<Rightarrow> nat \<Rightarrow> ReservationLease \<Rightarrow> int \<Rightarrow> ReservationContext \<Rightarrow> coordinator \<Rightarrow> coordinator" where
  "renewLease cfg i lease now ctx c =
     (let tier = (if lease_durability lease = local_only \<and> cc_hasLocal cfg then Local_tier else Chain)
      in log_call (Call_renew tier i
           \<lparr>rn_owner = co_names c i, rn_keys = lease_keys lease, rn_ttlMs = instrumentLockTtlMs cfg,
            rn_now = now, rn_fence = Some (lease_fence lease), rn_context = Some ctx\<rparr>) c)"

section \<open>The underlying lock\<close>

definition positionClaimKey :: "environment \<Rightarrow> string \<Rightarrow> string" where
  "positionClaimKey env u = js_upper (js_trim (en_broker env)) @ '':'' @ js_upper (js_trim u)"

text \<open>\<^verbatim>\<open>holdUnderlying\<close> up to its await: resolved at once, or awaiting the store under a new owner.\<close>

definition holdUnderlying ::
    "coord_config \<Rightarrow> environment \<Rightarrow> string \<Rightarrow> holder \<Rightarrow> bool \<Rightarrow> awaiting \<Rightarrow> coordinator \<Rightarrow> bool option \<times> coordinator" where
  "holdUnderlying cfg env u h exclusively who c =
     (if \<not> oneActiveBoxPerUnderlying cfg then (Some False, c)
      else let k = positionClaimKey env u in
        case map_of (co_claims c) k of
          Some cl \<Rightarrow>
            if exclusively then (Some False, c)
            else (Some True, c\<lparr>co_claims := AList.update k (cl\<lparr>pc_holders := insert h (pc_holders cl)\<rparr>) (co_claims c)\<rparr>)
        | None \<Rightarrow>
            let (owner, c1) = mintId cfg ''underlying'' c;
                ctx = coord_context cfg env;
                refs = [underlyingLegRef (en_broker env) u (hd BOX_LEG_ROLES)];
                c2 = c1\<lparr>co_holdCalls := (co_holdCalls c1)(owner \<mapsto>
                        \<lparr>hc_claimKey = k, hc_underlying = u, hc_holder = h, hc_context = ctx, hc_refs = refs,
                         hc_for = who\<rparr>)\<rparr>
            in (None, co_acquire Chain cfg env owner refs ctx c2))"

text \<open>Its rest, with the store's answer; \<open>None\<close> when the store rejected.\<close>

definition holdUnderlying_rest ::
    "environment \<Rightarrow> nat \<Rightarrow> hold_call \<Rightarrow> ReservationOutcome option \<Rightarrow> coordinator \<Rightarrow> bool \<times> coordinator" where
  "holdUnderlying_rest env owner h reply c =
     (case reply of
        None \<Rightarrow> (False, bump st_positionClaimFailures c)
      | Some out \<Rightarrow>
          (case acquire_result (hc_refs h) out of
             Acquired lease \<Rightarrow>
               (True, ensureHeartbeat (bump st_positionClaimsHeld
                  (c\<lparr>co_claims := AList.update (hc_claimKey h)
                       \<lparr>pc_owner = owner, pc_lease = lease, pc_context = hc_context h, pc_keys = lease_keys lease,
                        pc_underlying = js_upper (js_trim (hc_underlying h)), pc_holders = {hc_holder h},
                        pc_claimedAt = en_now env, pc_ownershipLost = False\<rparr> (co_claims c)\<rparr>)))
           | Conflicting cs \<Rightarrow> (False, bump st_positionClaimFailures c)
           | No_authority t \<Rightarrow> (False, bump st_positionClaimFailures c)))"

text \<open>\<^verbatim>\<open>dropUnderlyingHolder\<close> up to its await; the answer is the owner of the claim whose release it awaits.\<close>

definition dropUnderlyingHolder ::
    "coord_config \<Rightarrow> environment \<Rightarrow> string \<Rightarrow> holder \<Rightarrow> awaiting \<Rightarrow> coordinator \<Rightarrow> nat option \<times> coordinator" where
  "dropUnderlyingHolder cfg env u h who c =
     (let k = positionClaimKey env u in
      case map_of (co_claims c) k of
        None \<Rightarrow> (None, c)
      | Some cl \<Rightarrow>
          let holders = pc_holders cl - {h}
          in if holders \<noteq> {} then (None, c\<lparr>co_claims := AList.update k (cl\<lparr>pc_holders := holders\<rparr>) (co_claims c)\<rparr>)
             else let c1 = bump st_positionClaimsReleased (c\<lparr>co_claims := AList.delete k (co_claims c)\<rparr>);
                      c2 = c1\<lparr>co_drops := (co_drops c1)(pc_owner cl \<mapsto> who)\<rparr>
                  in (Some (pc_owner cl),
                      releaseLease_start env (pc_owner cl) (Some (pc_lease cl)) c2))"

definition claimUnderlyingForPosition ::
    "coord_config \<Rightarrow> environment \<Rightarrow> string \<Rightarrow> string \<Rightarrow> coordinator \<Rightarrow> coordinator" where
  "claimUnderlyingForPosition cfg env u tradeId c =
     snd (holdUnderlying cfg env u (trade_holder tradeId) False Nobody c)"

definition releaseUnderlyingForPosition ::
    "coord_config \<Rightarrow> environment \<Rightarrow> string \<Rightarrow> string \<Rightarrow> coordinator \<Rightarrow> coordinator" where
  "releaseUnderlyingForPosition cfg env u tradeId c =
     snd (dropUnderlyingHolder cfg env u (trade_holder tradeId) Nobody c)"

definition claimUnderlyingForResidual ::
    "coord_config \<Rightarrow> environment \<Rightarrow> string \<Rightarrow> string \<Rightarrow> coordinator \<Rightarrow> coordinator" where
  "claimUnderlyingForResidual cfg env u attemptId c =
     snd (holdUnderlying cfg env u (residual_holder attemptId) False Nobody c)"

definition releaseUnderlyingForResidual ::
    "coord_config \<Rightarrow> environment \<Rightarrow> string \<Rightarrow> string \<Rightarrow> coordinator \<Rightarrow> coordinator" where
  "releaseUnderlyingForResidual cfg env u attemptId c =
     snd (dropUnderlyingHolder cfg env u (residual_holder attemptId) Nobody c)"

definition claimedUnderlyings :: "coordinator \<Rightarrow> string list" where
  "claimedUnderlyings c = sort (map (\<lambda>p. pc_underlying (snd p)) (co_claims c))"

definition releasePipelineHold ::
    "coord_config \<Rightarrow> environment \<Rightarrow> nat \<Rightarrow> string option \<Rightarrow> coordinator \<Rightarrow> coordinator" where
  "releasePipelineHold cfg env i u c =
     (if \<not> oneActiveBoxPerUnderlying cfg then c
      else case u of
        None \<Rightarrow> c
      | Some x \<Rightarrow> if x = [] then c else snd (dropUnderlyingHolder cfg env x (pipeline_holder i) Nobody c))"

definition abandonAndReleaseHold :: "coord_config \<Rightarrow> environment \<Rightarrow> nat \<Rightarrow> coordinator \<Rightarrow> coordinator" where
  "abandonAndReleaseHold cfg env i c =
     abandon i (releasePipelineHold cfg env i (map_option ae_underlying (map_of (co_active c) i)) c)"

section \<open>Settling\<close>

definition retain :: "environment \<Rightarrow> nat \<Rightarrow> ActiveExecution option \<Rightarrow> hold_reason \<Rightarrow> coordinator \<Rightarrow> coordinator" where
  "retain env i e why c =
     (let c1 = bump st_reservationsHeldOnUncertainty c;
          c2 = (case e of
                  None \<Rightarrow> c1
                | Some x \<Rightarrow>
                    (case ae_lease x of
                       None \<Rightarrow> c1
                     | Some lease \<Rightarrow>
                         if ae_ownershipLost x then c1
                         else ensureHeartbeat (c1\<lparr>co_holds := AList.update i
                                \<lparr>uh_lease = lease, uh_context = ae_context x, uh_keys = ae_keys x,
                                 uh_heldSince = en_now env, uh_reason = why\<rparr> (co_holds c1)\<rparr>)))
      in stopHeartbeatIfIdle c2)"

definition forget_opportunity :: "string option \<Rightarrow> coordinator \<Rightarrow> coordinator" where
  "forget_opportunity opportunity c =
     (case opportunity of
        None \<Rightarrow> c | Some o' \<Rightarrow> c\<lparr>co_opportunities := (co_opportunities c)(o' := None)\<rparr>)"

definition holdOnUncertainty :: "environment \<Rightarrow> nat \<Rightarrow> string option \<Rightarrow> hold_reason \<Rightarrow> coordinator \<Rightarrow> coordinator" where
  "holdOnUncertainty env i opportunity why c =
     (let e = map_of (co_active c) i
      in retain env i e why (forget_opportunity opportunity (abandon i c)))"

text \<open>\<^verbatim>\<open>settle\<close> up to its await, with the outcome its caller returns.\<close>

definition settle_execution ::
    "environment \<Rightarrow> nat \<Rightarrow> string option \<Rightarrow> bool \<Rightarrow> call_outcome \<Rightarrow> coordinator \<Rightarrow> coordinator" where
  "settle_execution env i opportunity uncertain out c =
     (let e = map_of (co_active c) i;
          c1 = forget_opportunity opportunity (abandon i c)
      in if uncertain then co_finish i out (retain env i e uncertain_terminal_state c1)
         else set_phase i (Releasing out) (releaseLease_start env i (Option.bind e ae_lease) c1))"

section \<open>An entry\<close>

record entry_request =
  er_legging :: bool
  er_candidateKey :: string
  er_underlying :: string
  er_legs :: "BoxLegRole \<Rightarrow> InstrumentRef"
  er_direction :: "BoxDirection option"
  er_detectedEdge :: "rat option"

definition new_frame :: "coord_config \<Rightarrow> environment \<Rightarrow> entry_request \<Rightarrow> entry_frame" where
  "new_frame cfg env r =
     \<lparr>ef_legging = er_legging r, ef_candidateKey = er_candidateKey r, ef_underlying = er_underlying r,
      ef_legs = er_legs r, ef_direction = er_direction r, ef_detectedEdge = er_detectedEdge r,
      ef_opportunityId = js_upper (en_broker env) @ '':'' @ er_candidateKey r,
      ef_context = coord_context cfg env, ef_refs = [], ef_waitStarted = 0\<rparr>"

text \<open>The per-underlying budget, the claim of the slot and the first acquisition.\<close>

definition entry_claim :: "coord_config \<Rightarrow> environment \<Rightarrow> nat \<Rightarrow> entry_frame \<Rightarrow> coordinator \<Rightarrow> coordinator" where
  "entry_claim cfg env i f c =
     (let refs = refsForEntry env (ef_legs f) (ef_direction f);
          same = length (filter (\<lambda>p. ae_underlying (snd p) = ef_underlying f) (co_active c))
      in if 0 < maxConcurrentPerUnderlying cfg \<and> maxConcurrentPerUnderlying cfg \<le> int same
         then co_finish i (Refused Budget_reached) c
         else let f1 = f\<lparr>ef_refs := refs, ef_waitStarted := en_now env\<rparr>;
                  c1 = claim i (Some (ef_opportunityId f)) (ef_underlying f) (keysOf refs) (ef_context f) c
              in set_phase i (Acquiring f1)
                   (co_acquire Chain cfg env i refs (ef_context f) c1))"

text \<open>The checks of durable activity and of the lock of the underlying.\<close>

definition entry_lock :: "coord_config \<Rightarrow> environment \<Rightarrow> nat \<Rightarrow> entry_frame \<Rightarrow> coordinator \<Rightarrow> coordinator" where
  "entry_lock cfg env i f c =
     (if \<not> oneActiveBoxPerUnderlying cfg then entry_claim cfg env i f c
      else case evaluateUnderlyingAdmission True (ef_underlying f) (en_active env) of
        Already_active u a \<Rightarrow> co_finish i (Refused Underlying_active) (bump st_underlyingAlreadyActive c)
      | Admitted b \<Rightarrow>
          let (r, c1) = holdUnderlying cfg env (ef_underlying f) (pipeline_holder i) True (Pipeline i) c
          in set_phase i (case r of Some b' \<Rightarrow> Locked f b' | None \<Rightarrow> Locking f) c1)"

definition entry_locked :: "coord_config \<Rightarrow> environment \<Rightarrow> nat \<Rightarrow> entry_frame \<Rightarrow> bool \<Rightarrow> coordinator \<Rightarrow> coordinator" where
  "entry_locked cfg env i f granted c =
     (if granted then entry_claim cfg env i f c
      else co_finish i (Refused Underlying_locked)
             (bump st_underlyingAlreadyActive (abandonAndReleaseHold cfg env i c)))"

definition incumbent :: "string \<Rightarrow> coordinator \<Rightarrow> nat option" where
  "incumbent opportunity c =
     (case co_opportunities c opportunity of
        None \<Rightarrow> None
      | Some n \<Rightarrow> if map_of (co_active c) n \<noteq> None then Some n else None)"

text \<open>The entry up to its first await.\<close>

definition entry_start :: "coord_config \<Rightarrow> environment \<Rightarrow> entry_request \<Rightarrow> coordinator \<Rightarrow> coordinator" where
  "entry_start cfg env r c =
     (let (i, c1) = mintId cfg ''entry'' c;
          f = new_frame cfg env r
      in if reservationRequireDurable cfg \<and> \<not> cc_storeDurable cfg \<and> live_mode cfg
         then co_finish i (Refused Not_durable) (bump st_failedClosed c1)
         else case incumbent (ef_opportunityId f) c1 of
           Some n \<Rightarrow> co_finish i (Refused (Identical_running n)) (bump st_duplicateSuppressed c1)
         | None \<Rightarrow>
             if cc_hasSessionGate cfg \<and> \<not> en_sessionAllowed env
             then co_finish i (Refused Session_refused) (bump st_sessionLimitRefusals c1)
             else if cc_hasConsumeAttempt cfg
             then set_phase i (Consuming f) (log_call (Call_consumeAttempt i) c1)
             else entry_lock cfg env i f c1)"

text \<open>With the coordinator disabled the inner gateway is called directly; \<open>0\<close> names the call.\<close>

definition simulateEntry :: "coord_config \<Rightarrow> environment \<Rightarrow> entry_request \<Rightarrow> coordinator \<Rightarrow> coordinator" where
  "simulateEntry cfg env r c =
     (if \<not> executionCoordinatorEnabled cfg then log_call (Call_innerEntry 0) c else entry_start cfg env r c)"

definition entry_counted :: "coord_config \<Rightarrow> environment \<Rightarrow> nat \<Rightarrow> entry_frame \<Rightarrow> bool \<Rightarrow> coordinator \<Rightarrow> coordinator" where
  "entry_counted cfg env i f ok c =
     (if \<not> ok then co_finish i (Refused Attempt_uncounted) (bump st_sessionLimitRefusals c)
      else entry_lock cfg env i f c)"

definition confirmBeforeSubmit ::
    "coord_config \<Rightarrow> environment \<Rightarrow> nat \<Rightarrow> entry_frame \<Rightarrow> ReservationLease \<Rightarrow> bool \<Rightarrow> coordinator \<Rightarrow> coordinator" where
  "confirmBeforeSubmit cfg env i f lease waited c =
     (if en_broker env \<noteq> ctx_broker (ef_context f) \<or> en_generation env \<noteq> ctx_generation (ef_context f) then
        set_phase i (Releasing (Refused Stale_generation))
          (releaseLease_start env i (Some lease)
             (abandonAndReleaseHold cfg env i (bump st_staleGenerationAborts c)))
      else if \<not> waited \<or> lease_durability lease \<noteq> durable_lease then
        set_phase i (Admitted_entry f) (co_grant cfg env i (keysOf (ef_refs f)) lease c)
      else
        set_phase i (Verifying f lease)
          (log_call (Call_verify i
             \<lparr>vf_owner = co_names c i, vf_keys = keysOf (ef_refs f), vf_now = en_now env,
              vf_fence = Some (lease_fence lease), vf_context = Some (coord_context cfg env)\<rparr>) c))"

definition entry_verified ::
    "coord_config \<Rightarrow> environment \<Rightarrow> nat \<Rightarrow> entry_frame \<Rightarrow> ReservationLease \<Rightarrow> OwnershipVerdict option \<Rightarrow> coordinator \<Rightarrow> coordinator"
where
  "entry_verified cfg env i f lease reply c =
     (case reply of
        None \<Rightarrow> co_finish i Threw c
      | Some (Owned t fence) \<Rightarrow> set_phase i (Admitted_entry f) (co_grant cfg env i (keysOf (ef_refs f)) lease c)
      | Some (NotOwned reason detail) \<Rightarrow>
          let superseded = (reason = own_superseded) in
          set_phase i (Releasing (Refused (if superseded then Stale_generation else Ownership_lost)))
            (releaseLease_start env i (Some lease)
               (abandonAndReleaseHold cfg env i
                  (bump (if superseded then st_staleGenerationAborts else st_ownershipLost) c))))"

subsection \<open>Waiting for a contract\<close>

definition jitterSeed :: "string \<Rightarrow> 32 word" where
  "jitterSeed tag = foldl (\<lambda>seed ch. seed * 31 + of_nat (of_char ch)) 0 tag"

definition pollDelay :: "coord_config \<Rightarrow> coordinator \<Rightarrow> int \<times> coordinator" where
  "pollDelay cfg c =
     (let n = co_jitterSeq c + 1;
          mixed = (jitterSeed (cc_processTag cfg) XOR n) * 2654435761;
          frac = of_int (uint mixed mod 1024) / (1024 :: rat)
      in (\<lfloor>100 * (8/10 + 4/10 * frac) + 1/2\<rfloor>, c\<lparr>co_jitterSeq := n\<rparr>))"

definition revalidate :: "coord_config \<Rightarrow> environment \<Rightarrow> entry_frame \<Rightarrow> revalidation_failure option" where
  "revalidate cfg env f =
     (if \<not> en_tradable env then Some not_tradable
      else case en_edge env of
        None \<Rightarrow> Some edge_unpriced
      | Some edgeNow \<Rightarrow>
          if edgeNow \<le> 0 then Some edge_gone
          else case ef_detectedEdge f of
            None \<Rightarrow> None
          | Some before \<Rightarrow>
              if 0 < before \<and> edgeNow / before < conflictRevalidateMinEdgeRatio cfg
              then Some edge_deteriorated else None)"

text \<open>A reservation was granted after a wait.\<close>

definition entry_after_wait ::
    "coord_config \<Rightarrow> environment \<Rightarrow> nat \<Rightarrow> entry_frame \<Rightarrow> ReservationLease \<Rightarrow> coordinator \<Rightarrow> coordinator" where
  "entry_after_wait cfg env i f lease c =
     (case revalidate cfg env f of
        Some why \<Rightarrow>
          set_phase i (Releasing (Refused (Revalidation_failed why)))
            (releaseLease_start env i (Some lease)
               (abandonAndReleaseHold cfg env i (bump st_revalidationRejected c)))
      | None \<Rightarrow> confirmBeforeSubmit cfg env i f lease True (bump st_revalidationPassed c))"

definition entry_gave_up :: "coord_config \<Rightarrow> environment \<Rightarrow> nat \<Rightarrow> coordinator \<Rightarrow> coordinator" where
  "entry_gave_up cfg env i c =
     co_finish i (Refused Waited_out) (bump st_expiredWhileWaiting (abandonAndReleaseHold cfg env i c))"

definition no_longer_waiting :: "coordinator \<Rightarrow> coordinator" where
  "no_longer_waiting c = c\<lparr>co_waiting := co_waiting c - 1\<rparr>"

text \<open>The head of the loop of \<^verbatim>\<open>waitForKeys\<close>.\<close>

definition wait_round :: "coord_config \<Rightarrow> environment \<Rightarrow> nat \<Rightarrow> entry_frame \<Rightarrow> coordinator \<Rightarrow> coordinator" where
  "wait_round cfg env i f c =
     (let deadline = ef_waitStarted f + conflictWaitMaxMs cfg
      in if en_now env < deadline
         then let (delay, c1) = pollDelay cfg c
              in set_phase i (Sleeping f) (log_call (Call_sleep i (min delay (max 1 (deadline - en_now env)))) c1)
         else entry_gave_up cfg env i (no_longer_waiting c))"

definition entry_conflict :: "coord_config \<Rightarrow> environment \<Rightarrow> nat \<Rightarrow> entry_frame \<Rightarrow> coordinator \<Rightarrow> coordinator" where
  "entry_conflict cfg env i f c =
     wait_round cfg env i f
       ((bump st_reservationConflicts c)\<lparr>co_waiting := co_waiting c + 1\<rparr>)"

definition handleUnavailable ::
    "coord_config \<Rightarrow> environment \<Rightarrow> nat \<Rightarrow> entry_frame \<Rightarrow> bool \<Rightarrow> coordinator \<Rightarrow> coordinator" where
  "handleUnavailable cfg env i f waited c =
     (if live_mode cfg then
        co_finish i (Refused Authority_unavailable)
          (abandonAndReleaseHold cfg env i (bump st_durableUnavailableRefusals (bump st_failedClosed c)))
      else if \<not> cc_hasLocal cfg then
        co_finish i (Refused Authority_unavailable) (abandonAndReleaseHold cfg env i c)
      else
        set_phase i (Acquiring_local f waited)
          (co_acquire Local_tier cfg env i (ef_refs f) (ef_context f) (bump st_localOnlyFallbacks c)))"

definition entry_no_lease :: "coord_config \<Rightarrow> environment \<Rightarrow> nat \<Rightarrow> coord_refusal \<Rightarrow> coordinator \<Rightarrow> coordinator" where
  "entry_no_lease cfg env i why c =
     co_finish i (Refused why) (bump st_failedClosed (abandonAndReleaseHold cfg env i c))"

definition entry_acquired ::
    "coord_config \<Rightarrow> environment \<Rightarrow> nat \<Rightarrow> entry_frame \<Rightarrow> ReservationOutcome option \<Rightarrow> coordinator \<Rightarrow> coordinator" where
  "entry_acquired cfg env i f reply c =
     (case reply of
        None \<Rightarrow> co_finish i Threw (abandonAndReleaseHold cfg env i c)
      | Some out \<Rightarrow>
          (case acquire_result (ef_refs f) out of
             Acquired lease \<Rightarrow> confirmBeforeSubmit cfg env i f lease False c
           | No_authority t \<Rightarrow> handleUnavailable cfg env i f False c
           | Conflicting cs \<Rightarrow> entry_conflict cfg env i f c))"

definition entry_acquired_local ::
    "coord_config \<Rightarrow> environment \<Rightarrow> nat \<Rightarrow> entry_frame \<Rightarrow> bool \<Rightarrow> ReservationOutcome option \<Rightarrow> coordinator \<Rightarrow> coordinator"
where
  "entry_acquired_local cfg env i f waited reply c =
     (case reply of
        None \<Rightarrow> co_finish i Threw c
      | Some out \<Rightarrow>
          (case acquire_result (ef_refs f) out of
             Acquired lease \<Rightarrow>
               if waited then entry_after_wait cfg env i f lease c else confirmBeforeSubmit cfg env i f lease False c
           | No_authority t \<Rightarrow>
               if waited then entry_gave_up cfg env i c else entry_no_lease cfg env i Authority_unavailable c
           | Conflicting cs \<Rightarrow> if waited then entry_gave_up cfg env i c else entry_conflict cfg env i f c))"

definition entry_woken :: "coord_config \<Rightarrow> environment \<Rightarrow> nat \<Rightarrow> entry_frame \<Rightarrow> coordinator \<Rightarrow> coordinator" where
  "entry_woken cfg env i f c =
     set_phase i (Retrying f) (co_acquire Chain cfg env i (ef_refs f) (ef_context f) c)"

definition entry_retried ::
    "coord_config \<Rightarrow> environment \<Rightarrow> nat \<Rightarrow> entry_frame \<Rightarrow> ReservationOutcome option \<Rightarrow> coordinator \<Rightarrow> coordinator" where
  "entry_retried cfg env i f reply c =
     (case reply of
        None \<Rightarrow> co_finish i Threw (no_longer_waiting c)
      | Some out \<Rightarrow>
          (case acquire_result (ef_refs f) out of
             Acquired lease \<Rightarrow> entry_after_wait cfg env i f lease (no_longer_waiting c)
           | No_authority t \<Rightarrow> handleUnavailable cfg env i f True (no_longer_waiting c)
           | Conflicting cs \<Rightarrow> wait_round cfg env i f c))"

subsection \<open>After the order path\<close>

definition drop_pipeline ::
    "coord_config \<Rightarrow> environment \<Rightarrow> nat \<Rightarrow> entry_frame \<Rightarrow> inner_result \<Rightarrow> coordinator \<Rightarrow> coordinator" where
  "drop_pipeline cfg env i f r c =
     (let (released, c1) = dropUnderlyingHolder cfg env (ef_underlying f) (pipeline_holder i) (Settlement i) c
      in set_phase i (case released of None \<Rightarrow> Unlocked f r | Some n \<Rightarrow> Unlocking f r) c1)"

text \<open>The trade id of an established Box; the empty string is falsy.\<close>

definition established_trade :: "entry_frame \<Rightarrow> inner_result \<Rightarrow> string option" where
  "established_trade f r =
     (if ef_legging f \<and> xr_ok r then (case xr_tradeId r of None \<Rightarrow> None | Some t \<Rightarrow> if t = [] then None else Some t)
      else None)"

definition settleUnderlyingHold ::
    "coord_config \<Rightarrow> environment \<Rightarrow> nat \<Rightarrow> entry_frame \<Rightarrow> inner_result \<Rightarrow> coordinator \<Rightarrow> coordinator" where
  "settleUnderlyingHold cfg env i f r c =
     (if \<not> oneActiveBoxPerUnderlying cfg then set_phase i (Unlocked f r) c
      else case established_trade f r of
        Some t \<Rightarrow>
          (case holdUnderlying cfg env (ef_underlying f) (trade_holder t) False (Settlement i) c of
             (Some b, c1) \<Rightarrow> drop_pipeline cfg env i f r c1
           | (None, c1) \<Rightarrow> set_phase i (Relocking f r) c1)
      | None \<Rightarrow>
          if ef_legging f \<and> uncertaintyOf r then set_phase i (Unlocked f r) c
          else drop_pipeline cfg env i f r c)"

definition entry_returned ::
    "coord_config \<Rightarrow> environment \<Rightarrow> nat \<Rightarrow> entry_frame \<Rightarrow> inner_result option \<Rightarrow> coordinator \<Rightarrow> coordinator" where
  "entry_returned cfg env i f reply c =
     (case reply of
        None \<Rightarrow> co_finish i Threw (holdOnUncertainty env i (Some (ef_opportunityId f)) entry_threw c)
      | Some r \<Rightarrow> settleUnderlyingHold cfg env i f r c)"

section \<open>An exit\<close>

record exit_request =
  xq_legging :: bool
  xq_underlying :: string
  xq_legs :: "BoxLegRole \<Rightarrow> InstrumentRef"
  xq_direction :: "BoxDirection option"

definition simulateExit :: "coord_config \<Rightarrow> environment \<Rightarrow> exit_request \<Rightarrow> coordinator \<Rightarrow> coordinator" where
  "simulateExit cfg env q c =
     (if \<not> executionCoordinatorEnabled cfg then log_call (Call_innerExit 0) c
      else let refs = refsForExit env (xq_legs q) (xq_direction q);
               (i, c1) = mintId cfg ''exit'' c
           in set_phase i (Exit_acquiring \<lparr>xf_legging = xq_legging q, xf_underlying = xq_underlying q, xf_refs = refs\<rparr>)
                (co_acquire Chain cfg env i refs (coord_context cfg env) c1))"

definition exit_refused :: "nat \<Rightarrow> coord_refusal \<Rightarrow> coordinator \<Rightarrow> coordinator" where
  "exit_refused i why c = co_finish i (Refused why) (bump st_reservationConflicts c)"

definition exit_runs ::
    "coord_config \<Rightarrow> environment \<Rightarrow> nat \<Rightarrow> exit_frame \<Rightarrow> ReservationLease \<Rightarrow> coordinator \<Rightarrow> coordinator" where
  "exit_runs cfg env i x lease c =
     set_phase i (Exiting x)
       (log_call (Call_innerExit i) (registerActive cfg env i (keysOf (xf_refs x)) (xf_underlying x) lease c))"

text \<open>\<^verbatim>\<open>acquireForExit\<close>: the answer of the chain, then of the local tier when the chain is unavailable.\<close>

definition exit_acquired ::
    "coord_config \<Rightarrow> environment \<Rightarrow> nat \<Rightarrow> exit_frame \<Rightarrow> ReservationOutcome option \<Rightarrow> coordinator \<Rightarrow> coordinator" where
  "exit_acquired cfg env i x reply c =
     (case reply of
        None \<Rightarrow> co_finish i Threw c
      | Some out \<Rightarrow>
          (case acquire_result (xf_refs x) out of
             Acquired lease \<Rightarrow> exit_runs cfg env i x lease c
           | Conflicting cs \<Rightarrow> exit_refused i (Exit_conflict (length cs)) c
           | No_authority t \<Rightarrow>
               if \<not> cc_hasLocal cfg then exit_refused i Exit_unavailable c
               else set_phase i (Exit_acquiring_local x)
                      (co_acquire Local_tier cfg env i (xf_refs x) (coord_context cfg env)
                         (bump st_localOnlyFallbacks c))))"

definition exit_acquired_local ::
    "coord_config \<Rightarrow> environment \<Rightarrow> nat \<Rightarrow> exit_frame \<Rightarrow> ReservationOutcome option \<Rightarrow> coordinator \<Rightarrow> coordinator" where
  "exit_acquired_local cfg env i x reply c =
     (case reply of
        None \<Rightarrow> co_finish i Threw c
      | Some out \<Rightarrow>
          (case acquire_result (xf_refs x) out of
             Acquired lease \<Rightarrow> exit_runs cfg env i x lease c
           | Conflicting cs \<Rightarrow> exit_refused i (Exit_conflict (length cs)) c
           | No_authority t \<Rightarrow> exit_refused i Exit_unavailable c))"

definition exit_returned :: "environment \<Rightarrow> nat \<Rightarrow> exit_frame \<Rightarrow> inner_result option \<Rightarrow> coordinator \<Rightarrow> coordinator" where
  "exit_returned env i x reply c =
     (case reply of
        None \<Rightarrow> co_finish i Threw (holdOnUncertainty env i None exit_threw c)
      | Some r \<Rightarrow> settle_execution env i None (xf_legging x \<and> uncertaintyOf r) (Completed r) c)"

section \<open>The heartbeat tick\<close>

definition set_stage :: "tick \<Rightarrow> tick_stage \<Rightarrow> coordinator \<Rightarrow> coordinator" where
  "set_stage t st c = c\<lparr>co_tick := Some (t\<lparr>tk_stage := st\<rparr>)\<rparr>"

definition end_tick :: "coordinator \<Rightarrow> coordinator" where
  "end_tick c = (stopHeartbeatIfIdle c)\<lparr>co_tick := None\<rparr>"

definition renewable :: "coordinator \<Rightarrow> (nat \<times> ReservationLease) list" where
  "renewable c =
     List.map_filter (\<lambda>(i, e). if ae_ownershipLost e then None else map_option (Pair i) (ae_lease e)) (co_active c)"

definition renewTick :: "coord_config \<Rightarrow> environment \<Rightarrow> coordinator \<Rightarrow> coordinator" where
  "renewTick cfg env c =
     (if co_tick c \<noteq> None then c
      else let ctx = coord_context cfg env;
               c1 = fold (\<lambda>(i, lease). renewLease cfg i lease (en_now env) ctx) (renewable c) c
           in c1\<lparr>co_tick := Some \<lparr>tk_now = en_now env, tk_context = ctx,
                                  tk_stage = Tick_active (set (map fst (renewable c)))\<rparr>\<rparr>)"

fun claim_loop :: "coord_config \<Rightarrow> tick \<Rightarrow> (string \<times> PositionUnderlyingClaim) list \<Rightarrow> coordinator \<Rightarrow> coordinator" where
  "claim_loop cfg t [] c = end_tick c"
| "claim_loop cfg t ((k, cl) # rest) c =
     set_stage t (Tick_claim (k, cl) rest) (renewLease cfg (pc_owner cl) (pc_lease cl) (tk_now t) (tk_context t) c)"

fun hold_loop :: "coord_config \<Rightarrow> tick \<Rightarrow> (nat \<times> UncertainHold) list \<Rightarrow> coordinator \<Rightarrow> coordinator" where
  "hold_loop cfg t [] c = claim_loop cfg t (co_claims c) c"
| "hold_loop cfg t ((i, h) # rest) c =
     (if reservationUncertainHoldMaxMs cfg \<le> tk_now t - uh_heldSince h
      then hold_loop cfg t rest
             (bump st_uncertainHoldsAbandoned (c\<lparr>co_holds := AList.delete i (co_holds c)\<rparr>))
      else set_stage t (Tick_hold (i, h) rest) (renewLease cfg i (uh_lease h) (tk_now t) (tk_context t) c))"

definition renewed_lease :: "ReservationLease \<Rightarrow> int \<Rightarrow> nat \<Rightarrow> ReservationLease" where
  "renewed_lease lease t fence = lease\<lparr>lease_expiresAt := t, lease_fence := fence\<rparr>"

definition update_existing :: "'k \<Rightarrow> ('v \<Rightarrow> 'v) \<Rightarrow> ('k \<times> 'v) list \<Rightarrow> ('k \<times> 'v) list" where
  "update_existing k f m = map (\<lambda>(k', v). (k', if k' = k then f v else v)) m"

text \<open>The renewal of an execution in flight has settled; \<open>None\<close> when it rejected.\<close>

definition active_renewed :: "nat \<Rightarrow> RenewOutcome option \<Rightarrow> coordinator \<Rightarrow> coordinator" where
  "active_renewed i reply c =
     (case reply of
        None \<Rightarrow> c
      | Some (Renewed t fence) \<Rightarrow>
          (bump st_renewSuccess c)\<lparr>co_active := update_existing i
             (\<lambda>e. e\<lparr>ae_lease := map_option (\<lambda>l. renewed_lease l t fence) (ae_lease e)\<rparr>) (co_active c)\<rparr>
      | Some (NotRenewed reason detail) \<Rightarrow>
          log_call (Call_invariantViolation i reason)
            ((bump st_ownershipLost (bump st_renewFailure c))\<lparr>co_active := update_existing i
               (\<lambda>e. e\<lparr>ae_ownershipLost := True, ae_ownershipLossReason := Some reason\<rparr>) (co_active c)\<rparr>))"

definition hold_renewed :: "nat \<Rightarrow> RenewOutcome \<Rightarrow> coordinator \<Rightarrow> coordinator" where
  "hold_renewed i out c =
     (case out of
        Renewed t fence \<Rightarrow>
          (bump st_renewSuccess c)\<lparr>co_holds := update_existing i
             (\<lambda>h. h\<lparr>uh_lease := renewed_lease (uh_lease h) t fence\<rparr>) (co_holds c)\<rparr>
      | NotRenewed reason detail \<Rightarrow>
          let c1 = bump st_renewFailure c
          in if reason = renew_unavailable then c1 else c1\<lparr>co_holds := AList.delete i (co_holds c1)\<rparr>)"

definition claim_renewed :: "string \<Rightarrow> nat \<Rightarrow> RenewOutcome \<Rightarrow> coordinator \<Rightarrow> coordinator" where
  "claim_renewed k owner out c =
     (case out of
        Renewed t fence \<Rightarrow>
          (bump st_renewSuccess c)\<lparr>co_claims := update_existing k
             (\<lambda>cl. if pc_owner cl = owner
                   then cl\<lparr>pc_lease := renewed_lease (pc_lease cl) t fence, pc_ownershipLost := False\<rparr> else cl)
             (co_claims c)\<rparr>
      | NotRenewed reason detail \<Rightarrow>
          (bump st_renewFailure c)\<lparr>co_claims := update_existing k
             (\<lambda>cl. if pc_owner cl = owner then cl\<lparr>pc_ownershipLost := True\<rparr> else cl) (co_claims c)\<rparr>)"

definition tick_renewed :: "coord_config \<Rightarrow> nat \<Rightarrow> RenewOutcome option \<Rightarrow> coordinator \<Rightarrow> coordinator" where
  "tick_renewed cfg i reply c =
     (case co_tick c of
        None \<Rightarrow> c
      | Some t \<Rightarrow>
          (case tk_stage t of
             Tick_active ids \<Rightarrow>
               if i \<in> ids then set_stage t (Tick_active (ids - {i})) (active_renewed i reply c) else c
           | Tick_hold (j, h) rest \<Rightarrow>
               (case reply of None \<Rightarrow> c\<lparr>co_tick := None\<rparr> | Some out \<Rightarrow> hold_loop cfg t rest (hold_renewed j out c))
           | Tick_claim (k, cl) rest \<Rightarrow>
               (case reply of None \<Rightarrow> c\<lparr>co_tick := None\<rparr>
                | Some out \<Rightarrow> claim_loop cfg t rest (claim_renewed k (pc_owner cl) out c))))"

definition tick_resumed :: "coord_config \<Rightarrow> coordinator \<Rightarrow> coordinator" where
  "tick_resumed cfg c =
     (case co_tick c of
        None \<Rightarrow> c
      | Some t \<Rightarrow> if tk_stage t = Tick_active {} then hold_loop cfg t (co_holds c) c else c)"

section \<open>Broker switch and shutdown\<close>

definition reset_start :: "coordinator \<Rightarrow> coordinator" where
  "reset_start c = log_call (Call_clear Chain) (c\<lparr>co_resets := co_resets c + 1\<rparr>)"

definition reset_cleared :: "coord_config \<Rightarrow> coordinator \<Rightarrow> coordinator" where
  "reset_cleared cfg c =
     (if co_resets c = 0 then c
      else let c1 = (if cc_hasLocal cfg \<and> \<not> cc_localIsStore cfg then log_call (Call_clear Local_tier) c else c)
           in stopHeartbeatIfIdle
                (c1\<lparr>co_resets := co_resets c - 1, co_active := [], co_holds := [], co_claims := [],
                    co_opportunities := Map.empty\<rparr>))"

definition co_dispose :: "coordinator \<Rightarrow> coordinator" where
  "co_dispose c = c\<lparr>co_disposed := True, co_heartbeat := False\<rparr>"

text \<open>Why live entry is refused as a whole: the chain is not durable, or configured durable and not ready.\<close>

definition liveEntryBlocked :: "coord_config \<Rightarrow> bool \<Rightarrow> bool \<Rightarrow> bool" where
  "liveEntryBlocked cfg durableReservationsEnabled ready =
     (if \<not> live_mode cfg then False
      else if reservationRequireDurable cfg \<and> \<not> cc_storeDurable cfg then True
      else durableReservationsEnabled \<and> \<not> ready)"

section \<open>Events\<close>

datatype coord_event =
    CO_entry environment entry_request
  | CO_exit environment exit_request
  | CO_counted environment nat bool
  | CO_holdReply environment nat "ReservationOutcome option"
  | CO_resumed environment nat
  | CO_reply environment nat "ReservationOutcome option"
  | CO_woken environment nat
  | CO_verified environment nat "OwnershipVerdict option"
  | CO_returned environment nat "inner_result option"
  | CO_released environment nat
  | CO_dropped environment nat
  | CO_claimPosition environment string string
  | CO_releasePosition environment string string
  | CO_claimResidual environment string string
  | CO_releaseResidual environment string string
  | CO_tick environment
  | CO_renewed nat "RenewOutcome option"
  | CO_tickResumed
  | CO_reset
  | CO_resetCleared
  | CO_dispose

text \<open>A call that merely continues: after \<^verbatim>\<open>holdUnderlying\<close>, after the gate, while settling.\<close>

definition call_resumed :: "coord_config \<Rightarrow> environment \<Rightarrow> nat \<Rightarrow> coordinator \<Rightarrow> coordinator" where
  "call_resumed cfg env i c =
     (case co_phases c i of
        Some (Locked f granted) \<Rightarrow> entry_locked cfg env i f granted c
      | Some (Admitted_entry f) \<Rightarrow> set_phase i (Entering f) (log_call (Call_innerEntry i) c)
      | Some (Relocked f r) \<Rightarrow> drop_pipeline cfg env i f r c
      | Some (Unlocked f r) \<Rightarrow>
          settle_execution env i (Some (ef_opportunityId f)) (ef_legging f \<and> uncertaintyOf r) (Completed r) c
      | _ \<Rightarrow> c)"

definition store_replied ::
    "coord_config \<Rightarrow> environment \<Rightarrow> nat \<Rightarrow> ReservationOutcome option \<Rightarrow> coordinator \<Rightarrow> coordinator" where
  "store_replied cfg env i reply c =
     (case co_phases c i of
        Some (Acquiring f) \<Rightarrow> entry_acquired cfg env i f reply c
      | Some (Acquiring_local f waited) \<Rightarrow> entry_acquired_local cfg env i f waited reply c
      | Some (Retrying f) \<Rightarrow> entry_retried cfg env i f reply c
      | Some (Exit_acquiring x) \<Rightarrow> exit_acquired cfg env i x reply c
      | Some (Exit_acquiring_local x) \<Rightarrow> exit_acquired_local cfg env i x reply c
      | _ \<Rightarrow> c)"

definition hold_replied ::
    "environment \<Rightarrow> nat \<Rightarrow> ReservationOutcome option \<Rightarrow> coordinator \<Rightarrow> coordinator" where
  "hold_replied env owner reply c =
     (case co_holdCalls c owner of
        None \<Rightarrow> c
      | Some h \<Rightarrow>
          let (b, c1) = holdUnderlying_rest env owner h reply (c\<lparr>co_holdCalls := (co_holdCalls c)(owner := None)\<rparr>)
          in (case hc_for h of
                Nobody \<Rightarrow> c1
              | Pipeline i \<Rightarrow>
                  (case co_phases c1 i of Some (Locking f) \<Rightarrow> set_phase i (Locked f b) c1 | _ \<Rightarrow> c1)
              | Settlement i \<Rightarrow>
                  (case co_phases c1 i of Some (Relocking f r) \<Rightarrow> set_phase i (Relocked f r) c1 | _ \<Rightarrow> c1)))"

definition drop_released :: "coord_config \<Rightarrow> environment \<Rightarrow> nat \<Rightarrow> coordinator \<Rightarrow> coordinator" where
  "drop_released cfg env owner c =
     (case co_drops c owner of
        None \<Rightarrow> c
      | Some who \<Rightarrow>
          let c1 = stopHeartbeatIfIdle
                     (releaseLease_rest cfg env owner (c\<lparr>co_drops := (co_drops c)(owner := None)\<rparr>))
          in (case who of
                Settlement i \<Rightarrow>
                  (case co_phases c1 i of Some (Unlocking f r) \<Rightarrow> set_phase i (Unlocked f r) c1 | _ \<Rightarrow> c1)
              | _ \<Rightarrow> c1))"

definition lease_released :: "coord_config \<Rightarrow> environment \<Rightarrow> nat \<Rightarrow> coordinator \<Rightarrow> coordinator" where
  "lease_released cfg env i c =
     (case co_phases c i of
        Some (Releasing out) \<Rightarrow>
          let c1 = releaseLease_rest cfg env i c
          in co_finish i out (case out of Completed r \<Rightarrow> stopHeartbeatIfIdle c1 | _ \<Rightarrow> c1)
      | _ \<Rightarrow> c)"

fun co_step :: "coord_config \<Rightarrow> coord_event \<Rightarrow> coordinator \<Rightarrow> coordinator" where
  "co_step cfg (CO_entry env r) c = simulateEntry cfg env r c"
| "co_step cfg (CO_exit env q) c = simulateExit cfg env q c"
| "co_step cfg (CO_counted env i ok) c =
     (case co_phases c i of Some (Consuming f) \<Rightarrow> entry_counted cfg env i f ok c | _ \<Rightarrow> c)"
| "co_step cfg (CO_holdReply env owner reply) c = hold_replied env owner reply c"
| "co_step cfg (CO_resumed env i) c = call_resumed cfg env i c"
| "co_step cfg (CO_reply env i reply) c = store_replied cfg env i reply c"
| "co_step cfg (CO_woken env i) c =
     (case co_phases c i of Some (Sleeping f) \<Rightarrow> entry_woken cfg env i f c | _ \<Rightarrow> c)"
| "co_step cfg (CO_verified env i reply) c =
     (case co_phases c i of Some (Verifying f lease) \<Rightarrow> entry_verified cfg env i f lease reply c | _ \<Rightarrow> c)"
| "co_step cfg (CO_returned env i reply) c =
     (case co_phases c i of
        Some (Entering f) \<Rightarrow> entry_returned cfg env i f reply c
      | Some (Exiting x) \<Rightarrow> exit_returned env i x reply c
      | _ \<Rightarrow> c)"
| "co_step cfg (CO_released env i) c = lease_released cfg env i c"
| "co_step cfg (CO_dropped env owner) c = drop_released cfg env owner c"
| "co_step cfg (CO_claimPosition env u t) c = claimUnderlyingForPosition cfg env u t c"
| "co_step cfg (CO_releasePosition env u t) c = releaseUnderlyingForPosition cfg env u t c"
| "co_step cfg (CO_claimResidual env u a) c = claimUnderlyingForResidual cfg env u a c"
| "co_step cfg (CO_releaseResidual env u a) c = releaseUnderlyingForResidual cfg env u a c"
| "co_step cfg (CO_tick env) c = renewTick cfg env c"
| "co_step cfg (CO_renewed i reply) c = tick_renewed cfg i reply c"
| "co_step cfg CO_tickResumed c = tick_resumed cfg c"
| "co_step cfg CO_reset c = reset_start c"
| "co_step cfg CO_resetCleared c = reset_cleared cfg c"
| "co_step cfg CO_dispose c = co_dispose c"

end
