(* ===== verification/Coordinator_Frames.thy ===== *)
theory Coordinator_Frames
  imports Execution_Coordinator
begin

text \<open>
  What the small operations of the execution coordinator leave alone: one simp lemma per operation, over
  the fields it does not write.
\<close>

section \<open>What the small steps leave alone\<close>

lemma bump_frame [simp]:
  "co_claims (bump st c) = co_claims c"
  "co_phases (bump st c) = co_phases c"
  "co_holdCalls (bump st c) = co_holdCalls c"
  "co_seq (bump st c) = co_seq c"
  "co_active (bump st c) = co_active c"
  "co_holds (bump st c) = co_holds c"
  "co_drops (bump st c) = co_drops c"
  "co_resets (bump st c) = co_resets c"
  "co_heartbeat (bump st c) = co_heartbeat c"
  "co_disposed (bump st c) = co_disposed c"
  "co_tick (bump st c) = co_tick c"
  "co_opportunities (bump st c) = co_opportunities c"
  "co_calls (bump st c) = co_calls c"
  by (simp_all add: bump_def)

lemma log_frame [simp]:
  "co_claims (log_call k c) = co_claims c"
  "co_phases (log_call k c) = co_phases c"
  "co_holdCalls (log_call k c) = co_holdCalls c"
  "co_seq (log_call k c) = co_seq c"
  "co_active (log_call k c) = co_active c"
  "co_holds (log_call k c) = co_holds c"
  "co_drops (log_call k c) = co_drops c"
  "co_resets (log_call k c) = co_resets c"
  "co_heartbeat (log_call k c) = co_heartbeat c"
  "co_disposed (log_call k c) = co_disposed c"
  "co_tick (log_call k c) = co_tick c"
  "co_opportunities (log_call k c) = co_opportunities c"
  by (simp_all add: log_call_def)

lemma set_phase_frame [simp]:
  "co_claims (set_phase i ph c) = co_claims c"
  "co_holdCalls (set_phase i ph c) = co_holdCalls c"
  "co_seq (set_phase i ph c) = co_seq c"
  "co_active (set_phase i ph c) = co_active c"
  "co_holds (set_phase i ph c) = co_holds c"
  "co_drops (set_phase i ph c) = co_drops c"
  "co_resets (set_phase i ph c) = co_resets c"
  "co_heartbeat (set_phase i ph c) = co_heartbeat c"
  "co_disposed (set_phase i ph c) = co_disposed c"
  "co_tick (set_phase i ph c) = co_tick c"
  "co_opportunities (set_phase i ph c) = co_opportunities c"
  "co_calls (set_phase i ph c) = co_calls c"
  by (simp_all add: set_phase_def)

lemma set_phase_phases [simp]: "co_phases (set_phase i ph c) = (co_phases c)(i \<mapsto> ph)"
  by (simp_all add: set_phase_def)

lemma ensure_frame [simp]:
  "co_claims (ensureHeartbeat c) = co_claims c"
  "co_phases (ensureHeartbeat c) = co_phases c"
  "co_holdCalls (ensureHeartbeat c) = co_holdCalls c"
  "co_seq (ensureHeartbeat c) = co_seq c"
  "co_active (ensureHeartbeat c) = co_active c"
  "co_holds (ensureHeartbeat c) = co_holds c"
  "co_drops (ensureHeartbeat c) = co_drops c"
  "co_resets (ensureHeartbeat c) = co_resets c"
  "co_disposed (ensureHeartbeat c) = co_disposed c"
  "co_tick (ensureHeartbeat c) = co_tick c"
  "co_opportunities (ensureHeartbeat c) = co_opportunities c"
  "co_calls (ensureHeartbeat c) = co_calls c"
  by (simp_all add: ensureHeartbeat_def)

lemma stop_frame [simp]:
  "co_claims (stopHeartbeatIfIdle c) = co_claims c"
  "co_phases (stopHeartbeatIfIdle c) = co_phases c"
  "co_holdCalls (stopHeartbeatIfIdle c) = co_holdCalls c"
  "co_seq (stopHeartbeatIfIdle c) = co_seq c"
  "co_active (stopHeartbeatIfIdle c) = co_active c"
  "co_holds (stopHeartbeatIfIdle c) = co_holds c"
  "co_drops (stopHeartbeatIfIdle c) = co_drops c"
  "co_resets (stopHeartbeatIfIdle c) = co_resets c"
  "co_disposed (stopHeartbeatIfIdle c) = co_disposed c"
  "co_tick (stopHeartbeatIfIdle c) = co_tick c"
  "co_opportunities (stopHeartbeatIfIdle c) = co_opportunities c"
  "co_calls (stopHeartbeatIfIdle c) = co_calls c"
  by (simp_all add: stopHeartbeatIfIdle_def)

lemma claim_frame [simp]:
  "co_claims (claim i opp u keys ctx c) = co_claims c"
  "co_phases (claim i opp u keys ctx c) = co_phases c"
  "co_holdCalls (claim i opp u keys ctx c) = co_holdCalls c"
  "co_seq (claim i opp u keys ctx c) = co_seq c"
  "co_holds (claim i opp u keys ctx c) = co_holds c"
  "co_drops (claim i opp u keys ctx c) = co_drops c"
  "co_resets (claim i opp u keys ctx c) = co_resets c"
  "co_heartbeat (claim i opp u keys ctx c) = co_heartbeat c"
  "co_disposed (claim i opp u keys ctx c) = co_disposed c"
  "co_tick (claim i opp u keys ctx c) = co_tick c"
  "co_calls (claim i opp u keys ctx c) = co_calls c"
  by (simp_all add: claim_def Let_def split: option.split)

lemma grant_frame [simp]:
  "co_claims (co_grant cfg env i keys lease c) = co_claims c"
  "co_phases (co_grant cfg env i keys lease c) = co_phases c"
  "co_holdCalls (co_grant cfg env i keys lease c) = co_holdCalls c"
  "co_seq (co_grant cfg env i keys lease c) = co_seq c"
  "co_holds (co_grant cfg env i keys lease c) = co_holds c"
  "co_drops (co_grant cfg env i keys lease c) = co_drops c"
  "co_resets (co_grant cfg env i keys lease c) = co_resets c"
  "co_disposed (co_grant cfg env i keys lease c) = co_disposed c"
  "co_tick (co_grant cfg env i keys lease c) = co_tick c"
  "co_opportunities (co_grant cfg env i keys lease c) = co_opportunities c"
  "co_calls (co_grant cfg env i keys lease c) = co_calls c"
  by (simp_all add: co_grant_def split: option.split)

lemma register_frame [simp]:
  "co_claims (registerActive cfg env i keys u lease c) = co_claims c"
  "co_phases (registerActive cfg env i keys u lease c) = co_phases c"
  "co_holdCalls (registerActive cfg env i keys u lease c) = co_holdCalls c"
  "co_seq (registerActive cfg env i keys u lease c) = co_seq c"
  "co_holds (registerActive cfg env i keys u lease c) = co_holds c"
  "co_drops (registerActive cfg env i keys u lease c) = co_drops c"
  "co_resets (registerActive cfg env i keys u lease c) = co_resets c"
  "co_disposed (registerActive cfg env i keys u lease c) = co_disposed c"
  "co_tick (registerActive cfg env i keys u lease c) = co_tick c"
  "co_opportunities (registerActive cfg env i keys u lease c) = co_opportunities c"
  "co_calls (registerActive cfg env i keys u lease c) = co_calls c"
  by (simp_all add: registerActive_def)

lemma abandon_frame [simp]:
  "co_claims (abandon i c) = co_claims c"
  "co_phases (abandon i c) = co_phases c"
  "co_holdCalls (abandon i c) = co_holdCalls c"
  "co_seq (abandon i c) = co_seq c"
  "co_holds (abandon i c) = co_holds c"
  "co_drops (abandon i c) = co_drops c"
  "co_resets (abandon i c) = co_resets c"
  "co_disposed (abandon i c) = co_disposed c"
  "co_tick (abandon i c) = co_tick c"
  "co_calls (abandon i c) = co_calls c"
  by (simp_all add: abandon_def Let_def split: option.split)

lemma acquire_with_frame [simp]:
  "co_claims (co_acquire tier cfg env i refs ctx c) = co_claims c"
  "co_phases (co_acquire tier cfg env i refs ctx c) = co_phases c"
  "co_holdCalls (co_acquire tier cfg env i refs ctx c) = co_holdCalls c"
  "co_seq (co_acquire tier cfg env i refs ctx c) = co_seq c"
  "co_active (co_acquire tier cfg env i refs ctx c) = co_active c"
  "co_holds (co_acquire tier cfg env i refs ctx c) = co_holds c"
  "co_drops (co_acquire tier cfg env i refs ctx c) = co_drops c"
  "co_resets (co_acquire tier cfg env i refs ctx c) = co_resets c"
  "co_heartbeat (co_acquire tier cfg env i refs ctx c) = co_heartbeat c"
  "co_disposed (co_acquire tier cfg env i refs ctx c) = co_disposed c"
  "co_tick (co_acquire tier cfg env i refs ctx c) = co_tick c"
  "co_opportunities (co_acquire tier cfg env i refs ctx c) = co_opportunities c"
  by (simp_all add: co_acquire_def)

lemma release_start_frame [simp]:
  "co_claims (releaseLease_start env i lease c) = co_claims c"
  "co_phases (releaseLease_start env i lease c) = co_phases c"
  "co_holdCalls (releaseLease_start env i lease c) = co_holdCalls c"
  "co_seq (releaseLease_start env i lease c) = co_seq c"
  "co_active (releaseLease_start env i lease c) = co_active c"
  "co_holds (releaseLease_start env i lease c) = co_holds c"
  "co_drops (releaseLease_start env i lease c) = co_drops c"
  "co_resets (releaseLease_start env i lease c) = co_resets c"
  "co_heartbeat (releaseLease_start env i lease c) = co_heartbeat c"
  "co_disposed (releaseLease_start env i lease c) = co_disposed c"
  "co_tick (releaseLease_start env i lease c) = co_tick c"
  "co_opportunities (releaseLease_start env i lease c) = co_opportunities c"
  by (simp_all add: releaseLease_start_def)

lemma release_rest_frame [simp]:
  "co_claims (releaseLease_rest cfg env i c) = co_claims c"
  "co_phases (releaseLease_rest cfg env i c) = co_phases c"
  "co_holdCalls (releaseLease_rest cfg env i c) = co_holdCalls c"
  "co_seq (releaseLease_rest cfg env i c) = co_seq c"
  "co_active (releaseLease_rest cfg env i c) = co_active c"
  "co_holds (releaseLease_rest cfg env i c) = co_holds c"
  "co_drops (releaseLease_rest cfg env i c) = co_drops c"
  "co_resets (releaseLease_rest cfg env i c) = co_resets c"
  "co_heartbeat (releaseLease_rest cfg env i c) = co_heartbeat c"
  "co_disposed (releaseLease_rest cfg env i c) = co_disposed c"
  "co_tick (releaseLease_rest cfg env i c) = co_tick c"
  "co_opportunities (releaseLease_rest cfg env i c) = co_opportunities c"
  by (simp_all add: releaseLease_rest_def)

lemma renewLease_frame [simp]:
  "co_claims (renewLease cfg i lease now ctx c) = co_claims c"
  "co_phases (renewLease cfg i lease now ctx c) = co_phases c"
  "co_holdCalls (renewLease cfg i lease now ctx c) = co_holdCalls c"
  "co_seq (renewLease cfg i lease now ctx c) = co_seq c"
  "co_active (renewLease cfg i lease now ctx c) = co_active c"
  "co_holds (renewLease cfg i lease now ctx c) = co_holds c"
  "co_drops (renewLease cfg i lease now ctx c) = co_drops c"
  "co_resets (renewLease cfg i lease now ctx c) = co_resets c"
  "co_heartbeat (renewLease cfg i lease now ctx c) = co_heartbeat c"
  "co_disposed (renewLease cfg i lease now ctx c) = co_disposed c"
  "co_tick (renewLease cfg i lease now ctx c) = co_tick c"
  "co_opportunities (renewLease cfg i lease now ctx c) = co_opportunities c"
  by (simp_all add: renewLease_def Let_def)

lemma forget_frame [simp]:
  "co_claims (forget_opportunity opp c) = co_claims c"
  "co_phases (forget_opportunity opp c) = co_phases c"
  "co_holdCalls (forget_opportunity opp c) = co_holdCalls c"
  "co_seq (forget_opportunity opp c) = co_seq c"
  "co_active (forget_opportunity opp c) = co_active c"
  "co_holds (forget_opportunity opp c) = co_holds c"
  "co_drops (forget_opportunity opp c) = co_drops c"
  "co_resets (forget_opportunity opp c) = co_resets c"
  "co_heartbeat (forget_opportunity opp c) = co_heartbeat c"
  "co_disposed (forget_opportunity opp c) = co_disposed c"
  "co_tick (forget_opportunity opp c) = co_tick c"
  "co_calls (forget_opportunity opp c) = co_calls c"
  by (simp_all add: forget_opportunity_def split: option.split)

lemma retain_frame [simp]:
  "co_claims (retain env i e why c) = co_claims c"
  "co_phases (retain env i e why c) = co_phases c"
  "co_holdCalls (retain env i e why c) = co_holdCalls c"
  "co_seq (retain env i e why c) = co_seq c"
  "co_active (retain env i e why c) = co_active c"
  "co_drops (retain env i e why c) = co_drops c"
  "co_resets (retain env i e why c) = co_resets c"
  "co_disposed (retain env i e why c) = co_disposed c"
  "co_tick (retain env i e why c) = co_tick c"
  "co_opportunities (retain env i e why c) = co_opportunities c"
  "co_calls (retain env i e why c) = co_calls c"
  by (simp_all add: retain_def Let_def split: option.split)

lemma no_longer_waiting_frame [simp]:
  "co_claims (no_longer_waiting c) = co_claims c"
  "co_phases (no_longer_waiting c) = co_phases c"
  "co_holdCalls (no_longer_waiting c) = co_holdCalls c"
  "co_seq (no_longer_waiting c) = co_seq c"
  "co_active (no_longer_waiting c) = co_active c"
  "co_holds (no_longer_waiting c) = co_holds c"
  "co_drops (no_longer_waiting c) = co_drops c"
  "co_resets (no_longer_waiting c) = co_resets c"
  "co_heartbeat (no_longer_waiting c) = co_heartbeat c"
  "co_disposed (no_longer_waiting c) = co_disposed c"
  "co_tick (no_longer_waiting c) = co_tick c"
  "co_opportunities (no_longer_waiting c) = co_opportunities c"
  "co_calls (no_longer_waiting c) = co_calls c"
  by (simp_all add: no_longer_waiting_def)

lemma poll_frame [simp]:
  "co_claims (snd (pollDelay cfg c)) = co_claims c"
  "co_phases (snd (pollDelay cfg c)) = co_phases c"
  "co_holdCalls (snd (pollDelay cfg c)) = co_holdCalls c"
  "co_seq (snd (pollDelay cfg c)) = co_seq c"
  "co_active (snd (pollDelay cfg c)) = co_active c"
  "co_holds (snd (pollDelay cfg c)) = co_holds c"
  "co_drops (snd (pollDelay cfg c)) = co_drops c"
  "co_resets (snd (pollDelay cfg c)) = co_resets c"
  "co_heartbeat (snd (pollDelay cfg c)) = co_heartbeat c"
  "co_disposed (snd (pollDelay cfg c)) = co_disposed c"
  "co_tick (snd (pollDelay cfg c)) = co_tick c"
  "co_opportunities (snd (pollDelay cfg c)) = co_opportunities c"
  "co_calls (snd (pollDelay cfg c)) = co_calls c"
  by (simp_all add: pollDelay_def Let_def)

lemma holdOnUncertainty_frame [simp]:
  "co_claims (holdOnUncertainty env i opp why c) = co_claims c"
  "co_phases (holdOnUncertainty env i opp why c) = co_phases c"
  "co_holdCalls (holdOnUncertainty env i opp why c) = co_holdCalls c"
  "co_seq (holdOnUncertainty env i opp why c) = co_seq c"
  "co_drops (holdOnUncertainty env i opp why c) = co_drops c"
  "co_resets (holdOnUncertainty env i opp why c) = co_resets c"
  "co_disposed (holdOnUncertainty env i opp why c) = co_disposed c"
  "co_tick (holdOnUncertainty env i opp why c) = co_tick c"
  "co_calls (holdOnUncertainty env i opp why c) = co_calls c"
  by (simp_all add: holdOnUncertainty_def Let_def)

end
