(* ===== verification/Coordinator_Lock.thy ===== *)
theory Coordinator_Lock
  imports Coordinator_Frames
begin

text \<open>
  The lock of an underlying.  \<open>lock_inv\<close> relates the holders of each lock to the phases of the calls:
  an entry between its grant and its return from the order path is a holder, no two entries hold the same
  lock, and every pending call of \<^verbatim>\<open>holdUnderlying\<close> answers the entry that awaits it.  Each operation keeps it, and
  so does every run under one broker in which the store grants nobody a lock this process holds
  (\<open>lock_run\<close>).  The last lemmas say when a holder leaves (\<open>holder_stays\<close>) and when one can come
  (\<open>new_hold_on_free\<close>).
\<close>
section \<open>The lock of an underlying\<close>

definition holders_at :: "coordinator \<Rightarrow> string \<Rightarrow> holder set" where
  "holders_at c k = (case map_of (co_claims c) k of None \<Rightarrow> {} | Some cl \<Rightarrow> pc_holders cl)"

definition lock_key :: "string \<Rightarrow> string \<Rightarrow> string" where
  "lock_key b u = js_upper (js_trim b) @ '':'' @ js_upper (js_trim u)"

text \<open>Entries that got the lock and have not come back from the order path.\<close>

fun locked_frame :: "phase option \<Rightarrow> entry_frame option" where
  "locked_frame (Some (Locked f True)) = Some f"
| "locked_frame (Some (Acquiring f)) = Some f"
| "locked_frame (Some (Acquiring_local f w)) = Some f"
| "locked_frame (Some (Sleeping f)) = Some f"
| "locked_frame (Some (Retrying f)) = Some f"
| "locked_frame (Some (Verifying f l)) = Some f"
| "locked_frame (Some (Admitted_entry f)) = Some f"
| "locked_frame (Some (Entering f)) = Some f"
| "locked_frame _ = None"

definition hold_call_ok :: "string \<Rightarrow> (nat \<rightharpoonup> phase) \<Rightarrow> hold_call \<Rightarrow> bool" where
  "hold_call_ok b phases h =
     (case hc_for h of
        Pipeline i \<Rightarrow> hc_holder h = pipeline_holder i
          \<and> (\<exists>f. phases i = Some (Locking f) \<and> hc_claimKey h = lock_key b (ef_underlying f))
      | _ \<Rightarrow> \<forall>i. hc_holder h \<noteq> pipeline_holder i)"

definition lock_inv :: "string \<Rightarrow> nat set \<Rightarrow> coordinator \<Rightarrow> bool" where
  "lock_inv b X c \<longleftrightarrow>
     (\<forall>i f. i \<notin> X \<longrightarrow> locked_frame (co_phases c i) = Some f
        \<longrightarrow> pipeline_holder i \<in> holders_at c (lock_key b (ef_underlying f)))
   \<and> (\<forall>k i j. pipeline_holder i \<in> holders_at c k \<longrightarrow> pipeline_holder j \<in> holders_at c k \<longrightarrow> i = j)
   \<and> (\<forall>owner h. co_holdCalls c owner = Some h \<longrightarrow> hold_call_ok b (co_phases c) h)
   \<and> (\<forall>m n g h i. co_holdCalls c m = Some g \<longrightarrow> co_holdCalls c n = Some h \<longrightarrow> hc_for g = Pipeline i
        \<longrightarrow> hc_for h = Pipeline i \<longrightarrow> m = n)
   \<and> (\<forall>i > co_seq c. co_phases c i = None)"

lemma holders_cong: "co_claims c' = co_claims c \<Longrightarrow> holders_at c' k = holders_at c k"
  by (simp add: holders_at_def)

lemma lock_inv_cong:
  assumes "co_claims c' = co_claims c" "co_phases c' = co_phases c" "co_holdCalls c' = co_holdCalls c" "co_seq c' = co_seq c"
  shows "lock_inv b X c' = lock_inv b X c"
  unfolding lock_inv_def by (simp add: assms holders_cong [OF assms(1)])

lemma positionClaimKey_key [simp]: "positionClaimKey env u = lock_key (en_broker env) u"
  by (simp add: positionClaimKey_def lock_key_def)

lemma holders_drop:
  "holders_at (snd (dropUnderlyingHolder cfg env u h who c)) k =
     (if k = lock_key (en_broker env) u then holders_at c k - {h} else holders_at c k)"
  by (simp add: dropUnderlyingHolder_def holders_at_def Let_def bump_def delete_conv' update_conv'
      split: option.split)

lemma drop_frame [simp]:
  "co_phases (snd (dropUnderlyingHolder cfg env u h who c)) = co_phases c"
  "co_holdCalls (snd (dropUnderlyingHolder cfg env u h who c)) = co_holdCalls c"
  "co_seq (snd (dropUnderlyingHolder cfg env u h who c)) = co_seq c"
  "co_active (snd (dropUnderlyingHolder cfg env u h who c)) = co_active c"
  "co_holds (snd (dropUnderlyingHolder cfg env u h who c)) = co_holds c"
  "co_heartbeat (snd (dropUnderlyingHolder cfg env u h who c)) = co_heartbeat c"
  "co_disposed (snd (dropUnderlyingHolder cfg env u h who c)) = co_disposed c"
  "co_tick (snd (dropUnderlyingHolder cfg env u h who c)) = co_tick c"
  by (simp_all add: dropUnderlyingHolder_def Let_def split: option.split)

lemma abandonHold_frame [simp]:
  "co_phases (abandonAndReleaseHold cfg env i c) = co_phases c"
  "co_holdCalls (abandonAndReleaseHold cfg env i c) = co_holdCalls c"
  "co_seq (abandonAndReleaseHold cfg env i c) = co_seq c"
  "co_holds (abandonAndReleaseHold cfg env i c) = co_holds c"
  "co_disposed (abandonAndReleaseHold cfg env i c) = co_disposed c"
  "co_tick (abandonAndReleaseHold cfg env i c) = co_tick c"
  by (simp_all add: abandonAndReleaseHold_def releasePipelineHold_def split: option.split)

lemma lock_quiet [simp]:
  "lock_inv b X (bump st c) = lock_inv b X c"
  "lock_inv b X (log_call k c) = lock_inv b X c"
  "lock_inv b X (ensureHeartbeat c) = lock_inv b X c"
  "lock_inv b X (stopHeartbeatIfIdle c) = lock_inv b X c"
  "lock_inv b X (claim i opp u keys ctx c) = lock_inv b X c"
  "lock_inv b X (co_grant cfg env i keys lease c) = lock_inv b X c"
  "lock_inv b X (registerActive cfg env i keys u lease c) = lock_inv b X c"
  "lock_inv b X (abandon i c) = lock_inv b X c"
  "lock_inv b X (co_acquire tier cfg env i refs ctx c) = lock_inv b X c"
  "lock_inv b X (releaseLease_start env i l c) = lock_inv b X c"
  "lock_inv b X (releaseLease_rest cfg env i c) = lock_inv b X c"
  "lock_inv b X (renewLease cfg i lease now ctx c) = lock_inv b X c"
  "lock_inv b X (forget_opportunity opp c) = lock_inv b X c"
  "lock_inv b X (retain env i e why c) = lock_inv b X c"
  "lock_inv b X (no_longer_waiting c) = lock_inv b X c"
  "lock_inv b X (snd (pollDelay cfg c)) = lock_inv b X c"
  "lock_inv b X (holdOnUncertainty env i opp why c) = lock_inv b X c"
  by (intro lock_inv_cong; simp)+

lemma lock_inv_mono: "lock_inv b X c \<Longrightarrow> X \<subseteq> Y \<Longrightarrow> lock_inv b Y c"
  unfolding lock_inv_def by blast

lemma lock_drop:
  assumes "lock_inv b X c" and "\<And>i. h = pipeline_holder i \<Longrightarrow> i \<in> X"
  shows "lock_inv b X (snd (dropUnderlyingHolder cfg env u h who c))"
proof -
  have "pipeline_holder i \<in> holders_at (snd (dropUnderlyingHolder cfg env u h who c)) k"
    if "pipeline_holder i \<in> holders_at c k" "i \<notin> X" for i k
    using that assms(2) by (auto simp: holders_drop)
  moreover have "pipeline_holder i \<in> holders_at c k"
    if "pipeline_holder i \<in> holders_at (snd (dropUnderlyingHolder cfg env u h who c)) k" for i k
    using that by (auto simp: holders_drop split: if_splits)
  ultimately show ?thesis using assms(1) unfolding lock_inv_def by (simp only: drop_frame) blast
qed

lemma lock_abandonHold:
  assumes "lock_inv b X c" and "i \<in> X"
  shows "lock_inv b X (abandonAndReleaseHold cfg env i c)"
  using assms by (auto simp: abandonAndReleaseHold_def releasePipelineHold_def intro: lock_drop split: option.split)

text \<open>A call that is not waiting for its lock moves to a phase that needs no lock, or the lock it has.\<close>

lemma lock_set_phase:
  assumes "lock_inv b {i} c" and "\<And>f. co_phases c i \<noteq> Some (Locking f)" and "i \<le> co_seq c"
    and "\<And>f. locked_frame (Some ph) = Some f \<Longrightarrow> pipeline_holder i \<in> holders_at c (lock_key b (ef_underlying f))"
  shows "lock_inv b {} (set_phase i ph c)"
proof -
  have h: "holders_at (set_phase i ph c) = holders_at c" by (rule ext) (simp add: holders_at_def)
  have "hold_call_ok b ((co_phases c)(i \<mapsto> ph)) h" if "hold_call_ok b (co_phases c) h" for h
    using that assms(2) by (auto simp: hold_call_ok_def split: awaiting.splits)
  then show ?thesis using assms(1,3,4) unfolding lock_inv_def h by (auto split: if_splits)
qed

lemma lock_leave:
  assumes "lock_inv b {i} c" and "\<And>f. co_phases c i \<noteq> Some (Locking f)" and "i \<le> co_seq c"
    and "locked_frame (Some ph) = None"
  shows "lock_inv b {} (set_phase i ph c)"
  using assms by (intro lock_set_phase) auto

lemma lock_stay:
  assumes "lock_inv b {} c" and "locked_frame (co_phases c i) = Some f" and "i \<le> co_seq c"
    and "\<And>g. locked_frame (Some ph) = Some g \<Longrightarrow> ef_underlying g = ef_underlying f"
  shows "lock_inv b {} (set_phase i ph c)"
proof (rule lock_set_phase)
  show "lock_inv b {i} c" by (rule lock_inv_mono [OF assms(1)]) simp
  show "co_phases c i \<noteq> Some (Locking g)" for g using assms(2) by auto
  show "i \<le> co_seq c" by (rule assms(3))
  fix g assume "locked_frame (Some ph) = Some g"
  then show "pipeline_holder i \<in> holders_at c (lock_key b (ef_underlying g))"
    using assms(1,2,4) unfolding lock_inv_def by simp
qed

lemma phase_le_seq: "lock_inv b X c \<Longrightarrow> co_phases c i = Some ph \<Longrightarrow> i \<le> co_seq c"
  unfolding lock_inv_def by (metis not_le option.distinct(1))

lemma lock_inv_cong':
  assumes "\<And>k. holders_at c' k = holders_at c k" "co_phases c' = co_phases c" "co_holdCalls c' = co_holdCalls c"
    "co_seq c' = co_seq c"
  shows "lock_inv b X c' = lock_inv b X c"
  unfolding lock_inv_def by (simp add: assms)

lemma lock_ex: "lock_inv b {} c \<Longrightarrow> lock_inv b {i} c"
  by (erule lock_inv_mono) simp

lemma locked_not_locking: "locked_frame (co_phases c i) = Some f \<Longrightarrow> co_phases c i \<noteq> Some (Locking g)"
  by auto

lemma locked_le_seq: "lock_inv b X c \<Longrightarrow> locked_frame (co_phases c i) = Some f \<Longrightarrow> i \<le> co_seq c"
  by (cases "co_phases c i") (auto dest: phase_le_seq)

text \<open>A locked entry gives up its hold and ends, or goes on under the same lock.\<close>

lemma lock_end:
  assumes "lock_inv b {} c" and "locked_frame (co_phases c i) = Some f" and "locked_frame (Some ph) = None"
    and "lock_inv b {i} c'" and "co_phases c' = co_phases c" and "co_seq c' = co_seq c"
  shows "lock_inv b {} (set_phase i ph c')"
  using assms locked_not_locking locked_le_seq [OF assms(1,2)] by (intro lock_leave) auto

lemma lock_go:
  assumes "lock_inv b {} c'" and "locked_frame (co_phases c' i) = Some f"
    and "\<And>g. locked_frame (Some ph) = Some g \<Longrightarrow> ef_underlying g = ef_underlying f"
  shows "lock_inv b {} (set_phase i ph c')"
  using assms locked_le_seq [OF assms(1,2)] by (intro lock_stay)

lemma lock_release:
  assumes "lock_inv b {} c" and "locked_frame (co_phases c i) = Some f"
  shows "lock_inv b {} (set_phase i (Releasing out) (releaseLease_start env i l (abandonAndReleaseHold cfg env i (bump st c))))"
  by (rule lock_end [OF assms]) (simp_all add: lock_abandonHold lock_ex assms(1))

lemma lock_confirm:
  assumes "lock_inv b {} c" and "locked_frame (co_phases c i) = Some f"
  shows "lock_inv b {} (confirmBeforeSubmit cfg env i f lease waited c)"
proof -
  have "lock_inv b {} (set_phase i (Admitted_entry f) (co_grant cfg env i ks lease c))" for ks
    by (rule lock_go [where f = f]) (simp_all add: assms)
  moreover have "lock_inv b {} (set_phase i (Verifying f lease) (log_call k c))" for k
    by (rule lock_go [where f = f]) (simp_all add: assms)
  ultimately show ?thesis by (simp add: confirmBeforeSubmit_def lock_release [OF assms])
qed

lemma lock_verified:
  assumes "lock_inv b {} c" and "co_phases c i = Some (Verifying f lease)"
  shows "lock_inv b {} (entry_verified cfg env i f lease reply c)"
proof -
  have l: "locked_frame (co_phases c i) = Some f" by (simp add: assms(2))
  have "lock_inv b {} (set_phase i (Admitted_entry f) (co_grant cfg env i ks lease c))" for ks
    by (rule lock_go [where f = f]) (simp_all add: assms)
  moreover have "lock_inv b {} (set_phase i (Done Threw) c)"
    by (rule lock_end [OF assms(1) l]) (simp_all add: lock_ex assms(1))
  ultimately show ?thesis
    by (simp add: entry_verified_def co_finish_def Let_def lock_release [OF assms(1) l]
        split: option.split OwnershipVerdict.split)
qed

lemma lock_after_wait:
  assumes "lock_inv b {} c" and "locked_frame (co_phases c i) = Some f"
  shows "lock_inv b {} (entry_after_wait cfg env i f lease c)"
  by (simp add: entry_after_wait_def lock_release [OF assms] lock_confirm assms split: option.split)

lemma lock_gave_up:
  assumes "lock_inv b {} c" and "locked_frame (co_phases c i) = Some f"
  shows "lock_inv b {} (entry_gave_up cfg env i c)"
  unfolding entry_gave_up_def co_finish_def
  by (rule lock_end [OF assms]) (simp_all add: lock_abandonHold lock_ex assms(1))

lemma lock_wait_round:
  assumes "lock_inv b {} c" and "locked_frame (co_phases c i) = Some f"
  shows "lock_inv b {} (wait_round cfg env i f c)"
  unfolding wait_round_def Let_def
  by (auto simp: case_prod_beta assms intro!: lock_go [where f = f] lock_gave_up [where f = f])

lemma lock_conflict:
  assumes "lock_inv b {} c" and "locked_frame (co_phases c i) = Some f"
  shows "lock_inv b {} (entry_conflict cfg env i f c)"
proof -
  let ?c = "(bump st_reservationConflicts c)\<lparr>co_waiting := co_waiting c + 1\<rparr>"
  have "lock_inv b {} ?c = lock_inv b {} c" by (rule lock_inv_cong) simp_all
  with assms show ?thesis unfolding entry_conflict_def by (intro lock_wait_round) simp_all
qed

lemma lock_unavailable:
  assumes "lock_inv b {} c" and "locked_frame (co_phases c i) = Some f"
  shows "lock_inv b {} (handleUnavailable cfg env i f waited c)"
proof -
  have "lock_inv b {} (set_phase i (Done out) (abandonAndReleaseHold cfg env i c'))"
    if "lock_inv b {} c' = lock_inv b {} c" "co_phases c' = co_phases c" "co_seq c' = co_seq c" for out c'
    using that assms by (intro lock_end [OF assms] lock_abandonHold lock_ex) simp_all
  moreover have "lock_inv b {} (set_phase i (Acquiring_local f waited)
      (co_acquire Local_tier cfg env i (ef_refs f) (ef_context f) (bump st_localOnlyFallbacks c)))"
    by (rule lock_go [where f = f]) (simp_all add: assms)
  ultimately show ?thesis by (simp add: handleUnavailable_def co_finish_def)
qed

lemma lock_no_lease:
  assumes "lock_inv b {} c" and "locked_frame (co_phases c i) = Some f"
  shows "lock_inv b {} (entry_no_lease cfg env i why c)"
  unfolding entry_no_lease_def co_finish_def
  by (rule lock_end [OF assms]) (simp_all add: lock_abandonHold lock_ex assms(1))

lemma lock_acquired:
  assumes "lock_inv b {} c" and "locked_frame (co_phases c i) = Some f"
  shows "lock_inv b {} (entry_acquired cfg env i f reply c)"
  unfolding entry_acquired_def co_finish_def
  by (auto simp: assms lock_ex intro!: lock_end [OF assms] lock_abandonHold lock_confirm lock_unavailable lock_conflict
      split: option.split AcquireResult.split)

lemma lock_acquired_local:
  assumes "lock_inv b {} c" and "locked_frame (co_phases c i) = Some f"
  shows "lock_inv b {} (entry_acquired_local cfg env i f waited reply c)"
  unfolding entry_acquired_local_def co_finish_def
  by (auto simp: assms lock_ex
      intro!: lock_end [OF assms] lock_confirm lock_after_wait lock_gave_up [OF assms] lock_no_lease [OF assms] lock_conflict
      split: option.split AcquireResult.split)

lemma lock_woken:
  assumes "lock_inv b {} c" and "locked_frame (co_phases c i) = Some f"
  shows "lock_inv b {} (entry_woken cfg env i f c)"
  unfolding entry_woken_def by (rule lock_go [where f = f]) (simp_all add: assms)

lemma lock_retried:
  assumes "lock_inv b {} c" and "locked_frame (co_phases c i) = Some f"
  shows "lock_inv b {} (entry_retried cfg env i f reply c)"
  unfolding entry_retried_def co_finish_def
  by (auto simp: assms lock_ex intro!: lock_end [OF assms] lock_after_wait lock_unavailable lock_wait_round
      split: option.split AcquireResult.split)

lemma lock_inv_call: "lock_inv b X c \<Longrightarrow> co_holdCalls c m = Some g \<Longrightarrow> hold_call_ok b (co_phases c) g"
  unfolding lock_inv_def by blast

lemma mint_frame [simp]:
  "co_claims (snd (mintId cfg kind c)) = co_claims c" "co_phases (snd (mintId cfg kind c)) = co_phases c"
  "co_holdCalls (snd (mintId cfg kind c)) = co_holdCalls c" "co_seq (snd (mintId cfg kind c)) = co_seq c + 1"
  "co_active (snd (mintId cfg kind c)) = co_active c" "co_holds (snd (mintId cfg kind c)) = co_holds c"
  "co_heartbeat (snd (mintId cfg kind c)) = co_heartbeat c" "co_disposed (snd (mintId cfg kind c)) = co_disposed c"
  "co_tick (snd (mintId cfg kind c)) = co_tick c" "co_opportunities (snd (mintId cfg kind c)) = co_opportunities c"
  "co_drops (snd (mintId cfg kind c)) = co_drops c" "co_calls (snd (mintId cfg kind c)) = co_calls c"
  "fst (mintId cfg kind c) = co_seq c + 1"
  by (simp_all add: mintId_def Let_def)

lemma lock_mint: "lock_inv b X c \<Longrightarrow> lock_inv b X (snd (mintId cfg kind c))"
  unfolding lock_inv_def by (simp add: holders_at_def)

lemma hold_frame [simp]:
  "co_phases (snd (holdUnderlying cfg env u h ex who c)) = co_phases c"
  "co_active (snd (holdUnderlying cfg env u h ex who c)) = co_active c"
  "co_holds (snd (holdUnderlying cfg env u h ex who c)) = co_holds c"
  "co_heartbeat (snd (holdUnderlying cfg env u h ex who c)) = co_heartbeat c"
  "co_disposed (snd (holdUnderlying cfg env u h ex who c)) = co_disposed c"
  "co_tick (snd (holdUnderlying cfg env u h ex who c)) = co_tick c"
  "co_drops (snd (holdUnderlying cfg env u h ex who c)) = co_drops c"
  "co_opportunities (snd (holdUnderlying cfg env u h ex who c)) = co_opportunities c"
  by (simp_all add: holdUnderlying_def Let_def case_prod_beta split: option.split)

lemma hold_seq: "co_seq c \<le> co_seq (snd (holdUnderlying cfg env u h ex who c))"
  by (simp add: holdUnderlying_def Let_def case_prod_beta split: option.split)

lemma hold_adds:
  "holders_at c k \<subseteq> holders_at (snd (holdUnderlying cfg env u h ex who c)) k
   \<and> holders_at (snd (holdUnderlying cfg env u h ex who c)) k \<subseteq> insert h (holders_at c k)"
  by (auto simp: holdUnderlying_def holders_at_def Let_def case_prod_beta update_conv' split: option.split)

lemma hold_exclusive_holders [simp]:
  "holders_at (snd (holdUnderlying cfg env u h True who c)) k = holders_at c k"
  by (auto simp: holdUnderlying_def holders_at_def Let_def case_prod_beta split: option.split)

lemma hold_calls:
  "co_holdCalls (snd (holdUnderlying cfg env u h ex who c)) m = Some g \<Longrightarrow> co_holdCalls c m = Some g
   \<or> (fst (holdUnderlying cfg env u h ex who c) = None \<and> m = co_seq c + 1 \<and> hc_for g = who \<and> hc_holder g = h
      \<and> hc_claimKey g = lock_key (en_broker env) u)"
  by (auto simp: holdUnderlying_def Let_def case_prod_beta split: option.splits if_splits)

lemma lock_hold_plain:
  assumes inv: "lock_inv b X c" and h: "\<And>i. h \<noteq> pipeline_holder i" and who: "\<And>i. who \<noteq> Pipeline i"
  shows "lock_inv b X (snd (holdUnderlying cfg env u h ex who c))"
proof -
  let ?c = "snd (holdUnderlying cfg env u h ex who c)"
  have p: "pipeline_holder i \<in> holders_at ?c k \<longleftrightarrow> pipeline_holder i \<in> holders_at c k" for i k
    using hold_adds [of c k cfg env u h ex who] h [of i] by blast
  have call: "hold_call_ok b (co_phases c) g" if "co_holdCalls ?c m = Some g" for m g
  proof (cases "co_holdCalls c m = Some g")
    case True
    then show ?thesis by (rule lock_inv_call [OF inv])
  next
    case False
    then show ?thesis using hold_calls [OF that] h who by (auto simp: hold_call_ok_def split: awaiting.split)
  qed
  have old: "co_holdCalls c m = Some g" if "co_holdCalls ?c m = Some g" "hc_for g = Pipeline i" for m g i
    using hold_calls [OF that(1)] that(2) who by auto
  show ?thesis unfolding lock_inv_def
  proof (intro conjI allI impI)
    show "pipeline_holder i \<in> holders_at ?c (lock_key b (ef_underlying f))"
      if "i \<notin> X" "locked_frame (co_phases ?c i) = Some f" for i f
      using that inv unfolding p by (simp add: lock_inv_def)
    show "i = j" if "pipeline_holder i \<in> holders_at ?c k" "pipeline_holder j \<in> holders_at ?c k" for k i j
      using that inv unfolding p lock_inv_def by blast
    show "hold_call_ok b (co_phases ?c) g" if "co_holdCalls ?c m = Some g" for m g using call [OF that] by simp
    show "m = n" if "co_holdCalls ?c m = Some g" "co_holdCalls ?c n = Some g'" "hc_for g = Pipeline i" "hc_for g' = Pipeline i"
      for m n g g' i
      using old [OF that(1,3)] old [OF that(2,4)] that(3,4) inv unfolding lock_inv_def by blast
    show "co_phases ?c i = None" if "co_seq ?c < i" for i
      using that hold_seq [of c cfg env u h ex who] inv unfolding lock_inv_def by simp
  qed
qed

lemma no_pipeline_call:
  assumes "lock_inv b X c" and "\<And>f. co_phases c i \<noteq> Some (Locking f)" and "co_holdCalls c m = Some g"
  shows "hc_for g \<noteq> Pipeline i"
  using lock_inv_call [OF assms(1,3)] assms(2) by (auto simp: hold_call_ok_def)

text \<open>An entry that has no lock asks for it.\<close>

lemma lock_hold_pipeline:
  assumes inv: "lock_inv b {} c" and u: "\<And>f. co_phases c i \<noteq> Some (Locking f)" and i: "i \<le> co_seq c"
    and b: "en_broker env = b"
  shows "lock_inv b {}
    (set_phase i (case fst (holdUnderlying cfg env (ef_underlying f) (pipeline_holder i) True (Pipeline i) c) of
                    Some x \<Rightarrow> Locked f False | None \<Rightarrow> Locking f)
       (snd (holdUnderlying cfg env (ef_underlying f) (pipeline_holder i) True (Pipeline i) c)))"
    (is "lock_inv b {} (set_phase i ?ph ?c)")
proof -
  have h: "holders_at (set_phase i ph c') = holders_at c'" for ph c' by (rule ext) (simp add: holders_at_def)
  have seq: "co_seq c \<le> co_seq ?c" by (rule hold_seq)
  have none: "hc_for g \<noteq> Pipeline i" if "co_holdCalls c m = Some g" for m g
    by (rule no_pipeline_call [OF inv u that])
  have new: "m = co_seq c + 1 \<and> hc_holder g = pipeline_holder i \<and> hc_claimKey g = lock_key b (ef_underlying f)
      \<and> ?ph = Locking f \<and> hc_for g = Pipeline i"
    if "co_holdCalls ?c m = Some g" "co_holdCalls c m \<noteq> Some g" for m g
    using hold_calls [OF that(1)] that(2) b by auto
  have other: "hold_call_ok b ((co_phases c)(i \<mapsto> ?ph)) g" if "co_holdCalls c m = Some g" for m g
    using lock_inv_call [OF inv that] none [OF that] by (auto simp: hold_call_ok_def split: awaiting.splits)
  have unlocked: "locked_frame (Some ?ph) = None" by (simp split: option.split)
  show ?thesis unfolding lock_inv_def h
  proof (intro conjI allI impI)
    show "pipeline_holder j \<in> holders_at ?c (lock_key b (ef_underlying g))"
      if "j \<notin> {}" "locked_frame (co_phases (set_phase i ?ph ?c) j) = Some g" for j g
      using that unlocked inv by (auto simp: lock_inv_def split: if_splits)
    show "m = n" if "pipeline_holder m \<in> holders_at ?c k" "pipeline_holder n \<in> holders_at ?c k" for k m n
      using that inv by (simp add: lock_inv_def)
    show "hold_call_ok b (co_phases (set_phase i ?ph ?c)) g" if "co_holdCalls (set_phase i ?ph ?c) m = Some g" for m g
    proof (cases "co_holdCalls c m = Some g")
      case True
      then show ?thesis using other by simp
    next
      case False
      with new [of m g] that show ?thesis by (simp add: hold_call_ok_def)
    qed
    show "m = n" if "co_holdCalls (set_phase i ?ph ?c) m = Some g" "co_holdCalls (set_phase i ?ph ?c) n = Some g'"
      "hc_for g = Pipeline j" "hc_for g' = Pipeline j" for m n g g' j
    proof (cases "co_holdCalls c m = Some g \<and> co_holdCalls c n = Some g'")
      case True
      then show ?thesis using inv that(3,4) unfolding lock_inv_def by blast
    next
      case False
      with that new [of m g] new [of n g'] none show ?thesis by (cases "co_holdCalls c m = Some g") auto
    qed
    show "co_phases (set_phase i ?ph ?c) j = None" if "co_seq (set_phase i ?ph ?c) < j" for j
      using that seq inv i by (simp add: lock_inv_def)
  qed
qed

lemma hold_exclusive_result: "fst (holdUnderlying cfg env u h True who c) = Some x \<Longrightarrow> x = False"
  by (auto simp: holdUnderlying_def Let_def case_prod_beta split: option.splits if_splits)

lemma lock_claim:
  assumes "lock_inv b {} c" and "locked_frame (co_phases c i) = Some f"
  shows "lock_inv b {} (entry_claim cfg env i f c)"
proof -
  have "lock_inv b {} (set_phase i (Done out) c)" for out
    by (rule lock_end [OF assms]) (simp_all add: lock_ex assms(1))
  moreover have "lock_inv b {} (set_phase i (Acquiring (f\<lparr>ef_refs := refs, ef_waitStarted := t\<rparr>))
      (co_acquire tier cfg env i refs ctx (claim i opp u ks ctx c)))" for refs t tier ctx opp u ks
    by (rule lock_go [where f = f]) (simp_all add: assms)
  ultimately show ?thesis by (simp add: entry_claim_def co_finish_def Let_def)
qed

lemma lock_entry_lock:
  assumes "lock_inv b {} c" and "\<And>f. co_phases c i \<noteq> Some (Locking f)" and "i \<le> co_seq c"
    and "en_broker env = b" and "oneActiveBoxPerUnderlying cfg"
  shows "lock_inv b {} (entry_lock cfg env i f c)"
proof (cases "evaluateUnderlyingAdmission True (ef_underlying f) (en_active env)")
  case (Already_active u a)
  then show ?thesis using assms by (simp add: entry_lock_def co_finish_def lock_leave lock_ex)
next
  case (Admitted n)
  let ?h = "holdUnderlying cfg env (ef_underlying f) (pipeline_holder i) True (Pipeline i) c"
  have "(case fst ?h of Some x \<Rightarrow> Locked f x | None \<Rightarrow> Locking f) = (case fst ?h of Some x \<Rightarrow> Locked f False | None \<Rightarrow> Locking f)"
    by (auto dest: hold_exclusive_result split: option.split)
  then show ?thesis using Admitted assms(5) lock_hold_pipeline [OF assms(1-4), where f = f]
    by (simp add: entry_lock_def case_prod_beta)
qed

lemma lock_entry_locked:
  assumes "lock_inv b {} c" and "co_phases c i = Some (Locked f granted)"
  shows "lock_inv b {} (entry_locked cfg env i f granted c)"
proof (cases granted)
  case True
  then show ?thesis using assms by (simp add: entry_locked_def lock_claim)
next
  case False
  have "lock_inv b {} (set_phase i (Done out) (bump st (abandonAndReleaseHold cfg env i c)))" for out st
    by (rule lock_leave) (use assms in \<open>simp_all add: lock_abandonHold lock_ex phase_le_seq\<close>)
  with False show ?thesis by (simp add: entry_locked_def co_finish_def)
qed

lemma lock_entry_start:
  assumes inv: "lock_inv b {} c" and "en_broker env = b" and "oneActiveBoxPerUnderlying cfg"
  shows "lock_inv b {} (entry_start cfg env r c)"
proof -
  let ?i = "co_seq c + 1" and ?c = "snd (mintId cfg ''entry'' c)"
  have m: "lock_inv b {} ?c" by (rule lock_mint [OF inv])
  have n: "co_phases ?c ?i \<noteq> Some (Locking f)" for f using inv unfolding lock_inv_def by simp
  have "lock_inv b {} (set_phase ?i ph (bump st ?c))" if "locked_frame (Some ph) = None" for ph st
    by (rule lock_leave) (use that m n in \<open>simp_all add: lock_ex\<close>)
  moreover have "lock_inv b {} (set_phase ?i (Consuming f) (log_call k ?c))" for f k
    by (rule lock_leave) (use m n in \<open>simp_all add: lock_ex\<close>)
  moreover have "lock_inv b {} (entry_lock cfg env ?i f ?c)" for f
    by (rule lock_entry_lock [OF m n]) (simp_all add: assms)
  ultimately show ?thesis
    by (simp add: entry_start_def case_prod_beta co_finish_def Let_def split: option.split)
qed

lemma lock_simulateEntry:
  assumes "lock_inv b {} c" and "en_broker env = b" and "oneActiveBoxPerUnderlying cfg"
  shows "lock_inv b {} (simulateEntry cfg env r c)"
  by (simp add: simulateEntry_def assms lock_entry_start)

lemma lock_counted:
  assumes "lock_inv b {} c" and "co_phases c i = Some (Consuming f)"
    and "en_broker env = b" and "oneActiveBoxPerUnderlying cfg"
  shows "lock_inv b {} (entry_counted cfg env i f ok c)"
proof -
  have "lock_inv b {} (set_phase i (Done out) (bump st c))" for out st
    by (rule lock_leave) (use assms in \<open>simp_all add: lock_ex phase_le_seq\<close>)
  moreover have "lock_inv b {} (entry_lock cfg env i f c)"
    by (rule lock_entry_lock) (use assms in \<open>simp_all add: phase_le_seq\<close>)
  ultimately show ?thesis by (simp add: entry_counted_def co_finish_def)
qed

text \<open>A call of \<^verbatim>\<open>holdUnderlying\<close> ends.\<close>

lemma holders_set:
  "holders_at (c\<lparr>co_claims := AList.update k cl (co_claims c)\<rparr>) k' = (if k' = k then pc_holders cl else holders_at c k')"
  by (simp add: holders_at_def update_conv')

lemma rest_holders:
  "holders_at (snd (holdUnderlying_rest env owner h reply c)) k =
     (if fst (holdUnderlying_rest env owner h reply c) \<and> k = hc_claimKey h then {hc_holder h} else holders_at c k)"
  by (auto simp: holdUnderlying_rest_def holders_at_def update_conv' split: option.split AcquireResult.split)

lemma rest_frame [simp]:
  "co_phases (snd (holdUnderlying_rest env owner h reply c)) = co_phases c"
  "co_holdCalls (snd (holdUnderlying_rest env owner h reply c)) = co_holdCalls c"
  "co_seq (snd (holdUnderlying_rest env owner h reply c)) = co_seq c"
  "co_active (snd (holdUnderlying_rest env owner h reply c)) = co_active c"
  "co_holds (snd (holdUnderlying_rest env owner h reply c)) = co_holds c"
  "co_disposed (snd (holdUnderlying_rest env owner h reply c)) = co_disposed c"
  "co_tick (snd (holdUnderlying_rest env owner h reply c)) = co_tick c"
  "co_opportunities (snd (holdUnderlying_rest env owner h reply c)) = co_opportunities c"
  by (simp_all add: holdUnderlying_rest_def split: option.split AcquireResult.split)

lemma rest_grants:
  "fst (holdUnderlying_rest env owner h reply c) \<longleftrightarrow> (\<exists>lease. reply = Some (Granted lease))"
  by (auto simp: holdUnderlying_rest_def acquire_result_def split: option.split ReservationOutcome.split)

lemma lock_forget_call:
  "lock_inv b X c \<Longrightarrow> lock_inv b X (c\<lparr>co_holdCalls := (co_holdCalls c)(owner := None)\<rparr>)"
  unfolding lock_inv_def by (simp add: holders_at_def)

text \<open>What \<^verbatim>\<open>hold_replied\<close> does to the call that awaits the lock.\<close>

definition resumed_phases :: "hold_call \<Rightarrow> bool \<Rightarrow> (nat \<rightharpoonup> phase) \<Rightarrow> nat \<rightharpoonup> phase" where
  "resumed_phases h got phases =
     (case hc_for h of
        Nobody \<Rightarrow> phases
      | Pipeline i \<Rightarrow> (case phases i of Some (Locking f) \<Rightarrow> phases(i \<mapsto> Locked f got) | _ \<Rightarrow> phases)
      | Settlement i \<Rightarrow> (case phases i of Some (Relocking f r) \<Rightarrow> phases(i \<mapsto> Relocked f r) | _ \<Rightarrow> phases))"

lemma hold_replied_effect:
  assumes "co_holdCalls c owner = Some h"
  shows "co_phases (hold_replied env owner reply c) = resumed_phases h (\<exists>lease. reply = Some (Granted lease)) (co_phases c)"
    and "co_holdCalls (hold_replied env owner reply c) = (co_holdCalls c)(owner := None)"
    and "co_seq (hold_replied env owner reply c) = co_seq c"
    and "holders_at (hold_replied env owner reply c) k =
      (if (\<exists>lease. reply = Some (Granted lease)) \<and> k = hc_claimKey h then {hc_holder h} else holders_at c k)"
proof -
  let ?c = "c\<lparr>co_holdCalls := (co_holdCalls c)(owner := None)\<rparr>"
  have h: "holders_at (set_phase i ph c') = holders_at c'" for i ph c' by (rule ext) (simp add: holders_at_def)
  have k: "holders_at ?c = holders_at c" by (rule ext) (simp add: holders_at_def)
  note eqs = hold_replied_def assms case_prod_beta resumed_phases_def rest_grants
  show "co_phases (hold_replied env owner reply c) = resumed_phases h (\<exists>lease. reply = Some (Granted lease)) (co_phases c)"
    by (simp add: eqs split: awaiting.split option.split phase.split)
  show "co_holdCalls (hold_replied env owner reply c) = (co_holdCalls c)(owner := None)"
    by (simp add: eqs split: awaiting.split option.split phase.split)
  show "co_seq (hold_replied env owner reply c) = co_seq c"
    by (simp add: eqs split: awaiting.split option.split phase.split)
  have "holders_at (hold_replied env owner reply c) k = holders_at (snd (holdUnderlying_rest env owner h reply ?c)) k"
    by (simp add: eqs h split: awaiting.split option.split phase.split)
  then show "holders_at (hold_replied env owner reply c) k =
      (if (\<exists>lease. reply = Some (Granted lease)) \<and> k = hc_claimKey h then {hc_holder h} else holders_at c k)"
    by (simp add: rest_holders rest_grants k)
qed

lemma resumed_at:
  "resumed_phases h got phases i = phases i
   \<or> (\<exists>f. hc_for h = Pipeline i \<and> phases i = Some (Locking f) \<and> resumed_phases h got phases i = Some (Locked f got))
   \<or> (\<exists>f r. hc_for h = Settlement i \<and> phases i = Some (Relocking f r)
        \<and> resumed_phases h got phases i = Some (Relocked f r))"
  by (auto simp: resumed_phases_def split: awaiting.split option.split phase.split)

lemma lock_hold_replied:
  assumes inv: "lock_inv b {} c"
    and excl: "\<And>h lease. co_holdCalls c owner = Some h \<Longrightarrow> reply = Some (Granted lease) \<Longrightarrow> holders_at c (hc_claimKey h) = {}"
  shows "lock_inv b {} (hold_replied env owner reply c)"
proof (cases "co_holdCalls c owner")
  case None
  then show ?thesis using inv by (simp add: hold_replied_def)
next
  case (Some h)
  let ?got = "\<exists>lease. reply = Some (Granted lease)" and ?c = "hold_replied env owner reply c"
  note eff = hold_replied_effect [OF Some, of env reply]
  have ok: "hold_call_ok b (co_phases c) h" by (rule lock_inv_call [OF inv Some])
  have pipe: "hc_holder h = pipeline_holder i \<longleftrightarrow> hc_for h = Pipeline i" for i
    using ok by (auto simp: hold_call_ok_def split: awaiting.splits)
  have uniq: "pipeline_holder i \<in> holders_at c k \<Longrightarrow> pipeline_holder j \<in> holders_at c k \<Longrightarrow> i = j" for i j k
    using inv unfolding lock_inv_def by blast
  have keep: "pipeline_holder i \<in> holders_at ?c k" if "pipeline_holder i \<in> holders_at c k" for i k
    using that excl [OF Some] by (auto simp: eff(4))
  have still: "locked_frame (co_phases c i) = Some f
      \<or> (?got \<and> hc_for h = Pipeline i \<and> co_phases c i = Some (Locking f))"
    if "locked_frame (co_phases ?c i) = Some f" for i f
    using resumed_at [of h ?got "co_phases c" i] that unfolding eff(1) by (cases ?got) auto
  have locking: "co_phases ?c i = Some (Locking f)"
    if "co_phases c i = Some (Locking f)" "hc_for h \<noteq> Pipeline i" for i f
    using resumed_at [of h ?got "co_phases c" i] that unfolding eff(1) by auto
  have others: "hc_for g \<noteq> Pipeline i" if "co_holdCalls ?c m = Some g" "hc_for h = Pipeline i" for m g i
    using that Some inv unfolding lock_inv_def eff(2) by (metis fun_upd_apply option.distinct(1))
  show ?thesis unfolding lock_inv_def
  proof (intro conjI allI impI)
    show "pipeline_holder i \<in> holders_at ?c (lock_key b (ef_underlying f))"
      if "i \<notin> {}" "locked_frame (co_phases ?c i) = Some f" for i f
    proof (cases "locked_frame (co_phases c i) = Some f")
      case True
      then show ?thesis using inv keep unfolding lock_inv_def by blast
    next
      case False
      with still [OF that(2)] have "?got" "hc_for h = Pipeline i" "co_phases c i = Some (Locking f)" by auto
      with ok show ?thesis by (auto simp: eff(4) hold_call_ok_def)
    qed
    show "i = j" if "pipeline_holder i \<in> holders_at ?c k" "pipeline_holder j \<in> holders_at ?c k" for k i j
      using that uniq unfolding eff(4) by (cases "?got \<and> k = hc_claimKey h") (auto dest: sym)
    show "hold_call_ok b (co_phases ?c) g" if "co_holdCalls ?c m = Some g" for m g
    proof -
      have "co_holdCalls c m = Some g" using that by (auto simp: eff(2) split: if_splits)
      then have "hold_call_ok b (co_phases c) g" by (rule lock_inv_call [OF inv])
      then show ?thesis using others [OF that] locking by (auto simp: hold_call_ok_def split: awaiting.splits)
    qed
    show "m = n" if "co_holdCalls ?c m = Some g" "co_holdCalls ?c n = Some g'" "hc_for g = Pipeline i" "hc_for g' = Pipeline i"
      for m n g g' i
      using that inv unfolding eff(2) lock_inv_def by (auto split: if_splits)
    show "co_phases ?c i = None" if "co_seq ?c < i" for i
      using that inv resumed_at [of h ?got "co_phases c" i] unfolding eff lock_inv_def by auto
  qed
qed

text \<open>After the order path.\<close>

lemma lock_drop_pipeline:
  assumes "lock_inv b {i} c" and "\<And>f. co_phases c i \<noteq> Some (Locking f)" and "i \<le> co_seq c"
  shows "lock_inv b {} (drop_pipeline cfg env i f r c)"
proof -
  have "lock_inv b {i} (snd (dropUnderlyingHolder cfg env (ef_underlying f) (pipeline_holder i) (Settlement i) c))"
    by (rule lock_drop [OF assms(1)]) simp
  then show ?thesis unfolding drop_pipeline_def case_prod_beta Let_def
    by (intro lock_leave) (simp_all add: assms split: option.split)
qed

lemma lock_settle_hold:
  assumes inv: "lock_inv b {} c" and p: "co_phases c i = Some (Entering f)"
  shows "lock_inv b {} (settleUnderlyingHold cfg env i f r c)"
proof -
  let ?h = "\<lambda>t. holdUnderlying cfg env (ef_underlying f) (trade_holder t) False (Settlement i) c"
  have n: "co_phases c i \<noteq> Some (Locking g)" for g by (simp add: p)
  have s: "i \<le> co_seq c" by (rule phase_le_seq [OF inv p])
  have h: "lock_inv b {i} (snd (?h t))" for t
    by (rule lock_hold_plain [OF lock_ex [OF inv]]) simp_all
  have s': "i \<le> co_seq (snd (?h t))" for t by (rule le_trans [OF s hold_seq])
  have "lock_inv b {} (set_phase i (Unlocked f r) c)"
    by (rule lock_leave) (simp_all add: n s lock_ex inv)
  moreover have "lock_inv b {} (drop_pipeline cfg env i f r c)"
    by (rule lock_drop_pipeline) (simp_all add: n s lock_ex inv)
  moreover have "lock_inv b {} (drop_pipeline cfg env i f r (snd (?h t)))" for t
    by (rule lock_drop_pipeline) (simp_all add: n s' h)
  moreover have "lock_inv b {} (set_phase i (Relocking f r) (snd (?h t)))" for t
    by (rule lock_leave) (simp_all add: n s' h)
  ultimately show ?thesis
    by (simp add: settleUnderlyingHold_def case_prod_beta split: option.split prod.split)
qed

lemma lock_entry_returned:
  assumes "lock_inv b {} c" and "co_phases c i = Some (Entering f)"
  shows "lock_inv b {} (entry_returned cfg env i f reply c)"
proof -
  have "lock_inv b {} (set_phase i (Done Threw) (holdOnUncertainty env i opp why c))" for opp why
    by (rule lock_leave) (use assms in \<open>simp_all add: lock_ex phase_le_seq\<close>)
  then show ?thesis
    by (simp add: entry_returned_def co_finish_def lock_settle_hold [OF assms] split: option.split)
qed

lemma lock_settle_execution:
  assumes "lock_inv b {} c" and "\<And>f. co_phases c i \<noteq> Some (Locking f)" and "i \<le> co_seq c"
  shows "lock_inv b {} (settle_execution env i opp uncertain out c)"
proof -
  have "lock_inv b {} (set_phase i (Done out) (retain env i e why (forget_opportunity opp (abandon i c))))" for e why
    by (rule lock_leave) (use assms in \<open>simp_all add: lock_ex\<close>)
  moreover have "lock_inv b {} (set_phase i (Releasing out)
      (releaseLease_start env i l (forget_opportunity opp (abandon i c))))" for l
    by (rule lock_leave) (use assms in \<open>simp_all add: lock_ex\<close>)
  ultimately show ?thesis by (simp add: settle_execution_def co_finish_def Let_def)
qed

lemma lock_call_resumed:
  assumes "lock_inv b {} c"
  shows "lock_inv b {} (call_resumed cfg env i c)"
proof (cases "co_phases c i")
  case None
  then show ?thesis by (simp add: call_resumed_def assms)
next
  case (Some ph)
  show ?thesis
  proof (cases ph)
    case (Locked f granted)
    then show ?thesis using Some by (simp add: call_resumed_def lock_entry_locked assms)
  next
    case (Admitted_entry f)
    have "lock_inv b {} (set_phase i (Entering f) (log_call k c))" for k
      by (rule lock_go [where f = f]) (use Some Admitted_entry assms in simp_all)
    with Some Admitted_entry show ?thesis by (simp add: call_resumed_def)
  next
    case (Relocked f r)
    have "lock_inv b {} (drop_pipeline cfg env i f r c)"
      by (rule lock_drop_pipeline) (use Some Relocked assms in \<open>simp_all add: lock_ex phase_le_seq\<close>)
    with Some Relocked show ?thesis by (simp add: call_resumed_def)
  next
    case (Unlocked f r)
    have "lock_inv b {} (settle_execution env i opp uncertain out c)" for opp uncertain out
      by (rule lock_settle_execution) (use Some Unlocked assms in \<open>simp_all add: phase_le_seq\<close>)
    with Some Unlocked show ?thesis by (simp add: call_resumed_def)
  qed (simp_all add: call_resumed_def assms Some)
qed

text \<open>Exits hold no lock.\<close>

lemma lock_simulateExit:
  assumes "lock_inv b {} c"
  shows "lock_inv b {} (simulateExit cfg env q c)"
proof -
  let ?i = "co_seq c + 1" and ?c = "snd (mintId cfg ''exit'' c)"
  have m: "lock_inv b {} ?c" by (rule lock_mint [OF assms])
  have n: "co_phases ?c ?i \<noteq> Some (Locking f)" for f using assms unfolding lock_inv_def by simp
  have "lock_inv b {} (set_phase ?i (Exit_acquiring x) (co_acquire Chain cfg env ?i refs ctx ?c))" for x refs ctx
    by (rule lock_leave) (use m n in \<open>simp_all add: lock_ex\<close>)
  then show ?thesis by (simp add: simulateExit_def case_prod_beta Let_def assms)
qed

lemma lock_exit_acquired:
  assumes "lock_inv b {} c" and "co_phases c i = Some ph" and "\<And>f. ph \<noteq> Locking f"
  shows "lock_inv b {} (exit_acquired cfg env i x reply c)" "lock_inv b {} (exit_acquired_local cfg env i x reply c)"
proof -
  have s: "i \<le> co_seq c" by (rule phase_le_seq [OF assms(1,2)])
  have d: "lock_inv b {} (set_phase i (Done out) c)" for out
    by (rule lock_leave) (simp_all add: lock_ex assms s)
  have r: "lock_inv b {} (exit_refused i why c)" for why
    unfolding exit_refused_def co_finish_def by (rule lock_leave) (simp_all add: lock_ex assms s)
  have a: "lock_inv b {} (set_phase i (Exit_acquiring_local x) (co_acquire tier cfg env i refs ctx (bump st c)))"
    for tier refs ctx st by (rule lock_leave) (simp_all add: lock_ex assms s)
  have e: "lock_inv b {} (exit_runs cfg env i x lease c)" for lease
    unfolding exit_runs_def by (rule lock_leave) (simp_all add: lock_ex assms s)
  show "lock_inv b {} (exit_acquired cfg env i x reply c)"
    by (simp add: exit_acquired_def co_finish_def d r a e split: option.split AcquireResult.split)
  show "lock_inv b {} (exit_acquired_local cfg env i x reply c)"
    by (simp add: exit_acquired_local_def co_finish_def d r e split: option.split AcquireResult.split)
qed

lemma lock_exit_returned:
  assumes "lock_inv b {} c" and "co_phases c i = Some (Exiting x)"
  shows "lock_inv b {} (exit_returned env i x reply c)"
proof -
  have s: "i \<le> co_seq c" by (rule phase_le_seq [OF assms])
  have "lock_inv b {} (set_phase i (Done Threw) (holdOnUncertainty env i opp why c))" for opp why
    by (rule lock_leave) (simp_all add: lock_ex assms s)
  moreover have "lock_inv b {} (settle_execution env i opp uncertain out c)" for opp uncertain out
    by (rule lock_settle_execution) (simp_all add: assms s)
  ultimately show ?thesis by (simp add: exit_returned_def co_finish_def split: option.split)
qed

lemma lock_store_replied:
  assumes "lock_inv b {} c"
  shows "lock_inv b {} (store_replied cfg env i reply c)"
proof (cases "co_phases c i")
  case None
  then show ?thesis by (simp add: store_replied_def assms)
next
  case (Some ph)
  then show ?thesis using assms
    by (cases ph) (simp_all add: store_replied_def lock_acquired lock_acquired_local lock_retried lock_exit_acquired)
qed

lemma lock_lease_released:
  assumes "lock_inv b {} c"
  shows "lock_inv b {} (lease_released cfg env i c)"
proof (cases "\<exists>out. co_phases c i = Some (Releasing out)")
  case True
  then obtain out where p: "co_phases c i = Some (Releasing out)" ..
  have "lock_inv b {} (set_phase i (Done out) (releaseLease_rest cfg env i c))"
    "lock_inv b {} (set_phase i (Done out) (stopHeartbeatIfIdle (releaseLease_rest cfg env i c)))"
    by (rule lock_leave; use p assms in \<open>simp add: lock_ex phase_le_seq\<close>)+
  with p show ?thesis by (cases out) (simp_all add: lease_released_def co_finish_def Let_def)
next
  case False
  then show ?thesis using assms by (simp add: lease_released_def split: option.split phase.split)
qed

lemma lock_drop_released:
  assumes "lock_inv b {} c"
  shows "lock_inv b {} (drop_released cfg env owner c)"
proof -
  let ?c = "stopHeartbeatIfIdle (releaseLease_rest cfg env owner (c\<lparr>co_drops := (co_drops c)(owner := None)\<rparr>))"
  have "lock_inv b {} (c\<lparr>co_drops := (co_drops c)(owner := None)\<rparr>) = lock_inv b {} c"
    by (rule lock_inv_cong) simp_all
  then have "lock_inv b {} ?c" using assms by simp
  moreover have "lock_inv b {} (set_phase i (Unlocked f r) ?c)" if "co_phases c i = Some (Unlocking f r)" for i f r
    by (rule lock_leave) (use that \<open>lock_inv b {} ?c\<close> phase_le_seq [OF assms that] in \<open>simp_all add: lock_ex\<close>)
  ultimately show ?thesis
    by (simp add: drop_released_def Let_def assms split: option.split awaiting.split phase.split)
qed

text \<open>The heartbeat touches leases only.\<close>

lemma map_of_update_existing: "map_of (update_existing k f m) k' = map_option (if k' = k then f else id) (map_of m k')"
  unfolding update_existing_def by (induction m) auto

lemma claims_loop_frame [simp]:
  "co_claims (claim_loop cfg t cls c) = co_claims c"
  "co_phases (claim_loop cfg t cls c) = co_phases c"
  "co_holdCalls (claim_loop cfg t cls c) = co_holdCalls c"
  "co_seq (claim_loop cfg t cls c) = co_seq c"
  "co_active (claim_loop cfg t cls c) = co_active c"
  "co_holds (claim_loop cfg t cls c) = co_holds c"
  "co_disposed (claim_loop cfg t cls c) = co_disposed c"
  by (cases "(cfg, t, cls, c)" rule: claim_loop.cases; simp add: end_tick_def set_stage_def)+

lemma hold_loop_frame [simp]:
  "co_claims (hold_loop cfg t hs c) = co_claims c"
  "co_phases (hold_loop cfg t hs c) = co_phases c"
  "co_holdCalls (hold_loop cfg t hs c) = co_holdCalls c"
  "co_seq (hold_loop cfg t hs c) = co_seq c"
  "co_active (hold_loop cfg t hs c) = co_active c"
  "co_disposed (hold_loop cfg t hs c) = co_disposed c"
  by (induction cfg t hs c rule: hold_loop.induct) (simp_all add: set_stage_def)

lemma renew_fold_frame [simp]:
  "co_claims (fold (\<lambda>(i, lease). renewLease cfg i lease n ctx) ls c) = co_claims c"
  "co_phases (fold (\<lambda>(i, lease). renewLease cfg i lease n ctx) ls c) = co_phases c"
  "co_holdCalls (fold (\<lambda>(i, lease). renewLease cfg i lease n ctx) ls c) = co_holdCalls c"
  "co_seq (fold (\<lambda>(i, lease). renewLease cfg i lease n ctx) ls c) = co_seq c"
  "co_active (fold (\<lambda>(i, lease). renewLease cfg i lease n ctx) ls c) = co_active c"
  "co_holds (fold (\<lambda>(i, lease). renewLease cfg i lease n ctx) ls c) = co_holds c"
  "co_heartbeat (fold (\<lambda>(i, lease). renewLease cfg i lease n ctx) ls c) = co_heartbeat c"
  "co_disposed (fold (\<lambda>(i, lease). renewLease cfg i lease n ctx) ls c) = co_disposed c"
  by (induction ls arbitrary: c; simp add: case_prod_beta)+

lemma renewed_frame [simp]:
  "co_phases (active_renewed i reply c) = co_phases c" "co_holdCalls (active_renewed i reply c) = co_holdCalls c"
  "co_seq (active_renewed i reply c) = co_seq c" "co_claims (active_renewed i reply c) = co_claims c"
  "co_phases (hold_renewed i out c) = co_phases c" "co_holdCalls (hold_renewed i out c) = co_holdCalls c"
  "co_seq (hold_renewed i out c) = co_seq c" "co_claims (hold_renewed i out c) = co_claims c"
  "co_phases (claim_renewed k owner out c) = co_phases c" "co_holdCalls (claim_renewed k owner out c) = co_holdCalls c"
  "co_seq (claim_renewed k owner out c) = co_seq c"
  "co_active (hold_renewed i out c) = co_active c" "co_active (claim_renewed k owner out c) = co_active c"
  "co_holds (active_renewed i reply c) = co_holds c" "co_holds (claim_renewed k owner out c) = co_holds c"
  "co_disposed (active_renewed i reply c) = co_disposed c" "co_disposed (hold_renewed i out c) = co_disposed c"
  "co_disposed (claim_renewed k owner out c) = co_disposed c"
  "co_heartbeat (active_renewed i reply c) = co_heartbeat c" "co_heartbeat (hold_renewed i out c) = co_heartbeat c"
  "co_heartbeat (claim_renewed k owner out c) = co_heartbeat c"
  by (simp_all add: active_renewed_def hold_renewed_def claim_renewed_def Let_def split: option.split RenewOutcome.split)

lemma renewed_claims [simp]: "holders_at (claim_renewed k owner out c) k' = holders_at c k'"
  by (auto simp: claim_renewed_def holders_at_def map_of_update_existing split: RenewOutcome.split option.split)

lemma tick_renewed_frame:
  "co_phases (tick_renewed cfg i reply c) = co_phases c" "co_holdCalls (tick_renewed cfg i reply c) = co_holdCalls c"
  "co_seq (tick_renewed cfg i reply c) = co_seq c" "holders_at (tick_renewed cfg i reply c) k = holders_at c k"
proof -
  have h: "holders_at c' k = holders_at c k" if "co_claims c' = co_claims c" for c' by (simp add: holders_at_def that)
  have h': "holders_at c' k = holders_at c'' k" if "co_claims c' = co_claims c''" for c' c''
    by (simp add: holders_at_def that)
  have l: "holders_at (claim_loop cfg t cls (claim_renewed k' o' out c)) k = holders_at c k" for t cls k' o' out
    using h' [of "claim_loop cfg t cls (claim_renewed k' o' out c)" "claim_renewed k' o' out c"] by simp
  show "co_phases (tick_renewed cfg i reply c) = co_phases c" "co_holdCalls (tick_renewed cfg i reply c) = co_holdCalls c"
    "co_seq (tick_renewed cfg i reply c) = co_seq c"
    by (auto simp: tick_renewed_def set_stage_def split: option.split tick_stage.split)
  show "holders_at (tick_renewed cfg i reply c) k = holders_at c k"
    by (auto simp: tick_renewed_def set_stage_def l intro!: h split: option.split tick_stage.split)
qed

lemma tick_resumed_frame:
  "co_phases (tick_resumed cfg c) = co_phases c" "co_holdCalls (tick_resumed cfg c) = co_holdCalls c"
  "co_seq (tick_resumed cfg c) = co_seq c" "co_claims (tick_resumed cfg c) = co_claims c"
  by (simp_all add: tick_resumed_def split: option.split)

lemma renewTick_frame:
  "co_phases (renewTick cfg env c) = co_phases c" "co_holdCalls (renewTick cfg env c) = co_holdCalls c"
  "co_seq (renewTick cfg env c) = co_seq c" "co_claims (renewTick cfg env c) = co_claims c"
  "co_active (renewTick cfg env c) = co_active c" "co_holds (renewTick cfg env c) = co_holds c"
  "co_disposed (renewTick cfg env c) = co_disposed c" "co_heartbeat (renewTick cfg env c) = co_heartbeat c"
  by (simp_all add: renewTick_def Let_def)

section \<open>Runs under one broker\<close>

fun event_env :: "coord_event \<Rightarrow> environment option" where
  "event_env (CO_entry env r) = Some env"
| "event_env (CO_exit env q) = Some env"
| "event_env (CO_counted env i ok) = Some env"
| "event_env (CO_holdReply env owner reply) = Some env"
| "event_env (CO_resumed env i) = Some env"
| "event_env (CO_reply env i reply) = Some env"
| "event_env (CO_woken env i) = Some env"
| "event_env (CO_verified env i reply) = Some env"
| "event_env (CO_returned env i reply) = Some env"
| "event_env (CO_released env i) = Some env"
| "event_env (CO_dropped env owner) = Some env"
| "event_env (CO_claimPosition env u t) = Some env"
| "event_env (CO_releasePosition env u t) = Some env"
| "event_env (CO_claimResidual env u a) = Some env"
| "event_env (CO_releaseResidual env u a) = Some env"
| "event_env (CO_tick env) = Some env"
| "event_env (CO_renewed i reply) = None"
| "event_env CO_tickResumed = None"
| "event_env CO_reset = None"
| "event_env CO_resetCleared = None"
| "event_env CO_dispose = None"

text \<open>The store grants the lock of an underlying to nobody while this coordinator holds it.\<close>

definition grants_exclusively :: "coordinator \<Rightarrow> coord_event \<Rightarrow> bool" where
  "grants_exclusively c ev =
     (case ev of
        CO_holdReply env owner (Some (Granted lease)) \<Rightarrow>
          (case co_holdCalls c owner of None \<Rightarrow> True | Some h \<Rightarrow> map_of (co_claims c) (hc_claimKey h) = None)
      | _ \<Rightarrow> True)"

definition steady_event :: "string \<Rightarrow> coordinator \<Rightarrow> coord_event \<Rightarrow> bool" where
  "steady_event b c ev =
     ((case event_env ev of None \<Rightarrow> True | Some env \<Rightarrow> en_broker env = b) 
      \<and> (case ev of CO_resetCleared \<Rightarrow> False | _ \<Rightarrow> True) \<and> grants_exclusively c ev)"

fun steady_run :: "coord_config \<Rightarrow> string \<Rightarrow> coordinator \<Rightarrow> coord_event list \<Rightarrow> bool" where
  "steady_run cfg b c [] = True"
| "steady_run cfg b c (ev # evs) = (steady_event b c ev \<and> steady_run cfg b (co_step cfg ev c) evs)"

definition co_run :: "coord_config \<Rightarrow> coord_event list \<Rightarrow> coordinator \<Rightarrow> coordinator" where
  "co_run cfg evs c = fold (co_step cfg) evs c"

lemma lock_step:
  assumes inv: "lock_inv b {} c" and cfg: "oneActiveBoxPerUnderlying cfg" and ev: "steady_event b c ev"
  shows "lock_inv b {} (co_step cfg ev c)"
proof -
  have plain: "lock_inv b {} (snd (holdUnderlying cfg env u h False Nobody c))" if "\<And>i. h \<noteq> pipeline_holder i" for env u h
    by (rule lock_hold_plain [OF inv that]) simp
  have drop: "lock_inv b {} (snd (dropUnderlyingHolder cfg env u h Nobody c))" if "\<And>i. h \<noteq> pipeline_holder i" for env u h
    by (rule lock_drop [OF inv]) (use that in simp)
  show ?thesis
  proof (cases ev)
    case (CO_holdReply env owner reply)
    have "holders_at c (hc_claimKey h) = {}" if "co_holdCalls c owner = Some h" "reply = Some (Granted lease)" for h lease
      using ev that by (simp add: CO_holdReply steady_event_def grants_exclusively_def holders_at_def)
    with CO_holdReply show ?thesis by (simp add: lock_hold_replied [OF inv])
  next
    case (CO_renewed i reply)
    have "lock_inv b {} (tick_renewed cfg i reply c) = lock_inv b {} c"
      by (rule lock_inv_cong') (simp_all add: tick_renewed_frame)
    with CO_renewed inv show ?thesis by simp
  next
    case CO_tickResumed
    have "lock_inv b {} (tick_resumed cfg c) = lock_inv b {} c"
      by (rule lock_inv_cong) (simp_all add: tick_resumed_frame)
    with CO_tickResumed inv show ?thesis by simp
  next
    case (CO_tick env)
    have "lock_inv b {} (renewTick cfg env c) = lock_inv b {} c"
      by (rule lock_inv_cong) (simp_all add: renewTick_frame)
    with CO_tick inv show ?thesis by simp
  next
    case CO_dispose
    have "lock_inv b {} (co_dispose c) = lock_inv b {} c" by (rule lock_inv_cong) (simp_all add: co_dispose_def)
    with CO_dispose inv show ?thesis by simp
  next
    case CO_reset
    have "lock_inv b {} (reset_start c) = lock_inv b {} c" by (rule lock_inv_cong) (simp_all add: reset_start_def)
    with CO_reset inv show ?thesis by simp
  next
    case (CO_woken env i)
    with inv show ?thesis by (simp add: lock_woken split: option.split phase.split)
  next
    case (CO_verified env i reply)
    with inv show ?thesis by (simp add: lock_verified split: option.split phase.split)
  next
    case (CO_returned env i reply)
    with inv show ?thesis by (simp add: lock_entry_returned lock_exit_returned split: option.split phase.split)
  next
    case (CO_counted env i ok)
    with inv cfg ev show ?thesis by (simp add: steady_event_def lock_counted split: option.split phase.split)
  qed (use inv cfg ev in \<open>simp_all add: steady_event_def lock_simulateEntry lock_simulateExit lock_call_resumed
      lock_store_replied lock_lease_released lock_drop_released claimUnderlyingForPosition_def
      releaseUnderlyingForPosition_def claimUnderlyingForResidual_def releaseUnderlyingForResidual_def plain drop\<close>)
qed

lemma lock_start: "lock_inv b {} new_coordinator"
  by (simp add: lock_inv_def new_coordinator_def holders_at_def)

lemma lock_run:
  "lock_inv b {} c \<Longrightarrow> oneActiveBoxPerUnderlying cfg \<Longrightarrow> steady_run cfg b c evs \<Longrightarrow> lock_inv b {} (co_run cfg evs c)"
  unfolding co_run_def by (induction evs arbitrary: c) (auto simp: lock_step)

section \<open>How long the lock lasts\<close>

lemma holders_quiet [simp]:
  "holders_at (bump st c) = holders_at c"
  "holders_at (log_call k c) = holders_at c"
  "holders_at (set_phase i ph c) = holders_at c"
  "holders_at (ensureHeartbeat c) = holders_at c"
  "holders_at (stopHeartbeatIfIdle c) = holders_at c"
  "holders_at (claim i opp u keys ctx c) = holders_at c"
  "holders_at (co_grant cfg env i keys lease c) = holders_at c"
  "holders_at (registerActive cfg env i keys u lease c) = holders_at c"
  "holders_at (abandon i c) = holders_at c"
  "holders_at (co_acquire tier cfg env i refs ctx c) = holders_at c"
  "holders_at (releaseLease_start env i l c) = holders_at c"
  "holders_at (releaseLease_rest cfg env i c) = holders_at c"
  "holders_at (forget_opportunity opp c) = holders_at c"
  "holders_at (retain env i e why c) = holders_at c"
  "holders_at (no_longer_waiting c) = holders_at c"
  "holders_at (snd (pollDelay cfg c)) = holders_at c"
  "holders_at (holdOnUncertainty env i opp why c) = holders_at c"
  "holders_at (snd (mintId cfg kind c)) = holders_at c"
  by (rule ext, simp add: holders_at_def)+

text \<open>A step of call \<open>i\<close> takes at most its own hold away and adds no hold of an entry.\<close>

definition own_hold_only :: "nat \<Rightarrow> coordinator \<Rightarrow> coordinator \<Rightarrow> bool" where
  "own_hold_only i c c' =
     (\<forall>k. (\<forall>h. h \<in> holders_at c k \<longrightarrow> h \<noteq> pipeline_holder i \<longrightarrow> h \<in> holders_at c' k)
        \<and> (\<forall>j. pipeline_holder j \<in> holders_at c' k \<longrightarrow> pipeline_holder j \<in> holders_at c k))"

named_theorems lock_holds "how a step changes the holders of an underlying"

lemma own_same: "holders_at c' = holders_at c \<Longrightarrow> own_hold_only i c c'"
  by (auto simp: own_hold_only_def)

lemma own_trans: "own_hold_only i c c1 \<Longrightarrow> own_hold_only i c1 c2 \<Longrightarrow> own_hold_only i c c2"
  unfolding own_hold_only_def by blast

lemma own_drop: "own_hold_only i c (snd (dropUnderlyingHolder cfg env u (pipeline_holder i) who c))"
  unfolding own_hold_only_def holders_drop by simp

lemma own_after: "holders_at c' = holders_at c'' \<Longrightarrow> own_hold_only i c c'' \<Longrightarrow> own_hold_only i c c'"
  by (simp add: own_hold_only_def)

lemma own_before: "holders_at c' = holders_at c \<Longrightarrow> own_hold_only i c' c'' \<Longrightarrow> own_hold_only i c c''"
  by (simp add: own_hold_only_def)

lemma own_quiet [simp]:
  "own_hold_only i c (bump st c') = own_hold_only i c c'"
  "own_hold_only i c (log_call k c') = own_hold_only i c c'"
  "own_hold_only i c (set_phase j ph c') = own_hold_only i c c'"
  "own_hold_only i c (co_finish j out c') = own_hold_only i c c'"
  "own_hold_only i c (stopHeartbeatIfIdle c') = own_hold_only i c c'"
  "own_hold_only i c (claim j opp u keys ctx c') = own_hold_only i c c'"
  "own_hold_only i c (co_grant cfg env j keys lease c') = own_hold_only i c c'"
  "own_hold_only i c (registerActive cfg env j keys u lease c') = own_hold_only i c c'"
  "own_hold_only i c (abandon j c') = own_hold_only i c c'"
  "own_hold_only i c (co_acquire tier cfg env j refs ctx c') = own_hold_only i c c'"
  "own_hold_only i c (releaseLease_start env j l c') = own_hold_only i c c'"
  "own_hold_only i c (releaseLease_rest cfg env j c') = own_hold_only i c c'"
  "own_hold_only i c (forget_opportunity opp c') = own_hold_only i c c'"
  "own_hold_only i c (retain env j e why c') = own_hold_only i c c'"
  "own_hold_only i c (no_longer_waiting c') = own_hold_only i c c'"
  "own_hold_only i c (snd (pollDelay cfg c')) = own_hold_only i c c'"
  "own_hold_only i c (holdOnUncertainty env j opp why c') = own_hold_only i c c'"
  "own_hold_only i c (snd (mintId cfg kind c')) = own_hold_only i c c'"
  "own_hold_only i c c"
  by (simp_all add: own_hold_only_def co_finish_def)

lemma own_abandonHold [lock_holds]: "own_hold_only i c (abandonAndReleaseHold cfg env i c)"
  by (simp add: abandonAndReleaseHold_def releasePipelineHold_def own_drop split: option.split)

lemma own_abandon_quiet [lock_holds]:
  "own_hold_only i c (abandonAndReleaseHold cfg env i (bump st c))"
  "own_hold_only i c (abandonAndReleaseHold cfg env i (no_longer_waiting c))"
  "own_hold_only i c (abandonAndReleaseHold cfg env i (bump st (bump st' c)))"
  by (rule own_before [OF _ own_abandonHold]; simp)+

lemma own_confirm [lock_holds]: "own_hold_only i c (confirmBeforeSubmit cfg env i f lease waited c)"
  by (simp add: confirmBeforeSubmit_def lock_holds)

lemma own_verified [lock_holds]: "own_hold_only i c (entry_verified cfg env i f lease reply c)"
  by (simp add: entry_verified_def Let_def lock_holds split: option.split OwnershipVerdict.split)

lemma own_after_wait [lock_holds]: "own_hold_only i c (entry_after_wait cfg env i f lease c)"
  using own_before [OF _ own_confirm, of "bump st_revalidationPassed c" c]
  by (simp add: entry_after_wait_def lock_holds split: option.split)

lemma own_gave_up [lock_holds]: "own_hold_only i c (entry_gave_up cfg env i c)"
  by (simp add: entry_gave_up_def lock_holds)

lemma own_wait_round [lock_holds]: "own_hold_only i c (wait_round cfg env i f c)"
  using own_before [OF _ own_gave_up, of "no_longer_waiting c" c]
  by (simp add: wait_round_def Let_def case_prod_beta)

lemma own_conflict [lock_holds]: "own_hold_only i c (entry_conflict cfg env i f c)"
  unfolding entry_conflict_def by (rule own_before [OF _ own_wait_round]) (rule ext, simp add: holders_at_def)

lemma own_unavailable [lock_holds]: "own_hold_only i c (handleUnavailable cfg env i f waited c)"
  by (simp add: handleUnavailable_def lock_holds)

lemma own_no_lease [lock_holds]: "own_hold_only i c (entry_no_lease cfg env i why c)"
  by (simp add: entry_no_lease_def lock_holds)

lemma own_acquired [lock_holds]: "own_hold_only i c (entry_acquired cfg env i f reply c)"
  by (simp add: entry_acquired_def lock_holds split: option.split AcquireResult.split)

lemma own_acquired_local [lock_holds]: "own_hold_only i c (entry_acquired_local cfg env i f waited reply c)"
  by (simp add: entry_acquired_local_def lock_holds split: option.split AcquireResult.split)

lemma own_retried [lock_holds]: "own_hold_only i c (entry_retried cfg env i f reply c)"
  using own_before [OF _ own_after_wait, of "no_longer_waiting c" c]
    own_before [OF _ own_unavailable, of "no_longer_waiting c" c]
  by (simp add: entry_retried_def lock_holds split: option.split AcquireResult.split)

lemma own_entry_claim [lock_holds]: "own_hold_only i c (entry_claim cfg env i f c)"
  by (simp add: entry_claim_def Let_def)

lemma own_entry_lock: "own_hold_only j c (entry_lock cfg env i f c)"
proof -
  have "holders_at (snd (holdUnderlying cfg env u h True who c)) = holders_at c" for u h who by (rule ext) simp
  then have "own_hold_only j c (snd (holdUnderlying cfg env u h True who c))" for u h who by (rule own_same)
  then show ?thesis by (simp add: entry_lock_def entry_claim_def Let_def case_prod_beta split: UnderlyingAdmission.split)
qed

lemma own_entry_locked [lock_holds]: "own_hold_only i c (entry_locked cfg env i f granted c)"
  by (simp add: entry_locked_def lock_holds)

lemma own_entry_start: "own_hold_only j c (simulateEntry cfg env r c)"
proof -
  have "own_hold_only j c (entry_lock cfg env i f (snd (mintId cfg kind c)))" for i f kind
    by (rule own_before [OF _ own_entry_lock]) simp
  then show ?thesis by (simp add: simulateEntry_def entry_start_def case_prod_beta Let_def split: option.split)
qed

lemma own_drop_pipeline [lock_holds]: "own_hold_only i c (drop_pipeline cfg env i f r c)"
  unfolding drop_pipeline_def case_prod_beta Let_def by (simp add: own_drop)

lemma own_settle_hold [lock_holds]: "own_hold_only i c (settleUnderlyingHold cfg env i f r c)"
proof -
  let ?h = "\<lambda>t. snd (holdUnderlying cfg env (ef_underlying f) (trade_holder t) False (Settlement i) c)"
  have h: "own_hold_only i c (?h t)" for t
    unfolding own_hold_only_def
    using hold_adds [where h = "trade_holder t"] by blast
  have "own_hold_only i c (drop_pipeline cfg env i f r (?h t))" for t
    by (rule own_trans [OF h own_drop_pipeline])
  with h show ?thesis
    by (simp add: settleUnderlyingHold_def case_prod_beta own_drop_pipeline split: option.split prod.split)
qed

lemma own_entry_returned [lock_holds]: "own_hold_only i c (entry_returned cfg env i f reply c)"
  by (simp add: entry_returned_def lock_holds split: option.split)

lemma own_settle_execution [simp]: "holders_at (settle_execution env i opp uncertain out c) = holders_at c"
  by (simp add: settle_execution_def co_finish_def Let_def)

lemma own_exits [simp]:
  "holders_at (simulateExit cfg env q c) = holders_at c"
  "holders_at (exit_acquired cfg env i x reply c) = holders_at c"
  "holders_at (exit_acquired_local cfg env i x reply c) = holders_at c"
  "holders_at (exit_returned env i x answer c) = holders_at c"
  by (simp_all add: simulateExit_def exit_acquired_def exit_acquired_local_def exit_returned_def exit_refused_def
      exit_runs_def co_finish_def Let_def case_prod_beta split: option.split AcquireResult.split)

lemma own_call_resumed:
  "own_hold_only i c (call_resumed cfg env i c)"
  by (simp add: call_resumed_def lock_holds own_same split: option.split phase.split)

lemma own_store_replied: "own_hold_only i c (store_replied cfg env i reply c)"
  by (simp add: store_replied_def lock_holds own_same split: option.split phase.split)

lemma own_woken: "own_hold_only i c (entry_woken cfg env i f c)"
  by (simp add: entry_woken_def)

lemma released_holders [simp]: "holders_at (lease_released cfg env i c) = holders_at c"
  by (simp add: lease_released_def co_finish_def Let_def split: option.split phase.split call_outcome.split)

lemma drop_released_holders [simp]: "holders_at (drop_released cfg env owner c) = holders_at c"
proof -
  have "holders_at (c\<lparr>co_drops := (co_drops c)(owner := None)\<rparr>) = holders_at c"
    by (rule ext) (simp add: holders_at_def)
  then show ?thesis by (simp add: drop_released_def Let_def split: option.split awaiting.split phase.split)
qed

text \<open>The releases another part of the program asks for.\<close>

definition releases :: "coord_event \<Rightarrow> holder \<Rightarrow> string \<Rightarrow> bool" where
  "releases ev h k =
     (case ev of
        CO_releasePosition env u t \<Rightarrow> h = trade_holder t \<and> k = lock_key (en_broker env) u
      | CO_releaseResidual env u a \<Rightarrow> h = residual_holder a \<and> k = lock_key (en_broker env) u
      | _ \<Rightarrow> False)"

text \<open>An entry that has nothing left to do with its lock.\<close>

fun past_lock :: "phase option \<Rightarrow> bool" where
  "past_lock (Some (Unlocked f r)) = True"
| "past_lock (Some (Unlocking f r)) = True"
| "past_lock (Some (Releasing out)) = True"
| "past_lock (Some (Done out)) = True"
| "past_lock _ = False"

fun event_call :: "coord_event \<Rightarrow> nat option" where
  "event_call (CO_counted env i ok) = Some i"
| "event_call (CO_resumed env i) = Some i"
| "event_call (CO_reply env i reply) = Some i"
| "event_call (CO_woken env i) = Some i"
| "event_call (CO_verified env i reply) = Some i"
| "event_call (CO_returned env i reply) = Some i"
| "event_call (CO_released env i) = Some i"
| "event_call _ = None"

lemma past_lock_cases:
  assumes "past_lock p"
  obtains f r where "p = Some (Unlocked f r)" | f r where "p = Some (Unlocking f r)"
    | out where "p = Some (Releasing out)" | out where "p = Some (Done out)"
  using assms by (cases p rule: past_lock.cases) auto

lemma own_step:
  assumes "event_call ev = Some i"
  shows "own_hold_only i c (co_step cfg ev c)"
  using assms
  by (cases ev) (simp_all add: own_call_resumed own_store_replied own_woken lock_holds own_same entry_counted_def own_entry_lock
      split: option.split phase.split)

lemma past_lock_step:
  assumes "event_call ev = Some i" and "past_lock (co_phases c i)"
  shows "holders_at (co_step cfg ev c) = holders_at c"
  using assms(2)
  by (cases rule: past_lock_cases; use assms(1) in \<open>cases ev; simp add: call_resumed_def store_replied_def\<close>)

lemma rest_step:
  assumes "event_call ev = None" and "steady_event b c ev" and "\<not> releases ev h k" and "h \<in> holders_at c k"
  shows "h \<in> holders_at (co_step cfg ev c) k"
proof (cases ev)
  case (CO_holdReply env owner reply)
  show ?thesis
  proof (cases "co_holdCalls c owner")
    case None
    then show ?thesis using assms(4) by (simp add: CO_holdReply hold_replied_def)
  next
    case (Some g)
    have "holders_at c (hc_claimKey g) = {}" if "reply = Some (Granted lease)" for lease
      using assms(2) that by (simp add: CO_holdReply Some steady_event_def grants_exclusively_def holders_at_def)
    then show ?thesis using assms(4) by (auto simp: CO_holdReply hold_replied_effect [OF Some])
  qed
next
  case (CO_entry env r)
  obtain j where "h \<noteq> pipeline_holder j" by (metis holder.inject(1) zero_neq_one)
  then have "h \<in> holders_at (simulateEntry cfg env r c) k"
    using assms(4) own_entry_start [of j c cfg env r] unfolding own_hold_only_def by blast
  with CO_entry show ?thesis by simp
next
  case (CO_claimPosition env u t)
  then show ?thesis using assms(4) hold_adds [of c k cfg env u "trade_holder t" False Nobody]
    by (simp add: claimUnderlyingForPosition_def) blast
next
  case (CO_claimResidual env u t)
  then show ?thesis using assms(4) hold_adds [of c k cfg env u "residual_holder t" False Nobody]
    by (simp add: claimUnderlyingForResidual_def) blast
next
  case (CO_releasePosition env u t)
  then show ?thesis using assms(3,4) by (auto simp: releaseUnderlyingForPosition_def holders_drop releases_def)
next
  case (CO_releaseResidual env u t)
  then show ?thesis using assms(3,4) by (auto simp: releaseUnderlyingForResidual_def holders_drop releases_def)
next
  case (CO_tick env)
  then show ?thesis using assms(4) by (simp add: holders_at_def renewTick_frame)
next
  case CO_tickResumed
  then show ?thesis using assms(4) by (simp add: holders_at_def tick_resumed_frame)
next
  case (CO_renewed i reply)
  then show ?thesis using assms(4) by (simp add: tick_renewed_frame)
qed (use assms in \<open>simp_all add: steady_event_def co_dispose_def reset_start_def holders_at_def\<close>)

text \<open>Who holds an underlying, holds it until it gives it up itself or has it released.\<close>

lemma holder_stays:
  assumes "steady_event b c ev" and "\<not> releases ev h k" and "h \<in> holders_at c k"
    and own: "\<And>i. h = pipeline_holder i \<Longrightarrow> past_lock (co_phases c i)"
  shows "h \<in> holders_at (co_step cfg ev c) k"
proof (cases "event_call ev")
  case None
  then show ?thesis by (rule rest_step [OF _ assms(1-3)])
next
  case (Some i)
  show ?thesis
  proof (cases "h = pipeline_holder i")
    case True
    then show ?thesis using past_lock_step [OF Some own] assms(3) by simp
  next
    case False
    then show ?thesis using own_step [OF Some, of c cfg] assms(3) unfolding own_hold_only_def by blast
  qed
qed

text \<open>An entry gets the lock of an underlying only while nobody holds it.\<close>

lemma new_hold_on_free:
  assumes "steady_event b c ev" and "pipeline_holder i \<in> holders_at (co_step cfg ev c) k" and "holders_at c k \<noteq> {}"
  shows "pipeline_holder i \<in> holders_at c k"
proof (cases "event_call ev")
  case (Some j)
  then show ?thesis using own_step [OF Some, of c cfg] assms(2) unfolding own_hold_only_def by blast
next
  case None
  show ?thesis
  proof (cases ev)
    case (CO_holdReply env owner reply)
    show ?thesis
    proof (cases "co_holdCalls c owner")
      case None
      then show ?thesis using assms(2) by (simp add: CO_holdReply hold_replied_def)
    next
      case (Some g)
      have "holders_at c (hc_claimKey g) = {}" if "reply = Some (Granted lease)" for lease
        using assms(1) that by (simp add: CO_holdReply Some steady_event_def grants_exclusively_def holders_at_def)
      then show ?thesis using assms(2,3) by (auto simp: CO_holdReply hold_replied_effect [OF Some] split: if_splits)
    qed
  next
    case (CO_entry env r)
    then have "pipeline_holder i \<in> holders_at (simulateEntry cfg env r c) k" using assms(2) by simp
    then show ?thesis using own_entry_start [of 0 c cfg env r] unfolding own_hold_only_def by blast
  next
    case (CO_claimPosition env u t)
    then show ?thesis using assms(2) hold_adds [of c k cfg env u "trade_holder t" False Nobody]
      by (simp add: claimUnderlyingForPosition_def) blast
  next
    case (CO_claimResidual env u t)
    then show ?thesis using assms(2) hold_adds [of c k cfg env u "residual_holder t" False Nobody]
      by (simp add: claimUnderlyingForResidual_def) blast
  next
    case (CO_releasePosition env u t)
    then show ?thesis using assms(2) by (simp add: releaseUnderlyingForPosition_def holders_drop split: if_splits)
  next
    case (CO_releaseResidual env u t)
    then show ?thesis using assms(2) by (simp add: releaseUnderlyingForResidual_def holders_drop split: if_splits)
  next
    case (CO_tick env)
    then show ?thesis using assms(2) by (simp add: holders_at_def renewTick_frame)
  next
    case CO_tickResumed
    then show ?thesis using assms(2) by (simp add: holders_at_def tick_resumed_frame)
  next
    case (CO_renewed i reply)
    then show ?thesis using assms(2) by (simp add: tick_renewed_frame)
  qed (use None assms in \<open>simp_all add: steady_event_def co_dispose_def reset_start_def holders_at_def\<close>)
qed

end
