(* ===== verification/Coordinator_Runs.thy ===== *)
theory Coordinator_Runs
  imports Coordinator_Lock
begin

text \<open>
  Whole runs of the coordinator: a call moves its own phase only, who holds an underlying goes on holding
  it until released, and what follows for entries on one underlying, for the lock of an open Box and
  for the lock of an entry with an ambiguous outcome.
\<close>

section \<open>A call moves its own phase only\<close>

named_theorems moves "a step of one call leaves the phases of the others alone"

lemma moves_confirm [moves]: "i \<noteq> j \<Longrightarrow> co_phases (confirmBeforeSubmit cfg env j f lease w c) i = co_phases c i"
  by (simp add: confirmBeforeSubmit_def)

lemma moves_verified [moves]: "i \<noteq> j \<Longrightarrow> co_phases (entry_verified cfg env j f lease reply c) i = co_phases c i"
  by (simp add: entry_verified_def co_finish_def Let_def split: option.split OwnershipVerdict.split)

lemma moves_after_wait [moves]: "i \<noteq> j \<Longrightarrow> co_phases (entry_after_wait cfg env j f lease c) i = co_phases c i"
  by (simp add: entry_after_wait_def moves split: option.split)

lemma moves_gave_up [moves]: "i \<noteq> j \<Longrightarrow> co_phases (entry_gave_up cfg env j c) i = co_phases c i"
  by (simp add: entry_gave_up_def co_finish_def)

lemma moves_wait_round [moves]: "i \<noteq> j \<Longrightarrow> co_phases (wait_round cfg env j f c) i = co_phases c i"
  by (simp add: wait_round_def Let_def case_prod_beta moves)

lemma moves_conflict [moves]: "i \<noteq> j \<Longrightarrow> co_phases (entry_conflict cfg env j f c) i = co_phases c i"
  by (simp add: entry_conflict_def moves)

lemma moves_unavailable [moves]: "i \<noteq> j \<Longrightarrow> co_phases (handleUnavailable cfg env j f w c) i = co_phases c i"
  by (simp add: handleUnavailable_def co_finish_def)

lemma moves_acquired [moves]: "i \<noteq> j \<Longrightarrow> co_phases (entry_acquired cfg env j f reply c) i = co_phases c i"
  by (simp add: entry_acquired_def co_finish_def moves split: option.split AcquireResult.split)

lemma moves_acquired_local [moves]: "i \<noteq> j \<Longrightarrow> co_phases (entry_acquired_local cfg env j f w reply c) i = co_phases c i"
  by (simp add: entry_acquired_local_def entry_no_lease_def co_finish_def moves split: option.split AcquireResult.split)

lemma moves_retried [moves]: "i \<noteq> j \<Longrightarrow> co_phases (entry_retried cfg env j f reply c) i = co_phases c i"
  by (simp add: entry_retried_def co_finish_def moves split: option.split AcquireResult.split)

lemma moves_entry_claim [moves]: "i \<noteq> j \<Longrightarrow> co_phases (entry_claim cfg env j f c) i = co_phases c i"
  by (simp add: entry_claim_def co_finish_def Let_def)

lemma moves_entry_lock [moves]: "i \<noteq> j \<Longrightarrow> co_phases (entry_lock cfg env j f c) i = co_phases c i"
  by (simp add: entry_lock_def co_finish_def case_prod_beta moves split: UnderlyingAdmission.split)

lemma moves_entry_locked [moves]: "i \<noteq> j \<Longrightarrow> co_phases (entry_locked cfg env j f granted c) i = co_phases c i"
  by (simp add: entry_locked_def co_finish_def moves)

lemma moves_entry_start [moves]: "i \<noteq> co_seq c + 1 \<Longrightarrow> co_phases (simulateEntry cfg env r c) i = co_phases c i"
  by (simp add: simulateEntry_def entry_start_def case_prod_beta co_finish_def Let_def moves split: option.split)

lemma moves_counted [moves]: "i \<noteq> j \<Longrightarrow> co_phases (entry_counted cfg env j f ok c) i = co_phases c i"
  by (simp add: entry_counted_def co_finish_def moves)

lemma moves_woken [moves]: "i \<noteq> j \<Longrightarrow> co_phases (entry_woken cfg env j f c) i = co_phases c i"
  by (simp add: entry_woken_def)

lemma moves_drop_pipeline [moves]: "i \<noteq> j \<Longrightarrow> co_phases (drop_pipeline cfg env j f r c) i = co_phases c i"
  by (simp add: drop_pipeline_def case_prod_beta Let_def)

lemma moves_settle_hold [moves]: "i \<noteq> j \<Longrightarrow> co_phases (settleUnderlyingHold cfg env j f r c) i = co_phases c i"
  by (simp add: settleUnderlyingHold_def case_prod_beta moves split: option.split prod.split)

lemma moves_entry_returned [moves]: "i \<noteq> j \<Longrightarrow> co_phases (entry_returned cfg env j f reply c) i = co_phases c i"
  by (simp add: entry_returned_def co_finish_def moves split: option.split)

lemma moves_settle_execution [moves]:
  "i \<noteq> j \<Longrightarrow> co_phases (settle_execution env j opp uncertain out c) i = co_phases c i"
  by (simp add: settle_execution_def co_finish_def Let_def)

lemma moves_exit_start [moves]: "i \<noteq> co_seq c + 1 \<Longrightarrow> co_phases (simulateExit cfg env q c) i = co_phases c i"
  by (simp add: simulateExit_def case_prod_beta Let_def)

lemma moves_exits [moves]:
  "i \<noteq> j \<Longrightarrow> co_phases (exit_acquired cfg env j x reply c) i = co_phases c i"
  "i \<noteq> j \<Longrightarrow> co_phases (exit_acquired_local cfg env j x reply c) i = co_phases c i"
  "i \<noteq> j \<Longrightarrow> co_phases (exit_returned env j x answer c) i = co_phases c i"
  by (simp_all add: exit_acquired_def exit_acquired_local_def exit_returned_def exit_refused_def exit_runs_def
      co_finish_def moves split: option.split AcquireResult.split)

lemma moves_released [moves]: "i \<noteq> j \<Longrightarrow> co_phases (lease_released cfg env j c) i = co_phases c i"
  by (simp add: lease_released_def co_finish_def Let_def split: option.split phase.split call_outcome.split)

lemma moves_call_resumed [moves]: "i \<noteq> j \<Longrightarrow> co_phases (call_resumed cfg env j c) i = co_phases c i"
  by (simp add: call_resumed_def moves split: option.split phase.split)

lemma moves_store_replied [moves]: "i \<noteq> j \<Longrightarrow> co_phases (store_replied cfg env j reply c) i = co_phases c i"
  by (simp add: store_replied_def moves split: option.split phase.split)

lemma moves_drop_released:
  "co_phases (drop_released cfg env owner c) i = co_phases c i
   \<or> (\<exists>f r. co_phases c i = Some (Unlocking f r) \<and> co_phases (drop_released cfg env owner c) i = Some (Unlocked f r))"
  by (auto simp: drop_released_def Let_def split: option.split awaiting.split phase.split)

lemma moves_own_event: "event_call ev = Some j \<Longrightarrow> i \<noteq> j \<Longrightarrow> co_phases (co_step cfg ev c) i = co_phases c i"
  by (cases ev) (simp_all add: moves split: option.split phase.split)

lemma past_lock_own:
  assumes "event_call ev = Some i" and "past_lock (co_phases c i)"
  shows "past_lock (co_phases (co_step cfg ev c) i)"
  using assms(2)
  by (cases rule: past_lock_cases; use assms in \<open>cases ev; simp add: call_resumed_def store_replied_def
      settle_execution_def co_finish_def lease_released_def Let_def split: call_outcome.split\<close>)

lemma moves_hold_replied:
  "co_phases (hold_replied env owner reply c) i = co_phases c i
   \<or> (\<exists>f. co_phases c i = Some (Locking f)) \<or> (\<exists>f r. co_phases c i = Some (Relocking f r))"
proof (cases "co_holdCalls c owner")
  case None
  then show ?thesis by (simp add: hold_replied_def)
next
  case (Some h)
  then show ?thesis using resumed_at [of h "\<exists>lease. reply = Some (Granted lease)" "co_phases c" i]
    unfolding hold_replied_effect(1) [OF Some] by blast
qed

text \<open>An event that is no step of a call may still start one, or let one that waits for the lock go on.\<close>

lemma moves_other_event:
  assumes "event_call ev = None" and "i \<le> co_seq c"
  shows "co_phases (co_step cfg ev c) i = co_phases c i
   \<or> (\<exists>f. co_phases c i = Some (Locking f)) \<or> (\<exists>f r. co_phases c i = Some (Relocking f r))
   \<or> (\<exists>f r. co_phases c i = Some (Unlocking f r) \<and> co_phases (co_step cfg ev c) i = Some (Unlocked f r))"
proof (cases ev)
  case (CO_holdReply env owner reply)
  then show ?thesis using moves_hold_replied [of env owner reply c i] by auto
next
  case (CO_dropped env owner)
  then show ?thesis using moves_drop_released [of cfg env owner c i] by auto
next
  case CO_resetCleared
  then show ?thesis by (simp add: reset_cleared_def Let_def)
qed (use assms in \<open>simp_all add: moves claimUnderlyingForPosition_def releaseUnderlyingForPosition_def
    claimUnderlyingForResidual_def releaseUnderlyingForResidual_def renewTick_frame tick_renewed_frame
    tick_resumed_frame reset_start_def co_dispose_def\<close>)

lemma past_lock_stays:
  assumes "past_lock (co_phases c i)" and "i \<le> co_seq c"
  shows "past_lock (co_phases (co_step cfg ev c) i)"
proof (cases "event_call ev")
  case None
  then show ?thesis using moves_other_event [OF None assms(2), of cfg] assms(1) by auto
next
  case (Some j)
  then show ?thesis
    by (cases "i = j") (use Some assms(1) in \<open>simp_all add: moves_own_event past_lock_own\<close>)
qed

section \<open>Whole runs\<close>

lemma co_run_Nil [simp]: "co_run cfg [] c = c"
  by (simp add: co_run_def)

lemma co_run_Cons [simp]: "co_run cfg (ev # evs) c = co_run cfg evs (co_step cfg ev c)"
  by (simp add: co_run_def)

lemma holder_stays_run:
  assumes "lock_inv b {} c" and "oneActiveBoxPerUnderlying cfg" and "steady_run cfg b c evs"
    and "list_all (\<lambda>ev. \<not> releases ev h k) evs" and "h \<in> holders_at c k"
    and own: "\<And>i. h = pipeline_holder i \<Longrightarrow> past_lock (co_phases c i)"
  shows "h \<in> holders_at (co_run cfg evs c) k \<and> (\<forall>i. h = pipeline_holder i \<longrightarrow> past_lock (co_phases (co_run cfg evs c) i))"
  using assms
proof (induction evs arbitrary: c)
  case Nil
  then show ?case by simp
next
  case (Cons ev evs)
  have inv: "lock_inv b {} (co_step cfg ev c)" using lock_step [OF Cons.prems(1,2)] Cons.prems(3) by simp
  have "h \<in> holders_at (co_step cfg ev c) k"
    using holder_stays [of b c ev h k cfg] Cons.prems by simp
  moreover have "past_lock (co_phases (co_step cfg ev c) i)" if "h = pipeline_holder i" for i
  proof (rule past_lock_stays [OF Cons.prems(6) [OF that]])
    have "co_phases c i \<noteq> None" using Cons.prems(6) [OF that] by (cases "co_phases c i") auto
    then show "i \<le> co_seq c" using phase_le_seq [OF Cons.prems(1)] by auto
  qed
  ultimately show ?case using Cons.IH [OF inv] Cons.prems by simp
qed

lemma no_new_hold_run:
  assumes "lock_inv b {} c" and "oneActiveBoxPerUnderlying cfg" and "steady_run cfg b c evs"
    and "list_all (\<lambda>ev. \<not> releases ev h k) evs" and "h \<in> holders_at c k" and "\<And>i. h \<noteq> pipeline_holder i"
    and "pipeline_holder j \<in> holders_at (co_run cfg evs c) k"
  shows "pipeline_holder j \<in> holders_at c k"
  using assms
proof (induction evs arbitrary: c)
  case Nil
  then show ?case by simp
next
  case (Cons ev evs)
  have inv: "lock_inv b {} (co_step cfg ev c)" using lock_step [OF Cons.prems(1,2)] Cons.prems(3) by simp
  have "h \<in> holders_at (co_step cfg ev c) k" using holder_stays [of b c ev h k cfg] Cons.prems by simp
  then have "pipeline_holder j \<in> holders_at (co_step cfg ev c) k" using Cons.IH [OF inv] Cons.prems by simp
  then show ?case by (rule new_hold_on_free [rotated]) (use Cons.prems in auto)
qed

lemma locked_holds:
  "lock_inv b {} c \<Longrightarrow> locked_frame (co_phases c i) = Some f \<Longrightarrow> pipeline_holder i \<in> holders_at c (lock_key b (ef_underlying f))"
  unfolding lock_inv_def by simp

section \<open>One Box per underlying\<close>

text \<open>The underlying an entry has the lock of, from the answer of the store until it is back from the order path.\<close>

definition locked_underlying :: "coordinator \<Rightarrow> nat \<Rightarrow> string option" where
  "locked_underlying c i = map_option ef_underlying (locked_frame (co_phases c i))"

lemma locked_underlying_holds:
  "lock_inv b {} c \<Longrightarrow> locked_underlying c i = Some u \<Longrightarrow> pipeline_holder i \<in> holders_at c (lock_key b u)"
  by (auto simp: locked_underlying_def dest: locked_holds)

lemma steady_run_append:
  "steady_run cfg b c (evs @ rest) \<longleftrightarrow> steady_run cfg b c evs \<and> steady_run cfg b (co_run cfg evs c) rest"
  by (induction evs arbitrary: c) auto

lemma co_run_append: "co_run cfg (evs @ rest) c = co_run cfg rest (co_run cfg evs c)"
  by (simp add: co_run_def)

lemma single_holder: "lock_inv b {} c \<Longrightarrow> pipeline_holder i \<in> holders_at c k \<Longrightarrow> pipeline_holder j \<in> holders_at c k \<Longrightarrow> i = j"
  unfolding lock_inv_def by blast

subsection \<open>Executions to try the properties on\<close>

definition demo_coord_config :: coord_config where
  "demo_coord_config =
     \<lparr>executionCoordinatorEnabled = True, reservationRequireDurable = False, oneActiveBoxPerUnderlying = True,
      maxConcurrentPerUnderlying = 3, conflictWaitMaxMs = 400, instrumentLockTtlMs = Fin 15000,
      conflictRevalidateMinEdgeRatio = 1/2, reservationOwnershipMarginMs = 1000,
      reservationUncertainHoldMaxMs = 900000, cc_mode = ''paper'', cc_storeDurable = True, cc_hasLocal = False,
      cc_localIsStore = False, cc_hasSessionGate = True, cc_hasConsumeAttempt = False, cc_deployment = ''d'',
      cc_processTag = ''p'', cc_uuid = (\<lambda>i. ''u'')\<rparr>"

definition demo_coord_env :: "int \<Rightarrow> environment" where
  "demo_coord_env t =
     \<lparr>en_now = t, en_broker = ''kite'', en_generation = 1, en_active = [], en_sessionAllowed = True,
      en_tradable = True, en_edge = Some 10\<rparr>"

definition demo_request :: "string \<Rightarrow> entry_request" where
  "demo_request u =
     \<lparr>er_legging = True, er_candidateKey = u, er_underlying = u,
      er_legs = (\<lambda>r. \<lparr>in_token = (case r of k1_ce \<Rightarrow> 1 | k2_ce \<Rightarrow> 2 | k2_pe \<Rightarrow> 3 | k1_pe \<Rightarrow> 4),
                        in_tradingsymbol = None, in_exchange = ''NFO''\<rparr>),
      er_direction = Some LONG_BOX, er_detectedEdge = Some 10\<rparr>"

definition demo_lease :: "string list \<Rightarrow> ReservationLease" where
  "demo_lease keys =
     \<lparr>lease_owner = ''o'', lease_keys = keys, lease_expiresAt = 15000, lease_fence = 1, lease_durability = durable_lease\<rparr>"

definition demo_grant :: "ReservationOutcome option" where
  "demo_grant = Some (Granted (demo_lease [''k'']))"

definition demo_result :: "inner_result" where
  "demo_result = \<lparr>xr_ok = True, xr_reason = None, xr_leggingResidual = None, xr_recordResidual = None,
                  xr_tradeId = Some ''T1''\<rparr>"

text \<open>An entry that reaches the order path: lock, reservation, submission.\<close>

definition demo_entry :: "string \<Rightarrow> nat \<Rightarrow> coord_event list" where
  "demo_entry u i =
     (let e = demo_coord_env 0
      in [CO_entry e (demo_request u), CO_holdReply e (i + 1) demo_grant, CO_resumed e i, CO_reply e i demo_grant,
          CO_resumed e i])"

text \<open>C18. One process never runs two entries on one underlying: in any run under one broker, in which
  the store grants no lock that the process still holds, two different entries that have their locks and are
  not yet back from the order path are on underlyings that differ after trimming and upper-casing.\<close>

theorem one_box_per_underlying:
  assumes "oneActiveBoxPerUnderlying cfg" and "steady_run cfg b new_coordinator evs"
    and "locked_underlying (co_run cfg evs new_coordinator) i = Some u"
    and "locked_underlying (co_run cfg evs new_coordinator) j = Some v" and "i \<noteq> j"
  shows "lock_key b u \<noteq> lock_key b v"
proof
  let ?c = "co_run cfg evs new_coordinator"
  assume "lock_key b u = lock_key b v"
  moreover have inv: "lock_inv b {} ?c" by (rule lock_run [OF lock_start assms(1,2)])
  ultimately have "i = j"
    using locked_underlying_holds [OF inv assms(3)] locked_underlying_holds [OF inv assms(4)]
    by (simp add: single_holder)
  with assms(5) show False by simp
qed

theorem one_box_per_underlying_witness:
  "lock_key ''kite'' ''NIFTY'' \<noteq> lock_key ''kite'' ''BANKNIFTY''"
  by (rule one_box_per_underlying [of demo_coord_config "''kite''" "demo_entry ''NIFTY'' 1 @ demo_entry ''BANKNIFTY'' 3"
        1 "''NIFTY''" 3 "''BANKNIFTY''"]) code_simp+




text \<open>The first entry opens Box \<open>T1\<close>; a second entry on the same underlying is then refused.\<close>

definition demo_open :: "coord_event list" where
  "demo_open =
     (let e = demo_coord_env 5
      in demo_entry ''NIFTY'' 1 @ [CO_returned e 1 (Some demo_result), CO_resumed e 1, CO_released e 1])"


text \<open>The order path threw, or returned without a trade and with an uncertain outcome.\<close>

definition ambiguous_return :: "coordinator \<Rightarrow> nat \<Rightarrow> inner_result option \<Rightarrow> string \<Rightarrow> bool" where
  "ambiguous_return c i reply u =
     (case co_phases c i of
        Some (Entering f) \<Rightarrow>
          ef_underlying f = u
          \<and> (case reply of None \<Rightarrow> True
             | Some r \<Rightarrow> ef_legging f \<and> uncertaintyOf r \<and> established_trade f r = None)
      | _ \<Rightarrow> False)"

lemma ambiguous_effect:
  assumes "ambiguous_return c i reply u"
  shows "co_claims (co_step cfg (CO_returned env i reply) c) = co_claims c
   \<and> past_lock (co_phases (co_step cfg (CO_returned env i reply) c) i)"
  using assms
  by (auto simp: ambiguous_return_def entry_returned_def settleUnderlyingHold_def co_finish_def
      split: option.splits phase.splits)

text \<open>C22. The lock of an ambiguous entry is never given up.  After the order path threw, or returned
  with an uncertain outcome and no trade, the entry's own hold on the underlying stays through everything
  that can follow under the same broker, releases of positions and residuals included, and no later entry on that underlying
  gets the lock.  Nothing in the process clears it once the exposure is resolved.\<close>

theorem ambiguous_entry_locks_underlying_for_good:
  assumes "oneActiveBoxPerUnderlying cfg" and "steady_run cfg b new_coordinator (evs @ CO_returned env i reply # rest)"
    and "ambiguous_return (co_run cfg evs new_coordinator) i reply u"
  shows "pipeline_holder i \<in> holders_at (co_run cfg (evs @ CO_returned env i reply # rest) new_coordinator) (lock_key b u)
   \<and> (\<forall>j v. locked_underlying (co_run cfg (evs @ CO_returned env i reply # rest) new_coordinator) j = Some v
        \<longrightarrow> lock_key b v \<noteq> lock_key b u)"
proof -
  let ?c = "co_run cfg evs new_coordinator" and ?ev = "CO_returned env i reply"
  let ?d = "co_step cfg ?ev ?c" and ?c' = "co_run cfg (evs @ ?ev # rest) new_coordinator"
  have run: "steady_run cfg b ?d rest" and "steady_event b ?c ?ev" and "steady_run cfg b new_coordinator evs"
    using assms(2) by (simp_all add: steady_run_append)
  then have inv: "lock_inv b {} ?c" and d: "lock_inv b {} ?d" and inv': "lock_inv b {} ?c'"
    using assms(1,2) lock_run [OF lock_start] lock_step by blast+
  have "locked_underlying ?c i = Some u"
    using assms(3) by (auto simp: ambiguous_return_def locked_underlying_def split: option.splits phase.splits)
  then have "pipeline_holder i \<in> holders_at ?d (lock_key b u)"
    using locked_underlying_holds [OF inv] ambiguous_effect [OF assms(3), of cfg env] by (simp add: holders_at_def)
  moreover have "list_all (\<lambda>ev. \<not> releases ev (pipeline_holder i) (lock_key b u)) rest"
    by (auto simp: list_all_iff releases_def split: coord_event.split)
  moreover have "past_lock (co_phases ?d i)" using ambiguous_effect [OF assms(3)] by blast
  ultimately have stays: "pipeline_holder i \<in> holders_at ?c' (lock_key b u)" "past_lock (co_phases ?c' i)"
    using holder_stays_run [OF d assms(1) run, where h = "pipeline_holder i"] by (auto simp: co_run_append)
  have "lock_key b v \<noteq> lock_key b u" if "locked_underlying ?c' j = Some v" for j v
  proof
    assume "lock_key b v = lock_key b u"
    then have "j = i" using locked_underlying_holds [OF inv' that] stays(1) single_holder [OF inv'] by metis
    then show False using that stays(2) by (auto simp: locked_underlying_def elim: past_lock_cases)
  qed
  with stays(1) show ?thesis by blast
qed

theorem ambiguous_entry_locks_underlying_for_good_witness:
  "pipeline_holder 1 \<in> holders_at (co_run demo_coord_config
       (demo_entry ''NIFTY'' 1 @ CO_returned (demo_coord_env 5) 1 None # demo_entry ''NIFTY'' 3) new_coordinator)
     (lock_key ''kite'' ''NIFTY'')
   \<and> locked_underlying (co_run demo_coord_config
       (demo_entry ''NIFTY'' 1 @ CO_returned (demo_coord_env 5) 1 None # demo_entry ''NIFTY'' 3) new_coordinator) 3
       \<noteq> Some ''NIFTY''"
proof -
  let ?c = "co_run demo_coord_config
       (demo_entry ''NIFTY'' 1 @ CO_returned (demo_coord_env 5) 1 None # demo_entry ''NIFTY'' 3) new_coordinator"
  have "pipeline_holder 1 \<in> holders_at ?c (lock_key ''kite'' ''NIFTY'')
     \<and> (\<forall>j v. locked_underlying ?c j = Some v \<longrightarrow> lock_key ''kite'' v \<noteq> lock_key ''kite'' ''NIFTY'')"
    by (rule ambiguous_entry_locks_underlying_for_good) code_simp+
  then show ?thesis by blast
qed

end
