(* ===== verification/Coordinator_Leases.thy ===== *)
theory Coordinator_Leases
  imports Coordinator_Runs
begin

text \<open>
  The leases of the coordinator: whatever is held is renewed, an entry on the order path acts under a
  reservation that was granted to it, and how far the guard against duplicate opportunities reaches.
\<close>

section \<open>Whatever is held is being renewed\<close>

definition lease_held :: "coordinator \<Rightarrow> bool" where
  "lease_held c = (co_holds c \<noteq> [] \<or> co_claims c \<noteq> [] \<or> list_ex (\<lambda>p. ae_lease (snd p) \<noteq> None) (co_active c))"

definition armed :: "coordinator \<Rightarrow> bool" where
  "armed c = (co_disposed c \<or> co_heartbeat c \<or> \<not> lease_held c)"

named_theorems arming "operations that keep the heartbeat armed"

lemma armed_mono:
  "armed c \<Longrightarrow> co_disposed c' = co_disposed c \<Longrightarrow> co_heartbeat c' = co_heartbeat c \<Longrightarrow> (lease_held c' \<Longrightarrow> lease_held c)
   \<Longrightarrow> armed c'"
  by (auto simp: armed_def)

lemma armed_quiet [simp]:
  "armed (bump st c) = armed c"
  "armed (log_call k c) = armed c"
  "armed (set_phase i ph c) = armed c"
  "armed (co_finish i out c) = armed c"
  "armed (co_acquire tier cfg env i refs ctx c) = armed c"
  "armed (releaseLease_start env i l c) = armed c"
  "armed (releaseLease_rest cfg env i c) = armed c"
  "armed (renewLease cfg i lease n ctx c) = armed c"
  "armed (forget_opportunity opp c) = armed c"
  "armed (no_longer_waiting c) = armed c"
  "armed (snd (pollDelay cfg c)) = armed c"
  "armed (snd (mintId cfg kind c)) = armed c"
  "armed (set_stage t stg c) = armed c"
  "armed (c\<lparr>co_waiting := w\<rparr>) = armed c"
  "armed (c\<lparr>co_drops := ds\<rparr>) = armed c"
  "armed (c\<lparr>co_holdCalls := hs\<rparr>) = armed c"
  "armed (c\<lparr>co_tick := tk\<rparr>) = armed c"
  by (simp_all add: armed_def lease_held_def co_finish_def set_stage_def)

lemma armed_ensure [simp]: "armed (ensureHeartbeat c)"
  by (auto simp: armed_def lease_held_def ensureHeartbeat_def nothing_held_def)

lemma armed_register [simp]: "armed (registerActive cfg env i keys u lease c)"
  by (simp add: registerActive_def)

lemma armed_stop [arming]: "armed c \<Longrightarrow> armed (stopHeartbeatIfIdle c)"
  by (auto simp: armed_def lease_held_def stopHeartbeatIfIdle_def nothing_held_def)

lemma set_delete_subset: "set (AList.delete k al) \<subseteq> set al"
  by (induction al) (auto simp: AList.delete_eq)

lemma in_set_update: "p \<in> set (AList.update k v al) \<Longrightarrow> p = (k, v) \<or> p \<in> set al"
  by (induction al) (auto split: if_splits)

lemma armed_claim [arming]: "armed c \<Longrightarrow> armed (claim i opp u keys ctx c)"
proof (rule armed_mono)
  assume "lease_held (claim i opp u keys ctx c)"
  then show "lease_held c"
    by (force simp: lease_held_def claim_def Let_def list_ex_iff dest: in_set_update split: option.splits)
qed simp_all

lemma armed_grant [arming]: "armed c \<Longrightarrow> armed (co_grant cfg env i keys lease c)"
  by (simp add: co_grant_def split: option.split)

lemma armed_abandon [arming]: "armed c \<Longrightarrow> armed (abandon i c)"
proof -
  assume a: "armed c"
  have d: "armed (c\<lparr>co_active := AList.delete i (co_active c)\<rparr>)"
    by (rule armed_mono [OF a]) (use set_delete_subset [of i "co_active c"] in \<open>auto simp: lease_held_def list_ex_iff\<close>)
  have o': "armed (c'\<lparr>co_opportunities := os\<rparr>) = armed c'" for c' os by (simp add: armed_def lease_held_def)
  show ?thesis using a d by (simp add: abandon_def Let_def o' armed_stop split: option.split)
qed

lemma armed_drop [arming]: "armed c \<Longrightarrow> armed (snd (dropUnderlyingHolder cfg env u h who c))"
proof (rule armed_mono)
  assume "lease_held (snd (dropUnderlyingHolder cfg env u h who c))"
  then show "lease_held c"
    by (auto simp: lease_held_def dropUnderlyingHolder_def Let_def split: option.splits if_splits)
qed simp_all

lemma armed_hold [arming]: "armed c \<Longrightarrow> armed (snd (holdUnderlying cfg env u h ex who c))"
proof (rule armed_mono)
  assume "lease_held (snd (holdUnderlying cfg env u h ex who c))"
  then show "lease_held c"
    by (auto simp: lease_held_def holdUnderlying_def Let_def case_prod_beta split: option.splits if_splits)
qed simp_all

lemma armed_abandonHold [arming]: "armed c \<Longrightarrow> armed (abandonAndReleaseHold cfg env i c)"
  by (simp add: abandonAndReleaseHold_def releasePipelineHold_def arming split: option.split)

lemma armed_retain [arming]: "armed c \<Longrightarrow> armed (retain env i e why c)"
  by (simp add: retain_def Let_def arming split: option.split)

lemma armed_uncertainty [arming]: "armed c \<Longrightarrow> armed (holdOnUncertainty env i opp why c)"
  by (simp add: holdOnUncertainty_def Let_def arming)

lemma armed_settle [arming]: "armed c \<Longrightarrow> armed (settle_execution env i opp uncertain out c)"
  by (simp add: settle_execution_def Let_def arming)

lemma armed_rest [arming]: "armed c \<Longrightarrow> armed (snd (holdUnderlying_rest env owner h reply c))"
  by (simp add: holdUnderlying_rest_def split: option.split AcquireResult.split)

lemma armed_confirm [arming]: "armed c \<Longrightarrow> armed (confirmBeforeSubmit cfg env i f lease waited c)"
  by (simp add: confirmBeforeSubmit_def arming)

lemma armed_verified [arming]: "armed c \<Longrightarrow> armed (entry_verified cfg env i f lease reply c)"
  by (simp add: entry_verified_def Let_def arming split: option.split OwnershipVerdict.split)

lemma armed_after_wait [arming]: "armed c \<Longrightarrow> armed (entry_after_wait cfg env i f lease c)"
  by (simp add: entry_after_wait_def arming split: option.split)

lemma armed_gave_up [arming]: "armed c \<Longrightarrow> armed (entry_gave_up cfg env i c)"
  by (simp add: entry_gave_up_def arming)

lemma armed_wait_round [arming]: "armed c \<Longrightarrow> armed (wait_round cfg env i f c)"
  by (simp add: wait_round_def Let_def case_prod_beta arming)

lemma armed_conflict [arming]: "armed c \<Longrightarrow> armed (entry_conflict cfg env i f c)"
  by (simp add: entry_conflict_def arming)

lemma armed_unavailable [arming]: "armed c \<Longrightarrow> armed (handleUnavailable cfg env i f waited c)"
  by (simp add: handleUnavailable_def arming)

lemma armed_acquired [arming]:
  "armed c \<Longrightarrow> armed (entry_acquired cfg env i f reply c)"
  "armed c \<Longrightarrow> armed (entry_acquired_local cfg env i f waited reply c)"
  "armed c \<Longrightarrow> armed (entry_retried cfg env i f reply c)"
  "armed c \<Longrightarrow> armed (entry_woken cfg env i f c)"
  by (simp_all add: entry_acquired_def entry_acquired_local_def entry_retried_def entry_woken_def entry_no_lease_def
      arming split: option.split AcquireResult.split)

lemma armed_entry [arming]:
  "armed c \<Longrightarrow> armed (entry_claim cfg env i f c)"
  "armed c \<Longrightarrow> armed (entry_locked cfg env i f granted c)"
  by (simp_all add: entry_claim_def entry_locked_def Let_def arming)

lemma armed_entry_lock [arming]: "armed c \<Longrightarrow> armed (entry_lock cfg env i f c)"
  by (simp add: entry_lock_def case_prod_beta arming split: UnderlyingAdmission.split)

lemma armed_start [arming]:
  "armed c \<Longrightarrow> armed (simulateEntry cfg env r c)"
  "armed c \<Longrightarrow> armed (entry_counted cfg env i f ok c)"
  "armed c \<Longrightarrow> armed (simulateExit cfg env q c)"
  by (simp_all add: simulateEntry_def entry_start_def entry_counted_def simulateExit_def Let_def case_prod_beta arming
      split: option.split)

lemma armed_drop_pipeline [arming]: "armed c \<Longrightarrow> armed (drop_pipeline cfg env i f r c)"
  unfolding drop_pipeline_def case_prod_beta Let_def by (simp add: arming)

lemma armed_settle_hold [arming]: "armed c \<Longrightarrow> armed (settleUnderlyingHold cfg env i f r c)"
  by (simp add: settleUnderlyingHold_def case_prod_beta arming split: option.split prod.split)

lemma armed_returned [arming]:
  "armed c \<Longrightarrow> armed (entry_returned cfg env i f answer c)"
  "armed c \<Longrightarrow> armed (exit_returned env i x answer c)"
  "armed c \<Longrightarrow> armed (exit_acquired cfg env i x reply c)"
  "armed c \<Longrightarrow> armed (exit_acquired_local cfg env i x reply c)"
  by (simp_all add: entry_returned_def exit_returned_def exit_acquired_def exit_acquired_local_def exit_refused_def
      exit_runs_def arming split: option.split AcquireResult.split)

lemma armed_resumed [arming]:
  "armed c \<Longrightarrow> armed (call_resumed cfg env i c)"
  "armed c \<Longrightarrow> armed (store_replied cfg env i reply c)"
  "armed c \<Longrightarrow> armed (lease_released cfg env i c)"
  by (simp_all add: call_resumed_def store_replied_def lease_released_def Let_def arming
      split: option.split phase.split call_outcome.split)

lemma armed_hold_replied [arming]: "armed c \<Longrightarrow> armed (hold_replied env owner reply c)"
  by (simp add: hold_replied_def case_prod_beta arming split: option.split awaiting.split phase.split)

lemma armed_drop_released [arming]: "armed c \<Longrightarrow> armed (drop_released cfg env owner c)"
  by (simp add: drop_released_def Let_def arming split: option.split awaiting.split phase.split)

subsection \<open>The tick\<close>

lemma armed_claim_loop [arming]: "armed c \<Longrightarrow> armed (claim_loop cfg t cls c)"
  by (cases "(cfg, t, cls, c)" rule: claim_loop.cases) (simp_all add: end_tick_def arming)

lemma armed_hold_loop [arming]: "armed c \<Longrightarrow> armed (hold_loop cfg t hs c)"
proof (induction cfg t hs c rule: hold_loop.induct)
  case (1 cfg t c)
  then show ?case by (simp add: arming)
next
  case (2 cfg t i h rest c)
  have "armed (c\<lparr>co_holds := AList.delete i (co_holds c)\<rparr>)"
    by (rule armed_mono [OF 2(2)]) (auto simp: lease_held_def AList.delete_eq)
  with 2 show ?case by simp
qed

lemma armed_renewed [arming]:
  assumes "armed c"
  shows "armed (active_renewed i reply c)" "armed (hold_renewed i out c)" "armed (claim_renewed k owner out c)"
proof -
  have "lease_held (active_renewed i reply c) \<Longrightarrow> lease_held c"
    by (force simp: lease_held_def active_renewed_def update_existing_def list_ex_iff
        split: option.splits RenewOutcome.splits if_splits)
  then show "armed (active_renewed i reply c)" by (intro armed_mono [OF assms]) simp_all
  have "lease_held (hold_renewed i out c) \<Longrightarrow> lease_held c"
    by (auto simp: lease_held_def hold_renewed_def update_existing_def AList.delete_eq Let_def split: RenewOutcome.splits if_splits)
  then show "armed (hold_renewed i out c)" by (intro armed_mono [OF assms]) simp_all
  have "lease_held (claim_renewed k owner out c) \<Longrightarrow> lease_held c"
    by (auto simp: lease_held_def claim_renewed_def update_existing_def split: RenewOutcome.splits)
  then show "armed (claim_renewed k owner out c)" by (intro armed_mono [OF assms]) simp_all
qed

lemma armed_fold: "armed (fold (\<lambda>(i, lease). renewLease cfg i lease n ctx) ls c) = armed c"
  by (induction ls arbitrary: c) (simp_all add: case_prod_beta)

lemma armed_tick [arming]:
  "armed c \<Longrightarrow> armed (renewTick cfg env c)"
  "armed c \<Longrightarrow> armed (tick_renewed cfg i reply c)"
  "armed c \<Longrightarrow> armed (tick_resumed cfg c)"
  by (simp_all add: renewTick_def tick_renewed_def tick_resumed_def Let_def armed_fold arming
      split: option.split tick_stage.split)

lemma armed_reset [arming]: "armed c \<Longrightarrow> armed (reset_start c)" "armed c \<Longrightarrow> armed (reset_cleared cfg c)"
  by (auto simp: reset_start_def reset_cleared_def Let_def armed_def lease_held_def stopHeartbeatIfIdle_def nothing_held_def)

lemma armed_step: "armed c \<Longrightarrow> armed (co_step cfg ev c)"
  by (cases ev) (simp_all add: arming claimUnderlyingForPosition_def releaseUnderlyingForPosition_def
      claimUnderlyingForResidual_def releaseUnderlyingForResidual_def co_dispose_def split: option.split phase.split,
      simp add: armed_def)

lemma armed_run: "armed c \<Longrightarrow> armed (co_run cfg evs c)"
  unfolding co_run_def by (induction evs arbitrary: c) (simp_all add: armed_step)

text \<open>Whether the log asks for the renewal of a lease of call \<open>i\<close>.\<close>

definition renewal_issued :: "coordinator \<Rightarrow> nat \<times> ReservationLease \<Rightarrow> bool" where
  "renewal_issued c p =
     list_ex (\<lambda>call. case call of
        Call_renew tier i a \<Rightarrow> i = fst p \<and> rn_keys a = lease_keys (snd p) \<and> rn_fence a = Some (lease_fence (snd p))
      | _ \<Rightarrow> False) (co_calls c)"

lemma issued_stays: "renewal_issued c p \<Longrightarrow> renewal_issued (renewLease cfg i lease n ctx c) p"
  by (auto simp: renewal_issued_def renewLease_def Let_def log_call_def)

lemma renewal_now: "renewal_issued (renewLease cfg i lease n ctx c) (i, lease)"
  by (simp add: renewal_issued_def renewLease_def Let_def log_call_def)

lemma issued_fold: "renewal_issued c p \<Longrightarrow> renewal_issued (fold (\<lambda>(i, lease). renewLease cfg i lease n ctx) ls c) p"
  by (induction ls arbitrary: c) (auto simp: issued_stays)

lemma renewals_issued: "p \<in> set ls \<Longrightarrow> renewal_issued (fold (\<lambda>(i, lease). renewLease cfg i lease n ctx) ls c) p"
  by (induction ls arbitrary: c) (auto simp: renewal_now intro: issued_fold)

lemma tick_renews_active: "co_tick c = None \<Longrightarrow> list_all (renewal_issued (renewTick cfg env c)) (renewable c)"
  using renewals_issued by (simp add: list_all_iff renewTick_def Let_def renewal_issued_def)


section \<open>An entry orders under its own reservation\<close>

text \<open>A step of call \<open>j\<close> leaves the executions of the other calls alone.\<close>

definition others_active :: "nat \<Rightarrow> coordinator \<Rightarrow> coordinator \<Rightarrow> bool" where
  "others_active j c c' = (\<forall>i. i \<noteq> j \<longrightarrow> map_of (co_active c') i = map_of (co_active c) i)"

named_theorems actives "operations that leave the executions of other calls alone"

lemma others_same [actives]: "co_active c' = co_active c \<Longrightarrow> others_active j c c'"
  by (simp add: others_active_def)

lemma others_through:
  "co_active c1 = co_active c \<Longrightarrow> others_active j c1 c' = others_active j c c'"
  "co_active c2 = co_active c' \<Longrightarrow> others_active j c c2 = others_active j c c'"
  by (simp_all add: others_active_def)

lemma others_own [simp]:
  "others_active j c (claim j opp u keys ctx c') = others_active j c c'"
  "others_active j c (co_grant cfg env j keys lease c') = others_active j c c'"
  "others_active j c (registerActive cfg env j keys u lease c') = others_active j c c'"
  "others_active j c (abandon j c') = others_active j c c'"
  by (auto simp: others_active_def claim_def co_grant_def registerActive_def abandon_def Let_def update_conv' delete_conv'
      split: option.split)

lemma others_quiet [simp]:
  "others_active j c (bump st c') = others_active j c c'"
  "others_active j c (log_call k c') = others_active j c c'"
  "others_active j c (set_phase i ph c') = others_active j c c'"
  "others_active j c (co_finish i out c') = others_active j c c'"
  "others_active j c (stopHeartbeatIfIdle c') = others_active j c c'"
  "others_active j c (co_acquire tier cfg env i refs ctx c') = others_active j c c'"
  "others_active j c (releaseLease_start env i l c') = others_active j c c'"
  "others_active j c (releaseLease_rest cfg env i c') = others_active j c c'"
  "others_active j c (forget_opportunity opp c') = others_active j c c'"
  "others_active j c (retain env i e why c') = others_active j c c'"
  "others_active j c (no_longer_waiting c') = others_active j c c'"
  "others_active j c (snd (pollDelay cfg c')) = others_active j c c'"
  "others_active j c (snd (mintId cfg kind c')) = others_active j c c'"
  "others_active j c (snd (dropUnderlyingHolder cfg env u h who c')) = others_active j c c'"
  "others_active j c (snd (holdUnderlying cfg env u h ex who c')) = others_active j c c'"
  "others_active j c (c'\<lparr>co_waiting := w\<rparr>) = others_active j c c'"
  "others_active j c c"
  by (simp_all add: others_active_def co_finish_def)

lemma others_abandonHold [simp]:
  "others_active j c (abandonAndReleaseHold cfg env j c') = others_active j c c'"
  by (simp add: abandonAndReleaseHold_def releasePipelineHold_def split: option.split)

lemma others_settle [simp]:
  "others_active j c (settle_execution env j opp uncertain out c') = others_active j c c'"
  "others_active j c (holdOnUncertainty env j opp why c') = others_active j c c'"
  by (simp_all add: settle_execution_def holdOnUncertainty_def Let_def)

lemma others_confirm [simp]: "others_active j c (confirmBeforeSubmit cfg env j f lease w c') = others_active j c c'"
  by (simp add: confirmBeforeSubmit_def)

lemma others_wait [simp]:
  "others_active j c (entry_after_wait cfg env j f lease c') = others_active j c c'"
  "others_active j c (entry_gave_up cfg env j c') = others_active j c c'"
  "others_active j c (wait_round cfg env j f c') = others_active j c c'"
  "others_active j c (entry_conflict cfg env j f c') = others_active j c c'"
  "others_active j c (handleUnavailable cfg env j f w c') = others_active j c c'"
  "others_active j c (entry_no_lease cfg env j why c') = others_active j c c'"
  by (simp_all add: entry_after_wait_def entry_gave_up_def wait_round_def entry_conflict_def handleUnavailable_def
      entry_no_lease_def Let_def case_prod_beta split: option.split)

lemma others_entry [simp]:
  "others_active j c (entry_verified cfg env j f lease v c')  = others_active j c c'"
  "others_active j c (entry_acquired cfg env j f reply c') = others_active j c c'"
  "others_active j c (entry_acquired_local cfg env j f w reply c') = others_active j c c'"
  "others_active j c (entry_retried cfg env j f reply c') = others_active j c c'"
  "others_active j c (entry_woken cfg env j f c') = others_active j c c'"
  "others_active j c (entry_claim cfg env j f c') = others_active j c c'"
  "others_active j c (entry_locked cfg env j f granted c') = others_active j c c'"
  "others_active j c (drop_pipeline cfg env j f r c') = others_active j c c'"
  by (simp_all add: entry_verified_def entry_acquired_def entry_acquired_local_def entry_retried_def entry_woken_def
      entry_claim_def entry_locked_def drop_pipeline_def case_prod_beta Let_def
      split: option.split OwnershipVerdict.split AcquireResult.split)

lemma others_lock [simp]: "others_active j c (entry_lock cfg env j f c') = others_active j c c'"
  by (simp add: entry_lock_def case_prod_beta split: UnderlyingAdmission.split)

lemma others_calls [simp]:
  "others_active j c (entry_counted cfg env j f ok c') = others_active j c c'"
  "others_active j c (settleUnderlyingHold cfg env j f r c') = others_active j c c'"
  "others_active j c (exit_acquired cfg env j x reply c') = others_active j c c'"
  "others_active j c (exit_acquired_local cfg env j x reply c') = others_active j c c'"
  "others_active j c (exit_returned env j x answer c') = others_active j c c'"
  by (simp_all add: entry_counted_def settleUnderlyingHold_def exit_acquired_def exit_acquired_local_def
      exit_returned_def exit_refused_def exit_runs_def case_prod_beta
      split: option.split prod.split AcquireResult.split)

lemma others_returned [simp]: "others_active j c (entry_returned cfg env j f answer c') = others_active j c c'"
  by (simp add: entry_returned_def split: option.split)

lemma others_resumed [simp]:
  "others_active j c (call_resumed cfg env j c)"
  "others_active j c (store_replied cfg env j reply c)"
  "others_active j c (lease_released cfg env j c)"
  by (simp_all add: call_resumed_def store_replied_def lease_released_def Let_def
      split: option.split phase.split call_outcome.split)

lemma others_step: "event_call ev = Some j \<Longrightarrow> others_active j c (co_step cfg ev c)"
  by (cases ev) (simp_all split: option.split phase.split)

text \<open>The entries whose reservation was granted and that have not come back from the order path.\<close>

fun granted_frame :: "phase option \<Rightarrow> entry_frame option" where
  "granted_frame (Some (Verifying f l)) = Some f"
| "granted_frame (Some (Admitted_entry f)) = Some f"
| "granted_frame (Some (Entering f)) = Some f"
| "granted_frame _ = None"

fun submitted_frame :: "phase option \<Rightarrow> entry_frame option" where
  "submitted_frame (Some (Admitted_entry f)) = Some f"
| "submitted_frame (Some (Entering f)) = Some f"
| "submitted_frame _ = None"

definition grants :: "coord_event \<Rightarrow> nat \<Rightarrow> entry_frame \<Rightarrow> bool" where
  "grants ev i f =
     (case ev of
        CO_reply env j (Some (Granted lease)) \<Rightarrow>
          j = i \<and> en_broker env = ctx_broker (ef_context f) \<and> en_generation env = ctx_generation (ef_context f)
      | _ \<Rightarrow> False)"

lemma confirm_frame:
  "granted_frame (co_phases (confirmBeforeSubmit cfg env i f lease w c) i) =
     (if en_broker env = ctx_broker (ef_context f) \<and> en_generation env = ctx_generation (ef_context f) then Some f else None)"
  by (simp add: confirmBeforeSubmit_def)

lemma after_wait_frame:
  "granted_frame (co_phases (entry_after_wait cfg env i f lease c) i) = Some g \<Longrightarrow>
     g = f \<and> en_broker env = ctx_broker (ef_context f) \<and> en_generation env = ctx_generation (ef_context f)"
  by (simp add: entry_after_wait_def confirm_frame split: option.splits if_splits)

lemma no_grant_frames [simp]:
  "granted_frame (co_phases (entry_gave_up cfg env i c) i) = None"
  "granted_frame (co_phases (wait_round cfg env i f c) i) = None"
  "granted_frame (co_phases (entry_conflict cfg env i f c) i) = None"
  "granted_frame (co_phases (handleUnavailable cfg env i f w c) i) = None"
  "granted_frame (co_phases (entry_no_lease cfg env i why c) i) = None"
  "granted_frame (co_phases (exit_acquired cfg env i x reply c) i) = None"
  "granted_frame (co_phases (exit_acquired_local cfg env i x reply c) i) = None"
  "granted_frame (co_phases (exit_returned env i x answer c) i) = None"
  "granted_frame (co_phases (settle_execution env i opp uncertain out c) i) = None"
  "granted_frame (co_phases (drop_pipeline cfg env i f r c) i) = None"
  "granted_frame (co_phases (entry_claim cfg env i f c) i) = None"
  by (simp_all add: entry_gave_up_def wait_round_def entry_conflict_def handleUnavailable_def entry_no_lease_def
      exit_acquired_def exit_acquired_local_def exit_returned_def exit_refused_def exit_runs_def settle_execution_def
      drop_pipeline_def entry_claim_def co_finish_def Let_def case_prod_beta
      split: option.split AcquireResult.split)

lemma no_grant_frames' [simp]:
  "granted_frame (co_phases (entry_lock cfg env i f c) i) = None"
  "granted_frame (co_phases (entry_locked cfg env i f granted c) i) = None"
  "granted_frame (co_phases (entry_returned cfg env i f answer c) i) = None"
  by (simp_all add: entry_lock_def entry_locked_def entry_returned_def settleUnderlyingHold_def co_finish_def
      case_prod_beta split: option.split prod.split UnderlyingAdmission.split)

lemma reply_grants:
  assumes "granted_frame (co_phases (store_replied cfg env i reply c) i) = Some g" and "granted_frame (co_phases c i) = None"
  shows "grants (CO_reply env i reply) i g"
proof -
  have acq: "(\<exists>lease. out = Granted lease)" if "acquire_result refs out = Acquired l" for refs out l
    using that by (auto simp: acquire_result_def split: ReservationOutcome.splits)
  show ?thesis using assms
    by (auto simp: store_replied_def entry_acquired_def entry_acquired_local_def entry_retried_def co_finish_def
        grants_def confirm_frame dest!: acq after_wait_frame
        split: option.splits phase.splits AcquireResult.splits if_splits)
qed

lemma granted_own:
  assumes "event_call ev = Some i" and "granted_frame (co_phases (co_step cfg ev c) i) = Some g"
  shows "granted_frame (co_phases c i) = Some g \<or> grants ev i g"
proof (cases ev)
  case (CO_reply env j reply)
  then have j: "j = i" using assms(1) by simp
  show ?thesis
  proof (cases "granted_frame (co_phases c i)")
    case None
    then show ?thesis using reply_grants assms(2) unfolding CO_reply j by simp
  next
    case (Some f)
    then have "co_phases (store_replied cfg env i reply c) i = co_phases c i"
      by (auto simp: store_replied_def split: option.split phase.split)
    then show ?thesis using assms(2) unfolding CO_reply j by simp
  qed
next
  case (CO_resumed env j)
  then show ?thesis using assms
    by (auto simp: call_resumed_def split: option.splits phase.splits)
next
  case (CO_verified env j reply)
  then show ?thesis using assms
    by (auto simp: entry_verified_def co_finish_def Let_def split: option.splits phase.splits OwnershipVerdict.splits)
next
  case (CO_released env j)
  then show ?thesis using assms
    by (auto simp: lease_released_def co_finish_def Let_def split: option.splits phase.splits call_outcome.splits)
qed (use assms in \<open>auto simp: entry_counted_def entry_woken_def co_finish_def split: option.splits phase.splits if_splits\<close>)

lemma started_not_granted:
  "granted_frame (co_phases (simulateEntry cfg env r c) i) = Some g \<Longrightarrow>
     co_phases (simulateEntry cfg env r c) i = co_phases c i"
  "granted_frame (co_phases (simulateExit cfg env q c) i) = Some g \<Longrightarrow>
     co_phases (simulateExit cfg env q c) i = co_phases c i"
proof -
  show "granted_frame (co_phases (simulateEntry cfg env r c) i) = Some g \<Longrightarrow>
     co_phases (simulateEntry cfg env r c) i = co_phases c i"
    by (cases "i = co_seq c + 1")
       (auto simp: moves simulateEntry_def entry_start_def case_prod_beta co_finish_def Let_def split: if_splits option.splits)
  show "granted_frame (co_phases (simulateExit cfg env q c) i) = Some g \<Longrightarrow>
     co_phases (simulateExit cfg env q c) i = co_phases c i"
    by (cases "i = co_seq c + 1") (auto simp: moves simulateExit_def case_prod_beta Let_def split: if_splits)
qed

lemma granted_other:
  assumes "event_call ev = None" and "granted_frame (co_phases (co_step cfg ev c) i) = Some g"
  shows "co_phases (co_step cfg ev c) i = co_phases c i"
proof (cases ev)
  case (CO_holdReply env owner reply)
  show ?thesis
  proof (cases "co_holdCalls c owner")
    case None
    then show ?thesis by (simp add: CO_holdReply hold_replied_def)
  next
    case (Some h)
    have "granted_frame (co_phases (hold_replied env owner reply c) i) = Some g" using assms(2) CO_holdReply by simp
    then have "resumed_phases h (\<exists>lease. reply = Some (Granted lease)) (co_phases c) i = co_phases c i"
      using resumed_at [of h "\<exists>lease. reply = Some (Granted lease)" "co_phases c" i]
      unfolding hold_replied_effect(1) [OF Some] by (elim disjE exE conjE) simp_all
    then show ?thesis by (simp add: CO_holdReply hold_replied_effect(1) [OF Some])
  qed
next
  case (CO_dropped env owner)
  then have "granted_frame (co_phases (drop_released cfg env owner c) i) = Some g" using assms(2) by simp
  then have "co_phases (drop_released cfg env owner c) i = co_phases c i"
    using moves_drop_released [of cfg env owner c i] by (elim disjE exE conjE) simp_all
  then show ?thesis by (simp add: CO_dropped)
next
  case (CO_entry env r)
  then have "granted_frame (co_phases (simulateEntry cfg env r c) i) = Some g" using assms(2) by simp
  from started_not_granted(1) [OF this] show ?thesis by (simp add: CO_entry)
next
  case (CO_exit env q)
  then have "granted_frame (co_phases (simulateExit cfg env q c) i) = Some g" using assms(2) by simp
  from started_not_granted(2) [OF this] show ?thesis by (simp add: CO_exit)
next
  case CO_resetCleared
  then show ?thesis by (simp add: reset_cleared_def Let_def)
qed (use assms in \<open>simp_all add: claimUnderlyingForPosition_def releaseUnderlyingForPosition_def
    claimUnderlyingForResidual_def releaseUnderlyingForResidual_def renewTick_frame tick_renewed_frame
    tick_resumed_frame reset_start_def co_dispose_def\<close>)

lemma granted_step:
  assumes "granted_frame (co_phases (co_step cfg ev c) i) = Some g"
  shows "granted_frame (co_phases c i) = Some g \<or> grants ev i g"
proof (cases "event_call ev")
  case None
  then show ?thesis using granted_other [OF None assms] assms by simp
next
  case (Some j)
  then show ?thesis using granted_own [of ev i cfg c g] assms moves_own_event [OF Some, of i cfg c] by (cases "i = j") auto
qed

lemma co_run_snoc: "co_run cfg (evs @ [ev]) c = co_step cfg ev (co_run cfg evs c)"
  by (simp add: co_run_def)

lemma granted_run:
  "granted_frame (co_phases (co_run cfg evs new_coordinator) i) = Some g \<Longrightarrow> list_ex (\<lambda>ev. grants ev i g) evs"
proof (induction evs rule: rev_induct)
  case Nil
  then show ?case by (simp add: new_coordinator_def)
next
  case (snoc ev evs)
  then show ?case using granted_step [of cfg ev "co_run cfg evs new_coordinator" i g] by (auto simp: co_run_snoc)
qed

text \<open>The execution recorded for an entry that was admitted carries the lease over the entry's contracts.\<close>

definition carries_lease :: "coordinator \<Rightarrow> nat \<Rightarrow> entry_frame \<Rightarrow> bool" where
  "carries_lease c i f =
     (case map_of (co_active c) i of
        None \<Rightarrow> True
      | Some e \<Rightarrow> ae_keys e = keysOf (ef_refs f) \<and> ae_lease e \<noteq> None)"

definition leases_inv :: "coordinator \<Rightarrow> bool" where
  "leases_inv c = (\<forall>i f. submitted_frame (co_phases c i) = Some f \<longrightarrow> carries_lease c i f)"

lemma grant_carries: "carries_lease (co_grant cfg env i (keysOf (ef_refs f)) lease c) i f"
  by (auto simp: carries_lease_def co_grant_def update_conv' split: option.split)

lemma carries_cong: "map_of (co_active c') i = map_of (co_active c) i \<Longrightarrow> carries_lease c' i f = carries_lease c i f"
  by (simp add: carries_lease_def)

lemma carries_quiet [simp]:
  "carries_lease (set_phase j ph c) i f = carries_lease c i f" "carries_lease (log_call k c) i f = carries_lease c i f"
  by (simp_all add: carries_lease_def)

lemma submitted_granted: "submitted_frame p = Some f \<Longrightarrow> granted_frame p = Some f"
  by (cases p rule: submitted_frame.cases) auto

lemma not_granted_not_submitted: "granted_frame p = None \<Longrightarrow> submitted_frame p = None"
  by (cases p rule: submitted_frame.cases) auto

lemma confirm_carries:
  "submitted_frame (co_phases (confirmBeforeSubmit cfg env i f lease w c) i) = Some g \<Longrightarrow>
     carries_lease (confirmBeforeSubmit cfg env i f lease w c) i g"
  by (auto simp: confirmBeforeSubmit_def grant_carries split: if_splits)

lemma after_wait_carries:
  "submitted_frame (co_phases (entry_after_wait cfg env i f lease c) i) = Some g \<Longrightarrow>
     carries_lease (entry_after_wait cfg env i f lease c) i g"
  by (auto simp: entry_after_wait_def dest: confirm_carries split: option.splits)

lemmas no_submit_frames [simp] =
  no_grant_frames [THEN not_granted_not_submitted] no_grant_frames' [THEN not_granted_not_submitted]

lemma reply_carries:
  assumes "submitted_frame (co_phases (store_replied cfg env i reply c) i) = Some g"
    and "submitted_frame (co_phases c i) = None"
  shows "carries_lease (store_replied cfg env i reply c) i g"
  using assms
  by (auto simp: store_replied_def entry_acquired_def entry_acquired_local_def entry_retried_def co_finish_def
      intro: confirm_carries after_wait_carries
      split: option.splits phase.splits AcquireResult.splits if_splits)

lemma own_event_carries:
  assumes "event_call ev = Some i" and "submitted_frame (co_phases (co_step cfg ev c) i) = Some g"
    and inv: "\<And>f. submitted_frame (co_phases c i) = Some f \<Longrightarrow> carries_lease c i f"
  shows "carries_lease (co_step cfg ev c) i g"
proof (cases ev)
  case (CO_reply env j reply)
  then have j: "j = i" using assms(1) by simp
  show ?thesis
  proof (cases "submitted_frame (co_phases c i)")
    case None
    then show ?thesis using reply_carries assms(2) unfolding CO_reply j by simp
  next
    case (Some f)
    then have "store_replied cfg env i reply c = c"
      by (auto simp: store_replied_def split: option.split phase.split)
    then show ?thesis using assms(2) inv unfolding CO_reply j by simp
  qed
next
  case (CO_resumed env j)
  then show ?thesis using assms by (auto simp: call_resumed_def split: option.splits phase.splits)
next
  case (CO_verified env j reply)
  then show ?thesis using assms
    by (auto simp: entry_verified_def co_finish_def Let_def grant_carries split: option.splits phase.splits OwnershipVerdict.splits)
next
  case (CO_released env j)
  then show ?thesis using assms
    by (auto simp: lease_released_def co_finish_def Let_def split: option.splits phase.splits call_outcome.splits)
qed (use assms in \<open>auto simp: entry_counted_def entry_woken_def co_finish_def split: option.splits phase.splits if_splits\<close>)

lemma other_event_active:
  assumes "event_call ev = None" and "submitted_frame (co_phases (co_step cfg ev c) i) = Some g" and "carries_lease c i g"
  shows "carries_lease (co_step cfg ev c) i g"
proof (cases ev)
  case (CO_entry env r)
  show ?thesis
  proof (cases "i = co_seq c + 1")
    case True
    then show ?thesis using assms CO_entry
      by (auto simp: simulateEntry_def entry_start_def case_prod_beta co_finish_def Let_def split: option.splits if_splits)
  next
    case False
    have "others_active (co_seq c + 1) c (simulateEntry cfg env r c)"
      by (simp add: simulateEntry_def entry_start_def case_prod_beta Let_def split: option.split)
    then have "map_of (co_active (simulateEntry cfg env r c)) i = map_of (co_active c) i"
      using False by (simp add: others_active_def)
    from carries_cong [OF this] show ?thesis using assms(3) CO_entry by simp
  qed
next
  case (CO_holdReply env owner reply)
  have "co_active (hold_replied env owner reply c) = co_active c"
    by (simp add: hold_replied_def case_prod_beta split: option.split awaiting.split phase.split)
  then show ?thesis using assms(3) CO_holdReply by (simp add: carries_lease_def)
next
  case (CO_dropped env owner)
  have "co_active (drop_released cfg env owner c) = co_active c"
    by (simp add: drop_released_def Let_def split: option.split awaiting.split phase.split)
  then show ?thesis using assms(3) CO_dropped by (simp add: carries_lease_def)
next
  case (CO_renewed j reply)
  show ?thesis
  proof (cases "co_active (tick_renewed cfg j reply c) = co_active c")
    case True
    then show ?thesis using assms(3) CO_renewed by (simp add: carries_lease_def)
  next
    case False
    then have "co_active (tick_renewed cfg j reply c) = co_active (active_renewed j reply c)"
      by (auto simp: tick_renewed_def set_stage_def split: option.splits tick_stage.splits if_splits)
    then have "carries_lease (tick_renewed cfg j reply c) i g = carries_lease (active_renewed j reply c) i g"
      by (simp add: carries_lease_def)
    also have "\<dots> = carries_lease c i g"
      by (auto simp: carries_lease_def active_renewed_def map_of_update_existing split: option.splits RenewOutcome.split)
    finally show ?thesis using assms(3) CO_renewed by simp
  qed
next
  case CO_resetCleared
  then show ?thesis using assms(3) by (simp add: reset_cleared_def carries_lease_def Let_def)
next
  case CO_tickResumed
  have "co_active (tick_resumed cfg c) = co_active c" by (simp add: tick_resumed_def split: option.split)
  then show ?thesis using assms(3) CO_tickResumed by (simp add: carries_lease_def)
qed (use assms in \<open>simp_all add: carries_lease_def claimUnderlyingForPosition_def releaseUnderlyingForPosition_def
    claimUnderlyingForResidual_def releaseUnderlyingForResidual_def renewTick_frame reset_start_def co_dispose_def
    simulateExit_def case_prod_beta Let_def\<close>)

lemma leases_step:
  assumes "leases_inv c"
  shows "leases_inv (co_step cfg ev c)"
  unfolding leases_inv_def
proof (intro allI impI)
  fix i f assume s: "submitted_frame (co_phases (co_step cfg ev c) i) = Some f"
  show "carries_lease (co_step cfg ev c) i f"
  proof (cases "event_call ev = Some i")
    case True
    then show ?thesis by (rule own_event_carries [OF _ s]) (use assms in \<open>simp add: leases_inv_def\<close>)
  next
    case False
    have same: "co_phases (co_step cfg ev c) i = co_phases c i"
    proof (cases "event_call ev")
      case None
      then show ?thesis by (rule granted_other [OF _ submitted_granted [OF s]])
    next
      case (Some j)
      then show ?thesis using False by (intro moves_own_event) auto
    qed
    then have c: "carries_lease c i f" using s assms by (simp add: leases_inv_def)
    show ?thesis
    proof (cases "event_call ev")
      case None
      then show ?thesis by (rule other_event_active [OF _ s c])
    next
      case (Some j)
      then have "map_of (co_active (co_step cfg ev c)) i = map_of (co_active c) i"
        using others_step [OF Some, of c cfg] False by (simp add: others_active_def)
      from carries_cong [OF this] c show ?thesis by simp
    qed
  qed
qed

lemma leases_run: "leases_inv (co_run cfg evs new_coordinator)"
proof (induction evs rule: rev_induct)
  case Nil
  then show ?case by (simp add: leases_inv_def new_coordinator_def)
next
  case (snoc ev evs)
  then show ?case by (simp add: co_run_snoc leases_step)
qed

text \<open>Whether call \<open>i\<close> is on the order path, and the claims its entry made.\<close>

definition on_order_path :: "coordinator \<Rightarrow> nat \<Rightarrow> entry_frame option" where
  "on_order_path c i = (case co_phases c i of Some (Entering f) \<Rightarrow> Some f | _ \<Rightarrow> None)"

lemma on_path_frames:
  assumes "on_order_path c i = Some f"
  shows "submitted_frame (co_phases c i) = Some f" "granted_frame (co_phases c i) = Some f"
  using assms by (auto simp: on_order_path_def split: option.splits phase.splits)

text \<open>The lease under which call \<open>i\<close> may go on ordering over \<open>keys\<close> at time \<open>now\<close>.\<close>

definition live_lease :: "coord_config \<Rightarrow> int \<Rightarrow> nat \<Rightarrow> string list \<Rightarrow> coordinator \<Rightarrow> bool" where
  "live_lease cfg now i keys c =
     (case map_of (co_active c) i of
        None \<Rightarrow> False
      | Some e \<Rightarrow> ae_keys e = keys \<and> \<not> ae_ownershipLost e
          \<and> (case ae_lease e of None \<Rightarrow> False
             | Some lease \<Rightarrow> now < lease_expiresAt lease - reservationOwnershipMarginMs cfg))"

text \<open>C19. An entry orders only under its own reservation.  Whenever an entry is on the order path, in any
  reachable state, a store granted the reservation it asked for while broker and generation were those of its request, and
  the guard it runs under holds exactly if the order path's own guard holds and the entry is still recorded with a
  lease over all its contracts that was not lost and has more than the safety margin left.\<close>

theorem entries_order_under_their_reservation:
  assumes "on_order_path (co_run cfg evs new_coordinator) i = Some f"
  shows "list_ex (\<lambda>ev. grants ev i f) evs
   \<and> ownershipGuard cfg now inner i (co_run cfg evs new_coordinator)
       = (inner \<and> live_lease cfg now i (keysOf (ef_refs f)) (co_run cfg evs new_coordinator))"
proof
  show "list_ex (\<lambda>ev. grants ev i f) evs" by (rule granted_run [OF on_path_frames(2) [OF assms]])
  have "carries_lease (co_run cfg evs new_coordinator) i f"
    using leases_run on_path_frames(1) [OF assms] unfolding leases_inv_def by blast
  then show "ownershipGuard cfg now inner i (co_run cfg evs new_coordinator)
       = (inner \<and> live_lease cfg now i (keysOf (ef_refs f)) (co_run cfg evs new_coordinator))"
    by (auto simp: carries_lease_def ownershipGuard_def live_lease_def split: option.splits)
qed

lemma demo_entry_on_path:
  "case on_order_path (co_run demo_coord_config (demo_entry ''NIFTY'' 1) new_coordinator) 1 of
     Some f \<Rightarrow> ef_underlying f = ''NIFTY'' | None \<Rightarrow> False"
  by code_simp

theorem entries_order_under_their_reservation_witness:
  "\<exists>f. on_order_path (co_run demo_coord_config (demo_entry ''NIFTY'' 1) new_coordinator) 1 = Some f
     \<and> ownershipGuard demo_coord_config 0 True 1 (co_run demo_coord_config (demo_entry ''NIFTY'' 1) new_coordinator)
     \<and> live_lease demo_coord_config 0 1 (keysOf (ef_refs f))
         (co_run demo_coord_config (demo_entry ''NIFTY'' 1) new_coordinator)"
proof -
  obtain f where f: "on_order_path (co_run demo_coord_config (demo_entry ''NIFTY'' 1) new_coordinator) 1 = Some f"
    using demo_entry_on_path by (auto split: option.splits)
  have "ownershipGuard demo_coord_config 0 True 1 (co_run demo_coord_config (demo_entry ''NIFTY'' 1) new_coordinator)"
    by code_simp
  with entries_order_under_their_reservation [OF f, of 0 True] f show ?thesis by blast
qed

section \<open>The guard against duplicates and the wait before it takes effect\<close>

definition duplicate_of :: "coordinator \<Rightarrow> nat \<Rightarrow> nat \<Rightarrow> bool" where
  "duplicate_of c i j =
     (case (co_phases c i, co_phases c j) of
        (Some (Acquiring f), Some (Acquiring g)) \<Rightarrow> ef_opportunityId f = ef_opportunityId g
      | _ \<Rightarrow> False)"

definition refused_as_duplicate :: "coordinator \<Rightarrow> nat \<Rightarrow> bool" where
  "refused_as_duplicate c i =
     (case co_phases c i of Some (Done (Refused (Identical_running n))) \<Rightarrow> True | _ \<Rightarrow> False)"

lemma length_update_le: "length (AList.update k v al) \<le> Suc (length al)"
  by (induction al) auto

text \<open>The duplicate guard has a gap.  With an attempt counter (as in production) and no lock per underlying,
  two identical opportunities that arrive while the counter is being awaited both pass the guard and both
  ask the store for the same contracts; if the first is counted before the second arrives, the second is refused.\<close>

theorem duplicate_guard_has_a_gap:
  assumes "executionCoordinatorEnabled cfg" and "cc_hasConsumeAttempt cfg" and "\<not> oneActiveBoxPerUnderlying cfg"
    and "maxConcurrentPerUnderlying cfg \<le> 0 \<or> 2 \<le> maxConcurrentPerUnderlying cfg"
    and "cc_hasSessionGate cfg \<longrightarrow> en_sessionAllowed env"
    and "\<not> (reservationRequireDurable cfg \<and> \<not> cc_storeDurable cfg \<and> live_mode cfg)"
  shows "duplicate_of (co_run cfg [CO_entry env r, CO_entry env r, CO_counted env 1 True, CO_counted env 2 True]
           new_coordinator) 1 2
   \<and> refused_as_duplicate (co_run cfg [CO_entry env r, CO_counted env 1 True, CO_entry env r] new_coordinator) 2"
proof -
  have mint: "incumbent o' (snd (mintId cfg kind c)) = incumbent o' c" for o' kind c by (simp add: incumbent_def split: option.split)
  have start: "co_step cfg (CO_entry env r) c = set_phase (co_seq c + 1) (Consuming (new_frame cfg env r))
      (log_call (Call_consumeAttempt (co_seq c + 1)) (snd (mintId cfg ''entry'' c)))"
    if "incumbent (ef_opportunityId (new_frame cfg env r)) c = None" for c
    using assms(1,2,5,6) that by (auto simp: simulateEntry_def entry_start_def Let_def case_prod_beta mint)
  have second: "refused_as_duplicate (co_step cfg (CO_entry env r) c) (co_seq c + 1)"
    if "incumbent (ef_opportunityId (new_frame cfg env r)) c = Some n" for c n
    using assms(1,6) that
    by (auto simp: simulateEntry_def entry_start_def Let_def case_prod_beta mint refused_as_duplicate_def co_finish_def)
  have counted: "\<exists>g t. co_phases (co_step cfg (CO_counted env i True) c) = (co_phases c)(i \<mapsto> Acquiring g)
       \<and> ef_opportunityId g = ef_opportunityId f
       \<and> incumbent (ef_opportunityId f) (co_step cfg (CO_counted env i True) c) = Some i
       \<and> length (co_active (co_step cfg (CO_counted env i True) c)) \<le> length (co_active c) + 1
       \<and> co_seq (co_step cfg (CO_counted env i True) c) = co_seq c"
    if "co_phases c i = Some (Consuming f)" "length (co_active c) \<le> 1" for c i f
  proof -
    have "\<not> (0 < maxConcurrentPerUnderlying cfg \<and> maxConcurrentPerUnderlying cfg
        \<le> int (length (filter (\<lambda>p. ae_underlying (snd p) = ef_underlying f) (co_active c))))"
      using assms(4) that(2) length_filter_le [of "\<lambda>p. ae_underlying (snd p) = ef_underlying f" "co_active c"] by linarith
    then show ?thesis using assms(3) that(1)
      by (auto simp: entry_counted_def entry_lock_def entry_claim_def Let_def incumbent_def claim_def update_conv'
          length_update_le)
  qed
  let ?f = "new_frame cfg env r"
  let ?c1 = "co_step cfg (CO_entry env r) new_coordinator"
  let ?c2 = "co_step cfg (CO_entry env r) ?c1"
  let ?c3 = "co_step cfg (CO_counted env 1 True) ?c2"
  have i0: "incumbent (ef_opportunityId ?f) new_coordinator = None" by (simp add: incumbent_def new_coordinator_def)
  note c1 = start [OF i0]
  have i1: "incumbent (ef_opportunityId ?f) ?c1 = None" unfolding c1 by (simp add: incumbent_def new_coordinator_def)
  note c2 = start [OF i1]
  have seq: "co_seq ?c1 = 1" unfolding c1 by (simp add: new_coordinator_def)
  have p1: "co_phases ?c1 1 = Some (Consuming ?f)" "co_active ?c1 = []" unfolding c1 by (simp_all add: new_coordinator_def)
  have p2: "co_phases ?c2 1 = Some (Consuming ?f)" "co_phases ?c2 2 = Some (Consuming ?f)" "co_active ?c2 = []"
    unfolding c2 seq using p1 by (simp_all add: numeral_2_eq_2)
  obtain g where g: "co_phases ?c3 = (co_phases ?c2)(1 \<mapsto> Acquiring g)" "ef_opportunityId g = ef_opportunityId ?f"
      "length (co_active ?c3) \<le> 1"
    using counted [OF p2(1)] p2(3) by (auto simp del: co_step.simps One_nat_def)
  have p3: "co_phases ?c3 2 = Some (Consuming ?f)" unfolding g(1) by (simp add: p2(2) del: co_step.simps)
  obtain h where h: "co_phases (co_step cfg (CO_counted env 2 True) ?c3) = (co_phases ?c3)(2 \<mapsto> Acquiring h)"
      "ef_opportunityId h = ef_opportunityId ?f"
    using counted [OF p3 g(3)] by (auto simp del: co_step.simps One_nat_def)
  have "duplicate_of (co_step cfg (CO_counted env 2 True) ?c3) 1 2" 
    unfolding duplicate_of_def h(1) g(1) by (simp add: h(2) g(2))
  moreover have "incumbent (ef_opportunityId ?f) (co_step cfg (CO_counted env 1 True) ?c1) = Some 1"
    and "co_seq (co_step cfg (CO_counted env 1 True) ?c1) = 1"
    using counted [OF p1(1)] p1(2) seq by (auto simp del: co_step.simps One_nat_def)
  then have "refused_as_duplicate (co_step cfg (CO_entry env r) (co_step cfg (CO_counted env 1 True) ?c1)) 2"
    using second [of "co_step cfg (CO_counted env 1 True) ?c1" 1] by (simp del: co_step.simps add: numeral_2_eq_2)
  ultimately show ?thesis by (simp only: co_run_Cons co_run_Nil)
qed

theorem duplicate_guard_has_a_gap_witness:
  "duplicate_of (co_run (demo_coord_config\<lparr>oneActiveBoxPerUnderlying := False, cc_hasConsumeAttempt := True\<rparr>)
      [CO_entry (demo_coord_env 0) (demo_request ''NIFTY''), CO_entry (demo_coord_env 0) (demo_request ''NIFTY''),
       CO_counted (demo_coord_env 0) 1 True, CO_counted (demo_coord_env 0) 2 True] new_coordinator) 1 2"
  by (rule duplicate_guard_has_a_gap [THEN conjunct1])
     (simp_all add: demo_coord_config_def demo_coord_env_def live_mode_def)

end
