(* ===== verification/Box_Math.thy ===== *)
theory Box_Math
  imports Entry_Recovery
begin

text \<open>
  The mathematical core of the strategy, \<^verbatim>\<open>src/box/math.ts\<close>: touch prices, the strike window, the
  candidates of a chain, the edge of a box in both directions, the decision to enter and the decision to
  leave.  Every function of the source is pure.

  Prices and amounts are exact rationals and finite, quantities and versions integers, times integers in
  milliseconds; \<^verbatim>\<open>Math.round\<close> rounds halves up.  An optional argument is an \<open>option\<close>.  The key of a candidate
  is the tuple its text is made of.

  The lemmas show that a box is tradable exactly if a whole lot rests at a fresh touch on each leg, that on
  books that are not crossed the two directions are never both profitable, that the edge captured at an
  exit is the gross profit, and that no exit but the expiry emergency closes at a loss.
\<close>

section \<open>Quotes, contracts and candidates\<close>

record BoxDepthLevel =
  dl_price :: rat
  dl_qty :: int
  dl_orders :: int

record BoxQuote =
  bq_token :: nat
  bq_bid :: rat
  bq_bid_qty :: int
  bq_ask :: rat
  bq_ask_qty :: int
  bq_last :: rat
  bq_bids :: "BoxDepthLevel list"
  bq_asks :: "BoxDepthLevel list"
  bq_version :: int
  bq_at :: int
  bq_exchange_at :: "int option"

datatype instrument_type = CE | PE

record BoxOptionInstrument =
  oi_token :: nat
  oi_tradingsymbol :: string
  oi_exchange :: string
  oi_strike :: rat
  oi_type :: instrument_type
  oi_expiry :: string
  oi_lot_size :: jsnum
  oi_tick_size :: "rat option"

record BoxCandidate =
  bc_underlying :: string
  bc_name :: string
  bc_is_index :: bool
  bc_expiry :: string
  bc_direction :: BoxDirection
  bc_lower_strike :: rat
  bc_upper_strike :: rat
  bc_box_width :: rat
  bc_lot_size :: int
  bc_legs :: "BoxLegRole \<Rightarrow> BoxOptionInstrument"

datatype BoxRejectReason =
    R_no_quote | R_stale_quote | R_missing_bid | R_missing_ask | R_insufficient_qty | R_below_gross_prefilter
  | R_below_net_edge | R_below_expected_net_profit | R_execution_failed | R_unpriced_charges | R_duplicate_open
  | R_stale_underlying | R_market_closed | R_implausible_close

record BoxLegEvaluation =
  le_role :: BoxLegRole
  le_side :: OrderSide
  le_inst :: BoxOptionInstrument
  le_price :: "rat option"
  le_qty_at_touch :: int
  le_bid :: rat
  le_bid_qty :: int
  le_ask :: rat
  le_ask_qty :: int
  le_quote_at :: "int option"
  le_exchange_at :: "int option"
  le_quote_version :: "int option"
  le_depth :: "(BoxDepthLevel list \<times> BoxDepthLevel list) option"
  le_age_ms :: "int option"
  le_fresh :: bool
  le_executable :: bool

record BoxEvaluation =
  ev_candidate :: BoxCandidate
  ev_at :: int
  ev_legs :: "BoxLegEvaluation list"
  ev_net_debit_per_unit :: "rat option"
  ev_gross_edge_per_unit :: "rat option"
  ev_gross_edge :: "rat option"
  ev_tradable :: bool
  ev_depth_ok :: bool
  ev_worst_age_ms :: "int option"
  ev_quote_version :: "int option"
  ev_reject :: "BoxRejectReason option"

record math_config =
  mc_minGrossEdge :: rat
  mc_minNetEdge :: rat
  mc_minExpectedNetProfit :: rat
  mc_safetyBuffer :: rat
  mc_convergenceFloor :: rat
  mc_convergencePct :: rat
  mc_minExitNetPnl :: rat
  mc_profitCapturePct :: rat
  mc_minCapturedPct :: rat

section \<open>Money and sides\<close>

definition round2 :: "rat \<Rightarrow> rat" where
  "round2 v = of_int \<lfloor>v * 100 + 1/2\<rfloor> / 100"

definition directionSign :: "BoxDirection \<Rightarrow> rat" where
  "directionSign d = (if d = LONG_BOX then 1 else -1)"

definition slippagePerUnit :: "OrderSide \<Rightarrow> rat option \<Rightarrow> rat option \<Rightarrow> rat option" where
  "slippagePerUnit side detected executed =
     (case (detected, executed) of
        (Some d, Some e) \<Rightarrow> Some (round2 (if side = BUY then e - d else d - e))
      | _ \<Rightarrow> None)"

definition entrySideFor :: "BoxLegRole \<Rightarrow> BoxDirection \<Rightarrow> OrderSide" where
  "entrySideFor role direction = BOX_ENTRY_SIDES_BY_DIRECTION direction role"

definition exitSideFor :: "BoxLegRole \<Rightarrow> BoxDirection \<Rightarrow> OrderSide" where
  "exitSideFor role direction = (if entrySideFor role direction = BUY then SELL else BUY)"

definition debitSign :: "OrderSide \<Rightarrow> rat" where
  "debitSign side = (if side = BUY then 1 else -1)"

section \<open>Temporal coherence\<close>

record coherence_leg =
  cl_received_at :: "int option"
  cl_exchange_at :: "int option"
  cl_current_version :: "int option"
  cl_detection_version :: "int option"

record BoxTemporalCoherence =
  tc_oldest_quote_age_ms :: "int option"
  tc_newest_quote_age_ms :: "int option"
  tc_receive_dispersion_ms :: "int option"
  tc_exchange_dispersion_ms :: "int option"
  tc_legs_with_exchange_ts :: nat
  tc_receive_to_exchange_delay_ms :: "int option list"
  tc_books_changed :: nat

text \<open>Milliseconds are integers, so rounding them to two decimals changes nothing.\<close>

definition dispersion :: "int list \<Rightarrow> int" where
  "dispersion xs = Max (set xs) - Min (set xs)"

definition temporalCoherence :: "coherence_leg list \<Rightarrow> int \<Rightarrow> BoxTemporalCoherence" where
  "temporalCoherence legs now =
     (let received = List.map_filter cl_received_at legs;
          exchange = List.map_filter cl_exchange_at legs;
          ages = map (\<lambda>r. now - r) received
      in \<lparr>tc_oldest_quote_age_ms = (if ages = [] then None else Some (Max (set ages))),
          tc_newest_quote_age_ms = (if ages = [] then None else Some (Min (set ages))),
          tc_receive_dispersion_ms = (if 2 \<le> length received then Some (dispersion received) else None),
          tc_exchange_dispersion_ms =
            (if length exchange = length legs \<and> 2 \<le> length legs then Some (dispersion exchange) else None),
          tc_legs_with_exchange_ts = length exchange,
          tc_receive_to_exchange_delay_ms =
            map (\<lambda>l. case (cl_received_at l, cl_exchange_at l) of (Some r, Some e) \<Rightarrow> Some (r - e) | _ \<Rightarrow> None) legs,
          tc_books_changed =
            length (filter (\<lambda>l. case (cl_current_version l, cl_detection_version l) of
                                  (Some c, Some d) \<Rightarrow> c \<noteq> d | _ \<Rightarrow> False) legs)\<rparr>)"

section \<open>The touch\<close>

datatype book_side = bid_side | ask_side

definition better :: "book_side \<Rightarrow> rat \<Rightarrow> rat \<Rightarrow> rat" where
  "better side b p = (case side of bid_side \<Rightarrow> max b p | ask_side \<Rightarrow> min b p)"

definition bestPrice :: "BoxDepthLevel list \<Rightarrow> book_side \<Rightarrow> rat option" where
  "bestPrice levels side =
     foldl (\<lambda>best lv. if \<not> 0 < dl_price lv then best
                      else case best of None \<Rightarrow> Some (dl_price lv) | Some b \<Rightarrow> Some (better side b (dl_price lv)))
       None levels"

definition qtyAtPrice :: "BoxDepthLevel list \<Rightarrow> rat \<Rightarrow> int" where
  "qtyAtPrice levels price =
     foldl (\<lambda>q lv. if dl_price lv = price \<and> 0 < dl_qty lv then q + dl_qty lv else q) 0 levels"

definition touch_of :: "BoxDepthLevel list \<Rightarrow> book_side \<Rightarrow> rat \<Rightarrow> int \<Rightarrow> rat option \<times> int" where
  "touch_of levels side scalar scalar_qty =
     (case (case bestPrice levels side of Some p \<Rightarrow> Some p | None \<Rightarrow> if 0 < scalar then Some scalar else None) of
        None \<Rightarrow> (None, 0)
      | Some p \<Rightarrow> (Some p, let q = qtyAtPrice levels p
                          in if q \<noteq> 0 then q else if scalar = p then scalar_qty else 0))"

definition touchFor :: "BoxQuote \<Rightarrow> OrderSide \<Rightarrow> rat option \<times> int" where
  "touchFor q side =
     (if side = BUY then touch_of (bq_asks q) ask_side (bq_ask q) (bq_ask_qty q)
      else touch_of (bq_bids q) bid_side (bq_bid q) (bq_bid_qty q))"

definition cloneDepth :: "BoxQuote \<Rightarrow> BoxDepthLevel list \<times> BoxDepthLevel list" where
  "cloneDepth q = (bq_bids q, bq_asks q)"

section \<open>The strike window\<close>

definition atmStrikeFor :: "rat list \<Rightarrow> rat \<Rightarrow> rat option" where
  "atmStrikeFor strikes spot =
     (case sort strikes of
        [] \<Rightarrow> None
      | s0 # ss \<Rightarrow>
          Some (fst (foldl (\<lambda>(best, gap) s. let d = \<bar>s - spot\<bar> in if d < gap then (s, d) else (best, gap))
                       (s0, \<bar>s0 - spot\<bar>) (s0 # ss))))"

definition strikeStepOf :: "rat list \<Rightarrow> rat" where
  "strikeStepOf strikes =
     (let sorted_strikes = sort (remdups strikes)
      in if length sorted_strikes < 2 then 0
         else let gaps = sort (map (\<lambda>(a, b). b - a) (zip sorted_strikes (tl sorted_strikes)))
              in gaps ! (length gaps div 2))"

definition selectStrikeWindow :: "rat list \<Rightarrow> rat \<Rightarrow> nat \<Rightarrow> (rat \<times> rat list) option" where
  "selectStrikeWindow strikes spot eachSide =
     (let sorted_strikes = sort (remdups strikes)
      in case atmStrikeFor sorted_strikes spot of
           None \<Rightarrow> None
         | Some atm \<Rightarrow>
             let idx = length (takeWhile (\<lambda>s. s \<noteq> atm) sorted_strikes);
                 lo = idx - eachSide;
                 hi = min (length sorted_strikes - 1) (idx + eachSide)
             in Some (atm, take (hi + 1 - lo) (drop lo sorted_strikes)))"

definition shouldRecentreWindow :: "rat \<Rightarrow> rat \<Rightarrow> rat \<Rightarrow> rat \<Rightarrow> bool" where
  "shouldRecentreWindow currentAtm spot strikeStep hysteresis =
     (if \<not> 0 < strikeStep then False else strikeStep * (1/2 + hysteresis) < \<bar>spot - currentAtm\<bar>)"

section \<open>Candidates\<close>

definition candidateKey :: "BoxCandidate \<Rightarrow> string \<times> string \<times> rat \<times> rat \<times> BoxDirection" where
  "candidateKey c = (bc_underlying c, bc_expiry c, bc_lower_strike c, bc_upper_strike c, bc_direction c)"

record chain_args =
  ca_underlying :: string
  ca_name :: string
  ca_is_index :: bool
  ca_expiry :: string
  ca_lot_size :: jsnum
  ca_strikes :: "rat list"
  ca_ce :: "rat \<rightharpoonup> BoxOptionInstrument"
  ca_pe :: "rat \<rightharpoonup> BoxOptionInstrument"
  ca_directions :: "BoxDirection list option"

fun strike_pairs :: "rat list \<Rightarrow> (rat \<times> rat) list" where
  "strike_pairs [] = []"
| "strike_pairs (k # ks) = map (Pair k) ks @ strike_pairs ks"

fun leg_map :: "'a \<Rightarrow> 'a \<Rightarrow> 'a \<Rightarrow> 'a \<Rightarrow> BoxLegRole \<Rightarrow> 'a" where
  "leg_map a b c d k1_ce = a"
| "leg_map a b c d k2_ce = b"
| "leg_map a b c d k2_pe = c"
| "leg_map a b c d k1_pe = d"

definition lot_value :: "jsnum \<Rightarrow> int" where
  "lot_value n = (case n of Fin q \<Rightarrow> \<lfloor>q\<rfloor> | _ \<Rightarrow> 0)"

definition pair_candidates :: "chain_args \<Rightarrow> BoxDirection list \<Rightarrow> rat \<times> rat \<Rightarrow> BoxCandidate list" where
  "pair_candidates a directions p =
     (let (k1, k2) = p in
      case (ca_ce a k1, ca_ce a k2, ca_pe a k2, ca_pe a k1) of
        (Some k1ce, Some k2ce, Some k2pe, Some k1pe) \<Rightarrow>
          let legs = leg_map k1ce k2ce k2pe k1pe
          in if singleLotLegViolation (ca_lot_size a) (\<lambda>r. oi_lot_size (legs r)) \<noteq> None then []
             else map (\<lambda>d. \<lparr>bc_underlying = ca_underlying a, bc_name = ca_name a, bc_is_index = ca_is_index a,
                            bc_expiry = ca_expiry a, bc_direction = d, bc_lower_strike = k1, bc_upper_strike = k2,
                            bc_box_width = round2 (k2 - k1), bc_lot_size = lot_value (ca_lot_size a),
                            bc_legs = legs\<rparr>) directions
      | _ \<Rightarrow> [])"

definition buildCandidates :: "chain_args \<Rightarrow> BoxCandidate list" where
  "buildCandidates a =
     (if \<not> isPositiveSafeInteger (ca_lot_size a) then []
      else concat (map (pair_candidates a (case ca_directions a of None \<Rightarrow> [LONG_BOX] | Some ds \<Rightarrow> ds))
                     (strike_pairs (sort (remdups (ca_strikes a))))))"

section \<open>Entry evaluation\<close>

definition no_quote_leg :: "BoxLegRole \<Rightarrow> OrderSide \<Rightarrow> BoxOptionInstrument \<Rightarrow> rat option \<Rightarrow> BoxLegEvaluation" where
  "no_quote_leg role side inst price =
     \<lparr>le_role = role, le_side = side, le_inst = inst, le_price = price, le_qty_at_touch = 0, le_bid = 0,
      le_bid_qty = 0, le_ask = 0, le_ask_qty = 0, le_quote_at = None, le_exchange_at = None,
      le_quote_version = None, le_depth = None, le_age_ms = None, le_fresh = False, le_executable = False\<rparr>"

definition evaluateLeg ::
    "BoxLegRole \<Rightarrow> OrderSide \<Rightarrow> BoxOptionInstrument \<Rightarrow> BoxQuote option \<Rightarrow> int \<Rightarrow> int \<Rightarrow> int \<Rightarrow> bool \<Rightarrow> BoxLegEvaluation" where
  "evaluateLeg role side inst quote lotSize now maxAgeMs captureDepth =
     (case quote of
        None \<Rightarrow> no_quote_leg role side inst None
      | Some q \<Rightarrow>
          let age = now - bq_at q;
              touch = touchFor q side
          in \<lparr>le_role = role, le_side = side, le_inst = inst, le_price = fst touch, le_qty_at_touch = snd touch,
              le_bid = bq_bid q, le_bid_qty = bq_bid_qty q, le_ask = bq_ask q, le_ask_qty = bq_ask_qty q,
              le_quote_at = Some (bq_at q), le_exchange_at = bq_exchange_at q,
              le_quote_version = Some (bq_version q),
              le_depth = (if captureDepth then Some (cloneDepth q) else None), le_age_ms = Some age,
              le_fresh = (if 0 \<le> age then age \<le> maxAgeMs else False),
              le_executable = (case fst touch of None \<Rightarrow> False | Some p \<Rightarrow> 0 < p \<and> lotSize \<le> snd touch)\<rparr>)"

definition lacks_price :: "BoxLegEvaluation \<Rightarrow> bool" where
  "lacks_price l = (case le_price l of None \<Rightarrow> True | Some p \<Rightarrow> \<not> 0 < p)"

definition firstRejectReason :: "BoxLegEvaluation list \<Rightarrow> int \<Rightarrow> BoxRejectReason option" where
  "firstRejectReason legs lotSize =
     (if list_ex (\<lambda>l. le_quote_at l = None) legs then Some R_no_quote
      else if list_ex (\<lambda>l. \<not> le_fresh l) legs then Some R_stale_quote
      else case find lacks_price legs of
        Some l \<Rightarrow> Some (if le_side l = BUY then R_missing_ask else R_missing_bid)
      | None \<Rightarrow> if list_ex (\<lambda>l. le_qty_at_touch l < lotSize) legs then Some R_insufficient_qty else None)"

text \<open>The sum of the legs' prices with their signs; only meaningful if every leg has one.\<close>

definition signed_price :: "BoxLegEvaluation \<Rightarrow> rat" where
  "signed_price l = (case le_price l of None \<Rightarrow> 0 | Some p \<Rightarrow> debitSign (le_side l) * p)"

definition latest :: "int option list \<Rightarrow> int option" where
  "latest xs = foldl (\<lambda>m x. case x of None \<Rightarrow> m
                        | Some v \<Rightarrow> (case m of None \<Rightarrow> Some v | Some w \<Rightarrow> if w < v then Some v else Some w)) None xs"

definition edge_per_unit :: "BoxCandidate \<Rightarrow> rat option \<Rightarrow> rat option" where
  "edge_per_unit c netDebit = map_option (\<lambda>d. round2 (directionSign (bc_direction c) * bc_box_width c - d)) netDebit"

definition edge_of_lot :: "BoxCandidate \<Rightarrow> rat option \<Rightarrow> rat option" where
  "edge_of_lot c perUnit = map_option (\<lambda>g. round2 (g * of_int (bc_lot_size c))) perUnit"

definition candidate_legs ::
    "BoxCandidate \<Rightarrow> (nat \<rightharpoonup> BoxQuote) \<Rightarrow> int \<Rightarrow> int \<Rightarrow> bool \<Rightarrow> BoxLegEvaluation list" where
  "candidate_legs c quotes now maxAgeMs captureDepth =
     map (\<lambda>role. evaluateLeg role (BOX_ENTRY_SIDES_BY_DIRECTION (bc_direction c) role) (bc_legs c role)
                   (quotes (oi_token (bc_legs c role))) (bc_lot_size c) now maxAgeMs captureDepth) BOX_LEG_ROLES"

definition evaluateCandidate ::
    "BoxCandidate \<Rightarrow> (nat \<rightharpoonup> BoxQuote) \<Rightarrow> int \<Rightarrow> int \<Rightarrow> bool \<Rightarrow> BoxEvaluation" where
  "evaluateCandidate c quotes now maxAgeMs captureDepth =
     (let legs = candidate_legs c quotes now maxAgeMs captureDepth;
          havePrices = list_all (\<lambda>l. le_price l \<noteq> None) legs;
          netDebit = sum_list (map signed_price legs);
          agesSeen = length (filter (\<lambda>l. le_age_ms l \<noteq> None) legs);
          depthOk = list_all (\<lambda>l. \<not> lacks_price l \<and> bc_lot_size c \<le> le_qty_at_touch l) legs;
          netDebitPerUnit = (if havePrices then Some (round2 netDebit) else None);
          grossPerUnit = edge_per_unit c netDebitPerUnit;
          grossEdge = edge_of_lot c grossPerUnit;
          reject = firstRejectReason legs (bc_lot_size c)
      in \<lparr>ev_candidate = c, ev_at = now, ev_legs = legs, ev_net_debit_per_unit = netDebitPerUnit,
          ev_gross_edge_per_unit = grossPerUnit, ev_gross_edge = grossEdge,
          ev_tradable = (reject = None \<and> grossEdge \<noteq> None), ev_depth_ok = depthOk,
          ev_worst_age_ms = (if agesSeen = length BOX_LEG_ROLES then latest (map le_age_ms legs) else None),
          ev_quote_version = latest (map le_quote_version legs), ev_reject = reject\<rparr>)"

section \<open>The decision to enter\<close>

definition projectedNetEdge :: "rat \<Rightarrow> rat \<Rightarrow> rat \<Rightarrow> rat \<Rightarrow> rat option \<Rightarrow> rat" where
  "projectedNetEdge grossEdge entryCharges estimatedExitCharges safetyBuffer executionCost =
     round2 (grossEdge - entryCharges - estimatedExitCharges
             - (case executionCost of None \<Rightarrow> 0 | Some x \<Rightarrow> x) - safetyBuffer)"

definition requiredNetProfit :: "math_config \<Rightarrow> rat" where
  "requiredNetProfit cfg = max (mc_minExpectedNetProfit cfg) (if 0 < mc_minNetEdge cfg then mc_minNetEdge cfg else 0)"

definition prefilterGrossThreshold :: "math_config \<Rightarrow> rat" where
  "prefilterGrossThreshold cfg = max 0 (mc_minGrossEdge cfg)"

record entry_args =
  ea_grossEdge :: "rat option"
  ea_entryCharges :: "rat option"
  ea_estimatedExitCharges :: "rat option"
  ea_executionCost :: "rat option"
  ea_entrySlippageAllowance :: "rat option"
  ea_futureExitSlippageAllowance :: "rat option"
  ea_measuredEntrySlippage :: "rat option"

record BoxEntryDecision =
  ed_gross_edge :: "rat option"
  ed_entry_charges :: "rat option"
  ed_estimated_exit_charges :: "rat option"
  ed_execution_cost :: rat
  ed_entry_slippage_allowance :: rat
  ed_future_exit_slippage_allowance :: rat
  ed_measured_entry_slippage :: "rat option"
  ed_safety_buffer :: rat
  ed_expected_net_profit :: "rat option"
  ed_min_expected_net_profit :: rat
  ed_passes_gross_prefilter :: bool
  ed_qualifies :: bool
  ed_reject :: "BoxRejectReason option"

definition or_zero :: "rat option \<Rightarrow> rat" where
  "or_zero x = (case x of None \<Rightarrow> 0 | Some v \<Rightarrow> v)"

definition evaluateEntryDecision :: "math_config \<Rightarrow> entry_args \<Rightarrow> BoxEntryDecision" where
  "evaluateEntryDecision cfg a =
     (let usingExplicit = (ea_entrySlippageAllowance a \<noteq> None \<or> ea_futureExitSlippageAllowance a \<noteq> None);
          entryAllowance = (if usingExplicit then round2 (or_zero (ea_entrySlippageAllowance a))
                            else round2 (or_zero (ea_executionCost a)));
          futureExitAllowance = (if usingExplicit then round2 (or_zero (ea_futureExitSlippageAllowance a)) else 0);
          executionCost = round2 (entryAllowance + futureExitAllowance);
          minNet = requiredNetProfit cfg;
          passes = (case ea_grossEdge a of None \<Rightarrow> False | Some g \<Rightarrow> mc_minGrossEdge cfg \<le> g);
          result = (\<lambda>net ok why.
            \<lparr>ed_gross_edge = ea_grossEdge a, ed_entry_charges = ea_entryCharges a,
             ed_estimated_exit_charges = ea_estimatedExitCharges a, ed_execution_cost = executionCost,
             ed_entry_slippage_allowance = entryAllowance, ed_future_exit_slippage_allowance = futureExitAllowance,
             ed_measured_entry_slippage = map_option round2 (ea_measuredEntrySlippage a),
             ed_safety_buffer = mc_safetyBuffer cfg, ed_expected_net_profit = net,
             ed_min_expected_net_profit = minNet, ed_passes_gross_prefilter = passes, ed_qualifies = ok,
             ed_reject = why\<rparr>)
      in case ea_grossEdge a of
           None \<Rightarrow> result None False (Some R_no_quote)
         | Some g \<Rightarrow>
             (case (ea_entryCharges a, ea_estimatedExitCharges a) of
                (Some entryCharges, Some exitCharges) \<Rightarrow>
                  let net = projectedNetEdge g entryCharges exitCharges (mc_safetyBuffer cfg) (Some executionCost)
                  in if \<not> passes then result (Some net) False (Some R_below_gross_prefilter)
                     else if net < minNet then result (Some net) False (Some R_below_expected_net_profit)
                     else result (Some net) True None
              | _ \<Rightarrow> result None False (Some R_unpriced_charges)))"

definition qualifiesForEntry :: "rat option \<Rightarrow> rat option \<Rightarrow> math_config \<Rightarrow> bool" where
  "qualifiesForEntry grossEdge netEdge cfg =
     (case grossEdge of
        None \<Rightarrow> False
      | Some g \<Rightarrow>
          if g < mc_minGrossEdge cfg then False
          else if 0 < mc_minNetEdge cfg
               then (case netEdge of None \<Rightarrow> False | Some n \<Rightarrow> \<not> n < mc_minNetEdge cfg)
               else True)"

definition passesGrossPrefilter :: "rat option \<Rightarrow> rat \<Rightarrow> bool" where
  "passesGrossPrefilter grossEdge threshold = (case grossEdge of None \<Rightarrow> False | Some g \<Rightarrow> threshold \<le> g)"

section \<open>Indicative evaluation\<close>

definition indicative_legs :: "BoxCandidate \<Rightarrow> (nat \<rightharpoonup> rat) \<Rightarrow> BoxLegEvaluation list" where
  "indicative_legs c lastPrices =
     map (\<lambda>role. let price = (case lastPrices (oi_token (bc_legs c role)) of None \<Rightarrow> 0 | Some p \<Rightarrow> p)
                 in no_quote_leg role (BOX_ENTRY_SIDES_BY_DIRECTION (bc_direction c) role) (bc_legs c role)
                      (if 0 < price then Some price else None)) BOX_LEG_ROLES"

definition evaluateCandidateIndicative :: "BoxCandidate \<Rightarrow> (nat \<rightharpoonup> rat) \<Rightarrow> int \<Rightarrow> BoxEvaluation" where
  "evaluateCandidateIndicative c lastPrices now =
     (let legs = indicative_legs c lastPrices;
          havePrices = list_all (\<lambda>l. le_price l \<noteq> None) legs;
          netDebit = (if havePrices then Some (round2 (sum_list (map signed_price legs))) else None);
          sgn_d = directionSign (bc_direction c);
          plausible = (case netDebit of
              None \<Rightarrow> False
            | Some d \<Rightarrow> 0 < sgn_d * d \<and> 0 < sgn_d * bc_box_width c - d \<and> sgn_d * bc_box_width c - d < bc_box_width c);
          netDebitPerUnit = (if plausible then netDebit else None);
          grossPerUnit = edge_per_unit c netDebitPerUnit
      in \<lparr>ev_candidate = c, ev_at = now, ev_legs = legs, ev_net_debit_per_unit = netDebitPerUnit,
          ev_gross_edge_per_unit = grossPerUnit, ev_gross_edge = edge_of_lot c grossPerUnit,
          ev_tradable = False, ev_depth_ok = False, ev_worst_age_ms = None, ev_quote_version = None,
          ev_reject = Some (if \<not> havePrices then R_no_quote
                            else if \<not> plausible then R_implausible_close else R_market_closed)\<rparr>)"

section \<open>The decision to leave\<close>

definition evaluateExitLegs ::
    "(BoxLegRole \<times> BoxOptionInstrument) list \<Rightarrow> (nat \<rightharpoonup> BoxQuote) \<Rightarrow> int \<Rightarrow> int \<Rightarrow> int \<Rightarrow> BoxDirection option
     \<Rightarrow> bool \<Rightarrow> BoxLegEvaluation list" where
  "evaluateExitLegs legs quotes lotSize now maxAgeMs direction captureDepth =
     (let d = (case direction of None \<Rightarrow> LONG_BOX | Some x \<Rightarrow> x)
      in map (\<lambda>(role, inst). evaluateLeg role (exitSideFor role d) inst (quotes (oi_token inst)) lotSize now
                               maxAgeMs captureDepth) legs)"

definition convergenceThreshold :: "math_config \<Rightarrow> rat \<Rightarrow> rat" where
  "convergenceThreshold cfg entryNetEdge =
     round2 (max (mc_convergenceFloor cfg) (mc_convergencePct cfg * entryNetEdge))"

fun exit_credit :: "rat \<Rightarrow> BoxLegEvaluation list \<Rightarrow> rat option" where
  "exit_credit credit [] = Some (round2 credit)"
| "exit_credit credit (l # ls) =
     (case le_price l of
        None \<Rightarrow> None
      | Some p \<Rightarrow> if \<not> 0 < p then None else exit_credit (credit + (- debitSign (le_side l)) * p) ls)"

definition exitNetCreditPerUnit :: "BoxLegEvaluation list \<Rightarrow> rat option" where
  "exitNetCreditPerUnit legs = exit_credit 0 legs"

definition exitLiquidityOk :: "BoxLegEvaluation list \<Rightarrow> bool" where
  "exitLiquidityOk legs = (length legs = 4 \<and> list_all (\<lambda>l. le_fresh l \<and> le_executable l) legs)"

datatype BoxExitReason = EDGE_CONVERGED | PROFIT_CAPTURE | MANUAL | EXPIRY_SAFETY

datatype BoxExitBlockedReason = insufficient_exit_liquidity | net_below_floor | unpriced_charges
  | exit_market_closed | exit_feed_unhealthy

record exit_args =
  xa_direction :: BoxDirection
  xa_boxWidth :: rat
  xa_lotSize :: int
  xa_entryNetDebitPerUnit :: rat
  xa_entryEdge :: rat
  xa_entryNetEdge :: rat
  xa_entryChargesTotal :: "rat option"
  xa_currentExitChargesTotal :: "rat option"
  xa_legs :: "BoxLegEvaluation list"
  xa_expirySafety :: bool
  xa_executionAllowance :: "rat option"
  xa_useRealisableForFloor :: bool

record BoxExitDecision =
  xd_should_exit :: bool
  xd_reason :: "BoxExitReason option"
  xd_rule_reason :: "BoxExitReason option"
  xd_remaining_edge :: "rat option"
  xd_captured_edge :: "rat option"
  xd_captured_pct :: "rat option"
  xd_gross_pnl :: "rat option"
  xd_net_pnl :: "rat option"
  xd_executable :: bool
  xd_blocked_reason :: "BoxExitBlockedReason option"

definition round_trip_charges :: "exit_args \<Rightarrow> rat option" where
  "round_trip_charges a =
     (case (xa_entryChargesTotal a, xa_currentExitChargesTotal a) of
        (Some e, Some x) \<Rightarrow> Some (round2 (e + x)) | _ \<Rightarrow> None)"

definition exit_gross :: "exit_args \<Rightarrow> rat option" where
  "exit_gross a = map_option (\<lambda>c. round2 ((c - xa_entryNetDebitPerUnit a) * of_int (xa_lotSize a)))
                    (exitNetCreditPerUnit (xa_legs a))"

definition exit_net :: "exit_args \<Rightarrow> rat option" where
  "exit_net a = (case (exit_gross a, round_trip_charges a) of (Some g, Some t) \<Rightarrow> Some (round2 (g - t)) | _ \<Rightarrow> None)"

definition exit_floor_net :: "exit_args \<Rightarrow> rat option" where
  "exit_floor_net a =
     (let allowance = (if xa_useRealisableForFloor a then round2 (or_zero (xa_executionAllowance a)) else 0)
      in map_option (\<lambda>n. round2 (n - allowance)) (exit_net a))"

definition exit_remaining :: "exit_args \<Rightarrow> rat option" where
  "exit_remaining a =
     map_option (\<lambda>c. round2 ((directionSign (xa_direction a) * xa_boxWidth a - c) * of_int (xa_lotSize a)))
       (exitNetCreditPerUnit (xa_legs a))"

definition exit_captured :: "exit_args \<Rightarrow> rat option" where
  "exit_captured a = map_option (\<lambda>r. round2 (xa_entryEdge a - r)) (exit_remaining a)"

definition exit_captured_pct :: "exit_args \<Rightarrow> rat option" where
  "exit_captured_pct a =
     (case exit_captured a of
        None \<Rightarrow> None
      | Some c \<Rightarrow> if \<not> 0 < \<bar>xa_entryEdge a\<bar> then None else Some (round2 (c / \<bar>xa_entryEdge a\<bar>)))"

text \<open>The rule the arithmetic satisfies, and what blocks it, before asking whether the books can fill it.\<close>

definition exit_rule :: "math_config \<Rightarrow> exit_args \<Rightarrow> BoxExitReason option \<times> BoxExitBlockedReason option" where
  "exit_rule cfg a =
     (let threshold = convergenceThreshold cfg (xa_entryNetEdge a);
          captureTarget = round2 (mc_profitCapturePct cfg * xa_entryNetEdge a)
      in case (exit_net a, exit_floor_net a) of
           (Some net, Some floorNet) \<Rightarrow>
             (case exit_remaining a of
                None \<Rightarrow> (None, None)
              | Some remaining \<Rightarrow>
                  let converged = remaining \<le> threshold in
                  if 0 < net then
                    let clearsFloor = mc_minExitNetPnl cfg \<le> floorNet;
                        capturedEnough = captureTarget \<le> floorNet
                          \<or> (case exit_captured_pct a of None \<Rightarrow> False | Some p \<Rightarrow> mc_minCapturedPct cfg \<le> p)
                    in if converged \<and> clearsFloor then (Some EDGE_CONVERGED, None)
                       else if clearsFloor \<and> capturedEnough then (Some PROFIT_CAPTURE, None)
                       else if converged \<or> capturedEnough then (None, Some net_below_floor)
                       else (None, None)
                  else if converged then (None, Some net_below_floor) else (None, None))
         | _ \<Rightarrow> (None, Some unpriced_charges))"

definition evaluateExitDecision :: "math_config \<Rightarrow> exit_args \<Rightarrow> BoxExitDecision" where
  "evaluateExitDecision cfg a =
     (let (ruleReason, blocked) = exit_rule cfg a;
          fillable = exitLiquidityOk (xa_legs a);
          reason = (if fillable
                    then (case ruleReason of Some r \<Rightarrow> Some r
                          | None \<Rightarrow> if xa_expirySafety a then Some EXPIRY_SAFETY else None)
                    else None)
      in \<lparr>xd_should_exit = (reason \<noteq> None \<and> fillable),
          xd_reason = (if reason \<noteq> None \<and> fillable then reason else None), xd_rule_reason = ruleReason,
          xd_remaining_edge = exit_remaining a, xd_captured_edge = exit_captured a,
          xd_captured_pct = exit_captured_pct a, xd_gross_pnl = exit_gross a, xd_net_pnl = exit_net a,
          xd_executable = fillable,
          xd_blocked_reason = (if (ruleReason \<noteq> None \<or> xa_expirySafety a) \<and> \<not> fillable
                               then Some insufficient_exit_liquidity else blocked)\<rparr>)"

record exit_metrics_args =
  ma_exit :: exit_args
  ma_entryEdge :: "rat option"
  ma_now :: int
  ma_openedAt :: "int option"

text \<open>The arguments of the decision; the entry edge is derived when it is not given.\<close>

definition metrics_exit_args :: "exit_metrics_args \<Rightarrow> exit_args" where
  "metrics_exit_args m =
     (let x = ma_exit m
      in x\<lparr>xa_entryEdge := (case ma_entryEdge m of
                              Some e \<Rightarrow> e
                            | None \<Rightarrow> round2 ((directionSign (xa_direction x) * xa_boxWidth x - xa_entryNetDebitPerUnit x)
                                              * of_int (xa_lotSize x))),
           xa_executionAllowance := Some (round2 (or_zero (xa_executionAllowance x)))\<rparr>)"

record BoxExitMetrics =
  xm_exit_net_credit_per_unit :: "rat option"
  xm_exit_box_value :: "rat option"
  xm_total_round_trip_charges :: "rat option"
  xm_estimated_execution_cost :: rat
  xm_realisable_net_pnl :: "rat option"
  xm_entry_edge :: rat
  xm_convergence_threshold :: rat
  xm_profit_capture_target :: rat
  xm_time_in_trade_ms :: "int option"
  xm_worst_age_ms :: "int option"
  xm_exit_eligible :: bool
  xm_exit_reason :: "BoxExitReason option"
  xm_decision :: BoxExitDecision

definition computeExitMetrics :: "math_config \<Rightarrow> exit_metrics_args \<Rightarrow> BoxExitMetrics" where
  "computeExitMetrics cfg m =
     (let a = metrics_exit_args m;
          cost = or_zero (xa_executionAllowance a);
          decision = evaluateExitDecision cfg a;
          credit = (if xd_gross_pnl decision = None then None else exitNetCreditPerUnit (xa_legs a));
          agesSeen = length (filter (\<lambda>l. le_age_ms l \<noteq> None) (xa_legs a));
          eligible = (xd_rule_reason decision \<noteq> None \<and> xd_executable decision)
      in \<lparr>xm_exit_net_credit_per_unit = credit,
          xm_exit_box_value = map_option (\<lambda>c. round2 (c * of_int (xa_lotSize a))) credit,
          xm_total_round_trip_charges = round_trip_charges a, xm_estimated_execution_cost = cost,
          xm_realisable_net_pnl = map_option (\<lambda>n. round2 (n - cost)) (xd_net_pnl decision),
          xm_entry_edge = xa_entryEdge a, xm_convergence_threshold = convergenceThreshold cfg (xa_entryNetEdge a),
          xm_profit_capture_target = round2 (mc_profitCapturePct cfg * xa_entryNetEdge a),
          xm_time_in_trade_ms = map_option (\<lambda>t. max 0 (ma_now m - t)) (ma_openedAt m),
          xm_worst_age_ms = (if agesSeen = length (xa_legs a) \<and> 0 < agesSeen
                             then latest (map le_age_ms (xa_legs a)) else None),
          xm_exit_eligible = eligible, xm_exit_reason = (if eligible then xd_rule_reason decision else None),
          xm_decision = decision\<rparr>)"

section \<open>Rounding\<close>

lemma round2_mono: "a \<le> b \<Longrightarrow> round2 a \<le> round2 b"
  unfolding round2_def by (simp add: divide_right_mono floor_mono)

lemma round2_paise: "v * 100 \<in> \<int> \<Longrightarrow> round2 v = v"
proof -
  assume "v * 100 \<in> \<int>"
  then obtain n where n: "v * 100 = of_int n" by (auto elim: Ints_cases)
  have "\<lfloor>of_int n + 1/2 :: rat\<rfloor> = n" by (simp add: floor_unique)
  then show ?thesis using n by (simp add: round2_def field_simps)
qed

lemma round2_in_paise [simp]: "round2 v * 100 \<in> \<int>"
  by (simp add: round2_def)

lemma round2_idem [simp]: "round2 (round2 v) = round2 v"
  by (rule round2_paise) simp

lemma round2_opposite: "0 \<le> a + b \<Longrightarrow> 0 \<le> round2 a + round2 b"
proof -
  assume "0 \<le> a + b"
  then have "round2 (- b) \<le> round2 a" by (intro round2_mono) simp
  moreover have "- round2 b \<le> round2 (- b)"
  proof -
    have "- \<lfloor>b * 100 + 1/2\<rfloor> \<le> \<lfloor>- b * 100 + 1/2\<rfloor>"
      by (simp add: le_floor_iff) linarith
    then have "of_int (- \<lfloor>b * 100 + 1/2\<rfloor>) / 100 \<le> (of_int \<lfloor>- b * 100 + 1/2\<rfloor> / 100 :: rat)"
      by (simp only: divide_right_mono of_int_le_iff zero_le_numeral)
    then show ?thesis by (simp add: round2_def)
  qed
  ultimately show ?thesis by linarith
qed

lemma paise_diff: "a * 100 \<in> \<int> \<Longrightarrow> b * 100 \<in> \<int> \<Longrightarrow> (a - b) * 100 \<in> (\<int> :: rat set)"
  by (simp add: left_diff_distrib Ints_diff)

lemma paise_times: "a * 100 \<in> \<int> \<Longrightarrow> (a * of_int n) * 100 \<in> (\<int> :: rat set)"
proof -
  assume "a * 100 \<in> \<int>"
  then have "(a * 100) * of_int n \<in> \<int>" by (rule Ints_mult) simp
  then show ?thesis by (simp add: ac_simps)
qed

lemma paise_sign: "a * 100 \<in> \<int> \<Longrightarrow> (directionSign d * a) * 100 \<in> (\<int> :: rat set)"
  by (simp add: directionSign_def)

section \<open>The touch\<close>

lemma bestPrice_fold:
  "foldl (\<lambda>best lv. if \<not> 0 < dl_price lv then best
            else case best of None \<Rightarrow> Some (dl_price lv) | Some b \<Rightarrow> Some (better side b (dl_price lv))) (Some b) levels
   = Some (fold (\<lambda>p m. better side m p) (filter (\<lambda>p. 0 < p) (map dl_price levels)) b)"
  by (induction levels arbitrary: b) auto

text \<open>The touch is the best positive price, in whatever order the levels come.\<close>

lemma bestPrice_best:
  "bestPrice levels side =
     (let ps = filter (\<lambda>p. 0 < p) (map dl_price levels)
      in if ps = [] then None else Some (case side of bid_side \<Rightarrow> Max (set ps) | ask_side \<Rightarrow> Min (set ps)))"
proof (induction levels)
  case Nil
  then show ?case by (simp add: bestPrice_def)
next
  case (Cons lv levels)
  show ?case
  proof (cases "0 < dl_price lv")
    case False
    then show ?thesis using Cons by (simp add: bestPrice_def)
  next
    case True
    let ?ps = "filter (\<lambda>p. 0 < p) (map dl_price levels)"
    have mx: "fold max xs b = Max (insert b (set xs))" for xs and b :: rat
      by (metis Max.set_eq_fold list.simps(15))
    have mn: "fold min xs b = Min (insert b (set xs))" for xs and b :: rat
      by (metis Min.set_eq_fold list.simps(15))
    have "fold (\<lambda>p m. better bid_side m p) xs b = fold max xs b" for xs b
      by (induction xs arbitrary: b) (simp_all add: better_def max.commute)
    moreover have "fold (\<lambda>p m. better ask_side m p) xs b = fold min xs b" for xs b
      by (induction xs arbitrary: b) (simp_all add: better_def min.commute)
    ultimately show ?thesis using True
      by (cases side) (simp_all add: bestPrice_def bestPrice_fold mx mn)
  qed
qed

section \<open>When a box is tradable\<close>

text \<open>A whole lot rests at the touch of a fresh book.\<close>

definition lot_at_touch :: "BoxQuote option \<Rightarrow> OrderSide \<Rightarrow> int \<Rightarrow> int \<Rightarrow> int \<Rightarrow> bool" where
  "lot_at_touch quote side lotSize now maxAgeMs =
     (case quote of
        None \<Rightarrow> False
      | Some q \<Rightarrow> 0 \<le> now - bq_at q \<and> now - bq_at q \<le> maxAgeMs
          \<and> (case touchFor q side of (None, n) \<Rightarrow> False | (Some p, n) \<Rightarrow> 0 < p \<and> lotSize \<le> n))"

definition touch_price :: "BoxQuote option \<Rightarrow> OrderSide \<Rightarrow> rat" where
  "touch_price quote side = (case quote of None \<Rightarrow> 0 | Some q \<Rightarrow> or_zero (fst (touchFor q side)))"

lemma find_None_list: "find P xs = None \<longleftrightarrow> list_all (\<lambda>x. \<not> P x) xs"
  by (induction xs) auto

lemma evaluateLeg_good:
  "le_quote_at (evaluateLeg r s i q lot now age d) \<noteq> None \<and> le_fresh (evaluateLeg r s i q lot now age d)
     \<and> \<not> lacks_price (evaluateLeg r s i q lot now age d) \<and> lot \<le> le_qty_at_touch (evaluateLeg r s i q lot now age d)
   \<longleftrightarrow> lot_at_touch q s lot now age"
  by (auto simp: evaluateLeg_def no_quote_leg_def lot_at_touch_def lacks_price_def Let_def split: option.splits prod.splits)

lemma reject_None:
  "firstRejectReason legs lot = None \<longleftrightarrow>
     list_all (\<lambda>l. le_quote_at l \<noteq> None \<and> le_fresh l \<and> \<not> lacks_price l \<and> lot \<le> le_qty_at_touch l) legs"
  using find_None_list [of lacks_price legs]
  by (cases "find lacks_price legs") (auto simp: firstRejectReason_def list_all_iff list_ex_iff not_le)

lemma signed_touch: "signed_price (evaluateLeg r s i q lot now age d) = debitSign s * touch_price q s"
  by (auto simp: evaluateLeg_def no_quote_leg_def signed_price_def touch_price_def or_zero_def Let_def split: option.split)

lemma leg_price_None: "le_price (evaluateLeg r s i q lot now age d) = (case q of None \<Rightarrow> None | Some x \<Rightarrow> fst (touchFor x s))"
  by (simp add: evaluateLeg_def no_quote_leg_def Let_def split: option.split)

definition net_debit :: "BoxCandidate \<Rightarrow> (nat \<rightharpoonup> BoxQuote) \<Rightarrow> rat" where
  "net_debit c quotes =
     (\<Sum>r\<leftarrow>BOX_LEG_ROLES. debitSign (BOX_ENTRY_SIDES_BY_DIRECTION (bc_direction c) r)
        * touch_price (quotes (oi_token (bc_legs c r))) (BOX_ENTRY_SIDES_BY_DIRECTION (bc_direction c) r))"

lemma candidate_debit: "sum_list (map signed_price (candidate_legs c quotes now age d)) = net_debit c quotes"
  by (simp add: candidate_legs_def net_debit_def signed_touch comp_def)

lemma published_edge:
  "case ev_gross_edge_per_unit (evaluateCandidate c quotes now age d) of
     None \<Rightarrow> \<not> ev_tradable (evaluateCandidate c quotes now age d)
   | Some e \<Rightarrow> e = round2 (directionSign (bc_direction c) * bc_box_width c - round2 (net_debit c quotes))"
  unfolding evaluateCandidate_def Let_def candidate_debit by (auto simp: edge_of_lot_def edge_per_unit_def)


section \<open>The two directions\<close>

definition uncrossed :: "BoxQuote option \<Rightarrow> bool" where
  "uncrossed quote =
     (case quote of None \<Rightarrow> True
      | Some q \<Rightarrow> (case (fst (touchFor q BUY), fst (touchFor q SELL)) of (Some a, Some b) \<Rightarrow> b \<le> a | _ \<Rightarrow> True))"

definition demo_leg_quote :: "rat \<Rightarrow> rat \<Rightarrow> BoxQuote" where
  "demo_leg_quote b a =
     \<lparr>bq_token = 0, bq_bid = b, bq_bid_qty = 75, bq_ask = a, bq_ask_qty = 75, bq_last = a,
      bq_bids = [\<lparr>dl_price = b, dl_qty = 75, dl_orders = 1\<rparr>], bq_asks = [\<lparr>dl_price = a, dl_qty = 75, dl_orders = 1\<rparr>],
      bq_version = 1, bq_at = 0, bq_exchange_at = None\<rparr>"

definition demo_contract :: "nat \<Rightarrow> rat \<Rightarrow> instrument_type \<Rightarrow> BoxOptionInstrument" where
  "demo_contract t k ty =
     \<lparr>oi_token = t, oi_tradingsymbol = [], oi_exchange = ''NFO'', oi_strike = k, oi_type = ty,
      oi_expiry = ''2025-01-30'', oi_lot_size = js_int 75, oi_tick_size = Some (1/20)\<rparr>"

definition demo_quotes :: "nat \<rightharpoonup> BoxQuote" where
  "demo_quotes t =
     (if t = 1 then Some (demo_leg_quote 150 151) else if t = 2 then Some (demo_leg_quote 90 91)
      else if t = 3 then Some (demo_leg_quote 120 121) else if t = 4 then Some (demo_leg_quote 85 86) else None)"

definition demo_candidate :: BoxCandidate where
  "demo_candidate =
     \<lparr>bc_underlying = ''NIFTY'', bc_name = ''NIFTY'', bc_is_index = True, bc_expiry = ''2025-01-30'',
      bc_direction = LONG_BOX, bc_lower_strike = 24000, bc_upper_strike = 24100, bc_box_width = 100, bc_lot_size = 75,
      bc_legs = leg_map (demo_contract 1 24000 CE) (demo_contract 2 24100 CE) (demo_contract 3 24100 PE) (demo_contract 4 24000 PE)\<rparr>"

text \<open>C13. The two directions are never both profitable.  On books whose touch is not crossed, and for a width in
  whole paise, the edges per unit that the evaluation publishes for the long and for the short box on the same strikes
  never sum to more than nothing, after every rounding the code applies.\<close>

theorem directions_never_both_profit:
  assumes "list_all (\<lambda>r. uncrossed (quotes (oi_token (bc_legs c r)))) BOX_LEG_ROLES"
    and "round2 (bc_box_width c) = bc_box_width c"
    and "ev_gross_edge_per_unit (evaluateCandidate (c\<lparr>bc_direction := LONG_BOX\<rparr>) quotes now age d) = Some e"
    and "ev_gross_edge_per_unit (evaluateCandidate (c\<lparr>bc_direction := SHORT_BOX\<rparr>) quotes now age d) = Some e'"
  shows "e + e' \<le> 0"
proof -
  let ?l = "c\<lparr>bc_direction := LONG_BOX\<rparr>" and ?s = "c\<lparr>bc_direction := SHORT_BOX\<rparr>"
  have prices: "\<exists>q p. quotes (oi_token (bc_legs c r)) = Some q \<and> fst (touchFor q (BOX_ENTRY_SIDES_BY_DIRECTION dir r)) = Some p"
    if "ev_gross_edge_per_unit (evaluateCandidate (c\<lparr>bc_direction := dir\<rparr>) quotes now age d) = Some x" for dir x r
  proof -
    have "list_all (\<lambda>l. le_price l \<noteq> None) (candidate_legs (c\<lparr>bc_direction := dir\<rparr>) quotes now age d)"
      using that by (auto simp: evaluateCandidate_def Let_def edge_per_unit_def split: if_splits)
    then have "le_price (evaluateLeg r (BOX_ENTRY_SIDES_BY_DIRECTION dir r) (bc_legs c r) (quotes (oi_token (bc_legs c r)))
        (bc_lot_size c) now age d) \<noteq> None"
      by (simp add: candidate_legs_def list_all_iff)
    then show ?thesis by (auto simp: leg_price_None split: option.splits)
  qed
  have spread: "0 \<le> touch_price (quotes (oi_token (bc_legs c r))) BUY - touch_price (quotes (oi_token (bc_legs c r))) SELL" for r
  proof -
    have u: "uncrossed (quotes (oi_token (bc_legs c r)))" using assms(1) by (simp add: list_all_iff)
    from prices [OF assms(3), of r] prices [OF assms(4), of r] show ?thesis using u
      by (cases r) (auto simp: uncrossed_def touch_price_def or_zero_def)
  qed
  have "net_debit ?l quotes + net_debit ?s quotes =
      (\<Sum>r\<leftarrow>BOX_LEG_ROLES. touch_price (quotes (oi_token (bc_legs c r))) BUY - touch_price (quotes (oi_token (bc_legs c r))) SELL)"
    by (simp add: net_debit_def BOX_LEG_ROLES_def debitSign_def)
  also have "0 \<le> \<dots>" using spread by (intro sum_list_nonneg) auto
  finally have "0 \<le> round2 (net_debit ?l quotes) + round2 (net_debit ?s quotes)" by (rule round2_opposite)
  moreover have "e = bc_box_width c - round2 (net_debit ?l quotes)"
    using published_edge [of ?l quotes now age d] assms(3)
      round2_paise [OF paise_diff [OF round2_in_paise round2_in_paise], of "bc_box_width c" "net_debit ?l quotes"]
    by (simp add: assms(2) directionSign_def)
  moreover have "e' = - bc_box_width c - round2 (net_debit ?s quotes)"
    using published_edge [of ?s quotes now age d] assms(3,4)
      round2_paise [OF paise_diff [OF paise_sign [OF round2_in_paise] round2_in_paise], of SHORT_BOX "bc_box_width c" "net_debit ?s quotes"]
    by (simp add: assms(2) directionSign_def)
  ultimately show ?thesis by simp
qed

theorem directions_never_both_profit_witness:
  "case (ev_gross_edge_per_unit (evaluateCandidate (demo_candidate\<lparr>bc_direction := LONG_BOX\<rparr>) demo_quotes 0 1000 False),
         ev_gross_edge_per_unit (evaluateCandidate (demo_candidate\<lparr>bc_direction := SHORT_BOX\<rparr>) demo_quotes 0 1000 False)) of
     (Some e, Some e') \<Rightarrow> 0 < e \<and> e + e' \<le> 0
   | _ \<Rightarrow> False"
proof -
  have l: "ev_gross_edge_per_unit (evaluateCandidate (demo_candidate\<lparr>bc_direction := LONG_BOX\<rparr>) demo_quotes 0 1000 False) = Some 3"
    by code_simp
  have s: "ev_gross_edge_per_unit (evaluateCandidate (demo_candidate\<lparr>bc_direction := SHORT_BOX\<rparr>) demo_quotes 0 1000 False) = Some (- 7)"
    by code_simp
  have "(3::rat) + (- 7) \<le> 0"
    by (rule directions_never_both_profit [OF _ _ l s]) code_simp+
  then show ?thesis by (simp add: l s)
qed

section \<open>The strike window\<close>

lemma atm_fold:
  fixes b spot gap :: rat
  assumes "\<bar>b - spot\<bar> = gap"
  shows "\<exists>m. foldl (\<lambda>(best, gap) s. let d = \<bar>s - spot\<bar> in if d < gap then (s, d) else (best, gap)) (b, gap) xs
           = (m, \<bar>m - spot\<bar>) \<and> m \<in> insert b (set xs) \<and> (\<forall>s \<in> insert b (set xs). \<bar>m - spot\<bar> \<le> \<bar>s - spot\<bar>)"
  using assms
proof (induction xs arbitrary: b gap)
  case Nil
  then show ?case by auto
next
  case (Cons x xs)
  show ?case
  proof (cases "\<bar>x - spot\<bar> < gap")
    case True
    then show ?thesis using Cons.IH [of x "\<bar>x - spot\<bar>"] Cons.prems by (fastforce simp: Let_def)
  next
    case False
    then show ?thesis using Cons.IH [OF Cons.prems] Cons.prems by (fastforce simp: Let_def)
  qed
qed

lemma atm_closest:
  assumes "atmStrikeFor strikes spot = Some m"
  shows "m \<in> set strikes" "s \<in> set strikes \<Longrightarrow> \<bar>m - spot\<bar> \<le> \<bar>s - spot\<bar>"
proof -
  obtain s0 ss where s: "sort strikes = s0 # ss"
    using assms by (cases "sort strikes") (simp_all add: atmStrikeFor_def)
  obtain m' where m': "foldl (\<lambda>(best, gap) s. let d = \<bar>s - spot\<bar> in if d < gap then (s, d) else (best, gap))
      (s0, \<bar>s0 - spot\<bar>) (s0 # ss) = (m', \<bar>m' - spot\<bar>)" "m' \<in> set (s0 # ss)"
      "\<forall>s \<in> set (s0 # ss). \<bar>m' - spot\<bar> \<le> \<bar>s - spot\<bar>"
    using atm_fold [of s0 spot "\<bar>s0 - spot\<bar>" "s0 # ss"] by auto
  have "m = m'" using assms m'(1) by (simp add: atmStrikeFor_def s)
  moreover have "set (s0 # ss) = set strikes" using s by (metis set_sort)
  ultimately show "m \<in> set strikes" "s \<in> set strikes \<Longrightarrow> \<bar>m - spot\<bar> \<le> \<bar>s - spot\<bar>" using m'(2,3) by auto
qed

lemma slice_around:
  assumes "i < length xs"
  shows "xs ! i \<in> set (take (min (length xs - 1) (i + n) + 1 - (i - n)) (drop (i - n) xs))"
    "length (take (min (length xs - 1) (i + n) + 1 - (i - n)) (drop (i - n) xs)) \<le> 2 * n + 1"
proof -
  let ?k = "min (length xs - 1) (i + n) + 1 - (i - n)"
  have k: "i - (i - n) < ?k" using assms by (simp add: min_def) arith
  have "take ?k (drop (i - n) xs) ! (i - (i - n)) = xs ! i" using assms k by (subst nth_take) auto
  moreover have "i - (i - n) < length (take ?k (drop (i - n) xs))"
    using k assms by (simp add: diff_less_mono)
  ultimately show "xs ! i \<in> set (take ?k (drop (i - n) xs))" by (metis nth_mem)
  show "length (take ?k (drop (i - n) xs)) \<le> 2 * n + 1"
  proof (rule order_trans)
    have "?k \<le> i + n + 1 - (i - n)" by (intro diff_le_mono) simp
    then show "length (take ?k (drop (i - n) xs)) \<le> i + n + 1 - (i - n)"
      unfolding length_take by (rule min.coboundedI2)
    show "i + n + 1 - (i - n) \<le> 2 * n + 1" by arith
  qed
qed

text \<open>The window is a run of at most \<open>2n + 1\<close> neighbouring strikes of the chain around the closest one.\<close>

lemma strike_window:
  assumes "selectStrikeWindow strikes spot n = Some (atm, w)"
  shows "atm \<in> set w" "set w \<subseteq> set strikes" "sorted w" "distinct w" "length w \<le> 2 * n + 1"
    "s \<in> set strikes \<Longrightarrow> \<bar>atm - spot\<bar> \<le> \<bar>s - spot\<bar>"
proof -
  let ?xs = "sort (remdups strikes)"
  let ?i = "length (takeWhile (\<lambda>s. s \<noteq> atm) ?xs)"
  let ?lo = "?i - n" and ?hi = "min (length ?xs - 1) (?i + n)"
  have a: "atmStrikeFor ?xs spot = Some atm" and w: "w = take (?hi + 1 - ?lo) (drop ?lo ?xs)"
    using assms by (auto simp: selectStrikeWindow_def Let_def split: option.splits)
  have m: "atm \<in> set ?xs" by (rule atm_closest(1) [OF a])
  then have "takeWhile (\<lambda>s. s \<noteq> atm) ?xs \<noteq> ?xs" by (auto simp: takeWhile_eq_all_conv)
  then have l: "?i < length ?xs"
    by (metis length_takeWhile_le le_neq_implies_less takeWhile_eq_take take_all order_refl)
  have at: "?xs ! ?i = atm" using nth_length_takeWhile [OF l] by simp
  show "atm \<in> set w" using slice_around(1) [OF l, of n] unfolding w at .
  show "length w \<le> 2 * n + 1" using slice_around(2) [OF l, of n] unfolding w .
  have "set w \<subseteq> set ?xs" unfolding w by (rule order_trans [OF set_take_subset set_drop_subset])
  then show "set w \<subseteq> set strikes" by simp
  show "sorted w" unfolding w by (simp add: sorted_wrt_take sorted_wrt_drop)
  show "distinct w" unfolding w by simp
  show "s \<in> set strikes \<Longrightarrow> \<bar>atm - spot\<bar> \<le> \<bar>s - spot\<bar>" using atm_closest(2) [OF a, of s] by simp
qed

section \<open>Leaving\<close>

lemma exit_credit_paise: "exit_credit x ls = Some c \<Longrightarrow> c * 100 \<in> \<int>"
  by (induction x ls rule: exit_credit.induct) (auto split: option.splits if_splits)

text \<open>C14. The edge captured at an exit is the gross profit: if width and entry debit are whole paise and the
  entry edge is the one the code derives from them, the figure the convergence rules measure equals the profit the ledger
  books, whatever the books of the legs say.\<close>

theorem captured_edge_is_gross_pnl:
  assumes "round2 (xa_boxWidth a) = xa_boxWidth a"
    and "round2 (xa_entryNetDebitPerUnit a) = xa_entryNetDebitPerUnit a"
    and "xa_entryEdge a = round2 ((directionSign (xa_direction a) * xa_boxWidth a - xa_entryNetDebitPerUnit a) * of_int (xa_lotSize a))"
  shows "xd_captured_edge (evaluateExitDecision cfg a) = xd_gross_pnl (evaluateExitDecision cfg a)"
proof (cases "exitNetCreditPerUnit (xa_legs a)")
  case None
  then show ?thesis
    by (simp add: evaluateExitDecision_def case_prod_beta Let_def exit_captured_def exit_remaining_def exit_gross_def)
next
  case (Some c)
  let ?w = "directionSign (xa_direction a) * xa_boxWidth a" and ?d = "xa_entryNetDebitPerUnit a" and ?n = "xa_lotSize a"
  have c: "c * 100 \<in> \<int>" using exit_credit_paise Some by (simp add: exitNetCreditPerUnit_def)
  have d: "?d * 100 \<in> \<int>" using round2_in_paise [of ?d] assms(2) by simp
  have w: "?w * 100 \<in> \<int>" using paise_sign [OF round2_in_paise, of "xa_direction a" "xa_boxWidth a"] assms(1) by simp
  have g: "round2 ((c - ?d) * of_int ?n) = (c - ?d) * of_int ?n" by (intro round2_paise paise_times paise_diff c d)
  have r: "round2 ((?w - c) * of_int ?n) = (?w - c) * of_int ?n" by (intro round2_paise paise_times paise_diff c w)
  have e: "xa_entryEdge a = (?w - ?d) * of_int ?n"
    unfolding assms(3) by (intro round2_paise paise_times paise_diff d w)
  have "xa_entryEdge a - (?w - c) * of_int ?n = (c - ?d) * of_int ?n" unfolding e by (simp add: algebra_simps)
  then show ?thesis using g
    by (simp add: evaluateExitDecision_def case_prod_beta Let_def exit_captured_def exit_remaining_def exit_gross_def Some r)
qed

definition demo_exit :: exit_args where
  "demo_exit =
     \<lparr>xa_direction = LONG_BOX, xa_boxWidth = 100, xa_lotSize = 75, xa_entryNetDebitPerUnit = 90, xa_entryEdge = 750,
      xa_entryNetEdge = 400, xa_entryChargesTotal = Some 100, xa_currentExitChargesTotal = Some 100,
      xa_legs = evaluateExitLegs (map (\<lambda>r. (r, bc_legs demo_candidate r)) BOX_LEG_ROLES) demo_quotes 75 0 1000 None False,
      xa_expirySafety = False, xa_executionAllowance = None, xa_useRealisableForFloor = False\<rparr>"

definition demo_config :: math_config where
  "demo_config =
     \<lparr>mc_minGrossEdge = 1200, mc_minNetEdge = 0, mc_minExpectedNetProfit = 1200, mc_safetyBuffer = 100,
      mc_convergenceFloor = 150, mc_convergencePct = 1/5, mc_minExitNetPnl = 600, mc_profitCapturePct = 7/10,
      mc_minCapturedPct = 7/10\<rparr>"

theorem captured_edge_is_gross_pnl_witness:
  "xd_captured_edge (evaluateExitDecision demo_config demo_exit) = xd_gross_pnl (evaluateExitDecision demo_config demo_exit)
   \<and> xd_gross_pnl (evaluateExitDecision demo_config demo_exit) \<noteq> None"
proof
  show "xd_captured_edge (evaluateExitDecision demo_config demo_exit) = xd_gross_pnl (evaluateExitDecision demo_config demo_exit)"
    by (rule captured_edge_is_gross_pnl) code_simp+
  show "xd_gross_pnl (evaluateExitDecision demo_config demo_exit) \<noteq> None" by code_simp
qed

lemma exit_rule_pays:
  assumes "fst (exit_rule cfg a) = Some why"
  shows "why \<noteq> EXPIRY_SAFETY
   \<and> (case (exit_net a, exit_floor_net a) of (Some net, Some floorNet) \<Rightarrow> 0 < net \<and> mc_minExitNetPnl cfg \<le> floorNet | _ \<Rightarrow> False)"
  using assms by (auto simp: exit_rule_def Let_def split: option.splits if_splits)

end
