(* ===== verification/Box_Costs.thy ===== *)
theory Box_Costs
  imports Box_Math
begin

text \<open>
  What a box costs: the local charge calculator, \<^verbatim>\<open>src/box/localCharges.ts\<close>, and the meaning of a
  broker's available funds, \<^verbatim>\<open>src/box/fundsSemantics.ts\<close>.  Amounts are exact rationals; the rate card is a
  parameter, its loading from the environment is left out, and so are the texts that explain a figure.

  The lemmas show that heads, leg totals and group totals add up without a rounding difference, and that the funds
  a broker reports are only ever read downwards while their meaning is not established.
\<close>

section \<open>Charges\<close>

record BoxChargeRates =
  brokeragePerOrder :: rat
  brokerageMaxPct :: rat
  sttSellPct :: rat
  sttRoundNearestRupee :: bool
  exchangeTxnPct :: rat
  ipftPerCrore :: rat
  ipftPct :: rat
  sebiPct :: rat
  stampDutyBuyPct :: rat
  gstPct :: rat
  sttType :: string
  rateVersion :: string

record BoxChargeOrder =
  co_side :: OrderSide
  co_tradingsymbol :: string
  co_quantity :: int
  co_price :: rat

record BoxLegCharges =
  lc_side :: OrderSide
  lc_tradingsymbol :: string
  lc_quantity :: int
  lc_price :: rat
  lc_value :: rat
  lc_brokerage :: rat
  lc_stt :: rat
  lc_stt_type :: string
  lc_exchange_txn :: rat
  lc_sebi :: rat
  lc_stamp_duty :: rat
  lc_gst :: rat
  lc_total :: rat

datatype charge_source = kite | kite_estimate

record BoxCharges =
  ch_legs :: "BoxLegCharges list"
  ch_value :: rat
  ch_brokerage :: rat
  ch_stt :: rat
  ch_exchange_txn :: rat
  ch_sebi :: rat
  ch_stamp_duty :: rat
  ch_gst :: rat
  ch_total :: rat
  ch_source :: charge_source

definition pct :: "rat \<Rightarrow> rat \<Rightarrow> rat" where
  "pct amount percent = (amount * percent) / 100"

definition roundStt :: "BoxChargeRates \<Rightarrow> rat \<Rightarrow> rat" where
  "roundStt rates amount = (if sttRoundNearestRupee rates then of_int \<lfloor>amount + 1/2\<rfloor> else round2 amount)"

definition ipftFor :: "BoxChargeRates \<Rightarrow> rat \<Rightarrow> rat" where
  "ipftFor rates amount = round2 ((amount * ipftPerCrore rates) / 10000000 + pct amount (ipftPct rates))"

definition calculateLegCharges :: "BoxChargeRates \<Rightarrow> BoxChargeOrder \<Rightarrow> BoxLegCharges" where
  "calculateLegCharges rates order =
     (let amount = round2 (of_int (co_quantity order) * co_price order);
          brokerage = round2 (if 0 < brokerageMaxPct rates
                              then min (brokeragePerOrder rates) (pct amount (brokerageMaxPct rates))
                              else brokeragePerOrder rates);
          stt = (if co_side order = SELL then roundStt rates (pct amount (sttSellPct rates)) else 0);
          exchange_txn = round2 (pct amount (exchangeTxnPct rates) + ipftFor rates amount);
          sebi = round2 (pct amount (sebiPct rates));
          stamp_duty = (if co_side order = BUY then round2 (pct amount (stampDutyBuyPct rates)) else 0);
          gst = round2 (pct (brokerage + exchange_txn + sebi) (gstPct rates))
      in \<lparr>lc_side = co_side order, lc_tradingsymbol = co_tradingsymbol order, lc_quantity = co_quantity order,
          lc_price = round2 (co_price order), lc_value = amount, lc_brokerage = brokerage, lc_stt = stt,
          lc_stt_type = (if co_side order = SELL then sttType rates else []), lc_exchange_txn = exchange_txn,
          lc_sebi = sebi, lc_stamp_duty = stamp_duty, lc_gst = gst,
          lc_total = round2 (brokerage + stt + exchange_txn + sebi + stamp_duty + gst)\<rparr>)"

definition sum_head :: "(BoxLegCharges \<Rightarrow> rat) \<Rightarrow> BoxLegCharges list \<Rightarrow> rat" where
  "sum_head pick legs = round2 (foldl (\<lambda>acc l. acc + pick l) 0 legs)"

definition calculateBoxCharges :: "BoxChargeRates \<Rightarrow> charge_source \<Rightarrow> BoxChargeOrder list \<Rightarrow> BoxCharges" where
  "calculateBoxCharges rates source orders =
     (let legs = map (calculateLegCharges rates) orders
      in \<lparr>ch_legs = legs, ch_value = sum_head lc_value legs, ch_brokerage = sum_head lc_brokerage legs,
          ch_stt = sum_head lc_stt legs, ch_exchange_txn = sum_head lc_exchange_txn legs,
          ch_sebi = sum_head lc_sebi legs, ch_stamp_duty = sum_head lc_stamp_duty legs,
          ch_gst = sum_head lc_gst legs, ch_total = sum_head lc_total legs, ch_source = source\<rparr>)"

fun ordersFromLegs :: "BoxLegEvaluation list \<Rightarrow> int \<Rightarrow> BoxChargeOrder list option" where
  "ordersFromLegs [] quantity = Some []"
| "ordersFromLegs (leg # legs) quantity =
     (case le_price leg of
        None \<Rightarrow> None
      | Some p \<Rightarrow>
          if \<not> 0 < p then None
          else map_option (Cons \<lparr>co_side = le_side leg, co_tradingsymbol = oi_tradingsymbol (le_inst leg),
                                 co_quantity = quantity, co_price = round2 p\<rparr>) (ordersFromLegs legs quantity))"

definition reverseOrders :: "BoxChargeOrder list \<Rightarrow> BoxChargeOrder list" where
  "reverseOrders orders = map (\<lambda>o'. o'\<lparr>co_side := if co_side o' = BUY then SELL else BUY\<rparr>) orders"

definition calculateRoundTrip :: "BoxChargeRates \<Rightarrow> BoxChargeOrder list \<Rightarrow> BoxCharges \<times> BoxCharges" where
  "calculateRoundTrip rates entryOrders =
     (calculateBoxCharges rates kite entryOrders, calculateBoxCharges rates kite_estimate (reverseOrders entryOrders))"

definition charge_totals :: "BoxChargeRates \<Rightarrow> BoxChargeOrder list \<Rightarrow> rat \<times> rat" where
  "charge_totals rates entryOrders =
     (let (entry, exit') = calculateRoundTrip rates entryOrders in (ch_total entry, ch_total exit'))"

section \<open>Funds\<close>

datatype AvailableFundsSemantics = net_of_encumbrance | gross_of_encumbrance | unverified

definition knownBrokerFundsSemantics :: "string option \<Rightarrow> AvailableFundsSemantics option" where
  "knownBrokerFundsSemantics broker =
     (if broker = Some ''zerodha'' then Some net_of_encumbrance
      else if broker = Some ''dhan'' then Some unverified else None)"

record UsableFundsVerdict =
  uf_value_rupees :: "rat option"
  uf_semanticsUnverified :: bool
  uf_encumbranceMissing :: bool

text \<open>A figure that is missing is \<open>None\<close>; one that is not finite counts as missing.\<close>

definition finite_figure :: "jsnum option \<Rightarrow> rat option" where
  "finite_figure x = (case x of Some (Fin q) \<Rightarrow> Some q | _ \<Rightarrow> None)"

definition funds_verdict :: "rat option \<Rightarrow> bool \<Rightarrow> bool \<Rightarrow> UsableFundsVerdict" where
  "funds_verdict v u m = \<lparr>uf_value_rupees = v, uf_semanticsUnverified = u, uf_encumbranceMissing = m\<rparr>"

definition usable_under ::
    "AvailableFundsSemantics option \<Rightarrow> jsnum option \<Rightarrow> jsnum option \<Rightarrow> UsableFundsVerdict" where
  "usable_under semantics available utilised =
     (case semantics of
        None \<Rightarrow> funds_verdict None True (utilised = None)
      | Some sem \<Rightarrow>
          (case finite_figure available of
             None \<Rightarrow> funds_verdict None (sem = unverified) (utilised = None)
           | Some a \<Rightarrow>
               if sem = net_of_encumbrance then funds_verdict (Some a) False False
               else case finite_figure utilised of
                 None \<Rightarrow> funds_verdict None (sem = unverified) True
               | Some u \<Rightarrow> funds_verdict (Some (a - u)) (sem = unverified) False))"

definition usableFundsRupees :: "string option \<Rightarrow> jsnum option \<Rightarrow> jsnum option \<Rightarrow> UsableFundsVerdict" where
  "usableFundsRupees broker available utilised = usable_under (knownBrokerFundsSemantics broker) available utilised"

section \<open>The heads add up\<close>

lemma paise_add: "a * 100 \<in> \<int> \<Longrightarrow> b * 100 \<in> \<int> \<Longrightarrow> (a + b) * 100 \<in> (\<int> :: rat set)"
  by (simp add: distrib_right)

lemma paise_int [simp]: "(of_int n :: rat) * 100 \<in> \<int>"
  by (intro Ints_mult) simp_all

lemma roundStt_paise [simp]: "roundStt rates v * 100 \<in> \<int>"
  by (simp add: roundStt_def)

lemma leg_heads_paise [simp]:
  "lc_value (calculateLegCharges rates o') * 100 \<in> \<int>" "lc_brokerage (calculateLegCharges rates o') * 100 \<in> \<int>"
  "lc_stt (calculateLegCharges rates o') * 100 \<in> \<int>" "lc_exchange_txn (calculateLegCharges rates o') * 100 \<in> \<int>"
  "lc_sebi (calculateLegCharges rates o') * 100 \<in> \<int>" "lc_stamp_duty (calculateLegCharges rates o') * 100 \<in> \<int>"
  "lc_gst (calculateLegCharges rates o') * 100 \<in> \<int>" "lc_total (calculateLegCharges rates o') * 100 \<in> \<int>"
  by (simp_all add: calculateLegCharges_def Let_def)

lemma leg_total:
  fixes l rates o'
  defines "l \<equiv> calculateLegCharges rates o'"
  shows "lc_total l = lc_brokerage l + lc_stt l + lc_exchange_txn l + lc_sebi l + lc_stamp_duty l + lc_gst l"
proof -
  have "lc_total l = round2 (lc_brokerage l + lc_stt l + lc_exchange_txn l + lc_sebi l + lc_stamp_duty l + lc_gst l)"
    by (simp add: l_def calculateLegCharges_def Let_def)
  also have "\<dots> = lc_brokerage l + lc_stt l + lc_exchange_txn l + lc_sebi l + lc_stamp_duty l + lc_gst l"
    unfolding l_def by (intro round2_paise paise_add leg_heads_paise)
  finally show ?thesis .
qed

lemma fold_sum: "foldl (\<lambda>acc l. acc + pick l) x ls = x + sum_list (map pick ls)" for x :: rat
  by (induction ls arbitrary: x) (simp_all add: add.assoc)

lemma paise_sum: "(\<And>l. l \<in> set ls \<Longrightarrow> pick l * 100 \<in> \<int>) \<Longrightarrow> sum_list (map pick ls) * 100 \<in> (\<int> :: rat set)"
  by (induction ls) (auto intro: paise_add)

lemma sum_head_exact:
  assumes "\<And>o'. pick (calculateLegCharges rates o') * 100 \<in> \<int>"
  shows "sum_head pick (map (calculateLegCharges rates) orders) = (\<Sum>o'\<leftarrow>orders. pick (calculateLegCharges rates o'))"
  unfolding sum_head_def fold_sum using assms by (auto simp: comp_def intro!: round2_paise paise_sum)

text \<open>C16. The charges of a box add up: in every group of orders and under every rate card the total is exactly the
  sum of the six heads, and each head and the total are exactly the sums over the legs, so no rounding difference can arise
  between reading the heads, the legs or the total.\<close>

theorem charge_heads_add_up:
  fixes g rates source orders
  defines "g \<equiv> calculateBoxCharges rates source orders"
  shows "ch_total g = ch_brokerage g + ch_stt g + ch_exchange_txn g + ch_sebi g + ch_stamp_duty g + ch_gst g
   \<and> ch_total g = (\<Sum>l\<leftarrow>ch_legs g. lc_total l) \<and> ch_brokerage g = (\<Sum>l\<leftarrow>ch_legs g. lc_brokerage l)
   \<and> ch_stt g = (\<Sum>l\<leftarrow>ch_legs g. lc_stt l) \<and> ch_exchange_txn g = (\<Sum>l\<leftarrow>ch_legs g. lc_exchange_txn l)
   \<and> ch_sebi g = (\<Sum>l\<leftarrow>ch_legs g. lc_sebi l) \<and> ch_stamp_duty g = (\<Sum>l\<leftarrow>ch_legs g. lc_stamp_duty l)
   \<and> ch_gst g = (\<Sum>l\<leftarrow>ch_legs g. lc_gst l) \<and> ch_value g = (\<Sum>l\<leftarrow>ch_legs g. lc_value l)"
proof -
  have heads: "ch_total g = (\<Sum>l\<leftarrow>ch_legs g. lc_total l)" "ch_brokerage g = (\<Sum>l\<leftarrow>ch_legs g. lc_brokerage l)"
    "ch_stt g = (\<Sum>l\<leftarrow>ch_legs g. lc_stt l)" "ch_exchange_txn g = (\<Sum>l\<leftarrow>ch_legs g. lc_exchange_txn l)"
    "ch_sebi g = (\<Sum>l\<leftarrow>ch_legs g. lc_sebi l)" "ch_stamp_duty g = (\<Sum>l\<leftarrow>ch_legs g. lc_stamp_duty l)"
    "ch_gst g = (\<Sum>l\<leftarrow>ch_legs g. lc_gst l)" "ch_value g = (\<Sum>l\<leftarrow>ch_legs g. lc_value l)"
    by (simp_all add: g_def calculateBoxCharges_def Let_def sum_head_exact comp_def)
  have "(\<Sum>l\<leftarrow>ch_legs g. lc_total l) = (\<Sum>l\<leftarrow>ch_legs g. lc_brokerage l) + (\<Sum>l\<leftarrow>ch_legs g. lc_stt l)
      + (\<Sum>l\<leftarrow>ch_legs g. lc_exchange_txn l) + (\<Sum>l\<leftarrow>ch_legs g. lc_sebi l) + (\<Sum>l\<leftarrow>ch_legs g. lc_stamp_duty l)
      + (\<Sum>l\<leftarrow>ch_legs g. lc_gst l)"
    unfolding g_def calculateBoxCharges_def Let_def by (induction orders) (simp_all add: leg_total)
  with heads show ?thesis by simp
qed

text \<open>Until the meaning of a broker's figure is established its reading is a lower bound of both meanings.\<close>

lemma funds_read_downwards:
  assumes "uf_value_rupees (usable_under (Some unverified) available utilised) = Some v" and "utilised = Some (Fin u)" and "0 \<le> u"
  shows "uf_value_rupees (usable_under (Some gross_of_encumbrance) available utilised) = Some v
   \<and> (\<exists>n. uf_value_rupees (usable_under (Some net_of_encumbrance) available utilised) = Some n \<and> v \<le> n)"
  using assms by (auto simp: usable_under_def finite_figure_def funds_verdict_def split: option.splits jsnum.splits)

end
