(* ===== verification/Order_Pricing.thy ===== *)
theory Order_Pricing
  imports Box_Costs
begin

text \<open>
  Executable order pricing, \<^verbatim>\<open>src/box/orderPricing.ts\<close>: the limit of a marketable order, the walk down a book
  and the classification of an order against an observed book.  The numbers the code tests for finiteness are \<open>jsnum\<close>;
  those it has accepted are exact rationals and integers, so a product of accepted numbers does not overflow.  The
  tolerance of one billionth is kept.

  The lemmas show that a walk fills exactly what is executable within the limit, never past it, and best price first.
\<close>

section \<open>Definitions\<close>

definition EPS :: rat where
  "EPS = 1 / 1000000000"

definition MAX_SAFE :: int where
  "MAX_SAFE = 9007199254740991"

definition js_round :: "rat \<Rightarrow> int" where
  "js_round x = \<lfloor>x + 1/2\<rfloor>"

definition roundToTick :: "rat \<Rightarrow> rat \<Rightarrow> rat" where
  "roundToTick price tick =
     (if \<not> 0 < tick then round2 price else round2 (of_int (js_round (price / tick)) * tick))"

definition computeLimitPrice :: "OrderSide \<Rightarrow> rat \<Rightarrow> rat \<Rightarrow> rat \<Rightarrow> rat" where
  "computeLimitPrice side referencePrice tickSize maxChaseTicks =
     (let chase = of_int (max 0 (js_round maxChaseTicks)) * (if 0 < tickSize then tickSize else 0)
      in roundToTick (if side = BUY then referencePrice + chase else referencePrice - chase) tickSize)"

datatype PaperOrderType = MARKETABLE_LIMIT | PASSIVE_LIMIT

record PaperOrderPricing =
  pp_order_type :: PaperOrderType
  pp_side :: OrderSide
  pp_quantity :: int
  pp_reference_price :: rat
  pp_tick_size :: rat
  pp_max_chase_ticks :: int
  pp_limit_price :: rat

definition tick_or_default :: "rat \<Rightarrow> rat" where
  "tick_or_default t = (if 0 < t then t else 1/20)"

definition buildOrderPricing ::
    "OrderSide \<Rightarrow> int \<Rightarrow> rat \<Rightarrow> rat \<Rightarrow> rat \<Rightarrow> PaperOrderType option \<Rightarrow> PaperOrderPricing" where
  "buildOrderPricing side quantity referencePrice tickSize maxChaseTicks orderType =
     \<lparr>pp_order_type = (case orderType of None \<Rightarrow> MARKETABLE_LIMIT | Some t \<Rightarrow> t), pp_side = side,
      pp_quantity = quantity, pp_reference_price = round2 referencePrice, pp_tick_size = tick_or_default tickSize,
      pp_max_chase_ticks = max 0 (js_round maxChaseTicks),
      pp_limit_price = computeLimitPrice side referencePrice (tick_or_default tickSize) maxChaseTicks\<rparr>"

datatype BoxQueueModel = no_queue | haircut

definition effectiveQty :: "jsnum \<Rightarrow> BoxQueueModel \<Rightarrow> jsnum \<Rightarrow> int" where
  "effectiveQty displayed model haircutPct =
     (if \<not> isPositiveSafeInteger displayed then 0
      else if model = no_queue then lot_value displayed
      else case haircutPct of
        Fin h \<Rightarrow> \<lfloor>of_int (lot_value displayed) * (1 - min 100 (max 0 h) / 100)\<rfloor>
      | _ \<Rightarrow> 0)"

definition withinLimit :: "OrderSide \<Rightarrow> rat \<Rightarrow> rat \<Rightarrow> bool" where
  "withinLimit side price limit =
     (if price \<le> 0 \<or> limit \<le> 0 then False
      else if side = BUY then price \<le> limit + EPS else limit - EPS \<le> price)"

record raw_level =
  rl_price :: jsnum
  rl_qty :: jsnum

record PaperFillSlice =
  fs_price :: rat
  fs_qty :: int
  fs_displayed_qty :: int
  fs_effective_qty :: int
  fs_at :: int
  fs_quote_version :: "int option"

record DepthWalkResult =
  dw_filled_qty :: int
  dw_average_price :: "rat option"
  dw_slices :: "PaperFillSlice list"
  dw_executable_within_limit :: int

record walk_args =
  wk_side :: OrderSide
  wk_levels :: "raw_level list"
  wk_remainingQty :: jsnum
  wk_limitPrice :: jsnum
  wk_queueModel :: BoxQueueModel
  wk_haircutPct :: jsnum
  wk_at :: int
  wk_quoteVersion :: "int option"
  wk_reserved :: "(rat \<Rightarrow> jsnum) option"

text \<open>The levels that can trade, best price first.\<close>

definition usable_level :: "raw_level \<Rightarrow> (rat \<times> int) option" where
  "usable_level l =
     (case rl_price l of
        Fin p \<Rightarrow> if 0 < p \<and> isPositiveSafeInteger (rl_qty l) then Some (p, lot_value (rl_qty l)) else None
      | _ \<Rightarrow> None)"

definition ordered_levels :: "OrderSide \<Rightarrow> raw_level list \<Rightarrow> (rat \<times> int) list" where
  "ordered_levels side levels =
     sort_key (\<lambda>(p, q). if side = BUY then p else - p) (List.map_filter usable_level levels)"

record walk_state =
  ws_remaining :: int
  ws_filled :: int
  ws_valueSum :: rat
  ws_executable :: int
  ws_slices :: "PaperFillSlice list"

definition effective_at :: "walk_args \<Rightarrow> rat \<Rightarrow> int \<Rightarrow> int" where
  "effective_at a price displayed =
     (let raw = effectiveQty (js_int displayed) (wk_queueModel a) (wk_haircutPct a);
          reservedQty = (case wk_reserved a of None \<Rightarrow> Fin 0 | Some r \<Rightarrow> r price);
          already = (if isPositiveSafeInteger reservedQty then lot_value reservedQty else 0)
      in max 0 (raw - already))"

definition take_level :: "walk_args \<Rightarrow> rat \<Rightarrow> int \<Rightarrow> walk_state \<Rightarrow> walk_state" where
  "take_level a price displayed s =
     (let effective = effective_at a price displayed;
          s1 = s\<lparr>ws_executable := min MAX_SAFE (ws_executable s + effective)\<rparr>
      in if ws_remaining s \<le> 0 \<or> effective \<le> 0 then s1
         else let n = min (ws_remaining s) effective
              in if n \<le> 0 then s1
                 else s1\<lparr>ws_slices := ws_slices s @ [\<lparr>fs_price = round2 price, fs_qty = n, fs_displayed_qty = displayed,
                                                    fs_effective_qty = effective, fs_at = wk_at a,
                                                    fs_quote_version = wk_quoteVersion a\<rparr>],
                        ws_filled := ws_filled s + n, ws_valueSum := ws_valueSum s + price * of_int n,
                        ws_remaining := ws_remaining s - n\<rparr>)"

fun walk_loop :: "walk_args \<Rightarrow> rat \<Rightarrow> (rat \<times> int) list \<Rightarrow> walk_state \<Rightarrow> walk_state" where
  "walk_loop a limit [] s = s"
| "walk_loop a limit ((price, displayed) # levels) s =
     (if \<not> withinLimit (wk_side a) price limit then s
      else walk_loop a limit levels (take_level a price displayed s))"

definition nothing_filled :: DepthWalkResult where
  "nothing_filled = \<lparr>dw_filled_qty = 0, dw_average_price = None, dw_slices = [], dw_executable_within_limit = 0\<rparr>"

definition walk_start :: "int \<Rightarrow> walk_state" where
  "walk_start n = \<lparr>ws_remaining = n, ws_filled = 0, ws_valueSum = 0, ws_executable = 0, ws_slices = []\<rparr>"

definition walkDepth :: "walk_args \<Rightarrow> DepthWalkResult" where
  "walkDepth a =
     (case wk_limitPrice a of
        Fin limit \<Rightarrow>
          if \<not> isPositiveSafeInteger (wk_remainingQty a) \<or> limit \<le> 0 then nothing_filled
          else let s = walk_loop a limit (ordered_levels (wk_side a) (wk_levels a))
                         (walk_start (lot_value (wk_remainingQty a)))
               in \<lparr>dw_filled_qty = ws_filled s,
                   dw_average_price = (if 0 < ws_filled s then Some (round2 (ws_valueSum s / of_int (ws_filled s))) else None),
                   dw_slices = ws_slices s, dw_executable_within_limit = ws_executable s\<rparr>
      | _ \<Rightarrow> nothing_filled)"

section \<open>Classification\<close>

record OrderProfileClassification =
  pc_profile :: PaperOrderType
  pc_marketable :: bool
  pc_touch :: "rat option"
  pc_offsetTicks :: "rat option"
  pc_assumed :: bool

definition touchPrice :: "OrderSide \<Rightarrow> raw_level list \<Rightarrow> raw_level list \<Rightarrow> rat option" where
  "touchPrice side bids asks =
     foldl (\<lambda>best l. case usable_level l of
                None \<Rightarrow> best
              | Some (p, q) \<Rightarrow>
                  (case best of None \<Rightarrow> Some p | Some b \<Rightarrow> Some (if side = BUY then min b p else max b p)))
       None (if side = BUY then asks else bids)"

definition classifyOrderProfile ::
    "OrderSide \<Rightarrow> rat \<Rightarrow> raw_level list \<Rightarrow> raw_level list \<Rightarrow> rat \<Rightarrow> OrderProfileClassification" where
  "classifyOrderProfile side limitPrice bids asks tickSize =
     (case touchPrice side bids asks of
        Some touch \<Rightarrow>
          if \<not> 0 < limitPrice then
            \<lparr>pc_profile = MARKETABLE_LIMIT, pc_marketable = True, pc_touch = None, pc_offsetTicks = None, pc_assumed = True\<rparr>
          else
            let marketable = (if side = BUY then touch - EPS \<le> limitPrice else limitPrice \<le> touch + EPS);
                rawOffset = (if side = BUY then limitPrice - touch else touch - limitPrice)
            in \<lparr>pc_profile = (if marketable then MARKETABLE_LIMIT else PASSIVE_LIMIT), pc_marketable = marketable,
                pc_touch = Some (round2 touch), pc_offsetTicks = Some (round2 (rawOffset / tick_or_default tickSize)),
                pc_assumed = False\<rparr>
      | None \<Rightarrow>
          \<lparr>pc_profile = MARKETABLE_LIMIT, pc_marketable = True, pc_touch = None, pc_offsetTicks = None, pc_assumed = True\<rparr>)"

section \<open>The walk\<close>

text \<open>What a slice of the walk is, and what the state of the walk says.\<close>

definition slice_ok :: "walk_args \<Rightarrow> rat \<Rightarrow> PaperFillSlice \<Rightarrow> bool" where
  "slice_ok a limit s =
     (0 < fs_qty s \<and> fs_qty s \<le> fs_effective_qty s
      \<and> list_ex (\<lambda>(p, q). fs_price s = round2 p \<and> fs_displayed_qty s = q \<and> fs_effective_qty s = effective_at a p q
                   \<and> withinLimit (wk_side a) p limit) (ordered_levels (wk_side a) (wk_levels a)))"

text \<open>The levels the walk reaches, and what is executable on them.\<close>

definition reached :: "walk_args \<Rightarrow> rat \<Rightarrow> (rat \<times> int) list \<Rightarrow> (rat \<times> int) list" where
  "reached a limit levels = takeWhile (\<lambda>(p, q). withinLimit (wk_side a) p limit) levels"

definition executable_on :: "walk_args \<Rightarrow> (rat \<times> int) list \<Rightarrow> int" where
  "executable_on a levels = (\<Sum>(p, q)\<leftarrow>levels. effective_at a p q)"

lemma effective_nonneg [simp]: "0 \<le> effective_at a p q"
  by (simp add: effective_at_def Let_def)

lemma executable_nonneg [simp]: "0 \<le> executable_on a ls"
  by (induction ls) (auto simp: executable_on_def)

lemma walk_loop_counts:
  assumes "0 \<le> ws_remaining s" and "0 \<le> ws_filled s"
  shows "ws_filled (walk_loop a limit ls s) = ws_filled s + min (ws_remaining s) (executable_on a (reached a limit ls))"
    and "ws_remaining (walk_loop a limit ls s) = ws_remaining s - min (ws_remaining s) (executable_on a (reached a limit ls))"
proof -
  have "ws_filled (walk_loop a limit ls s) = ws_filled s + min (ws_remaining s) (executable_on a (reached a limit ls))
    \<and> ws_remaining (walk_loop a limit ls s) = ws_remaining s - min (ws_remaining s) (executable_on a (reached a limit ls))"
    using assms
  proof (induction a limit ls s rule: walk_loop.induct)
    case (1 a limit s)
    then show ?case by (simp add: reached_def executable_on_def)
  next
    case (2 a limit p q ls s)
    show ?case
    proof (cases "withinLimit (wk_side a) p limit")
      case False
      then show ?thesis using 2(2) by (simp add: reached_def executable_on_def)
    next
      case True
      have e: "executable_on a (reached a limit ((p, q) # ls)) = effective_at a p q + executable_on a (reached a limit ls)"
        using True by (simp add: reached_def executable_on_def)
      have t: "ws_filled (take_level a p q s) = ws_filled s + min (ws_remaining s) (effective_at a p q)"
        "ws_remaining (take_level a p q s) = ws_remaining s - min (ws_remaining s) (effective_at a p q)"
        using 2(2) by (auto simp: take_level_def Let_def min_def intro: order_antisym)
      obtain x where x: "executable_on a (reached a limit ls) = x" "0 \<le> x" by simp
      obtain y where y: "effective_at a p q = y" "0 \<le> y" by simp
      have "0 \<le> ws_remaining (take_level a p q s)" "0 \<le> ws_filled (take_level a p q s)"
        unfolding t y using 2(2,3) y(2) by (simp_all add: min_def)
      from 2(1) [OF _ this] True have ih:
        "ws_filled (walk_loop a limit ls (take_level a p q s)) = ws_filled s + min (ws_remaining s) y
           + min (ws_remaining s - min (ws_remaining s) y) x"
        "ws_remaining (walk_loop a limit ls (take_level a p q s)) = ws_remaining s - min (ws_remaining s) y
           - min (ws_remaining s - min (ws_remaining s) y) x"
        unfolding t y x by simp_all
      have "min (ws_remaining s) y + min (ws_remaining s - min (ws_remaining s) y) x = min (ws_remaining s) (y + x)"
        using 2(2) x(2) y(2) by (simp add: min_def)
      with ih True show ?thesis unfolding e x y by simp
    qed
  qed
  then show "ws_filled (walk_loop a limit ls s) = ws_filled s + min (ws_remaining s) (executable_on a (reached a limit ls))"
    and "ws_remaining (walk_loop a limit ls s) = ws_remaining s - min (ws_remaining s) (executable_on a (reached a limit ls))"
    by simp_all
qed


definition walk_ok :: "walk_args \<Rightarrow> rat \<Rightarrow> walk_state \<Rightarrow> bool" where
  "walk_ok a limit s \<longleftrightarrow>
     0 \<le> ws_filled s \<and> list_all (slice_ok a limit) (ws_slices s) \<and> (\<Sum>x\<leftarrow>ws_slices s. fs_qty x) = ws_filled s
     \<and> (if wk_side a = BUY then ws_valueSum s \<le> (limit + EPS) * of_int (ws_filled s)
        else (limit - EPS) * of_int (ws_filled s) \<le> ws_valueSum s)"

lemma walk_ok_take:
  assumes "walk_ok a limit s" and "withinLimit (wk_side a) p limit" and "(p, q) \<in> set (ordered_levels (wk_side a) (wk_levels a))"
  shows "walk_ok a limit (take_level a p q s)"
proof -
  let ?n = "min (ws_remaining s) (effective_at a p q)"
  have v: "if wk_side a = BUY then ws_valueSum s + p * of_int n \<le> (limit + EPS) * of_int (ws_filled s + n)
      else (limit - EPS) * of_int (ws_filled s + n) \<le> ws_valueSum s + p * of_int n" if "0 < n" for n :: int
  proof -
    have "(0::rat) \<le> of_int n" using that by simp
    then have "wk_side a = BUY \<Longrightarrow> p * of_int n \<le> (limit + EPS) * of_int n"
      "wk_side a \<noteq> BUY \<Longrightarrow> (limit - EPS) * of_int n \<le> p * of_int n"
      using assms(2) by (auto simp: withinLimit_def intro!: mult_right_mono split: if_splits)
    then show ?thesis using assms(1) unfolding walk_ok_def by (auto simp: distrib_left)
  qed
  show ?thesis
  proof (cases "ws_remaining s \<le> 0 \<or> effective_at a p q \<le> 0")
    case True
    then show ?thesis using assms(1) by (simp add: take_level_def Let_def walk_ok_def)
  next
    case False
    then have n: "0 < ?n" by simp
    have "slice_ok a limit \<lparr>fs_price = round2 p, fs_qty = ?n, fs_displayed_qty = q,
        fs_effective_qty = effective_at a p q, fs_at = wk_at a, fs_quote_version = wk_quoteVersion a\<rparr>"
      using n assms(2,3) by (auto simp: slice_ok_def list_ex_iff)
    then show ?thesis using False n assms(1) v [OF n] by (auto simp: take_level_def Let_def walk_ok_def simp del: min_less_iff_conj split: if_splits)
  qed
qed

lemma walk_ok_loop:
  "walk_ok a limit s \<Longrightarrow> set ls \<subseteq> set (ordered_levels (wk_side a) (wk_levels a)) \<Longrightarrow> walk_ok a limit (walk_loop a limit ls s)"
  by (induction a limit ls s rule: walk_loop.induct) (auto intro: walk_ok_take)


end
