(* ===== verification/Spec2Isabelle.thy ===== *)
theory Spec2Isabelle
  imports Scheduling Entry_Guard Entry_Recovery Residual_Flatten Lease_Safety Chained_Reservations Bounded_Queue
    Trading_Session Underlying_Lock Mode_Transition Order_Stream_Consumer Broker_Pacing
    Coordinator_Leases Order_Pricing
begin

text \<open>
  A verification development of the execution core of StrikeEdge, a Box-arbitrage trading backend.

  \<^bold>\<open>The program.\<close>  StrikeEdge (\<^verbatim>\<open>src/src\<close>) scans option chains for four-leg boxes, prices them and, when
  live trading is armed, executes them at a broker.  An opportunity passes from the scanner to the
  engine (\<^verbatim>\<open>box/engine.ts\<close>), which asks the execution coordinator for the reservation of the four
  contracts, then hands four leg orders to the order manager.  The order manager admits and
  schedules broker operations, writes an order intent to PostgreSQL before anything leaves the
  process, claims the submission by a compare-and-set, and turns the broker's cumulative fill
  reports into durable rows and attributed positions.  If an entry does not complete, the recovery
  planner decides which confirmed quantity to unwind; what cannot be unwound becomes a residual that
  later flatten passes close.  The components below are the parts of that path which decide whether
  an order may be sent, how often, and what is owned afterwards.

  \<^bold>\<open>Theories and the code they model.\<close>
  \<^item> \<open>Box_Prelude\<close>: JavaScript numbers (\<open>jsnum\<close>: exact finite values, \<^verbatim>\<open>NaN\<close>, infinities) and strings,
    deduplication, and three locales for invariants and monotone measures of state machines; every
    one is interpreted on the components.  \<open>Box_Types\<close>: the vocabulary of \<^verbatim>\<open>box/types.ts\<close>.
  \<^item> \<open>Order_Lifecycle\<close>: \<^verbatim>\<open>box/orderLifecycle.ts\<close>.  The record \<open>ledger\<close> is the state of
    \<^verbatim>\<open>CumulativeFillLedger\<close>, \<open>ledger_apply\<close> its \<^verbatim>\<open>apply\<close>.
  \<^item> \<open>Intent_Journal\<close>: the order-intent functions of \<^verbatim>\<open>box/repository.ts\<close> over the record \<open>journal\<close>
    (the intents table, the transition audit and the outbox); one call is one transaction.
  \<^item> \<open>Scheduling\<close>: \<^verbatim>\<open>box/executionSchedulingPolicy.ts\<close> and queue, pump and slots of
    \<^verbatim>\<open>box/orderManager.ts\<close>.  \<open>Order_Manager\<close>: its breaker, reservations, attribution and
    reconciliation, composed with the journal as a step relation.
  \<^item> \<open>Entry_Guard\<close>: \<^verbatim>\<open>box/entrySubmissionOrder.ts\<close>, \<^verbatim>\<open>box/hedgeCoverageLedger.ts\<close>,
    \<^verbatim>\<open>box/liveEntryGuard.ts\<close> and the transport gates of the order manager.
  \<^item> \<open>Entry_Recovery\<close>: \<^verbatim>\<open>box/partialEntryRecovery.ts\<close> and \<^verbatim>\<open>box/singleLotInvariant.ts\<close>.
    \<open>Residual_Flatten\<close>: \<^verbatim>\<open>box/residualFlatten.ts\<close>.
  \<^item> \<open>Instrument_Key\<close>: \<^verbatim>\<open>box/instrumentKey.ts\<close>.  \<open>Reservation_Types\<close>, \<open>In_Process_Reservations\<close>,
    \<open>Reservation_Port\<close>, \<open>Reservation_Contract\<close>, \<open>Pg_Reservations\<close>, \<open>Durable_Reservations\<close>, \<open>Lease_Safety\<close>,
    \<open>Chained_Reservations\<close>: the files of \<^verbatim>\<open>box/reservations/\<close>.  The in-process tier is a record and one
    function per method; the port is a datatype of calls with two executable implementations, the
    in-memory reference and the SQL statements over tables; the durable tier's methods are programs
    whose steps are the code between awaits; the chain is a fold over tiers.

  \<^bold>\<open>What the lemmas show.\<close>
  \<^item> Quantities: the fill ledger computes the maximum of the reports it accepts in any order of
    delivery; the durable fill never regresses; attribution equals what the journal records, and
    reconciliation rebuilds the same positions; reductions admitted together never exceed the
    attributed exposure; the recovery plan unwinds exactly the confirmed quantity.
  \<^item> Submission: one claim of an intent wins; terminal states absorb; the breaker latches and never
    blocks reductions; two entry pipelines never overlap and the queue never stalls; a short leg is
    only allowed after its hedges are proven filled.
  \<^item> Reservations: each tier takes all keys or none; the SQL port answers as the reference port does,
    and keeps contracts exclusive; over all interleavings of processes with clocks of bounded skew,
    a verified lease excludes overlapping grants; the chain rolls back what it took and owns only
    when every tier owns.

  \<^bold>\<open>Locales.\<close>  \<open>invariant_machine\<close>, \<open>invariant_fold\<close> and \<open>monotone_fold\<close> (proof patterns of state
  machines), \<open>fill_journal\<close> (what attribution needs from the journal), \<open>reservation_port\<close> and its
  extension \<open>namespaced_port\<close> (what the durable tier needs from the port; interpreted on both ports),
  \<open>pg_server\<close> (any scan order and any collation of the database).

  \<^bold>\<open>Bounds and termination.\<close>  No definition uses fuel: every loop of the source that is modelled runs
  over a list that shrinks.  Programs of the durable tier may wait forever on another process; the
  safety theorems hold for every prefix of a run.

  \<^bold>\<open>Not modelled.\<close>  Rounding of IEEE doubles (finite numbers are exact); latency samples, log lines,
  diagnostics objects and the interpolated values of error texts; the broker adapters, HTTP and
  websocket clients, routes, boot and shutdown, which are input and output; the engine, execution
  gateway, coordinator, simulator, scanner, pricing and capital modules, which later extensions may
  add.  The manifest lists each of them.
\<close>

end
